(* ===== verification/Crane_Prelude.thy ===== *)
theory Crane_Prelude
  imports Main "HOL-Library.Word" "HOL-Library.Stream"
begin

text \<open>
  The prelude of the Crane development.  It names the machine integers of the Go source
  (\<open>uint8\<close> to \<open>uint64\<close> as words, \<open>[16]byte\<close> and \<open>[32]byte\<close> as 128- and 256-bit words),
  the big-endian byte strings of \<open>encoding/binary\<close>, and the shape of a Go method that
  mutates its receiver, may return an error and may fail to return at all
  (the type \<open>outcome\<close>).  The rest are the facts the components share: words read as
  naturals, contiguous list indices, and the rules that carry a property of the receiver
  through a sequence of calls and through a \<open>for ... range\<close> loop.
\<close>

unbundle bit_operations_syntax

named_theorems frame_simps \<open>fields of a record that an operation leaves alone\<close>
named_theorems ensures_intros \<open>rules for the property ensures, one per way of composing calls\<close>

section \<open>Machine integers and byte strings\<close>

type_synonym u8 = "8 word"
type_synonym u16 = "16 word"
type_synonym u32 = "32 word"
type_synonym u64 = "64 word"
type_synonym bytes16 = "128 word" \<comment> \<open>a Go \<open>[16]byte\<close>, first byte most significant\<close>
type_synonym bytes32 = "256 word" \<comment> \<open>a Go \<open>[32]byte\<close>, first byte most significant\<close>
type_synonym bytes = "u8 list"

abbreviation MaxUint64 :: u64 where
  "MaxUint64 \<equiv> - 1"

text \<open>The conversion \<open>uint64(len(xs))\<close>.\<close>

abbreviation len64 :: "'a list \<Rightarrow> u64" where
  "len64 xs \<equiv> word_of_nat (length xs)"

text \<open>\<open>binary.BigEndian.PutUint16/32/64\<close> for a field of \<open>n\<close> bytes, and \<open>Uint16/32/64\<close>.\<close>

fun be_bytes :: "nat \<Rightarrow> 'a::len word \<Rightarrow> bytes" where
  "be_bytes 0 w = []"
| "be_bytes (Suc n) w = ucast (drop_bit (8 * n) w) # be_bytes n w"

fun be_word :: "bytes \<Rightarrow> 'a::len word" where
  "be_word [] = 0"
| "be_word (b # bs) = push_bit (8 * length bs) (ucast b) OR be_word bs"

lemma length_be_bytes [simp]: "length (be_bytes n w) = n"
  by (induction n) auto

lemma bit_be_word_above: "8 * length bs \<le> k \<Longrightarrow> \<not> bit (be_word bs :: 'a::len word) k"
proof (induction bs)
  case Nil
  then show ?case by simp
next
  case (Cons b bs)
  then have "\<not> bit (be_word bs :: 'a word) k" by simp
  moreover have "\<not> bit (push_bit (8 * length bs) (ucast b :: 'a word)) k"
    using Cons.prems by (auto simp: bit_push_bit_iff bit_ucast_iff dest: bit_imp_le_length)
  ultimately show ?case by (simp add: bit_or_iff)
qed

lemma be_word_be_bytes: "be_word (be_bytes n w) = take_bit (8 * n) (w :: 'a::len word)"
proof (induction n)
  case 0
  then show ?case by simp
next
  case (Suc n)
  show ?case
    by (simp add: Suc, rule bit_word_eqI)
      (auto simp: bit_or_iff bit_take_bit_iff bit_push_bit_iff bit_ucast_iff bit_drop_bit_eq)
qed

lemma be_word_be_bytes_full [simp]:
  "LENGTH('a) \<le> 8 * n \<Longrightarrow> be_word (be_bytes n w) = (w :: 'a::len word)"
  by (simp add: be_word_be_bytes take_bit_word_eq_self)

lemma be_bytes_take_bit: "n \<le> m \<Longrightarrow> be_bytes n (take_bit (8 * m) w) = be_bytes n (w :: 'a::len word)"
proof (induction n)
  case 0
  then show ?case by simp
next
  case (Suc n)
  have "(ucast (drop_bit (8 * n) (take_bit (8 * m) w)) :: u8) = ucast (drop_bit (8 * n) w)"
    using Suc.prems
    by (intro bit_word_eqI) (auto simp: bit_ucast_iff bit_drop_bit_eq bit_take_bit_iff)
  with Suc show ?case by simp
qed

lemma be_bytes_be_word:
  "length bs = n \<Longrightarrow> 8 * n \<le> LENGTH('a) \<Longrightarrow> be_bytes n (be_word bs :: 'a::len word) = bs"
proof (induction bs arbitrary: n)
  case Nil
  then show ?case by simp
next
  case (Cons b bs)
  have hi: "ucast (drop_bit (8 * length bs) (be_word (b # bs) :: 'a word)) = b"
    using Cons.prems
    by (intro bit_word_eqI)
      (auto simp: bit_ucast_iff bit_drop_bit_eq bit_or_iff bit_push_bit_iff bit_be_word_above)
  have "take_bit (8 * length bs) (be_word (b # bs) :: 'a word) = take_bit (8 * length bs) (be_word bs)"
    by (intro bit_word_eqI) (auto simp: bit_take_bit_iff bit_or_iff bit_push_bit_iff)
  then have "be_bytes (length bs) (be_word (b # bs) :: 'a word) = be_bytes (length bs) (be_word bs :: 'a word)"
    by (metis be_bytes_take_bit order_refl)
  with Cons hi show ?case by auto
qed

lemma be_bytes_zero: "be_bytes n (0 :: 'a::len word) = replicate n 0"
  by (induction n) simp_all

text \<open>The slice expression \<open>xs[a:b]\<close>, for bounds the code has checked.\<close>

definition segment :: "nat \<Rightarrow> nat \<Rightarrow> 'a list \<Rightarrow> 'a list" where
  "segment a b xs = take (b - a) (drop a xs)"

lemma length_segment [simp]: "length (segment a b xs) = min (b - a) (length xs - a)"
  by (simp add: segment_def min.commute)

lemma append_segments: "a \<le> b \<Longrightarrow> b \<le> c \<Longrightarrow> segment a b xs @ segment b c xs = segment a c xs"
proof -
  assume "a \<le> b" "b \<le> c"
  then obtain m n where "b = a + m" "c = a + m + n" by (metis le_iff_add)
  then show ?thesis by (simp add: segment_def take_add add.commute)
qed

section \<open>Words as naturals\<close>

lemma unat_Suc_word: "x \<noteq> (MaxUint64 :: u64) \<Longrightarrow> unat (x + 1) = Suc (unat x)"
  by (metis add.commute add.right_neutral diff_add_cancel unatSuc add_diff_cancel_left' diff_0)

lemma unat_of_nat_u64: "n < 2 ^ 64 \<Longrightarrow> unat (word_of_nat n :: u64) = n"
  by (simp add: unat_of_nat take_bit_nat_eq_self)

lemma unat_lt_u64: "unat (x :: u64) < 2 ^ 64"
  using unsigned_less [of x] by simp

lemma unat_pred_word: "(x :: u64) \<noteq> 0 \<Longrightarrow> unat (x - 1) = unat x - 1"
  by (simp add: unat_minus_one)

lemma unat_sub_le: "(y :: u64) \<le> x \<Longrightarrow> unat (x - y) = unat x - unat y"
  by (simp add: unat_sub)

lemma unat_offset:
  assumes "(b :: u64) < i"
  shows "unat (i - b - 1) = unat i - unat b - 1"
proof -
  have "unat (i - b) = unat i - unat b" using assms by (simp add: unat_sub)
  moreover have "i - b \<noteq> 0" using assms by auto
  ultimately show ?thesis by (simp add: unat_minus_one)
qed

lemma unat_MaxUint64: "unat MaxUint64 = 2 ^ 64 - 1"
  by (simp add: unsigned_minus_1_eq_mask mask_eq_exp_minus_1)

lemma less_max_word: "(x :: u64) < y \<Longrightarrow> x \<noteq> MaxUint64"
  by (auto simp: not_less)

section \<open>Calls that mutate, fail or never return\<close>

text \<open>
  A Go method with a pointer receiver and an \<open>error\<close> result is a function from the receiver
  to an \<open>outcome\<close>: \<open>Some (s, e)\<close> when it returns, with the receiver it leaves behind (also
  when it returns an error) and the error, if any; \<open>None\<close> when it does not return, because
  it panicked or because a loop in it never ends.
\<close>

type_synonym ('s, 'e) outcome = "('s \<times> 'e option) option"

abbreviation ok :: "'s \<Rightarrow> ('s, 'e) outcome" where
  "ok s \<equiv> Some (s, None)"

abbreviation fail :: "'s \<Rightarrow> 'e \<Rightarrow> ('s, 'e) outcome" where
  "fail s e \<equiv> Some (s, Some e)"

text \<open>\<open>if err := f(); err != nil { return err }; g()\<close>\<close>

definition and_then :: "('s, 'e) outcome \<Rightarrow> ('s \<Rightarrow> ('s, 'e) outcome) \<Rightarrow> ('s, 'e) outcome" where
  "and_then m f = (case m of
     None \<Rightarrow> None
   | Some (s, Some e) \<Rightarrow> Some (s, Some e)
   | Some (s, None) \<Rightarrow> f s)"

text \<open>\<open>for _, x := range xs { if err := f(x); err != nil { return err } }\<close>\<close>

fun for_each :: "('a \<Rightarrow> 's \<Rightarrow> ('s, 'e) outcome) \<Rightarrow> 'a list \<Rightarrow> 's \<Rightarrow> ('s, 'e) outcome" where
  "for_each f [] s = ok s"
| "for_each f (x # xs) s = and_then (f x s) (for_each f xs)"

lemma and_then_simps [simp]:
  "and_then None f = None"
  "and_then (ok s) f = f s"
  "and_then (fail s e) f = fail s e"
  by (simp_all add: and_then_def)

lemma and_then_eq_Some:
  "and_then m f = Some r \<longleftrightarrow>
     (\<exists>s e. m = fail s e \<and> r = (s, Some e)) \<or> (\<exists>s. m = ok s \<and> f s = Some r)"
  by (auto simp: and_then_def split: option.splits prod.splits)

text \<open>A property of the receiver after a call that returned, with or without an error.\<close>

definition ensures :: "('s \<Rightarrow> bool) \<Rightarrow> ('s, 'e) outcome \<Rightarrow> bool" where
  "ensures P m \<longleftrightarrow> (\<forall>s e. m = Some (s, e) \<longrightarrow> P s)"

lemma ensures_None [simp]: "ensures P None"
  by (simp add: ensures_def)

lemma ensures_Some [simp]: "ensures P (Some (s, e)) \<longleftrightarrow> P s"
  by (simp add: ensures_def)

lemma ensuresD: "ensures P m \<Longrightarrow> m = Some (s, e) \<Longrightarrow> P s"
  by (simp add: ensures_def)

lemma ensures_mono: "ensures P m \<Longrightarrow> (\<And>s. P s \<Longrightarrow> Q s) \<Longrightarrow> ensures Q m"
  by (simp add: ensures_def)

lemma ensures_and_then:
  assumes "ensures P m" and "\<And>s. P s \<Longrightarrow> ensures Q (f s)" and "\<And>s. P s \<Longrightarrow> Q s"
  shows "ensures Q (and_then m f)"
  using assms by (auto simp: ensures_def and_then_eq_Some)

lemma ensures_for_each:
  assumes "P s" and "\<And>x s. x \<in> set xs \<Longrightarrow> P s \<Longrightarrow> ensures P (f x s)"
  shows "ensures P (for_each f xs s)"
  using assms
proof (induction xs arbitrary: s)
  case Nil
  then show ?case by simp
next
  case (Cons x xs)
  then show ?case by (auto intro!: ensures_and_then [where P = P])
qed

text \<open>
  Most facts about a method relate the receiver before the call to the receiver after it by
  a preorder (fields it keeps, counters it never lowers).  The locale gives the rules that
  compose such facts once; every preorder of the model is an interpretation of it.
\<close>

locale step_preorder =
  fixes R :: "'s \<Rightarrow> 's \<Rightarrow> bool"
  assumes R_refl: "R s s"
    and R_trans: "R s t \<Longrightarrow> R t u \<Longrightarrow> R s u"
begin

lemma and_then_step:
  assumes "ensures (R s) m" and "\<And>t. ensures (R t) (f t)"
  shows "ensures (R s) (and_then m f)"
proof (rule ensures_and_then [OF assms(1)])
  fix t
  assume st: "R s t"
  show "ensures (R s) (f t)"
    using assms(2) [of t] by (rule ensures_mono) (rule R_trans [OF st])
qed

lemma for_each_step:
  assumes "\<And>x t. x \<in> set xs \<Longrightarrow> ensures (R t) (f x t)"
  shows "ensures (R s) (for_each f xs s)"
proof (rule ensures_for_each)
  show "R s s" by (rule R_refl)
next
  fix x t
  assume "x \<in> set xs" and "R s t"
  then show "ensures (R s) (f x t)"
    using assms [of x t] by (auto intro: ensures_mono R_trans)
qed

lemma step_from:
  assumes "R s t" and "ensures (R t) m"
  shows "ensures (R s) m"
  using assms(2) by (rule ensures_mono) (rule R_trans [OF assms(1)])

end

text \<open>
  A component whose operations keep an invariant and, under it, move the state along such a
  preorder: both then hold along any run of its operations.
\<close>

locale guarded_system = step_preorder R for R :: "'s \<Rightarrow> 's \<Rightarrow> bool" +
  fixes step :: "'s \<Rightarrow> 's \<Rightarrow> bool" and inv :: "'s \<Rightarrow> bool"
  assumes step_inv: "inv s \<Longrightarrow> step s t \<Longrightarrow> inv t"
    and step_rel: "inv s \<Longrightarrow> step s t \<Longrightarrow> R s t"
begin

lemma run_inv: "step\<^sup>*\<^sup>* s t \<Longrightarrow> inv s \<Longrightarrow> inv t"
  by (induction rule: rtranclp_induct) (auto intro: step_inv)

lemma run_rel: "step\<^sup>*\<^sup>* s t \<Longrightarrow> inv s \<Longrightarrow> R s t"
  by (induction rule: rtranclp_induct) (auto intro: R_refl R_trans step_rel run_inv)

end

text \<open>The smallest instance of the contract: a call that leaves a projection of the receiver alone.\<close>

interpretation kept: step_preorder "\<lambda>s t. f t = f s" for f :: "'s \<Rightarrow> 'v"
  by unfold_locales simp_all

end
