(* ===== verification/Bounded_Random.thy ===== *)
theory Bounded_Random
  imports Crane_Prelude
begin

text \<open>
  \<open>internal/random/bounded.go\<close>: unbiased bounding of raw 64-bit samples by rejection.
  The sample source is the interface \<open>Uint64() uint64\<close>; its future is a stream of raw
  samples, and a call returns the rest of the stream with its result.  The call does not
  return (\<open>None\<close>) when it panics on a zero bound and when every remaining sample is rejected.
\<close>

type_synonym source = "u64 stream"

text \<open>The \<open>for\<close> loop: samples below the threshold are thrown away.\<close>

partial_function (option) reject_below :: "u64 \<Rightarrow> u64 \<Rightarrow> source \<Rightarrow> (u64 \<times> source) option" where
  "reject_below threshold bound src =
     (if threshold \<le> shd src then Some (shd src mod bound, stl src)
      else reject_below threshold bound (stl src))"

definition Uint64n :: "source \<Rightarrow> u64 \<Rightarrow> (u64 \<times> source) option" where
  "Uint64n src bound =
     (if bound = 0 then None
      else if bound AND (bound - 1) = 0 then Some (shd src AND (bound - 1), stl src)
      else reject_below (- bound mod bound) bound src)"

section \<open>The loop returns the first accepted sample\<close>

lemma reject_below_step:
  "reject_below t b src =
     (if t \<le> shd src then Some (shd src mod b, stl src) else reject_below t b (stl src))"
  by (rule reject_below.simps)

lemma reject_below_accepts:
  assumes "t \<le> src !! n" and "\<And>i. i < n \<Longrightarrow> src !! i < t"
  shows "reject_below t b src = Some (src !! n mod b, sdrop (Suc n) src)"
  using assms
proof (induction n arbitrary: src)
  case 0
  then show ?case by (simp add: reject_below_step)
next
  case (Suc n)
  from Suc.prems(2) [of 0] have "\<not> t \<le> shd src" by simp
  moreover have "reject_below t b (stl src) = Some (stl src !! n mod b, sdrop (Suc n) (stl src))"
  proof (rule Suc.IH)
    show "t \<le> stl src !! n" using Suc.prems(1) by simp
    show "stl src !! i < t" if "i < n" for i using Suc.prems(2) [of "Suc i"] that by simp
  qed
  ultimately show ?case by (simp add: reject_below_step [of t b src])
qed

lemma reject_below_Some:
  assumes ret: "reject_below t b src = Some r"
  shows "\<exists>n. t \<le> src !! n \<and> r = (src !! n mod b, sdrop (Suc n) src)"
proof (rule reject_below.raw_induct
    [where P = "\<lambda>t b src r. \<exists>n. t \<le> src !! n \<and> r = (src !! n mod b, sdrop (Suc n) src)", OF _ ret])
  fix f t b src r
  assume IH: "\<And>t b src r. f t b src = Some r \<Longrightarrow>
      \<exists>n. t \<le> src !! n \<and> r = (src !! n mod b, sdrop (Suc n) src)"
    and eq: "(if t \<le> shd src then Some (shd src mod b, stl src) else f t b (stl src)) = Some r"
  show "\<exists>n. t \<le> src !! n \<and> r = (src !! n mod b, sdrop (Suc n) src)"
  proof (cases "t \<le> shd src")
    case True
    with eq show ?thesis by (intro exI [of _ 0]) simp
  next
    case False
    with eq obtain n where "t \<le> stl src !! n" "r = (stl src !! n mod b, sdrop (Suc n) (stl src))"
      using IH [of t b "stl src" r] by auto
    then show ?thesis by (intro exI [of _ "Suc n"]) simp
  qed
qed

section \<open>Range, termination and fairness of the bound\<close>

lemma power_of_two_mask:
  fixes b :: u64
  assumes "b \<noteq> 0" and "b AND (b - 1) = 0"
  shows "v AND (b - 1) < b"
proof -
  have "v AND (b - 1) \<le> b - 1" by (rule word_and_le1)
  also have "b - 1 < b" using assms(1) by (simp add: measure_unat word_less_nat_alt)
  finally show ?thesis .
qed

lemma Uint64n_lt:
  assumes "Uint64n src bound = Some (v, src')"
  shows "v < bound"
  using assms
  by (auto simp: Uint64n_def word_mod_less_divisor word_neq_0_conv power_of_two_mask
      split: if_splits dest!: reject_below_Some)

lemma Uint64n_returns:
  assumes "bound \<noteq> 0" and "- bound mod bound \<le> src !! n"
  shows "\<exists>v src'. Uint64n src bound = Some (v, src')"
proof -
  define m where "m = (LEAST i. - bound mod bound \<le> src !! i)"
  have "- bound mod bound \<le> src !! m" unfolding m_def using assms(2) by (rule LeastI)
  moreover have "src !! i < - bound mod bound" if "i < m" for i
    using not_less_Least [OF that [unfolded m_def]] by simp
  ultimately have "reject_below (- bound mod bound) bound src = Some (src !! m mod bound, sdrop (Suc m) src)"
    by (rule reject_below_accepts)
  with assms(1) show ?thesis by (simp add: Uint64n_def)
qed

section \<open>Every value of the range is hit by equally many samples\<close>


lemma and_pred_power_of_two:
  "0 < (n :: nat) \<Longrightarrow> n AND (n - 1) = 0 \<Longrightarrow> \<exists>k. n = 2 ^ k"
proof (induction n rule: less_induct)
  case (less n)
  show ?case
  proof (cases "even n")
    case True
    then obtain c where c: "n = 2 * c" by blast
    with less.prems have pos: "0 < c" by simp
    then have d: "(2 * c - Suc 0) div 2 = c - 1" "odd (2 * c - Suc 0)" by (auto simp: Suc_double_not_eq_double)
    have "c AND (c - 1) = 0"
      using less.prems(2) c d by (simp add: and_rec [of "2 * c"])
    with pos obtain k where "c = 2 ^ k" using less.IH [of c] c by auto
    then show ?thesis using c by (intro exI [of _ "Suc k"]) simp
  next
    case False
    then obtain c where c: "n = 2 * c + 1" by (auto elim: oddE)
    with less.prems(2) have "c = 0" by (simp add: and_rec [of "Suc (2 * c)"])
    with c show ?thesis by (intro exI [of _ 0]) simp
  qed
qed

lemma unat_uminus_u64: "(b :: u64) \<noteq> 0 \<Longrightarrow> unat (- b) = 2 ^ 64 - unat b"
  using unat_sub_if' [of 0 b] by (simp add: word_le_nat_alt unat_eq_0)

lemma unat_threshold:
  assumes "(b :: u64) \<noteq> 0"
  shows "unat (- b mod b) = 2 ^ 64 mod unat b"
  using unat_lt_u64 [of b]
  by (simp only: unat_mod_distrib unat_uminus_u64 [OF assms]) (simp add: le_mod_geq)

lemma mask_eq_mod:
  fixes b :: u64
  assumes "b \<noteq> 0" and "b AND (b - 1) = 0"
  shows "v AND (b - 1) = v mod b"
proof -
  have "unat b AND (unat b - 1) = 0"
    using assms by (metis unat_minus_one unsigned_and_eq unsigned_0)
  then obtain k where k: "unat b = 2 ^ k"
    using and_pred_power_of_two [of "unat b"] assms(1) by (auto simp: unat_gt_0)
  have b: "b = 2 ^ k" using k
    by (metis of_nat_numeral of_nat_power of_nat_unat ucast_id)
  have "v mod 2 ^ k = take_bit k v" by (rule take_bit_eq_mod [symmetric])
  also have "\<dots> = v AND mask k" by (rule take_bit_eq_mask)
  also have "mask k = b - 1" by (simp add: b mask_eq_exp_minus_1)
  finally show ?thesis by (simp add: b)
qed

lemma mod_window_le:
  assumes "v \<le> w" "s \<le> v" "w < s + b" "v mod b = w mod (b::nat)"
  shows "v = w"
proof (rule ccontr)
  assume "v \<noteq> w"
  with assms have "b dvd w - v" "0 < w - v" "w - v < b"
    by (auto simp: mod_eq_dvd_iff_nat [symmetric])
  then show False by (auto dest: nat_dvd_not_less)
qed

lemma mod_window:
  assumes "s \<le> v" "v < s + b" "s \<le> w" "w < s + b" "v mod b = w mod (b::nat)"
  shows "v = w"
  using assms mod_window_le [of v w s b] mod_window_le [of w v s b] by linarith

lemma unique_residue:
  fixes b r s :: nat
  assumes "0 < b" "r < b"
  shows "\<exists>!v. s \<le> v \<and> v < s + b \<and> v mod b = r"
proof
  let ?v = "s + (r + (b - s mod b)) mod b"
  have "?v mod b = (s + (r + (b - s mod b))) mod b" by (simp add: mod_simps)
  also have "s + (r + (b - s mod b)) = r + b * (s div b) + b"
    using assms(1) mult_div_mod_eq [of b s] mod_less_divisor [of b s] by linarith
  finally show *: "s \<le> ?v \<and> ?v < s + b \<and> ?v mod b = r" using assms by simp
  fix w assume w: "s \<le> w \<and> w < s + b \<and> w mod b = r"
  have "w mod b = ?v mod b" "?v < s + b" "s \<le> ?v" "s \<le> w" "w < s + b"
    using w * by simp_all
  then show "w = ?v" by (metis mod_window)
qed

lemma card_residues:
  assumes "r < (b :: nat)"
  shows "card {v. t \<le> v \<and> v < t + b * q \<and> v mod b = r} = q"
proof (induction q)
  case 0
  then show ?case by simp
next
  case (Suc q)
  let ?s = "t + b * q"
  let ?A = "{v. t \<le> v \<and> v < ?s \<and> v mod b = r}" and ?B = "{v. ?s \<le> v \<and> v < ?s + b \<and> v mod b = r}"
  have "\<exists>!v. v \<in> ?B"
    using unique_residue [of b r ?s] assms by simp
  then have one: "card ?B = 1"
    by (metis (no_types, lifting) card_1_singleton_iff ex1E is_singletonI' is_singleton_the_elem One_nat_def empty_iff)
  have split: "{v. t \<le> v \<and> v < t + b * Suc q \<and> v mod b = r} = ?A \<union> ?B"
    by auto
  have "card (?A \<union> ?B) = card ?A + card ?B"
  proof (rule card_Un_disjoint)
    show "finite ?A" by (rule finite_subset [of _ "{..<?s}"]) auto
    show "finite ?B" by (rule finite_subset [of _ "{..<?s + b}"]) auto
    show "?A \<inter> ?B = {}" by auto
  qed
  then have "card (?A \<union> ?B) = Suc q" by (simp only: Suc.IH one Suc_eq_plus1)
  then show ?case by (simp only: split)
qed

text \<open>
  A sample \<open>x\<close> yields \<open>r\<close> when the call returns \<open>r\<close> and consumes \<open>x\<close> alone, whatever samples follow.
\<close>

definition yields :: "u64 \<Rightarrow> u64 \<Rightarrow> u64 \<Rightarrow> bool" where
  "yields bound x r \<longleftrightarrow> (\<forall>s. Uint64n (x ## s) bound = Some (r, s))"

lemma reject_below_head:
  "reject_below t b (x ## s) = (if t \<le> x then Some (x mod b, s) else reject_below t b s)"
  using reject_below_step [of t b "x ## s"] by simp

lemma reject_below_never: "x < t \<Longrightarrow> reject_below t b (sconst x) = None"
proof (rule ccontr)
  assume "x < t" "reject_below t b (sconst x) \<noteq> None"
  then obtain r where "reject_below t b (sconst x) = Some r" by blast
  then obtain n where "t \<le> sconst x !! n" by (auto dest: reject_below_Some)
  with \<open>x < t\<close> show False by simp
qed

lemma power_of_two_threshold:
  fixes b :: u64
  assumes "b \<noteq> 0" and "b AND (b - 1) = 0"
  shows "- b mod b = 0"
  using mask_eq_mod [OF assms, of "- b"] by (simp add: minus_eq_not_minus_1)

text \<open>The call in terms of its first sample: accepted from the threshold on, skipped below it.\<close>

lemma Uint64n_head:
  fixes b :: u64
  assumes "b \<noteq> 0"
  shows "Uint64n (x ## s) b = (if - b mod b \<le> x then Some (x mod b, s) else Uint64n s b)"
  using assms by (auto simp: Uint64n_def mask_eq_mod power_of_two_threshold reject_below_head)

lemma yields_iff:
  fixes b :: u64
  assumes "b \<noteq> 0"
  shows "yields b x r \<longleftrightarrow> - b mod b \<le> x \<and> x mod b = r"
proof (cases "- b mod b \<le> x")
  case True
  then show ?thesis using assms by (simp add: yields_def Uint64n_head)
next
  case False
  then have "\<not> b AND (b - 1) = 0" using power_of_two_threshold [OF assms] by auto
  then have "Uint64n (x ## sconst x) b = None"
    using False assms reject_below_never [of x "- b mod b" b] by (simp add: Uint64n_def reject_below_head)
  then have "\<not> yields b x r" unfolding yields_def by (metis option.distinct(1))
  then show ?thesis using False by blast
qed

text \<open>
  C35.  \<open>Uint64n\<close> is unbiased: for every nonzero bound, each raw sample either yields a value at once or is
  skipped, whatever samples follow it; and every value below the bound is yielded by exactly the same
  number of raw samples, the quotient of \<open>2^64\<close> by the bound.
\<close>

theorem Uint64n_uniform:
  fixes bound :: u64
  assumes "bound \<noteq> 0"
  shows "(\<forall>x. (\<exists>r. yields bound x r) \<or> (\<forall>s. Uint64n (x ## s) bound = Uint64n s bound)) \<and>
    (\<forall>r. card {x. yields bound x r} = (if r < bound then 2 ^ 64 div unat bound else 0))"
proof (intro conjI allI)
  fix x r
  show "(\<exists>r. yields bound x r) \<or> (\<forall>s. Uint64n (x ## s) bound = Uint64n s bound)"
    using assms by (auto simp: yields_iff Uint64n_head)
  show "card {x. yields bound x r} = (if r < bound then 2 ^ 64 div unat bound else 0)"
  proof (cases "r < bound")
    case True
    let ?n = "unat bound" and ?t = "2 ^ 64 mod unat bound" and ?q = "2 ^ 64 div unat bound"
    have rb: "unat r < ?n" using True by (simp add: word_less_nat_alt)
    have total: "?t + ?n * ?q = 2 ^ 64" by (rule mod_mult_div_eq)
    have "unat ` {x. yields bound x r} = {v. ?t \<le> v \<and> v < ?t + ?n * ?q \<and> v mod ?n = unat r}"
    proof (intro set_eqI iffI)
      fix v
      assume "v \<in> unat ` {x. yields bound x r}"
      then show "v \<in> {v. ?t \<le> v \<and> v < ?t + ?n * ?q \<and> v mod ?n = unat r}"
        using unat_threshold [OF assms] unat_lt_u64 total
        by (auto simp: yields_iff [OF assms] word_le_nat_alt unat_mod_distrib)
    next
      fix v
      assume v: "v \<in> {v. ?t \<le> v \<and> v < ?t + ?n * ?q \<and> v mod ?n = unat r}"
      then have "unat (word_of_nat v :: u64) = v" using total by (intro unat_of_nat_u64) simp
      with v unat_threshold [OF assms] show "v \<in> unat ` {x. yields bound x r}"
        by (intro image_eqI [of _ _ "word_of_nat v"])
          (auto simp: yields_iff [OF assms] word_le_nat_alt unat_mod_distrib word_unat_eq_iff)
    qed
    moreover have "card {x. yields bound x r} = card (unat ` {x. yields bound x r})"
      by (rule card_image [symmetric]) (auto intro: inj_onI simp: word_unat_eq_iff)
    ultimately show ?thesis using True card_residues [OF rb, of ?t ?q] by simp
  next
    case False
    have "x mod bound < bound" for x using assms by (simp add: word_mod_less_divisor word_neq_0_conv)
    then have "{x. yields bound x r} = {}" using False by (auto simp: yields_iff [OF assms])
    then show ?thesis using False by simp
  qed
qed

theorem Uint64n_uniform_witness: "card {x. yields 6 x 5} = 3074457345618258602"
  using Uint64n_uniform [of 6] by simp

text \<open>
  C36.  \<open>Uint64n\<close> stays in range and returns: for a nonzero bound, as soon as the source has one
  sample at or above the rejection threshold, the call returns a value below the bound; and a
  zero bound never returns a value (the panic).
\<close>

theorem Uint64n_returns_in_range:
  "(bound \<noteq> 0 \<and> - bound mod bound \<le> src !! n \<longrightarrow> (\<exists>v src'. Uint64n src bound = Some (v, src') \<and> v < bound))
   \<and> Uint64n src 0 = None"
  using Uint64n_returns[of bound src n] Uint64n_lt[of src bound] by (force simp: Uint64n_def)

theorem Uint64n_returns_in_range_witness: "\<exists>v src'. Uint64n (sconst 7) 6 = Some (v, src') \<and> v < 6"
  using Uint64n_returns_in_range[of 6 "sconst 7" 0] by simp

end
