(* ===== verification/Raft_Types.thy ===== *)
theory Raft_Types
  imports Crane_Prelude
begin

text \<open>
  The data of \<open>internal/raft\<close> shared by every component: the sentinel errors (\<open>errors.go\<close>),
  roles, entries, hard state and snapshot identity (\<open>types.go\<close>).  A Go struct is a record
  whose fields carry a short prefix for the struct; a byte slice is a list, and cloning one is
  the identity.  A nil slice and an empty one are the same list: the code tells them apart
  nowhere.  An error is its sentinel, which is what \<open>errors.Is\<close> inspects.
\<close>

section \<open>Errors\<close>

datatype (plugins only: size code) raft_error =
    ErrInvalidVoterSet | ErrNotVoter | ErrInvalidStorageIdentity | ErrInvalidStorageState
  | ErrStorageIdentityMismatch | ErrStoreClosed | ErrStorageCorrupt | ErrStorageLocked
  | ErrInvalidEntry | ErrMalformedRPC | ErrUnsupportedSchema | ErrRPCTooLarge | ErrInvalidRPC
  | ErrUnknownRPC | ErrVoterFingerprint | ErrApplicationFingerprint | ErrLogCompacted
  | ErrLogUnavailable | ErrLogGap | ErrLogMismatch | ErrCommittedConflict | ErrLogRegression
  | ErrLogOverflow | ErrLogInvariant | ErrInvalidCoreState | ErrReadyOutstanding
  | ErrAdvanceToken | ErrReadyTokenExhausted | ErrDeadlineOverflow | ErrTickRegression
  | ErrTermOverflow | ErrReplicationGenerationOverflow | ErrNotLeader
  | ErrLeadershipNotAuthorized | ErrProposalFailed | ErrProposalIdentityOverflow
  | ErrUnsupportedCoreRPC | ErrNotRunning | ErrStopped | ErrOverloaded
  | ErrLeadershipResyncRequired | ErrInvalidLeadershipCapacity | ErrLeadershipSequenceOverflow
  | ErrSnapshotUnavailable | ErrInvalidSnapshot | ErrSnapshotRejected | ErrTransferIDExhausted
  | ErrTransportInvariant | ErrTransportStopped | ErrTransportProtocol | ErrRequestIDExhausted

section \<open>Roles, entries and durable positions\<close>

datatype Role = RoleFollower | RolePreCandidate | RoleCandidate | RoleLeader

text \<open>\<open>EntryKind\<close> is a \<open>uint8\<close>: a decoded entry may carry a value that is neither constant.\<close>

type_synonym EntryKind = u8

definition EntryCommand :: EntryKind where "EntryCommand = 1"

definition EntryNoOp :: EntryKind where "EntryNoOp = 2"

record Entry =
  eIndex :: u64
  eTerm :: u64
  eKind :: EntryKind
  eCommand :: bytes

definition NewEntry :: "u64 \<Rightarrow> u64 \<Rightarrow> EntryKind \<Rightarrow> bytes \<Rightarrow> raft_error + Entry" where
  "NewEntry index term kind command =
     (if index = 0 \<or> term = 0 then Inl ErrInvalidEntry
      else if kind \<noteq> EntryCommand \<and> kind \<noteq> EntryNoOp then Inl ErrInvalidEntry
      else if kind = EntryNoOp \<and> length command \<noteq> 0 then Inl ErrInvalidEntry
      else Inr \<lparr>eIndex = index, eTerm = term, eKind = kind, eCommand = command\<rparr>)"

record HardState =
  hsTerm :: u64
  hsVotedFor :: u16
  hsCommitIndex :: u64

record SnapshotMetadata =
  smLastIncludedIndex :: u64
  smLastIncludedTerm :: u64
  smSchemaVersion :: u32

record Status =
  stRole :: Role
  stTerm :: u64
  stLeaderID :: u16
  stCommitIndex :: u64
  stAppliedIndex :: u64
  stLastIndex :: u64

type_synonym RequestGeneration = u64
type_synonym TransferID = bytes16
type_synonym SnapshotID = bytes16
type_synonym SnapshotChecksum = bytes32
type_synonym VoterFingerprint = bytes32
type_synonym ReadyToken = u64
type_synonym ProposalID = u64

definition TransferID_IsZero :: "TransferID \<Rightarrow> bool" where
  "TransferID_IsZero tid = (tid = 0)"

text \<open>The zero values of the structs.\<close>

definition zero_HardState :: HardState where
  "zero_HardState = \<lparr>hsTerm = 0, hsVotedFor = 0, hsCommitIndex = 0\<rparr>"

definition zero_SnapshotMetadata :: SnapshotMetadata where
  "zero_SnapshotMetadata = \<lparr>smLastIncludedIndex = 0, smLastIncludedTerm = 0, smSchemaVersion = 0\<rparr>"

end
