(* ===== verification/Raft_Voters.thy ===== *)
theory Raft_Voters
  imports Raft_Types "HOL-Library.Multiset"
begin

text \<open>
  The fixed voter set of \<open>internal/raft/voters.go\<close>: its constructor, the quorum size, and the
  storage identity bound to it.  The lemmas show that a constructed set is well formed, that it
  does not depend on the order of the configuration, and that any two majorities of it share a
  voter.
\<close>

section \<open>The fixed voter set\<close>

text \<open>
  A canonical endpoint is its printed form \<open>host:port\<close>.  Parsing an endpoint
  (\<open>config.ParseRoutableEndpoint\<close>) and SHA-256 are arguments of the constructor.
\<close>

type_synonym Endpoint = bytes

record RaftVoter =
  rvNodeID :: u16
  rvEndpoint :: bytes

record Voter =
  vID :: u16
  vEndpoint :: Endpoint

record VoterSet =
  vsVoters :: "Voter list"
  vsByID :: "u16 \<rightharpoonup> Voter"
  vsFingerprint :: VoterFingerprint

definition voterFingerprintDomain :: bytes where
  "voterFingerprintDomain = map of_char ''raft/voter-set/v1'' @ [0]"

definition fingerprintVoters :: "(bytes \<Rightarrow> bytes32) \<Rightarrow> Voter list \<Rightarrow> VoterFingerprint" where
  "fingerprintVoters sha256 voters =
     sha256 (voterFingerprintDomain @ be_bytes 2 (word_of_nat (length voters) :: u16) @
       concat (map (\<lambda>v. be_bytes 2 (vID v)
                      @ be_bytes 2 (word_of_nat (length (vEndpoint v)) :: u16)
                      @ vEndpoint v) voters))"

text \<open>The validation loop of \<open>NewVoterSet\<close>, with the voters, \<open>byID\<close> and \<open>byEndpoint\<close> gathered so far.\<close>

fun collectVoters ::
  "(bytes \<Rightarrow> Endpoint option) \<Rightarrow> RaftVoter list \<Rightarrow> Voter list \<Rightarrow> (u16 \<rightharpoonup> Voter) \<Rightarrow> (Endpoint \<rightharpoonup> u16)
    \<Rightarrow> raft_error + Voter list \<times> (u16 \<rightharpoonup> Voter)" where
  "collectVoters parse [] voters byID byEndpoint = Inr (voters, byID)"
| "collectVoters parse (cv # cvs) voters byID byEndpoint =
     (if rvNodeID cv = 0 then Inl ErrInvalidVoterSet
      else if byID (rvNodeID cv) \<noteq> None then Inl ErrInvalidVoterSet
      else case parse (rvEndpoint cv) of
        None \<Rightarrow> Inl ErrInvalidVoterSet
      | Some endpoint \<Rightarrow>
          if byEndpoint endpoint \<noteq> None then Inl ErrInvalidVoterSet
          else let voter = \<lparr>vID = rvNodeID cv, vEndpoint = endpoint\<rparr>
               in collectVoters parse cvs (voters @ [voter]) (byID(vID voter \<mapsto> voter))
                    (byEndpoint(endpoint \<mapsto> vID voter)))"

definition NewVoterSet ::
  "(bytes \<Rightarrow> bytes32) \<Rightarrow> (bytes \<Rightarrow> Endpoint option) \<Rightarrow> RaftVoter list \<Rightarrow> raft_error + VoterSet" where
  "NewVoterSet sha256 parse configured =
     (if length configured \<noteq> 3 \<and> length configured \<noteq> 5 then Inl ErrInvalidVoterSet
      else case collectVoters parse configured [] Map.empty Map.empty of
        Inl e \<Rightarrow> Inl e
      | Inr (voters, byID) \<Rightarrow>
          let sorted_voters = sort_key vID voters
          in Inr \<lparr>vsVoters = sorted_voters, vsByID = byID,
                  vsFingerprint = fingerprintVoters sha256 sorted_voters\<rparr>)"

definition Contains :: "VoterSet \<Rightarrow> u16 \<Rightarrow> bool" where
  "Contains s nid = (vsByID s nid \<noteq> None)"

definition Majority :: "VoterSet \<Rightarrow> nat" where
  "Majority s = length (vsVoters s) div 2 + 1"

definition ValidateLocalID :: "VoterSet \<Rightarrow> u16 \<Rightarrow> raft_error option" where
  "ValidateLocalID s nid = (if nid = 0 \<or> \<not> Contains s nid then Some ErrNotVoter else None)"

type_synonym StorageFormatVersion = u16

definition StorageFormatVersion1 :: StorageFormatVersion where
  "StorageFormatVersion1 = 1"

record StorageIdentity =
  siFormatVersion :: StorageFormatVersion
  siClusterID :: bytes16
  siLocalVoterID :: u16
  siVoterFingerprint :: VoterFingerprint

definition NewStorageIdentity ::
  "StorageFormatVersion \<Rightarrow> bytes16 \<Rightarrow> u16 \<Rightarrow> VoterSet \<Rightarrow> raft_error + StorageIdentity" where
  "NewStorageIdentity version clusterID localID voters =
     (if version = 0 then Inl ErrInvalidStorageIdentity
      else if clusterID = 0 then Inl ErrInvalidStorageIdentity
      else if ValidateLocalID voters localID \<noteq> None then Inl ErrInvalidStorageIdentity
      else Inr \<lparr>siFormatVersion = version, siClusterID = clusterID, siLocalVoterID = localID,
               siVoterFingerprint = vsFingerprint voters\<rparr>)"

section \<open>Facts about voter sets\<close>

text \<open>What \<open>NewVoterSet\<close> establishes and everything below relies on.\<close>

definition voters_wf :: "VoterSet \<Rightarrow> bool" where
  "voters_wf s \<longleftrightarrow>
     (length (vsVoters s) = 3 \<or> length (vsVoters s) = 5)
   \<and> distinct (map vID (vsVoters s)) \<and> sorted (map vID (vsVoters s))
   \<and> (\<forall>v \<in> set (vsVoters s). vID v \<noteq> 0)
   \<and> (\<forall>nid. vsByID s nid = find (\<lambda>v. vID v = nid) (vsVoters s))"

definition voter_ids :: "VoterSet \<Rightarrow> u16 set" where
  "voter_ids s = vID ` set (vsVoters s)"

text \<open>The voter the loop builds for a configured one that passes its guards.\<close>

definition canonical_voter :: "(bytes \<Rightarrow> Endpoint option) \<Rightarrow> RaftVoter \<Rightarrow> Voter" where
  "canonical_voter parse cv = \<lparr>vID = rvNodeID cv, vEndpoint = the (parse (rvEndpoint cv))\<rparr>"

lemma vID_canonical_voter [simp]: "vID (canonical_voter parse cv) = rvNodeID cv"
  by (simp add: canonical_voter_def)

definition configured_ok :: "(bytes \<Rightarrow> Endpoint option) \<Rightarrow> RaftVoter list \<Rightarrow> bool" where
  "configured_ok parse cvs \<longleftrightarrow>
     (\<forall>cv \<in> set cvs. rvNodeID cv \<noteq> 0 \<and> parse (rvEndpoint cv) \<noteq> None)
   \<and> distinct (map rvNodeID cvs) \<and> distinct (map (\<lambda>cv. parse (rvEndpoint cv)) cvs)"

lemma configured_ok_Nil [simp]: "configured_ok parse []"
  by (simp add: configured_ok_def)

lemma configured_ok_Cons:
  "configured_ok parse (cv # cvs) \<longleftrightarrow>
     rvNodeID cv \<noteq> 0 \<and> parse (rvEndpoint cv) \<noteq> None
   \<and> (\<forall>c \<in> set cvs. rvNodeID c \<noteq> rvNodeID cv \<and> parse (rvEndpoint c) \<noteq> parse (rvEndpoint cv))
   \<and> configured_ok parse cvs"
  by (auto simp: configured_ok_def image_iff)

text \<open>No voter of the configuration collides with what the loop has gathered before.\<close>

definition fresh :: "(bytes \<Rightarrow> Endpoint option) \<Rightarrow> RaftVoter list \<Rightarrow> (u16 \<rightharpoonup> Voter) \<Rightarrow> (Endpoint \<rightharpoonup> u16) \<Rightarrow> bool" where
  "fresh parse cvs byID byEndpoint \<longleftrightarrow>
     (\<forall>cv \<in> set cvs. byID (rvNodeID cv) = None
        \<and> (\<forall>e. parse (rvEndpoint cv) = Some e \<longrightarrow> byEndpoint e = None))"

lemma fresh_Cons:
  "fresh parse (cv # cvs) byID byEndpoint \<longleftrightarrow>
     byID (rvNodeID cv) = None \<and> (\<forall>e. parse (rvEndpoint cv) = Some e \<longrightarrow> byEndpoint e = None)
   \<and> fresh parse cvs byID byEndpoint"
  by (auto simp: fresh_def)

lemma fresh_upd:
  "fresh parse cvs (byID(i \<mapsto> v)) (byEndpoint(e \<mapsto> j)) \<longleftrightarrow>
     fresh parse cvs byID byEndpoint
   \<and> (\<forall>c \<in> set cvs. rvNodeID c \<noteq> i \<and> parse (rvEndpoint c) \<noteq> Some e)"
  by (auto simp: fresh_def split: if_splits)

text \<open>The map \<open>byID\<close> of a configuration whose voters are distinct.\<close>

definition byID_of :: "(bytes \<Rightarrow> Endpoint option) \<Rightarrow> RaftVoter list \<Rightarrow> u16 \<rightharpoonup> Voter" where
  "byID_of parse cvs = map_of (map (\<lambda>cv. (rvNodeID cv, canonical_voter parse cv)) cvs)"

lemma byID_of_Cons:
  assumes "\<forall>c \<in> set cvs. rvNodeID c \<noteq> rvNodeID cv"
  shows "byID(rvNodeID cv \<mapsto> canonical_voter parse cv) ++ byID_of parse cvs
       = byID ++ byID_of parse (cv # cvs)"
proof -
  have "byID_of parse cvs (rvNodeID cv) = None"
    using assms by (auto simp: byID_of_def map_of_eq_None_iff)
  then show ?thesis by (auto simp: byID_of_def map_add_def fun_eq_iff split: option.split)
qed

lemma collectVoters_ok:
  "collectVoters parse cvs voters byID byEndpoint = Inr (vs, m) \<longleftrightarrow>
     configured_ok parse cvs \<and> fresh parse cvs byID byEndpoint
   \<and> vs = voters @ map (canonical_voter parse) cvs
   \<and> m = byID ++ byID_of parse cvs"
proof (induction cvs arbitrary: voters byID byEndpoint)
  case Nil
  then show ?case by (auto simp: fresh_def byID_of_def)
next
  case (Cons cv cvs)
  show ?case
  proof (cases "parse (rvEndpoint cv)")
    case None
    then show ?thesis by (simp add: configured_ok_Cons)
  next
    case (Some e)
    then have cvoter: "\<lparr>vID = rvNodeID cv, vEndpoint = e\<rparr> = canonical_voter parse cv"
      by (simp add: canonical_voter_def)
    show ?thesis
    proof (cases "rvNodeID cv = 0 \<or> byID (rvNodeID cv) \<noteq> None \<or> byEndpoint e \<noteq> None")
      case True
      then show ?thesis by (auto simp: Some configured_ok_Cons fresh_Cons)
    next
      case False
      let ?distinct = "\<forall>c \<in> set cvs. rvNodeID c \<noteq> rvNodeID cv \<and> parse (rvEndpoint c) \<noteq> Some e"
      have "collectVoters parse (cv # cvs) voters byID byEndpoint
          = collectVoters parse cvs (voters @ [canonical_voter parse cv])
              (byID(rvNodeID cv \<mapsto> canonical_voter parse cv)) (byEndpoint(e \<mapsto> rvNodeID cv))"
        using False by (simp add: Some Let_def cvoter)
      then have "collectVoters parse (cv # cvs) voters byID byEndpoint = Inr (vs, m) \<longleftrightarrow>
          configured_ok parse cvs \<and> fresh parse cvs byID byEndpoint \<and> ?distinct
        \<and> vs = voters @ canonical_voter parse cv # map (canonical_voter parse) cvs
        \<and> m = byID(rvNodeID cv \<mapsto> canonical_voter parse cv) ++ byID_of parse cvs"
        by (simp only: Cons.IH fresh_upd append_assoc append_Cons append_Nil conj_assoc)
      moreover have "?distinct \<longrightarrow> byID(rvNodeID cv \<mapsto> canonical_voter parse cv) ++ byID_of parse cvs
          = byID ++ byID_of parse (cv # cvs)"
        using byID_of_Cons[of cvs cv byID parse] by blast
      ultimately show ?thesis
        using False by (auto simp only: Some configured_ok_Cons fresh_Cons list.map option.inject)
    qed
  qed
qed

lemma collectVoters_error:
  "collectVoters parse cvs voters byID byEndpoint = Inl e \<Longrightarrow> e = ErrInvalidVoterSet"
  by (induction cvs arbitrary: voters byID byEndpoint)
    (auto simp: Let_def split: if_splits option.splits)

lemma NewVoterSet_ok:
  "NewVoterSet sha256 parse cvs = Inr s \<longleftrightarrow>
     (length cvs = 3 \<or> length cvs = 5) \<and> configured_ok parse cvs
   \<and> s = (let vs = sort_key vID (map (canonical_voter parse) cvs)
          in \<lparr>vsVoters = vs, vsByID = byID_of parse cvs,
              vsFingerprint = fingerprintVoters sha256 vs\<rparr>)"
proof (cases "collectVoters parse cvs [] Map.empty Map.empty")
  case (Inl e)
  then have "\<not> configured_ok parse cvs"
    using collectVoters_ok[of parse cvs "[]" Map.empty Map.empty] by (auto simp: fresh_def)
  with Inl show ?thesis by (simp add: NewVoterSet_def)
next
  case (Inr p)
  then obtain vs m where collect: "collectVoters parse cvs [] Map.empty Map.empty = Inr (vs, m)"
    by (cases p) auto
  from collect[unfolded collectVoters_ok] collect show ?thesis
    by (auto simp: NewVoterSet_def Let_def)
qed

lemma NewVoterSet_error:
  "NewVoterSet sha256 parse cvs = Inl e \<Longrightarrow> e = ErrInvalidVoterSet"
  by (auto simp: NewVoterSet_def Let_def dest: collectVoters_error split: if_splits sum.splits)

lemma find_map_of:
  "distinct (map f xs) \<Longrightarrow> find (\<lambda>x. f x = k) xs = map_of (map (\<lambda>x. (f x, x)) xs) k"
  by (induction xs) auto

lemma distinct_map_mset_cong: "mset xs = mset ys \<Longrightarrow> distinct (map f xs) = distinct (map f ys)"
  by (rule mset_eq_imp_distinct_iff) simp

lemma map_of_mset_cong:
  assumes "mset kvs = mset kvs'" "distinct (map fst kvs)"
  shows "map_of kvs = map_of kvs'"
proof -
  have "set kvs = set kvs'" using assms(1) by (rule mset_eq_setD)
  moreover have "distinct (map fst kvs')"
    using assms distinct_map_mset_cong[of kvs kvs' fst] by simp
  ultimately show ?thesis using assms(2) by (metis map_of_inject_set)
qed

lemma NewVoterSet_wf:
  assumes "NewVoterSet sha256 parse cvs = Inr s"
  shows "voters_wf s"
proof -
  let ?vs = "map (canonical_voter parse) cvs"
  let ?sorted = "sort_key vID ?vs"
  have ids: "map vID ?vs = map rvNodeID cvs" by (simp add: comp_def)
  have dist: "distinct (map vID ?vs)"
    using assms unfolding ids by (auto simp: NewVoterSet_ok configured_ok_def)
  then have dist': "distinct (map vID ?sorted)"
    using distinct_map_mset_cong[of ?sorted ?vs vID] by simp
  have "map_of (map (\<lambda>v. (vID v, v)) ?sorted) = map_of (map (\<lambda>v. (vID v, v)) ?vs)"
    by (rule map_of_mset_cong) (use dist' in \<open>simp_all add: comp_def multiset.map_comp\<close>)
  then have byID: "find (\<lambda>v. vID v = nid) ?sorted
      = byID_of parse cvs nid" for nid
    using find_map_of[OF dist'] by (simp add: comp_def byID_of_def)
  show ?thesis
    using assms dist' byID
    by (auto simp: NewVoterSet_ok voters_wf_def configured_ok_def Let_def)
qed

lemma configured_ok_mset:
  assumes "mset cvs = mset cvs'"
  shows "configured_ok parse cvs = configured_ok parse cvs'"
  using mset_eq_setD[OF assms] distinct_map_mset_cong[OF assms, of rvNodeID]
    distinct_map_mset_cong[OF assms, of "\<lambda>cv. parse (rvEndpoint cv)"]
  by (simp add: configured_ok_def)

lemma sort_key_mset_cong:
  assumes "mset xs = mset ys" "distinct (map f xs)"
  shows "sort_key f xs = sort_key f ys"
proof (rule map_inj_on)
  have sets: "set ys = set xs" using assms(1) by (metis mset_eq_setD)
  have "distinct (map f (sort_key f xs))" "distinct (map f (sort_key f ys))"
    using assms distinct_map_mset_cong[of "sort_key f xs" xs f]
      distinct_map_mset_cong[of "sort_key f ys" xs f] by simp_all
  then show "map f (sort_key f xs) = map f (sort_key f ys)"
    using sets by (intro sorted_distinct_set_unique) simp_all
  show "inj_on f (set (sort_key f xs) \<union> set (sort_key f ys))"
    using assms(2) sets by (simp add: distinct_map)
qed

lemma NewVoterSet_mset:
  assumes "mset cvs = mset cvs'" "NewVoterSet sha256 parse cvs = Inr s"
  shows "NewVoterSet sha256 parse cvs' = Inr s"
proof -
  have ok: "configured_ok parse cvs" using assms(2) by (simp add: NewVoterSet_ok)
  then have "distinct (map rvNodeID cvs)" by (simp add: configured_ok_def)
  then have "sort_key vID (map (canonical_voter parse) cvs)
      = sort_key vID (map (canonical_voter parse) cvs')"
    and "byID_of parse cvs = byID_of parse cvs'"
    using assms(1) sort_key_mset_cong[of "map (canonical_voter parse) cvs" _ vID]
      map_of_mset_cong[of "map (\<lambda>cv. (rvNodeID cv, canonical_voter parse cv)) cvs"]
    by (simp_all add: comp_def byID_of_def)
  then show ?thesis
    using assms(2) configured_ok_mset[OF assms(1)] mset_eq_length[OF assms(1)]
    by (simp add: NewVoterSet_ok)
qed

lemma Contains_iff: "voters_wf s \<Longrightarrow> Contains s nid \<longleftrightarrow> nid \<in> voter_ids s"
  by (auto simp: voters_wf_def Contains_def voter_ids_def find_None_iff)

lemma finite_voter_ids [simp]: "finite (voter_ids s)"
  by (simp add: voter_ids_def)

lemma card_voter_ids: "voters_wf s \<Longrightarrow> card (voter_ids s) = length (vsVoters s)"
  using distinct_card[of "map vID (vsVoters s)"] by (simp add: voter_ids_def voters_wf_def)

lemma zero_not_voter: "voters_wf s \<Longrightarrow> 0 \<notin> voter_ids s"
  by (auto simp: voters_wf_def voter_ids_def)

text \<open>A threshold above half of a finite set of members makes any two quorums meet.\<close>

locale quorum_system =
  fixes members :: "'a set" and threshold :: nat
  assumes finite_members: "finite members"
    and above_half: "card members < 2 * threshold"
begin

lemma quorums_meet:
  assumes "A \<subseteq> members" "B \<subseteq> members" "threshold \<le> card A" "threshold \<le> card B"
  shows "\<exists>x. x \<in> A \<and> x \<in> B"
proof (rule ccontr)
  assume "\<not> ?thesis"
  then have "card (A \<union> B) = card A + card B"
    using assms finite_members by (intro card_Un_disjoint) (auto intro: finite_subset)
  moreover have "card (A \<union> B) \<le> card members"
    using assms finite_members by (intro card_mono) auto
  ultimately show False using assms above_half by linarith
qed

lemma quorum_not_empty: "threshold \<le> card A \<Longrightarrow> A \<noteq> {}"
  using above_half by auto

end

text \<open>The quorum size of the code meets that bound whatever the number of voters.\<close>

interpretation voter_quorums: quorum_system "voter_ids s" "Majority s" for s
proof
  have "card (voter_ids s) \<le> length (vsVoters s)"
    unfolding voter_ids_def by (rule le_trans[OF card_image_le card_length]) simp
  then show "card (voter_ids s) < 2 * Majority s" by (simp add: Majority_def)
qed simp

text \<open>
  C38.  \<open>NewVoterSet\<close> canonicalises: a set it accepts has three or five voters with distinct nonzero
  identities in ascending order and an index that agrees with them, and any reordering of the
  configuration gives the same set, fingerprint included.
\<close>

theorem NewVoterSet_canonical:
  assumes "NewVoterSet sha256 parse cvs = Inr s"
  shows "voters_wf s \<and> (\<forall>cvs'. mset cvs' = mset cvs \<longrightarrow> NewVoterSet sha256 parse cvs' = Inr s)"
  using NewVoterSet_wf[OF assms] NewVoterSet_mset[OF _ assms] by auto

text \<open>
  C37.  Any two sets of voters that reach the quorum size of an accepted configuration share a voter,
  and no set that misses a quorum of voters reaches it: quorums are exactly the strict majorities.
\<close>

theorem Majority_quorums_meet:
  assumes "NewVoterSet sha256 parse cvs = Inr s"
    and "A \<subseteq> voter_ids s" "B \<subseteq> voter_ids s" "Majority s \<le> card A"
  shows "(Majority s \<le> card B \<longrightarrow> (\<exists>v. v \<in> A \<and> v \<in> B)) \<and> (Majority s \<le> card B \<longleftrightarrow> card (voter_ids s) < 2 * card B)"
proof -
  have "voters_wf s" using NewVoterSet_wf[OF assms(1)] .
  then have "card (voter_ids s) = length (vsVoters s)" by (rule card_voter_ids)
  then have "Majority s \<le> card B \<longleftrightarrow> card (voter_ids s) < 2 * card B" by (auto simp: Majority_def)
  then show ?thesis using voter_quorums.quorums_meet[OF assms(2,3,4)] by simp
qed

section \<open>A concrete configuration\<close>

definition demo_config :: "RaftVoter list" where
  "demo_config = [\<lparr>rvNodeID = 3, rvEndpoint = [3]\<rparr>, \<lparr>rvNodeID = 1, rvEndpoint = [1]\<rparr>, \<lparr>rvNodeID = 2, rvEndpoint = [2]\<rparr>]"

definition demo_voters :: VoterSet where
  "demo_voters = (case NewVoterSet (\<lambda>_. 0) Some demo_config of Inr s \<Rightarrow> s)"

lemma demo_voters_new: "NewVoterSet (\<lambda>_. 0) Some demo_config = Inr demo_voters"
  by (simp add: demo_voters_def demo_config_def NewVoterSet_def Let_def)

lemma demo_voters_list: "map vID (vsVoters demo_voters) = [1, 2, 3]"
  by code_simp

lemma demo_voter_ids: "voter_ids demo_voters = {1, 2, 3}"
  using arg_cong[OF demo_voters_list, of set] by (simp add: voter_ids_def)

lemma demo_Majority: "Majority demo_voters = 2"
  using arg_cong[OF demo_voters_list, of length] by (simp add: Majority_def)

theorem NewVoterSet_canonical_witness:
  "voters_wf demo_voters \<and> NewVoterSet (\<lambda>_. 0) Some (rev demo_config) = Inr demo_voters"
  using NewVoterSet_canonical[OF demo_voters_new] by simp

theorem Majority_quorums_meet_witness: "\<exists>v. v \<in> {1, 2} \<and> v \<in> {2, 3 :: u16}"
  using Majority_quorums_meet[OF demo_voters_new, of "{1, 2}" "{2, 3}"] by (simp add: demo_voter_ids demo_Majority)

end
