(* ===== verification/Raft_Messages.thy ===== *)
theory Raft_Messages
  imports Raft_Voters
begin

text \<open>
  The peer messages of \<open>internal/raft/messages.go\<close>, the authenticated-sender check, and the
  leader's view of a peer (\<open>progress.go\<close>).
\<close>

section \<open>Peer messages\<close>

record Handshake =
  hkSenderID :: u16
  hkVoterFingerprint :: VoterFingerprint
  hkApplicationFingerprint :: bytes32

record HandshakeAck =
  haResponderID :: u16
  haVoterFingerprint :: VoterFingerprint
  haApplicationFingerprint :: bytes32

record PreVoteRequest =
  pqCandidateID :: u16
  pqCurrentTerm :: u64
  pqProspectiveTerm :: u64
  pqLastLogIndex :: u64
  pqLastLogTerm :: u64

record PreVoteResponse =
  prResponderID :: u16
  prCandidateID :: u16
  prTerm :: u64
  prRequestCurrentTerm :: u64
  prProspectiveTerm :: u64
  prGranted :: bool

record RequestVoteRequest =
  vqCandidateID :: u16
  vqTerm :: u64
  vqLastLogIndex :: u64
  vqLastLogTerm :: u64

record RequestVoteResponse =
  vrResponderID :: u16
  vrCandidateID :: u16
  vrTerm :: u64
  vrRequestTerm :: u64
  vrGranted :: bool

record AppendEntriesRequest =
  aqLeaderID :: u16
  aqTerm :: u64
  aqGeneration :: RequestGeneration
  aqPrevLogIndex :: u64
  aqPrevLogTerm :: u64
  aqLeaderCommit :: u64
  aqEntries :: "Entry list"

record AppendEntriesResponse =
  arResponderID :: u16
  arLeaderID :: u16
  arTerm :: u64
  arRequestTerm :: u64
  arGeneration :: RequestGeneration
  arSuccess :: bool
  arMatchIndex :: u64
  arConflictTerm :: u64
  arConflictIndex :: u64

record InstallSnapshotRequest =
  iqLeaderID :: u16
  iqTerm :: u64
  iqTransferID :: TransferID
  iqSnapshotID :: SnapshotID
  iqLastIncludedIndex :: u64
  iqLastIncludedTerm :: u64
  iqSchemaVersion :: u32
  iqTotalLength :: u64
  iqChecksum :: SnapshotChecksum
  iqOffset :: u64
  iqChunk :: bytes
  iqDone :: bool

record InstallSnapshotResponse =
  irResponderID :: u16
  irLeaderID :: u16
  irTerm :: u64
  irRequestTerm :: u64
  irTransferID :: TransferID
  irSnapshotID :: SnapshotID
  irNextOffset :: u64
  irSuccess :: bool
  irDone :: bool

type_synonym ProtocolErrorCode = u16

definition ProtocolErrorMalformed :: ProtocolErrorCode where "ProtocolErrorMalformed = 1"

definition ProtocolErrorUnsupportedSchema :: ProtocolErrorCode where
  "ProtocolErrorUnsupportedSchema = 2"

definition ProtocolErrorUnauthorizedVoter :: ProtocolErrorCode where
  "ProtocolErrorUnauthorizedVoter = 3"

definition ProtocolErrorFingerprintMismatch :: ProtocolErrorCode where
  "ProtocolErrorFingerprintMismatch = 4"

definition ProtocolErrorUnexpectedMessage :: ProtocolErrorCode where
  "ProtocolErrorUnexpectedMessage = 5"

definition ProtocolErrorOverloaded :: ProtocolErrorCode where "ProtocolErrorOverloaded = 6"

record ErrorResponse =
  erCode :: ProtocolErrorCode
  erResponderID :: u16
  erTerm :: u64

text \<open>
  The interface \<open>RPC\<close> is implemented by exactly these eleven structs; \<open>normalizeRPC\<close> replaces
  a pointer to one of them by the struct it points to, so a message is always one of the values.
\<close>

datatype RPC =
    RHandshake Handshake
  | RHandshakeAck HandshakeAck
  | RPreVoteRequest PreVoteRequest
  | RPreVoteResponse PreVoteResponse
  | RRequestVoteRequest RequestVoteRequest
  | RRequestVoteResponse RequestVoteResponse
  | RAppendEntriesRequest AppendEntriesRequest
  | RAppendEntriesResponse AppendEntriesResponse
  | RInstallSnapshotRequest InstallSnapshotRequest
  | RInstallSnapshotResponse InstallSnapshotResponse
  | RErrorResponse ErrorResponse

type_synonym MessageType = u16

fun messageType :: "RPC \<Rightarrow> MessageType" where
  "messageType (RHandshake m) = 100"
| "messageType (RHandshakeAck m) = 101"
| "messageType (RPreVoteRequest m) = 102"
| "messageType (RPreVoteResponse m) = 103"
| "messageType (RRequestVoteRequest m) = 104"
| "messageType (RRequestVoteResponse m) = 105"
| "messageType (RAppendEntriesRequest m) = 106"
| "messageType (RAppendEntriesResponse m) = 107"
| "messageType (RInstallSnapshotRequest m) = 108"
| "messageType (RInstallSnapshotResponse m) = 109"
| "messageType (RErrorResponse m) = 110"

text \<open>
  \<open>ValidateRPCSender\<close>: the actor named by the payload and the correlated voter, if any, are
  those of the \<open>switch\<close>; \<open>rpc_actor\<close> and \<open>rpc_correlated\<close> are its two variables.
\<close>

fun rpc_actor :: "RPC \<Rightarrow> u16" where
  "rpc_actor (RHandshake m) = hkSenderID m"
| "rpc_actor (RHandshakeAck m) = haResponderID m"
| "rpc_actor (RPreVoteRequest m) = pqCandidateID m"
| "rpc_actor (RPreVoteResponse m) = prResponderID m"
| "rpc_actor (RRequestVoteRequest m) = vqCandidateID m"
| "rpc_actor (RRequestVoteResponse m) = vrResponderID m"
| "rpc_actor (RAppendEntriesRequest m) = aqLeaderID m"
| "rpc_actor (RAppendEntriesResponse m) = arResponderID m"
| "rpc_actor (RInstallSnapshotRequest m) = iqLeaderID m"
| "rpc_actor (RInstallSnapshotResponse m) = irResponderID m"
| "rpc_actor (RErrorResponse m) = erResponderID m"

fun rpc_correlated :: "RPC \<Rightarrow> u16" where
  "rpc_correlated (RPreVoteResponse m) = prCandidateID m"
| "rpc_correlated (RRequestVoteResponse m) = vrCandidateID m"
| "rpc_correlated (RAppendEntriesResponse m) = arLeaderID m"
| "rpc_correlated (RInstallSnapshotResponse m) = irLeaderID m"
| "rpc_correlated _ = 0"

fun rpc_fingerprint_ok :: "RPC \<Rightarrow> VoterSet \<Rightarrow> bool" where
  "rpc_fingerprint_ok (RHandshake m) voters = (hkVoterFingerprint m = vsFingerprint voters)"
| "rpc_fingerprint_ok (RHandshakeAck m) voters = (haVoterFingerprint m = vsFingerprint voters)"
| "rpc_fingerprint_ok _ voters = True"

definition ValidateRPCSender :: "RPC \<Rightarrow> u16 \<Rightarrow> VoterSet \<Rightarrow> raft_error option" where
  "ValidateRPCSender rpc senderID voters =
     (if \<not> Contains voters senderID then Some ErrNotVoter
      else if \<not> rpc_fingerprint_ok rpc voters then Some ErrVoterFingerprint
      else if rpc_actor rpc \<noteq> senderID then Some ErrInvalidRPC
      else if rpc_correlated rpc \<noteq> 0 \<and> \<not> Contains voters (rpc_correlated rpc) then Some ErrNotVoter
      else None)"

section \<open>The leader's view of one peer\<close>

record Progress =
  pMatchIndex :: u64
  pNextIndex :: u64
  pGeneration :: RequestGeneration
  pActiveGeneration :: RequestGeneration
  pSnapshotNeeded :: bool
  pActiveTransferID :: TransferID
  pActiveSnapshotID :: SnapshotID
  pSnapshotNextOffset :: u64
  pActiveMatchIndex :: u64

definition zero_Progress :: Progress where
  "zero_Progress = \<lparr>pMatchIndex = 0, pNextIndex = 0, pGeneration = 0, pActiveGeneration = 0,
     pSnapshotNeeded = False, pActiveTransferID = 0, pActiveSnapshotID = 0,
     pSnapshotNextOffset = 0, pActiveMatchIndex = 0\<rparr>"

end
