(* ===== verification/Raft_Log.thy ===== *)
theory Raft_Log
  imports Raft_Types
begin

text \<open>
  The checked log of \<open>internal/raft/log.go\<close>: a compacted base and the contiguous entries after
  it.  Every method is a function of the receiver; one that mutates it returns the log it leaves
  behind, also on the error paths.  The reads of a slice behind a guard of the code are \<open>!\<close>, and
  an index computed with the wrapping arithmetic of \<open>uint64\<close> is a word.
\<close>

section \<open>The code\<close>

record ConflictHint =
  chTerm :: u64
  chIndex :: u64

definition zero_ConflictHint :: ConflictHint where
  "zero_ConflictHint = \<lparr>chTerm = 0, chIndex = 0\<rparr>"

record LogState =
  lsSnapshotIndex :: u64
  lsSnapshotTerm :: u64
  lsCommitIndex :: u64
  lsAppliedIndex :: u64
  lsEntries :: "Entry list"

record Log =
  lSnapshotIndex :: u64
  lSnapshotTerm :: u64
  lCommitIndex :: u64
  lAppliedIndex :: u64
  lLastIndex :: u64
  lEntries :: "Entry list"

definition checkedNextIndex :: "u64 \<Rightarrow> u64 option" where
  "checkedNextIndex index = (if index = MaxUint64 then None else Some (index + 1))"

definition maxLogIndex :: "u64 \<Rightarrow> u64 \<Rightarrow> u64" where
  "maxLogIndex a b = (if a > b then a else b)"

definition validateLogEntry :: "Entry \<Rightarrow> raft_error option" where
  "validateLogEntry entry =
     (if eIndex entry = 0 \<or> eTerm entry = 0 then Some ErrInvalidEntry
      else if eKind entry \<noteq> EntryCommand \<and> eKind entry \<noteq> EntryNoOp then Some ErrInvalidEntry
      else if eKind entry = EntryNoOp \<and> length (eCommand entry) \<noteq> 0 then Some ErrInvalidEntry
      else None)"

text \<open>
  The loop that \<open>NewLog\<close> and \<open>Append\<close> share: entries must continue \<open>next\<close> without a gap and be
  valid; it returns the last index reached.
\<close>

fun checkContiguous :: "u64 \<Rightarrow> Entry list \<Rightarrow> raft_error + u64" where
  "checkContiguous next [] = Inr next"
| "checkContiguous next (entry # entries) =
     (case checkedNextIndex next of
        None \<Rightarrow> Inl ErrLogOverflow
      | Some next' \<Rightarrow>
          if eIndex entry \<noteq> next' then Inl ErrLogGap
          else case validateLogEntry entry of
            Some err \<Rightarrow> Inl err
          | None \<Rightarrow> checkContiguous next' entries)"

definition NewLog :: "u64 \<Rightarrow> u64 \<Rightarrow> u64 \<Rightarrow> u64 \<Rightarrow> Entry list \<Rightarrow> raft_error + Log" where
  "NewLog snapshotIndex snapshotTerm commitIndex appliedIndex entries =
     (if (snapshotIndex = 0) \<noteq> (snapshotTerm = 0) then Inl ErrLogInvariant
      else if appliedIndex < snapshotIndex \<or> commitIndex < appliedIndex then Inl ErrLogInvariant
      else case checkContiguous snapshotIndex entries of
        Inl err \<Rightarrow> Inl err
      | Inr next \<Rightarrow>
          if commitIndex > next then Inl ErrLogInvariant
          else Inr \<lparr>lSnapshotIndex = snapshotIndex, lSnapshotTerm = snapshotTerm,
                    lCommitIndex = commitIndex, lAppliedIndex = appliedIndex,
                    lLastIndex = next, lEntries = entries\<rparr>)"

definition State :: "Log \<Rightarrow> LogState" where
  "State l = \<lparr>lsSnapshotIndex = lSnapshotIndex l, lsSnapshotTerm = lSnapshotTerm l,
              lsCommitIndex = lCommitIndex l, lsAppliedIndex = lAppliedIndex l,
              lsEntries = lEntries l\<rparr>"

definition LastTerm :: "Log \<Rightarrow> u64" where
  "LastTerm l = (if length (lEntries l) = 0 then lSnapshotTerm l
                 else eTerm (lEntries l ! (length (lEntries l) - 1)))"

definition retainedOffset :: "Log \<Rightarrow> u64 \<Rightarrow> raft_error + nat" where
  "retainedOffset l index =
     (if index \<le> lSnapshotIndex l then Inl ErrLogCompacted
      else if index > lLastIndex l then Inl ErrLogUnavailable
      else let offset = index - lSnapshotIndex l - 1
           in if unat offset \<ge> length (lEntries l) then Inl ErrLogInvariant
              else Inr (unat offset))"

definition Term :: "Log \<Rightarrow> u64 \<Rightarrow> raft_error + u64" where
  "Term l index =
     (if index < lSnapshotIndex l then Inl ErrLogCompacted
      else if index = lSnapshotIndex l then Inr (lSnapshotTerm l)
      else case retainedOffset l index of
        Inl err \<Rightarrow> Inl err
      | Inr offset \<Rightarrow> Inr (eTerm (lEntries l ! offset)))"

definition EntryAt :: "Log \<Rightarrow> u64 \<Rightarrow> raft_error + Entry" where
  "EntryAt l index =
     (if index \<le> lSnapshotIndex l then Inl ErrLogCompacted
      else case retainedOffset l index of
        Inl err \<Rightarrow> Inl err
      | Inr offset \<Rightarrow> Inr (lEntries l ! offset))"

text \<open>The loop runs from the last entry down, so it stops at the first hit of the reversed list.\<close>

definition LastIndexOfTerm :: "Log \<Rightarrow> u64 \<Rightarrow> u64 option" where
  "LastIndexOfTerm l term =
     (case find (\<lambda>entry. eTerm entry = term) (rev (lEntries l)) of
        Some entry \<Rightarrow> Some (eIndex entry)
      | None \<Rightarrow> if lSnapshotIndex l \<noteq> 0 \<and> lSnapshotTerm l = term then Some (lSnapshotIndex l)
                else None)"

text \<open>The loop \<open>for offset > 0 && l.entries[offset-1].Term == term { offset-- }\<close>.\<close>

fun termRunStart :: "Entry list \<Rightarrow> u64 \<Rightarrow> nat \<Rightarrow> nat" where
  "termRunStart entries term 0 = 0"
| "termRunStart entries term (Suc k) =
     (if eTerm (entries ! k) = term then termRunStart entries term k else Suc k)"

definition firstIndexOfTerm :: "Log \<Rightarrow> u64 \<Rightarrow> u64 \<Rightarrow> raft_error + u64" where
  "firstIndexOfTerm l index term =
     (if index = lSnapshotIndex l then Inr (lSnapshotIndex l)
      else case retainedOffset l index of
        Inl err \<Rightarrow> Inl err
      | Inr start \<Rightarrow>
          let offset = termRunStart (lEntries l) term start
          in if offset = 0 \<and> lSnapshotTerm l = term then Inr (lSnapshotIndex l)
             else Inr (eIndex (lEntries l ! offset)))"

text \<open>The second loop of \<open>Append\<close>; the list is \<open>owned[i:]\<close>.\<close>

fun repairSuffix :: "Log \<Rightarrow> Entry list \<Rightarrow> Log \<times> ConflictHint \<times> raft_error option" where
  "repairSuffix l [] = (l, zero_ConflictHint, None)"
| "repairSuffix l (entry # rest) =
     (if eIndex entry > lLastIndex l
      then (l\<lparr>lEntries := lEntries l @ entry # rest, lLastIndex := eIndex (last (entry # rest))\<rparr>,
            zero_ConflictHint, None)
      else case retainedOffset l (eIndex entry) of
        Inl err \<Rightarrow> (l, zero_ConflictHint, Some err)
      | Inr offset \<Rightarrow>
          if eTerm (lEntries l ! offset) = eTerm entry then repairSuffix l rest
          else if eIndex entry \<le> lCommitIndex l then (l, zero_ConflictHint, Some ErrCommittedConflict)
          else (l\<lparr>lEntries := take offset (lEntries l) @ entry # rest,
                 lLastIndex := eIndex (last (entry # rest))\<rparr>,
                zero_ConflictHint, None))"

definition Append :: "u64 \<Rightarrow> u64 \<Rightarrow> Entry list \<Rightarrow> Log \<Rightarrow> Log \<times> ConflictHint \<times> raft_error option" where
  "Append prevIndex prevTerm entries l =
     (case Term l prevIndex of
        Inl err \<Rightarrow>
          if err = ErrLogUnavailable then
            (case checkedNextIndex (lLastIndex l) of
               None \<Rightarrow> (l, zero_ConflictHint, Some ErrLogOverflow)
             | Some next \<Rightarrow> (l, \<lparr>chTerm = 0, chIndex = next\<rparr>, Some err))
          else if err = ErrLogCompacted then
            (l, \<lparr>chTerm = lSnapshotTerm l, chIndex = lSnapshotIndex l\<rparr>, Some err)
          else (l, zero_ConflictHint, Some err)
      | Inr localTerm \<Rightarrow>
          if localTerm \<noteq> prevTerm then
            (case firstIndexOfTerm l prevIndex localTerm of
               Inl err \<Rightarrow> (l, zero_ConflictHint, Some err)
             | Inr first \<Rightarrow> (l, \<lparr>chTerm = localTerm, chIndex = first\<rparr>, Some ErrLogMismatch))
          else if length entries = 0 then (l, zero_ConflictHint, None)
          else case checkContiguous prevIndex entries of
            Inl err \<Rightarrow> (l, zero_ConflictHint, Some err)
          | Inr _ \<Rightarrow> repairSuffix l entries)"

definition AdvanceCommit :: "u64 \<Rightarrow> Log \<Rightarrow> Log \<times> raft_error option" where
  "AdvanceCommit index l =
     (if index < lCommitIndex l then (l, Some ErrLogRegression)
      else if index > lLastIndex l then (l, Some ErrLogUnavailable)
      else (l\<lparr>lCommitIndex := index\<rparr>, None))"

definition AdvanceApplied :: "u64 \<Rightarrow> Log \<Rightarrow> Log \<times> raft_error option" where
  "AdvanceApplied index l =
     (if index < lAppliedIndex l then (l, Some ErrLogRegression)
      else if index > lCommitIndex l then (l, Some ErrLogInvariant)
      else (l\<lparr>lAppliedIndex := index\<rparr>, None))"

definition Compact :: "u64 \<Rightarrow> u64 \<Rightarrow> Log \<Rightarrow> Log \<times> raft_error option" where
  "Compact index term l =
     (if index < lSnapshotIndex l then (l, Some ErrLogCompacted)
      else if index = lSnapshotIndex l then
        (if term \<noteq> lSnapshotTerm l then (l, Some ErrLogMismatch) else (l, None))
      else if index > lLastIndex l then (l, Some ErrLogUnavailable)
      else if index > lAppliedIndex l then (l, Some ErrLogInvariant)
      else case Term l index of
        Inl err \<Rightarrow> (l, Some err)
      | Inr localTerm \<Rightarrow>
          if localTerm \<noteq> term then (l, Some ErrLogMismatch)
          else case retainedOffset l index of
            Inl err \<Rightarrow> (l, Some err)
          | Inr offset \<Rightarrow>
              (l\<lparr>lEntries := drop (offset + 1) (lEntries l), lSnapshotIndex := index,
                 lSnapshotTerm := term\<rparr>, None))"

text \<open>
  The last step of \<open>RestoreSnapshot\<close>, from the maxima on, with the three locals the branches
  before it computed.
\<close>

definition installBase :: "u64 \<Rightarrow> u64 \<Rightarrow> bool \<Rightarrow> Entry list \<Rightarrow> u64 \<Rightarrow> Log \<Rightarrow> Log \<times> raft_error option" where
  "installBase index term matchingSuffix retained newLast l =
     (let newCommit = maxLogIndex (lCommitIndex l) index;
          newApplied = maxLogIndex (lAppliedIndex l) index
      in if index > newApplied \<or> newApplied > newCommit \<or> newCommit > newLast then
           (l, Some (if \<not> matchingSuffix \<and> lCommitIndex l > index then ErrCommittedConflict
                     else ErrLogInvariant))
         else (l\<lparr>lSnapshotIndex := index, lSnapshotTerm := term, lAppliedIndex := newApplied,
                 lCommitIndex := newCommit, lLastIndex := newLast, lEntries := retained\<rparr>, None))"

definition RestoreSnapshot :: "u64 \<Rightarrow> u64 \<Rightarrow> Log \<Rightarrow> Log \<times> raft_error option" where
  "RestoreSnapshot index term l =
     (if index < lSnapshotIndex l then (l, None)
      else if index = lSnapshotIndex l then
        (if term \<noteq> lSnapshotTerm l then (l, Some ErrLogMismatch) else (l, None))
      else if term = 0 then (l, Some ErrLogInvariant)
      else if index \<le> lLastIndex l then
        (case Term l index of
           Inl err \<Rightarrow> (l, Some err)
         | Inr localTerm \<Rightarrow>
             if localTerm = term then
               (case retainedOffset l index of
                  Inl err \<Rightarrow> (l, Some err)
                | Inr offset \<Rightarrow>
                    installBase index term True (drop (offset + 1) (lEntries l)) (lLastIndex l) l)
             else if index \<le> lCommitIndex l then (l, Some ErrCommittedConflict)
             else installBase index term False [] index l)
      else installBase index term False [] index l)"

section \<open>The well-formedness invariant\<close>

definition contiguous :: "u64 \<Rightarrow> Entry list \<Rightarrow> bool" where
  "contiguous base es \<longleftrightarrow>
     (\<forall>i < length es. unat (eIndex (es ! i)) = unat base + i + 1 \<and> validateLogEntry (es ! i) = None)"

definition log_wf :: "Log \<Rightarrow> bool" where
  "log_wf l \<longleftrightarrow>
     (lSnapshotIndex l = 0 \<longleftrightarrow> lSnapshotTerm l = 0)
   \<and> lSnapshotIndex l \<le> lAppliedIndex l \<and> lAppliedIndex l \<le> lCommitIndex l
   \<and> lCommitIndex l \<le> lLastIndex l
   \<and> contiguous (lSnapshotIndex l) (lEntries l)
   \<and> unat (lLastIndex l) = unat (lSnapshotIndex l) + length (lEntries l)"

lemma contiguous_Nil [simp]: "contiguous base []"
  by (simp add: contiguous_def)

lemma contiguous_Cons:
  assumes "unat nxt = unat base + 1"
  shows "contiguous base (e # es) \<longleftrightarrow> eIndex e = nxt \<and> validateLogEntry e = None \<and> contiguous nxt es"
  using assms by (auto simp: contiguous_def nth_Cons word_unat_eq_iff split: nat.splits)

lemma all_less_add:
  "(\<forall>i < m + n. P i) \<longleftrightarrow> (\<forall>i < m. P i) \<and> (\<forall>i < n. P (m + i :: nat))"
  by (metis add_less_cancel_left less_or_eq_imp_le nat_le_iff_add not_less trans_less_add1)

lemma contiguous_append:
  assumes "unat mid = unat base + length xs"
  shows "contiguous base (xs @ ys) \<longleftrightarrow> contiguous base xs \<and> contiguous mid ys"
proof -
  have "contiguous base (xs @ ys) \<longleftrightarrow> contiguous base xs \<and>
      (\<forall>i < length ys. unat (eIndex (ys ! i)) = unat base + (length xs + i) + 1
                        \<and> validateLogEntry (ys ! i) = None)"
    unfolding contiguous_def
    by (simp add: all_less_add nth_append)
  then show ?thesis using assms by (simp add: contiguous_def add.assoc)
qed

lemma checkContiguous_ok:
  "checkContiguous nxt es = Inr final \<longleftrightarrow>
     contiguous nxt es \<and> unat final = unat nxt + length es"
proof (induction es arbitrary: nxt)
  case Nil
  then show ?case by (auto simp: word_unat_eq_iff)
next
  case (Cons e es)
  show ?case
  proof (cases "nxt = MaxUint64")
    case True
    then have "unat (eIndex e) \<noteq> Suc (unat nxt)"
      using unat_lt_u64[of "eIndex e"] by (simp add: unat_MaxUint64)
    with True show ?thesis by (auto simp: checkedNextIndex_def contiguous_def)
  next
    case False
    then have nxt': "unat (nxt + 1) = unat nxt + 1" by (simp add: unat_Suc_word)
    show ?thesis
      using False Cons.IH[of "nxt + 1"] contiguous_Cons[OF nxt'] nxt'
      by (auto simp: checkedNextIndex_def split: option.split)
  qed
qed

lemma NewLog_wf: "NewLog si st ci ai es = Inr l \<Longrightarrow> log_wf l"
  by (auto simp: NewLog_def log_wf_def checkContiguous_ok not_less split: if_splits sum.splits)

section \<open>Lookups\<close>

text \<open>The position in the retained suffix of the entry at a logical index.\<close>

definition pos :: "Log \<Rightarrow> u64 \<Rightarrow> nat" where
  "pos l i = unat i - unat (lSnapshotIndex l) - 1"

lemma pos_bound:
  "log_wf l \<Longrightarrow> lSnapshotIndex l < i \<Longrightarrow> i \<le> lLastIndex l \<Longrightarrow> pos l i < length (lEntries l)"
  by (auto simp: log_wf_def pos_def word_less_nat_alt word_le_nat_alt)

lemma retainedOffset_ok:
  assumes "log_wf l"
  shows "retainedOffset l i =
     (if i \<le> lSnapshotIndex l then Inl ErrLogCompacted
      else if i > lLastIndex l then Inl ErrLogUnavailable else Inr (pos l i))"
proof (cases "lSnapshotIndex l < i \<and> i \<le> lLastIndex l")
  case True
  then show ?thesis
    using pos_bound[OF assms, of i] by (auto simp: retainedOffset_def Let_def unat_offset pos_def)
next
  case False
  then show ?thesis by (auto simp: retainedOffset_def not_le not_less)
qed

lemma EntryAt_ok:
  "log_wf l \<Longrightarrow> EntryAt l i =
     (if i \<le> lSnapshotIndex l then Inl ErrLogCompacted
      else if i > lLastIndex l then Inl ErrLogUnavailable else Inr (lEntries l ! pos l i))"
  by (simp add: EntryAt_def retainedOffset_ok)

lemma Term_ok:
  "log_wf l \<Longrightarrow> Term l i =
     (if i < lSnapshotIndex l then Inl ErrLogCompacted
      else if i = lSnapshotIndex l then Inr (lSnapshotTerm l)
      else if i > lLastIndex l then Inl ErrLogUnavailable else Inr (eTerm (lEntries l ! pos l i)))"
  by (auto simp: Term_def retainedOffset_ok)

lemma Term_EntryAt: "log_wf l \<Longrightarrow> EntryAt l i = Inr e \<Longrightarrow> Term l i = Inr (eTerm e)"
  by (auto simp: EntryAt_ok Term_ok split: if_splits)

lemma EntryAt_index: "log_wf l \<Longrightarrow> EntryAt l i = Inr e \<Longrightarrow> eIndex e = i"
proof -
  assume wf: "log_wf l" and e: "EntryAt l i = Inr e"
  then have i: "lSnapshotIndex l < i" "i \<le> lLastIndex l" "e = lEntries l ! pos l i"
    by (auto simp: EntryAt_ok split: if_splits)
  have "unat (eIndex (lEntries l ! pos l i)) = unat (lSnapshotIndex l) + pos l i + 1"
    using wf pos_bound[OF wf i(1,2)] by (simp add: log_wf_def contiguous_def)
  then show ?thesis using i(1,3) by (simp add: pos_def word_unat_eq_iff word_less_nat_alt)
qed

lemma LastTerm_ok: "log_wf l \<Longrightarrow> Term l (lLastIndex l) = Inr (LastTerm l)"
proof (cases "lEntries l = []")
  case True
  moreover assume "log_wf l"
  ultimately have "lLastIndex l = lSnapshotIndex l" by (simp add: log_wf_def word_unat_eq_iff)
  with True show ?thesis by (simp add: Term_def LastTerm_def)
next
  case False
  assume wf: "log_wf l"
  then have "lSnapshotIndex l < lLastIndex l" and "pos l (lLastIndex l) = length (lEntries l) - 1"
    using False by (auto simp: log_wf_def word_less_nat_alt pos_def)
  with False show ?thesis by (auto simp: Term_ok[OF wf] LastTerm_def)
qed

section \<open>The repaired suffix, by reference definitions\<close>

text \<open>
  What \<open>Append\<close> promises, on plain lists: entries that agree in term are kept, and from the first
  disagreement on, or past the end, the received entries replace what was there.
\<close>

fun mergeSuffix :: "Entry list \<Rightarrow> Entry list \<Rightarrow> Entry list" where
  "mergeSuffix old [] = old"
| "mergeSuffix [] (n # ns) = n # ns"
| "mergeSuffix (old # olds) (n # ns) =
     (if eTerm old = eTerm n then old # mergeSuffix olds ns else n # ns)"

fun firstConflict :: "Entry list \<Rightarrow> Entry list \<Rightarrow> nat option" where
  "firstConflict old [] = None"
| "firstConflict [] (n # ns) = None"
| "firstConflict (old # olds) (n # ns) =
     (if eTerm old = eTerm n then map_option Suc (firstConflict olds ns) else Some 0)"

lemma firstConflict_bound:
  "firstConflict olds ns = Some j \<Longrightarrow>
     j < length olds \<and> j < length ns \<and> eTerm (olds ! j) \<noteq> eTerm (ns ! j)"
  by (induction olds ns arbitrary: j rule: mergeSuffix.induct) (auto split: if_splits)

lemma mergeSuffix_closed:
  "mergeSuffix olds ns =
     (case firstConflict olds ns of
        Some j \<Rightarrow> take j olds @ drop j ns
      | None \<Rightarrow> olds @ drop (length olds) ns)"
  by (induction olds ns rule: mergeSuffix.induct) (auto split: option.splits)

lemma mergeSuffix_length:
  "length (mergeSuffix olds ns) =
     (if firstConflict olds ns = None then max (length olds) (length ns) else length ns)"
  using firstConflict_bound[of olds ns] by (auto simp: mergeSuffix_closed split: option.splits)

lemma mergeSuffix_nth:
  assumes "i < length (mergeSuffix olds ns)"
  shows "mergeSuffix olds ns ! i =
     (if i < length olds \<and> (\<forall>j. firstConflict olds ns = Some j \<longrightarrow> i < j) then olds ! i else ns ! i)"
  using assms firstConflict_bound[of olds ns]
  by (auto simp: mergeSuffix_closed nth_append split: option.splits)

lemma mergeSuffix_terms:
  "i < length ns \<Longrightarrow> eTerm (mergeSuffix olds ns ! i) = eTerm (ns ! i)"
  by (induction olds ns arbitrary: i rule: mergeSuffix.induct)
    (auto simp: nth_Cons split: nat.splits)

lemma mergeSuffix_idem: "mergeSuffix (mergeSuffix olds ns) ns = mergeSuffix olds ns"
proof (induction olds ns rule: mergeSuffix.induct)
  case (2 n ns)
  show ?case by (induction ns arbitrary: n) (auto simp: neq_Nil_conv)
next
  case (3 old olds n ns)
  have "mergeSuffix (n # ns) (n # ns) = n # ns" for n ns
    by (induction ns arbitrary: n) auto
  with 3 show ?case by auto
qed simp

lemma firstConflict_merge [simp]: "firstConflict (mergeSuffix olds ns) ns = None"
proof (induction olds ns rule: mergeSuffix.induct)
  case (2 n ns)
  have "firstConflict ns ns = None" for ns by (induction ns) auto
  then show ?case by simp
next
  case (3 old olds n ns)
  have "firstConflict ns ns = None" for ns by (induction ns) auto
  with 3 show ?case by simp
qed simp

lemma contiguous_merge:
  assumes "contiguous base olds" "contiguous base ns"
  shows "contiguous base (mergeSuffix olds ns)"
  unfolding contiguous_def
proof (intro allI impI)
  fix i assume i: "i < length (mergeSuffix olds ns)"
  then have "i < length olds \<and> (\<forall>j. firstConflict olds ns = Some j \<longrightarrow> i < j) \<or> i < length ns"
    by (auto simp: mergeSuffix_length split: if_splits)
  then show "unat (eIndex (mergeSuffix olds ns ! i)) = unat base + i + 1
      \<and> validateLogEntry (mergeSuffix olds ns ! i) = None"
    using assms by (auto simp: mergeSuffix_nth[OF i] contiguous_def)
qed

text \<open>The loop of the code computes that merge, unless the disagreement is at a committed index.\<close>

lemma contiguous_last:
  "contiguous base es \<Longrightarrow> es \<noteq> [] \<Longrightarrow> eIndex (last es) = word_of_nat (unat base + length es)"
proof -
  assume "contiguous base es" "es \<noteq> []"
  then have "unat (eIndex (last es)) = unat base + length es"
    by (simp add: contiguous_def last_conv_nth)
  then show ?thesis by (metis of_nat_unat ucast_id)
qed

text \<open>A log whose retained suffix is replaced, with the last index that goes with it.\<close>

definition withEntries :: "Log \<Rightarrow> Entry list \<Rightarrow> Log" where
  "withEntries l es = l\<lparr>lEntries := es, lLastIndex := word_of_nat (unat (lSnapshotIndex l) + length es)\<rparr>"

lemma withEntries_same: "log_wf l \<Longrightarrow> withEntries l (lEntries l) = l"
proof -
  assume "log_wf l"
  then have "lLastIndex l = word_of_nat (unat (lSnapshotIndex l) + length (lEntries l))"
    by (metis log_wf_def of_nat_unat ucast_id)
  then show ?thesis by (simp add: withEntries_def)
qed

lemma repairSuffix_ok:
  assumes wf: "log_wf l" and prev: "lSnapshotIndex l \<le> prev" "prev \<le> lLastIndex l"
    and new: "contiguous prev ns"
  shows "repairSuffix l ns =
    (let k = unat prev - unat (lSnapshotIndex l)
     in if \<exists>j. firstConflict (drop k (lEntries l)) ns = Some j \<and> unat prev + j + 1 \<le> unat (lCommitIndex l)
        then (l, zero_ConflictHint, Some ErrCommittedConflict)
        else (withEntries l (take k (lEntries l) @ mergeSuffix (drop k (lEntries l)) ns),
              zero_ConflictHint, None))"
  using prev new
proof (induction ns arbitrary: prev)
  case Nil
  then show ?case using withEntries_same[OF wf] by (simp add: Let_def)
next
  case (Cons n ns)
  define k where "k = unat prev - unat (lSnapshotIndex l)"
  define nxt where "nxt = eIndex n"
  have "unat nxt = unat prev + 1" using Cons.prems by (auto simp: contiguous_def nxt_def)
  note nxt = this contiguous_Cons[OF this, of n ns]
  have snap: "lSnapshotIndex l < nxt" and k: "unat nxt - unat (lSnapshotIndex l) = Suc k"
    using nxt Cons.prems by (auto simp: word_less_nat_alt word_le_nat_alt k_def)
  have fresh_last: "eIndex (last (n # ns)) = word_of_nat (Suc (unat prev + length ns))"
    using contiguous_last[OF Cons.prems(3)] by simp
  have prev: "unat prev = unat (lSnapshotIndex l) + k"
    using Cons.prems by (simp add: k_def word_le_nat_alt)
  show ?case
  proof (cases "lLastIndex l < nxt")
    case True
    then have "k = length (lEntries l)"
      using wf Cons.prems nxt by (simp add: log_wf_def k_def word_less_nat_alt word_le_nat_alt)
    then show ?thesis
      using True fresh_last prev by (simp add: nxt_def withEntries_def add.assoc flip: k_def)
  next
    case False
    then have bound: "k < length (lEntries l)" and pos: "retainedOffset l nxt = Inr k"
      using wf snap k pos_bound[OF wf snap] by (auto simp: retainedOffset_ok[OF wf] pos_def)
    have split: "drop k (lEntries l) = lEntries l ! k # drop (Suc k) (lEntries l)"
      using bound by (simp add: Cons_nth_drop_Suc)
    have contig: "contiguous nxt ns" using nxt Cons.prems(3) by simp
    have le: "nxt \<le> lLastIndex l" using False by simp
    show ?thesis
    proof (cases "eTerm (lEntries l ! k) = eTerm n")
      case True
      then have "repairSuffix l (n # ns) = repairSuffix l ns"
        using False pos by (simp flip: nxt_def)
      with Cons.IH[OF less_imp_le[OF snap] le contig] True show ?thesis
        by (auto simp: Let_def k split prev nxt(1) take_Suc_conv_app_nth[OF bound]
            simp del: repairSuffix.simps simp flip: k_def)
    next
      case False
      then show ?thesis
        using \<open>\<not> lLastIndex l < nxt\<close> pos bound fresh_last prev nxt(1)
        by (auto simp: Let_def split withEntries_def word_le_nat_alt simp flip: nxt_def k_def)
    qed
  qed
qed

section \<open>Append by cases\<close>

text \<open>
  The abstract contract of \<open>Append\<close> on a well-formed log: either it reports an error and the log is
  untouched, or the previous position is proved, the batch is contiguous, no committed entry
  disagrees, and the retained suffix is the merge.
\<close>

definition append_spec :: "u64 \<Rightarrow> u64 \<Rightarrow> Entry list \<Rightarrow> Log \<Rightarrow> Log \<Rightarrow> bool" where
  "append_spec prev prevTerm ns l l' \<longleftrightarrow>
     (let k = unat prev - unat (lSnapshotIndex l); olds = drop k (lEntries l)
      in lSnapshotIndex l \<le> prev \<and> prev \<le> lLastIndex l \<and> Term l prev = Inr prevTerm
       \<and> contiguous prev ns
       \<and> (\<forall>j. firstConflict olds ns = Some j \<longrightarrow> unat (lCommitIndex l) < unat prev + j + 1)
       \<and> l' = withEntries l (take k (lEntries l) @ mergeSuffix olds ns))"

lemma Append_cases:
  assumes wf: "log_wf l" and app: "Append prev prevTerm ns l = (l', hint, err)"
  shows "err \<noteq> None \<and> l' = l \<or> err = None \<and> hint = zero_ConflictHint \<and> append_spec prev prevTerm ns l l'"
proof (cases "Term l prev")
  case (Inl e)
  then show ?thesis using app by (auto simp: Append_def split: if_splits option.splits)
next
  case (Inr t)
  then have range: "lSnapshotIndex l \<le> prev" "prev \<le> lLastIndex l"
    using wf by (auto simp: Term_ok[OF wf] log_wf_def split: if_splits)
  consider "t \<noteq> prevTerm" | "t = prevTerm" "ns = []"
    | e where "t = prevTerm" "ns \<noteq> []" "checkContiguous prev ns = Inl e"
    | final where "t = prevTerm" "ns \<noteq> []" "checkContiguous prev ns = Inr final"
    by (cases "checkContiguous prev ns") blast+
  then show ?thesis
  proof cases
    case 4
    then have "contiguous prev ns" by (simp add: checkContiguous_ok)
    from repairSuffix_ok[OF wf range this] 4 Inr app range this show ?thesis
      by (auto simp: Append_def append_spec_def Let_def not_le not_less_eq_eq split: if_splits)
  qed (use Inr app range withEntries_same[OF wf] in
        \<open>auto simp: Append_def append_spec_def split: sum.splits\<close>)
qed

lemma contiguous_size: "contiguous base es \<Longrightarrow> unat base + length es < 2 ^ 64"
proof (cases "es = []")
  case False
  assume "contiguous base es"
  then have "unat (eIndex (last es)) = unat base + length es"
    using False by (simp add: contiguous_def last_conv_nth)
  then show ?thesis by (metis unat_lt_u64)
qed (use unat_lt_u64[of base] in simp)

lemma withEntries_fields [simp]:
  "lSnapshotIndex (withEntries l es) = lSnapshotIndex l"
  "lSnapshotTerm (withEntries l es) = lSnapshotTerm l"
  "lCommitIndex (withEntries l es) = lCommitIndex l"
  "lAppliedIndex (withEntries l es) = lAppliedIndex l"
  "lEntries (withEntries l es) = es"
  by (simp_all add: withEntries_def)

lemma withEntries_last:
  "contiguous (lSnapshotIndex l) es \<Longrightarrow>
     unat (lLastIndex (withEntries l es)) = unat (lSnapshotIndex l) + length es"
  using contiguous_size[of "lSnapshotIndex l" es]
  by (simp add: withEntries_def unat_of_nat_u64 del: of_nat_add)

lemma withEntries_wf:
  assumes "log_wf l" "contiguous (lSnapshotIndex l) es"
    and "unat (lCommitIndex l) \<le> unat (lSnapshotIndex l) + length es"
  shows "log_wf (withEntries l es)"
  using assms withEntries_last[OF assms(2)] by (simp add: log_wf_def word_le_nat_alt)

text \<open>The facts about the new suffix that everything below uses.\<close>

lemma append_spec_suffix:
  assumes wf: "log_wf l" and spec: "append_spec prev prevTerm ns l l'"
  defines "k \<equiv> unat prev - unat (lSnapshotIndex l)"
  shows "k \<le> length (lEntries l)"
    and "unat prev = unat (lSnapshotIndex l) + k"
    and "lEntries l' = take k (lEntries l) @ mergeSuffix (drop k (lEntries l)) ns"
    and "contiguous (lSnapshotIndex l) (lEntries l')"
    and "unat (lCommitIndex l) \<le> unat (lSnapshotIndex l) + length (lEntries l')"
    and "\<And>i. i < length (lEntries l) \<Longrightarrow> unat (lSnapshotIndex l) + i + 1 \<le> unat (lCommitIndex l) \<Longrightarrow>
           i < length (lEntries l') \<and> lEntries l' ! i = lEntries l ! i"
proof -
  let ?olds = "drop k (lEntries l)"
  have spec': "lSnapshotIndex l \<le> prev" "prev \<le> lLastIndex l" "contiguous prev ns"
    "\<forall>j. firstConflict ?olds ns = Some j \<longrightarrow> unat (lCommitIndex l) < unat prev + j + 1"
    "l' = withEntries l (take k (lEntries l) @ mergeSuffix ?olds ns)"
    using spec by (simp_all add: append_spec_def Let_def k_def)
  show k: "k \<le> length (lEntries l)" and prev: "unat prev = unat (lSnapshotIndex l) + k"
    using wf spec'(1,2) by (auto simp: log_wf_def k_def word_le_nat_alt)
  show entries: "lEntries l' = take k (lEntries l) @ mergeSuffix ?olds ns"
    using spec'(5) by simp
  have mid: "unat prev = unat (lSnapshotIndex l) + length (take k (lEntries l))"
    using k prev by simp
  have "contiguous (lSnapshotIndex l) (take k (lEntries l)) \<and> contiguous prev ?olds"
    using wf contiguous_append[OF mid, of ?olds] by (simp add: log_wf_def)
  then show "contiguous (lSnapshotIndex l) (lEntries l')"
    using contiguous_append[OF mid] contiguous_merge spec'(3) entries by simp
  show kept: "i < length (lEntries l') \<and> lEntries l' ! i = lEntries l ! i"
    if i: "i < length (lEntries l)" "unat (lSnapshotIndex l) + i + 1 \<le> unat (lCommitIndex l)" for i
  proof (cases "i < k")
    case True
    then show ?thesis using k entries by (simp add: nth_append)
  next
    case False
    have before: "i - k < j" if "firstConflict ?olds ns = Some j" for j
      using spec'(4) that i(2) prev False by fastforce
    have "i - k < length (mergeSuffix ?olds ns)"
      using i(1) False before firstConflict_bound[of ?olds ns]
      by (fastforce simp: mergeSuffix_length)
    then show ?thesis
      using False k i(1) before entries by (auto simp: nth_append mergeSuffix_nth)
  qed
  show "unat (lCommitIndex l) \<le> unat (lSnapshotIndex l) + length (lEntries l')"
  proof (rule ccontr)
    assume "\<not> ?thesis"
    then have "length (lEntries l') < length (lEntries l)"
      and "unat (lSnapshotIndex l) + length (lEntries l') + 1 \<le> unat (lCommitIndex l)"
      using wf by (auto simp: log_wf_def word_le_nat_alt)
    then show False using kept by blast
  qed
qed

lemma append_spec_wf: "log_wf l \<Longrightarrow> append_spec prev prevTerm ns l l' \<Longrightarrow> log_wf l'"
  using append_spec_suffix[of l prev prevTerm ns l'] withEntries_wf[of l "lEntries l'"]
  by (auto simp: append_spec_def Let_def)

section \<open>Every operation keeps the invariant and the committed prefix\<close>

definition committed_kept :: "Log \<Rightarrow> Log \<Rightarrow> bool" where
  "committed_kept l l' \<longleftrightarrow>
     lSnapshotIndex l \<le> lSnapshotIndex l' \<and> lCommitIndex l \<le> lCommitIndex l'
   \<and> lAppliedIndex l \<le> lAppliedIndex l'
   \<and> (\<forall>i. lSnapshotIndex l' < i \<and> i \<le> lCommitIndex l \<longrightarrow> EntryAt l' i = EntryAt l i)
   \<and> (\<forall>i. lSnapshotIndex l' \<le> i \<and> i \<le> lCommitIndex l \<longrightarrow> Term l' i = Term l i)"

lemma committed_kept_refl: "committed_kept l l"
  by (simp add: committed_kept_def)

lemma committed_kept_trans:
  assumes "committed_kept l l'" "committed_kept l' l''"
  shows "committed_kept l l''"
  using assms unfolding committed_kept_def
  by (smt (verit, ccfv_threshold) order_le_less_trans order_trans)

lemma append_spec_kept:
  assumes wf: "log_wf l" and spec: "append_spec prev prevTerm ns l l'"
  shows "committed_kept l l'"
proof -
  note suffix = append_spec_suffix[OF wf spec]
  have wf': "log_wf l'" using append_spec_wf[OF wf spec] .
  have fields: "lSnapshotIndex l' = lSnapshotIndex l" "lSnapshotTerm l' = lSnapshotTerm l"
      "lCommitIndex l' = lCommitIndex l" "lAppliedIndex l' = lAppliedIndex l"
    using spec by (simp_all add: append_spec_def Let_def)
  have kept: "EntryAt l' i = EntryAt l i \<and> Term l' i = Term l i"
    if i: "lSnapshotIndex l < i" "i \<le> lCommitIndex l" for i
  proof -
    have last: "i \<le> lLastIndex l" "i \<le> lLastIndex l'"
      using i wf wf' fields(3) by (auto simp: log_wf_def)
    moreover have "pos l i < length (lEntries l)" using pos_bound[OF wf i(1) last(1)] .
    moreover have "unat (lSnapshotIndex l) + pos l i + 1 \<le> unat (lCommitIndex l)"
      using i by (simp add: pos_def word_less_nat_alt word_le_nat_alt)
    ultimately show ?thesis
      using suffix(6)[of "pos l i"] i
      by (auto simp: pos_def fields EntryAt_ok[OF wf] EntryAt_ok[OF wf'] Term_ok[OF wf] Term_ok[OF wf'])
  qed
  moreover have "Term l' (lSnapshotIndex l) = Term l (lSnapshotIndex l)"
    by (simp add: Term_def fields)
  ultimately show ?thesis by (auto simp: committed_kept_def fields order_le_less)
qed

text \<open>Dropping the entries up to an available index and making it the base.\<close>

lemma rebase:
  assumes wf: "log_wf l" and i: "lSnapshotIndex l < index" "index \<le> lLastIndex l"
    and base: "Term l index = Inr t"
    and l': "lSnapshotIndex l' = index" "lSnapshotTerm l' = t" "lLastIndex l' = lLastIndex l"
      "lEntries l' = drop (Suc (pos l index)) (lEntries l)"
    and order: "index \<le> lAppliedIndex l'" "lAppliedIndex l' \<le> lCommitIndex l'" "lCommitIndex l' \<le> lLastIndex l"
  shows "log_wf l'"
    and "\<And>j. index < j \<Longrightarrow> EntryAt l' j = EntryAt l j"
    and "\<And>j. index \<le> j \<Longrightarrow> Term l' j = Term l j"
proof -
  have bound: "pos l index < length (lEntries l)" using pos_bound[OF wf i] .
  have pos: "unat index = unat (lSnapshotIndex l) + length (take (Suc (pos l index)) (lEntries l))"
    using i bound by (simp add: pos_def word_less_nat_alt)
  have contig: "contiguous index (drop (Suc (pos l index)) (lEntries l))"
    using wf contiguous_append[OF pos, of "drop (Suc (pos l index)) (lEntries l)"]
    by (simp add: log_wf_def)
  have "validateLogEntry (lEntries l ! pos l index) = None"
    using wf bound by (simp add: log_wf_def contiguous_def)
  then have "t \<noteq> 0" "index \<noteq> 0"
    using base i by (auto simp: Term_ok[OF wf] validateLogEntry_def split: if_splits)
  moreover have "unat (lLastIndex l) = unat index + length (drop (Suc (pos l index)) (lEntries l))"
    using wf pos bound by (simp add: log_wf_def)
  ultimately show wf': "log_wf l'"
    using contig order by (simp add: log_wf_def l')
  have entries: "lEntries l' ! pos l' j = lEntries l ! pos l j" if "index < j" "j \<le> lLastIndex l" for j
  proof -
    have "Suc (pos l index) + pos l' j = pos l j"
      using that i by (simp add: l'(1) pos_def word_less_nat_alt)
    then show ?thesis using bound by (simp add: l')
  qed
  show "EntryAt l' j = EntryAt l j" if "index < j" for j
    using that i entries by (auto simp: EntryAt_ok[OF wf] EntryAt_ok[OF wf'] l')
  then show "Term l' j = Term l j" if "index \<le> j" for j
    using that i entries base by (cases "j = index") (auto simp: Term_ok[OF wf] Term_ok[OF wf'] l')
qed

lemma Compact_cases:
  assumes wf: "log_wf l" and c: "Compact index t l = (l', err)"
  shows "l' = l \<or> err = None \<and> lSnapshotIndex l < index \<and> index \<le> lAppliedIndex l
      \<and> Term l index = Inr t
      \<and> l' = l\<lparr>lEntries := drop (Suc (pos l index)) (lEntries l), lSnapshotIndex := index, lSnapshotTerm := t\<rparr>"
  using c by (auto simp: Compact_def retainedOffset_ok[OF wf] split: if_splits sum.splits)

lemma Compact_preserves:
  assumes wf: "log_wf l" and c: "Compact index t l = (l', err)"
  shows "log_wf l' \<and> committed_kept l l'"
  using Compact_cases[OF assms]
proof (elim disjE conjE)
  assume i: "lSnapshotIndex l < index" "index \<le> lAppliedIndex l" and t: "Term l index = Inr t"
    and l': "l' = l\<lparr>lEntries := drop (Suc (pos l index)) (lEntries l), lSnapshotIndex := index, lSnapshotTerm := t\<rparr>"
  have "index \<le> lLastIndex l" using i wf by (auto simp: log_wf_def)
  note base = rebase[OF wf i(1) this t, of l']
  show ?thesis using base i wf by (auto simp: l' log_wf_def committed_kept_def)
qed (simp add: wf committed_kept_refl)

lemma Append_preserves:
  "log_wf l \<Longrightarrow> Append prev prevTerm ns l = (l', hint, err) \<Longrightarrow> log_wf l' \<and> committed_kept l l'"
  using Append_cases[of l prev prevTerm ns l' hint err] append_spec_wf[of l prev prevTerm ns l']
    append_spec_kept[of l prev prevTerm ns l'] committed_kept_refl[of l] by blast

lemma lookup_frame [simp]:
  "EntryAt (l\<lparr>lCommitIndex := c\<rparr>) i = EntryAt l i" "Term (l\<lparr>lCommitIndex := c\<rparr>) i = Term l i"
  "EntryAt (l\<lparr>lAppliedIndex := a\<rparr>) i = EntryAt l i" "Term (l\<lparr>lAppliedIndex := a\<rparr>) i = Term l i"
  by (simp_all add: EntryAt_def Term_def retainedOffset_def Let_def split: sum.split)

lemma AdvanceCommit_preserves:
  assumes "log_wf l" "AdvanceCommit index l = (l', err)"
  shows "log_wf l' \<and> committed_kept l l'"
  using assms
  by (auto simp: AdvanceCommit_def log_wf_def committed_kept_def not_less split: if_splits)

lemma AdvanceApplied_preserves:
  assumes "log_wf l" "AdvanceApplied index l = (l', err)"
  shows "log_wf l' \<and> committed_kept l l'"
  using assms
  by (auto simp: AdvanceApplied_def log_wf_def committed_kept_def not_less split: if_splits)

lemma maxLogIndex_max: "maxLogIndex a b = max a b"
  by (auto simp: maxLogIndex_def max_def)

text \<open>
  What a successful \<open>RestoreSnapshot\<close> leaves behind: the same log, a rebased log with the matching
  suffix, or an empty suffix after a snapshot above the commit index.
\<close>

lemma RestoreSnapshot_cases:
  assumes wf: "log_wf l" and r: "RestoreSnapshot index t l = (l', err)"
  shows "l' = l
    \<or> err = None \<and> lSnapshotIndex l < index \<and> t \<noteq> 0
      \<and> lSnapshotIndex l' = index \<and> lSnapshotTerm l' = t
      \<and> lAppliedIndex l' = max (lAppliedIndex l) index
      \<and> lCommitIndex l' = max (lCommitIndex l) index
      \<and> (index \<le> lLastIndex l \<and> Term l index = Inr t
           \<and> lLastIndex l' = lLastIndex l \<and> lEntries l' = drop (Suc (pos l index)) (lEntries l)
         \<or> lCommitIndex l < index \<and> Term l index \<noteq> Inr t \<and> lLastIndex l' = index \<and> lEntries l' = [])"
proof -
  have last: "lCommitIndex l \<le> lLastIndex l" "lSnapshotIndex l \<le> lLastIndex l"
    using wf by (auto simp: log_wf_def)
  show ?thesis
  proof (cases "index \<le> lSnapshotIndex l \<or> t = 0")
    case True
    then show ?thesis using r by (auto simp: RestoreSnapshot_def split: if_splits)
  next
    case False
    then have new: "lSnapshotIndex l < index" "t \<noteq> 0" by auto
    show ?thesis
    proof (cases "index \<le> lLastIndex l")
      case True
      then have "Term l index = Inr (eTerm (lEntries l ! pos l index))"
        and "retainedOffset l index = Inr (pos l index)"
        using new by (auto simp: Term_ok[OF wf] retainedOffset_ok[OF wf])
      then show ?thesis
        using r new True last
        by (auto simp: RestoreSnapshot_def installBase_def Let_def maxLogIndex_max split: if_splits)
    next
      case False
      then have "Term l index = Inl ErrLogUnavailable"
        using new by (auto simp: Term_ok[OF wf])
      then show ?thesis
        using r new False last
        by (auto simp: RestoreSnapshot_def installBase_def Let_def maxLogIndex_max split: if_splits)
    qed
  qed
qed

lemma RestoreSnapshot_preserves:
  assumes wf: "log_wf l" and r: "RestoreSnapshot index t l = (l', err)"
  shows "log_wf l' \<and> committed_kept l l'"
  using RestoreSnapshot_cases[OF assms]
proof (elim disjE conjE)
  assume i: "lSnapshotIndex l < index" "index \<le> lLastIndex l" and t: "Term l index = Inr t"
    and l': "lSnapshotIndex l' = index" "lSnapshotTerm l' = t" "lAppliedIndex l' = max (lAppliedIndex l) index"
      "lCommitIndex l' = max (lCommitIndex l) index" "lLastIndex l' = lLastIndex l"
      "lEntries l' = drop (Suc (pos l index)) (lEntries l)"
  note base = rebase[OF wf i t l'(1,2,5,6)]
  show ?thesis using base i wf by (auto simp: l' log_wf_def committed_kept_def max_def)
next
  assume "lSnapshotIndex l < index" "lCommitIndex l < index" "t \<noteq> 0"
    and l': "lSnapshotIndex l' = index" "lSnapshotTerm l' = t" "lAppliedIndex l' = max (lAppliedIndex l) index"
      "lCommitIndex l' = max (lCommitIndex l) index" "lLastIndex l' = index" "lEntries l' = []"
  then show ?thesis
    using wf by (auto simp: log_wf_def committed_kept_def max_def)
qed (simp add: wf committed_kept_refl)

section \<open>Runs of operations\<close>

text \<open>One call of any mutating method, whatever its arguments and whether it returns an error or not.\<close>

inductive log_step :: "Log \<Rightarrow> Log \<Rightarrow> bool" where
  append: "Append prev prevTerm ns l = (l', hint, err) \<Longrightarrow> log_step l l'"
| commit: "AdvanceCommit index l = (l', err) \<Longrightarrow> log_step l l'"
| applied: "AdvanceApplied index l = (l', err) \<Longrightarrow> log_step l l'"
| compact: "Compact index t l = (l', err) \<Longrightarrow> log_step l l'"
| restore: "RestoreSnapshot index t l = (l', err) \<Longrightarrow> log_step l l'"

lemma log_step_preserves: "log_step l l' \<Longrightarrow> log_wf l \<Longrightarrow> log_wf l' \<and> committed_kept l l'"
  by (erule log_step.cases)
    (blast dest: Append_preserves AdvanceCommit_preserves AdvanceApplied_preserves
      Compact_preserves RestoreSnapshot_preserves)+

interpretation log_runs: guarded_system committed_kept log_step log_wf
  by unfold_locales
    (auto intro: committed_kept_refl committed_kept_trans dest: log_step_preserves)

section \<open>What a successful append contains\<close>

lemma append_spec_Append:
  assumes wf: "log_wf l" and spec: "append_spec prev prevTerm ns l l'"
  shows "Append prev prevTerm ns l = (l', zero_ConflictHint, None)"
proof -
  have facts: "lSnapshotIndex l \<le> prev" "prev \<le> lLastIndex l" "Term l prev = Inr prevTerm" "contiguous prev ns"
    using spec by (simp_all add: append_spec_def Let_def)
  have "\<exists>final. checkContiguous prev ns = Inr final"
    using contiguous_size[OF facts(4)] facts(4)
    by (auto simp: checkContiguous_ok intro!: exI[of _ "word_of_nat (unat prev + length ns)"]
        unat_of_nat_u64 simp del: of_nat_add)
  then show ?thesis
    using repairSuffix_ok[OF wf facts(1,2,4)] spec facts withEntries_same[OF wf]
    by (cases "ns = []") (auto simp: Append_def append_spec_def Let_def not_le split: if_splits)
qed

end
