(* ===== verification/Raft_Log_Facts.thy ===== *)
theory Raft_Log_Facts
  imports Raft_Log
begin

text \<open>
  What the operations of \<open>internal/raft/log.go\<close> guarantee their callers: the entries a successful
  \<open>Append\<close> leaves in the log, retransmission of a batch, the conflict hints of a refused one,
  lookups across a compaction, and the search for the last index of a term.
\<close>

section \<open>Runs of operations\<close>

text \<open>
  C4.  However a log recovered by \<open>NewLog\<close> is used, its invariant holds: base, applied, commit and
  last index stay in this order, the retained entries are contiguous, valid and exactly as many
  as the indices say, and the base has a term exactly when it has an index.
\<close>

theorem log_invariant:
  assumes "NewLog si st ci ai es = Inr l" and "log_step\<^sup>*\<^sup>* l l'"
  shows "log_wf l'"
  using log_runs.run_inv[OF assms(2) NewLog_wf[OF assms(1)]] .

text \<open>
  C3.  Committed entries are never lost or rewritten: along any run of operations the base, applied
  and commit indices only grow, and every entry and term up to the old commit index that the new
  base still retains is what it was.
\<close>

theorem log_committed_stable:
  assumes "NewLog si st ci ai es = Inr l" and "log_step\<^sup>*\<^sup>* l l'" and "log_step\<^sup>*\<^sup>* l' l''"
  shows "lSnapshotIndex l' \<le> lSnapshotIndex l'' \<and> lCommitIndex l' \<le> lCommitIndex l''
       \<and> lAppliedIndex l' \<le> lAppliedIndex l''
       \<and> (\<forall>i. lSnapshotIndex l'' < i \<and> i \<le> lCommitIndex l' \<longrightarrow> EntryAt l'' i = EntryAt l' i)
       \<and> (\<forall>i. lSnapshotIndex l'' \<le> i \<and> i \<le> lCommitIndex l' \<longrightarrow> Term l'' i = Term l' i)"
  using log_runs.run_rel[OF assms(3) log_runs.run_inv[OF assms(2) NewLog_wf[OF assms(1)]]]
  unfolding committed_kept_def .

section \<open>The contract of Append\<close>

text \<open>
  C9.  \<open>Append\<close> implements its contract exactly: on a well-formed log it succeeds with result \<open>l'\<close>
  if and only if the previous position is available with the given term, the batch is contiguous
  and valid, no entry at or below the commit index disagrees with it, and \<open>l'\<close> is the log whose
  suffix is the reference merge; in every other case it reports an error and changes nothing.
\<close>

theorem Append_refines_spec:
  assumes "log_wf l"
  shows "((\<exists>hint. Append prev prevTerm ns l = (l', hint, None)) \<longleftrightarrow> append_spec prev prevTerm ns l l')
       \<and> (\<forall>l1 hint err. Append prev prevTerm ns l = (l1, hint, Some err) \<longrightarrow> l1 = l)"
proof (intro conjI iffI allI impI)
  assume "append_spec prev prevTerm ns l l'"
  then show "\<exists>hint. Append prev prevTerm ns l = (l', hint, None)"
    using append_spec_Append[OF assms] by blast
qed (auto dest: Append_cases[OF assms])

section \<open>The entries of an accepted batch\<close>

lemma append_spec_lookup:
  assumes wf: "log_wf l" and spec: "append_spec prev prevTerm ns l l'"
  shows "\<And>i. i \<le> prev \<Longrightarrow> EntryAt l' i = EntryAt l i \<and> Term l' i = Term l i"
    and "\<And>n. n \<in> set ns \<Longrightarrow> \<exists>e. EntryAt l' (eIndex n) = Inr e \<and> eTerm e = eTerm n
            \<and> (e = n \<or> EntryAt l (eIndex n) = Inr e)"
proof -
  define k where "k = unat prev - unat (lSnapshotIndex l)"
  note suffix = append_spec_suffix[OF wf spec, folded k_def]
  have wf': "log_wf l'" using append_spec_wf[OF wf spec] .
  have fields: "lSnapshotIndex l' = lSnapshotIndex l" "lSnapshotTerm l' = lSnapshotTerm l"
    using spec by (simp_all add: append_spec_def Let_def)
  have last: "unat (lLastIndex l) = unat (lSnapshotIndex l) + length (lEntries l)"
      "unat (lLastIndex l') = unat (lSnapshotIndex l) + length (lEntries l')"
    using wf wf' fields by (simp_all add: log_wf_def)
  show "EntryAt l' i = EntryAt l i \<and> Term l' i = Term l i" if i: "i \<le> prev" for i
  proof (cases "lSnapshotIndex l < i")
    case True
    then have "pos l i < k" using i suffix(2) by (simp add: pos_def word_less_nat_alt word_le_nat_alt)
    moreover have "i \<le> lLastIndex l" "i \<le> lLastIndex l'"
      using i last suffix(1,2,3) by (auto simp: word_le_nat_alt)
    ultimately show ?thesis
      using True suffix(1,3) fields
      by (auto simp: EntryAt_ok[OF wf] EntryAt_ok[OF wf'] Term_ok[OF wf] Term_ok[OF wf'] pos_def nth_append)
  next
    case False
    then show ?thesis by (auto simp: EntryAt_ok[OF wf] EntryAt_ok[OF wf'] Term_def fields)
  qed
  fix n assume "n \<in> set ns"
  then obtain j where j: "j < length ns" "n = ns ! j" by (auto simp: in_set_conv_nth)
  let ?olds = "drop k (lEntries l)"
  have idx: "unat (eIndex n) = unat (lSnapshotIndex l) + k + j + 1"
    using spec j suffix(2) by (auto simp: append_spec_def Let_def contiguous_def)
  have len: "j < length (mergeSuffix ?olds ns)"
    using j by (auto simp: mergeSuffix_length)
  then have at': "EntryAt l' (eIndex n) = Inr (mergeSuffix ?olds ns ! j)"
    using idx suffix(1,3) last
    by (auto simp: EntryAt_ok[OF wf'] fields word_le_nat_alt word_less_nat_alt pos_def nth_append)
  have "EntryAt l (eIndex n) = Inr (?olds ! j)" if "j < length ?olds"
    using idx that last suffix(1)
    by (auto simp: EntryAt_ok[OF wf] word_le_nat_alt word_less_nat_alt pos_def)
  then show "\<exists>e. EntryAt l' (eIndex n) = Inr e \<and> eTerm e = eTerm n \<and> (e = n \<or> EntryAt l (eIndex n) = Inr e)"
    using at' mergeSuffix_nth[OF len] mergeSuffix_terms[OF j(1), of ?olds] j(2) by auto
qed

text \<open>
  C33.  After a successful \<open>Append\<close> the log holds the leader's batch: everything up to the previous
  index is as before, and at the index of every entry of the batch there is an entry of that
  entry's term, which is the entry itself unless the log already held one of that term there.
\<close>

theorem Append_contains_batch:
  assumes "log_wf l" and "Append prev prevTerm ns l = (l', hint, None)"
  shows "(\<forall>i. i \<le> prev \<longrightarrow> EntryAt l' i = EntryAt l i \<and> Term l' i = Term l i)
       \<and> (\<forall>n \<in> set ns. \<exists>e. EntryAt l' (eIndex n) = Inr e \<and> eTerm e = eTerm n
            \<and> (e = n \<or> EntryAt l (eIndex n) = Inr e))"
  using append_spec_lookup[OF assms(1)] Append_cases[OF assms] by blast

lemma append_spec_again:
  assumes wf: "log_wf l" and spec: "append_spec prev prevTerm ns l l'"
  shows "append_spec prev prevTerm ns l' l'"
proof -
  define k where "k = unat prev - unat (lSnapshotIndex l)"
  note suffix = append_spec_suffix[OF wf spec, folded k_def]
  have wf': "log_wf l'" using append_spec_wf[OF wf spec] .
  have snap: "lSnapshotIndex l' = lSnapshotIndex l"
    using spec by (simp add: append_spec_def Let_def)
  have old: "drop k (lEntries l') = mergeSuffix (drop k (lEntries l)) ns"
      "take k (lEntries l') = take k (lEntries l)"
    using suffix(1,3) by simp_all
  have "prev \<le> lLastIndex l'"
    using wf' suffix(1,2,3) snap by (simp add: log_wf_def word_le_nat_alt)
  moreover have "Term l' prev = Inr prevTerm"
    using append_spec_lookup(1)[OF wf spec, of prev] spec by (simp add: append_spec_def Let_def)
  moreover have "l' = withEntries l' (take k (lEntries l') @ mergeSuffix (drop k (lEntries l')) ns)"
    unfolding old mergeSuffix_idem suffix(3)[symmetric] by (simp add: withEntries_same[OF wf'])
  ultimately show ?thesis
    using spec unfolding append_spec_def Let_def snap k_def[symmetric] old
    by (simp add: mergeSuffix_idem)
qed

text \<open>
  C34.  Retransmission is harmless: a batch that was accepted is accepted again with no change to
  the log.
\<close>

theorem Append_idempotent:
  assumes "log_wf l" and "Append prev prevTerm ns l = (l', hint, None)"
  shows "Append prev prevTerm ns l' = (l', zero_ConflictHint, None)"
proof -
  have spec: "append_spec prev prevTerm ns l l'" using Append_cases[OF assms] by simp
  show ?thesis
    using append_spec_Append[OF append_spec_wf[OF assms(1) spec] append_spec_again[OF assms(1) spec]] .
qed

section \<open>Conflict hints\<close>

lemma termRunStart_le: "termRunStart es t k \<le> k"
  by (induction k) auto

lemma termRunStart_run: "termRunStart es t k \<le> i \<Longrightarrow> i < k \<Longrightarrow> eTerm (es ! i) = t"
  by (induction k) (auto simp: less_Suc_eq split: if_splits)

lemma termRunStart_first: "0 < termRunStart es t k \<Longrightarrow> eTerm (es ! (termRunStart es t k - 1)) \<noteq> t"
  by (induction k) (auto split: if_splits)

lemma firstIndexOfTerm_ok:
  assumes wf: "log_wf l" and t: "Term l prev = Inr t"
  shows "\<exists>f. firstIndexOfTerm l prev t = Inr f \<and> lSnapshotIndex l \<le> f \<and> f \<le> prev
           \<and> (\<forall>i. f \<le> i \<and> i \<le> prev \<longrightarrow> Term l i = Inr t)
           \<and> (f = lSnapshotIndex l \<or> Term l (f - 1) \<noteq> Inr t)"
proof (cases "prev = lSnapshotIndex l")
  case True
  then show ?thesis using t by (auto simp: firstIndexOfTerm_def order_antisym)
next
  case False
  then have range: "lSnapshotIndex l < prev" "prev \<le> lLastIndex l"
    using t by (auto simp: Term_ok[OF wf] split: if_splits)
  define start where "start = pos l prev"
  define offset where "offset = termRunStart (lEntries l) t start"
  have start: "start < length (lEntries l)" "unat prev = unat (lSnapshotIndex l) + start + 1"
    using pos_bound[OF wf range] range by (auto simp: start_def pos_def word_less_nat_alt)
  have offset: "offset \<le> start" unfolding offset_def by (rule termRunStart_le)
  define f where "f = (if offset = 0 \<and> lSnapshotTerm l = t then lSnapshotIndex l else eIndex (lEntries l ! offset))"
  have result: "firstIndexOfTerm l prev t = Inr f"
    using False range
    by (auto simp: firstIndexOfTerm_def retainedOffset_ok[OF wf] Let_def f_def offset_def start_def)
  have idx: "unat (eIndex (lEntries l ! offset)) = unat (lSnapshotIndex l) + offset + 1"
    using wf offset start(1) by (auto simp: log_wf_def contiguous_def)
  have f: "lSnapshotIndex l \<le> f" "f \<le> prev" "lSnapshotIndex l < f \<Longrightarrow> unat f = unat (lSnapshotIndex l) + offset + 1"
    using idx offset start(2) by (auto simp: f_def word_le_nat_alt)
  have run: "Term l i = Inr t" if i: "f \<le> i" "i \<le> prev" for i
  proof (cases "i = lSnapshotIndex l")
    case True
    then have "f = lSnapshotIndex l" using i(1) f(1) by (auto intro: order_antisym)
    then have "lSnapshotTerm l = t" using idx by (auto simp: f_def split: if_splits)
    then show ?thesis using True by (simp add: Term_def)
  next
    case False
    then have si: "lSnapshotIndex l < i" using i(1) f(1) by (auto simp: order_le_less)
    have "offset \<le> pos l i"
      using i(1) idx si by (auto simp: f_def pos_def word_le_nat_alt word_less_nat_alt split: if_splits)
    moreover have "pos l i \<le> start" using i(2) by (auto simp: start_def pos_def word_le_nat_alt)
    ultimately have "eTerm (lEntries l ! pos l i) = t"
      using termRunStart_run[of "lEntries l" t start "pos l i"] t False range
      by (cases "pos l i = start") (auto simp: offset_def start_def Term_ok[OF wf] split: if_splits)
    then show ?thesis using si i(2) range by (auto simp: Term_ok[OF wf])
  qed
  have first: "Term l (f - 1) \<noteq> Inr t" if "f \<noteq> lSnapshotIndex l"
  proof -
    have sf: "lSnapshotIndex l < f" using that f(1) by (auto simp: order_le_less)
    then have "unat (f - 1) = unat (lSnapshotIndex l) + offset"
      using f(3) unat_pred_word[of f] by fastforce
    then show ?thesis
      using termRunStart_first[of "lEntries l" t start] sf f(2) range that
      by (cases "offset = 0")
        (auto simp: Term_ok[OF wf] pos_def word_less_nat_alt word_le_nat_alt word_unat_eq_iff
          f_def offset_def split: if_splits)
  qed
  show ?thesis using result f(1,2) run first by blast
qed

lemma batch_errors:
  assumes wf: "log_wf l" and t: "Term l prev = Inr t"
  shows "checkContiguous prev ns = Inl err \<Longrightarrow> err \<in> {ErrLogOverflow, ErrLogGap, ErrInvalidEntry}"
    and "checkContiguous prev ns = Inr final \<Longrightarrow> repairSuffix l ns = (l', hint, Some err) \<Longrightarrow>
           err = ErrCommittedConflict"
proof -
  show "err \<in> {ErrLogOverflow, ErrLogGap, ErrInvalidEntry}" if "checkContiguous prev ns = Inl err"
    using that
    by (induction ns arbitrary: prev) (auto simp: validateLogEntry_def split: option.splits if_splits)
  have "lSnapshotIndex l \<le> prev" "prev \<le> lLastIndex l"
    using t wf by (auto simp: Term_ok[OF wf] log_wf_def split: if_splits)
  then show "err = ErrCommittedConflict"
    if "checkContiguous prev ns = Inr final" "repairSuffix l ns = (l', hint, Some err)"
    using that repairSuffix_ok[OF wf, of prev ns] by (auto simp: checkContiguous_ok Let_def split: if_splits)
qed

text \<open>
  A refused batch carries a useful hint.  On a term mismatch the hint names a term other than
  the leader's and the first index of the run of that term ending at the previous index: every
  index of the run has that term, and the index before it, if retained, does not.  When the
  previous index is beyond the log the hint is the next index, with term zero.  When it is
  compacted the hint is the base.
\<close>

theorem Append_hint:
  assumes wf: "log_wf l" and app: "Append prev prevTerm ns l = (l', hint, Some err)"
  shows "(err = ErrLogMismatch \<longrightarrow>
            chTerm hint \<noteq> prevTerm \<and> lSnapshotIndex l \<le> chIndex hint \<and> chIndex hint \<le> prev
          \<and> (\<forall>i. chIndex hint \<le> i \<and> i \<le> prev \<longrightarrow> Term l i = Inr (chTerm hint))
          \<and> (chIndex hint = lSnapshotIndex l \<or> Term l (chIndex hint - 1) \<noteq> Inr (chTerm hint)))
       \<and> (err = ErrLogUnavailable \<longrightarrow>
            chTerm hint = 0 \<and> chIndex hint \<le> prev \<and> unat (chIndex hint) = unat (lLastIndex l) + 1)
       \<and> (err = ErrLogCompacted \<longrightarrow>
            prev < lSnapshotIndex l \<and> chTerm hint = lSnapshotTerm l \<and> chIndex hint = lSnapshotIndex l)"
proof (cases "Term l prev")
  case (Inl e)
  then have "e = ErrLogCompacted \<and> prev < lSnapshotIndex l \<or> e = ErrLogUnavailable \<and> lLastIndex l < prev"
    by (auto simp: Term_ok[OF wf] split: if_splits)
  then show ?thesis
    using app Inl
    by (auto simp: Append_def checkedNextIndex_def unat_Suc_word word_le_nat_alt word_less_nat_alt
        zero_ConflictHint_def split: if_splits)
next
  case (Inr t)
  obtain f where f: "firstIndexOfTerm l prev t = Inr f" "lSnapshotIndex l \<le> f" "f \<le> prev"
      "\<forall>i. f \<le> i \<and> i \<le> prev \<longrightarrow> Term l i = Inr t" "f = lSnapshotIndex l \<or> Term l (f - 1) \<noteq> Inr t"
    using firstIndexOfTerm_ok[OF wf Inr] by blast
  show ?thesis
  proof (cases "t = prevTerm")
    case True
    then have "err \<notin> {ErrLogMismatch, ErrLogUnavailable, ErrLogCompacted}"
      using app Inr batch_errors[OF wf Inr, of ns] by (auto simp: Append_def split: sum.splits if_splits)
    then show ?thesis by auto
  next
    case False
    then show ?thesis using app Inr f by (auto simp: Append_def)
  qed
qed

section \<open>Compaction\<close>

text \<open>
  C25.  Compacting to an applied index only forgets: the new base carries the term the log had at
  that index, every later entry and term reads as before, and the applied, commit and last
  indices do not move.
\<close>

theorem Compact_keeps_lookups:
  assumes wf: "log_wf l" and c: "Compact index t l = (l', None)"
  shows "lSnapshotIndex l' = index \<and> lSnapshotTerm l' = t \<and> Term l index = Inr t
       \<and> lAppliedIndex l' = lAppliedIndex l \<and> lCommitIndex l' = lCommitIndex l
       \<and> lLastIndex l' = lLastIndex l
       \<and> (\<forall>i. index < i \<longrightarrow> EntryAt l' i = EntryAt l i) \<and> (\<forall>i. index \<le> i \<longrightarrow> Term l' i = Term l i)"
proof (cases "index = lSnapshotIndex l")
  case True
  then show ?thesis using c by (auto simp: Compact_def Term_def split: if_splits)
next
  case False
  then have i: "lSnapshotIndex l < index" "index \<le> lAppliedIndex l" and t: "Term l index = Inr t"
    and l': "l' = l\<lparr>lEntries := drop (Suc (pos l index)) (lEntries l), lSnapshotIndex := index, lSnapshotTerm := t\<rparr>"
    using c by (auto simp: Compact_def retainedOffset_ok[OF wf] split: if_splits sum.splits)
  have "index \<le> lLastIndex l" using i wf by (auto simp: log_wf_def)
  from rebase[OF wf i(1) this t, of l'] show ?thesis
    using i wf t by (simp add: l' log_wf_def)
qed

section \<open>The last index of a term\<close>

lemma find_rev_last:
  "find P (rev xs) = Some x \<Longrightarrow> \<exists>i < length xs. x = xs ! i \<and> P x \<and> (\<forall>j < length xs. i < j \<longrightarrow> \<not> P (xs ! j))"
proof (induction xs rule: rev_induct)
  case (snoc y ys)
  show ?case
  proof (cases "P y")
    case True
    with snoc.prems show ?thesis by (intro exI[of _ "length ys"]) auto
  next
    case False
    then obtain i where "i < length ys" "x = ys ! i" "P x" "\<forall>j < length ys. i < j \<longrightarrow> \<not> P (ys ! j)"
      using snoc by auto
    then show ?thesis using False by (intro exI[of _ i]) (auto simp: nth_append less_Suc_eq)
  qed
qed simp

lemma retained_term:
  assumes wf: "log_wf l" and i: "i < length (lEntries l)"
  shows "Term l (eIndex (lEntries l ! i)) = Inr (eTerm (lEntries l ! i))"
    and "unat (eIndex (lEntries l ! i)) = unat (lSnapshotIndex l) + i + 1"
proof -
  show idx: "unat (eIndex (lEntries l ! i)) = unat (lSnapshotIndex l) + i + 1"
    using wf i by (simp add: log_wf_def contiguous_def)
  then have "lSnapshotIndex l < eIndex (lEntries l ! i)" "eIndex (lEntries l ! i) \<le> lLastIndex l"
      "pos l (eIndex (lEntries l ! i)) = i"
    using wf i by (auto simp: log_wf_def word_less_nat_alt word_le_nat_alt pos_def)
  then show "Term l (eIndex (lEntries l ! i)) = Inr (eTerm (lEntries l ! i))"
    by (auto simp: Term_ok[OF wf])
qed

lemma Term_retained:
  assumes wf: "log_wf l" and t: "Term l j = Inr t" and j: "lSnapshotIndex l < j"
  shows "\<exists>i < length (lEntries l). eTerm (lEntries l ! i) = t \<and> unat j = unat (lSnapshotIndex l) + i + 1"
proof -
  have "j \<le> lLastIndex l" "eTerm (lEntries l ! pos l j) = t"
    using t j by (auto simp: Term_ok[OF wf] split: if_splits)
  then show ?thesis
    using pos_bound[OF wf j] j by (intro exI[of _ "pos l j"]) (auto simp: pos_def word_less_nat_alt)
qed

text \<open>
  \<open>LastIndexOfTerm\<close> finds the greatest available index of a term, the base included, and says
  so when there is none.
\<close>

theorem LastIndexOfTerm_greatest:
  assumes wf: "log_wf l" and nz: "t \<noteq> 0"
  shows "case LastIndexOfTerm l t of
       Some i \<Rightarrow> Term l i = Inr t \<and> (\<forall>j. i < j \<longrightarrow> Term l j \<noteq> Inr t)
     | None \<Rightarrow> \<forall>j. Term l j \<noteq> Inr t"
proof (cases "find (\<lambda>e. eTerm e = t) (rev (lEntries l))")
  case (Some e)
  obtain i where i: "i < length (lEntries l)" "e = lEntries l ! i" "eTerm e = t"
      "\<forall>j < length (lEntries l). i < j \<longrightarrow> eTerm (lEntries l ! j) \<noteq> t"
    using find_rev_last[OF Some] by blast
  note at = retained_term[OF wf i(1), folded i(2)]
  have "Term l j \<noteq> Inr t" if j: "eIndex e < j" for j
  proof
    assume t: "Term l j = Inr t"
    have "lSnapshotIndex l < j" using j at(2) by (simp add: word_less_nat_alt)
    from Term_retained[OF wf t this] i(4) j at(2) show False by (auto simp: word_less_nat_alt)
  qed
  then show ?thesis using Some at i(3) by (simp add: LastIndexOfTerm_def)
next
  case None
  then have none: "\<forall>i < length (lEntries l). eTerm (lEntries l ! i) \<noteq> t"
    by (auto simp: find_None_iff)
  have others: "Term l j \<noteq> Inr t" if "j \<noteq> lSnapshotIndex l" for j
  proof (cases "j < lSnapshotIndex l")
    case False
    then have "lSnapshotIndex l < j" using that by simp
    then show ?thesis using Term_retained[OF wf, of j t] none by blast
  qed (simp add: Term_def)
  have base: "Term l (lSnapshotIndex l) = Inr (lSnapshotTerm l)" by (simp add: Term_def)
  show ?thesis
  proof (cases "lSnapshotTerm l = t")
    case True
    then show ?thesis using None nz wf others base by (auto simp: LastIndexOfTerm_def log_wf_def)
  next
    case False
    then have "Term l j \<noteq> Inr t" for j using others base by (cases "j = lSnapshotIndex l") auto
    then show ?thesis using None False by (simp add: LastIndexOfTerm_def)
  qed
qed

section \<open>The properties at work\<close>

text \<open>A log compacted at index 2 that holds entries 3, 4 and 5, the first of them committed.\<close>

definition demo_entry :: "u64 \<Rightarrow> u64 \<Rightarrow> Entry" where
  "demo_entry i t = \<lparr>eIndex = i, eTerm = t, eKind = EntryNoOp, eCommand = []\<rparr>"

definition demo_log :: Log where
  "demo_log = \<lparr>lSnapshotIndex = 2, lSnapshotTerm = 1, lCommitIndex = 3, lAppliedIndex = 3, lLastIndex = 5,
     lEntries = [demo_entry 3 1, demo_entry 4 2, demo_entry 5 2]\<rparr>"

lemma demo_log_new: "NewLog 2 1 3 3 [demo_entry 3 1, demo_entry 4 2, demo_entry 5 2] = Inr demo_log"
  by code_simp

lemma demo_log_wf: "log_wf demo_log"
  using NewLog_wf[OF demo_log_new] .

lemma demo_append:
  "Append 3 1 [demo_entry 4 3] demo_log
     = (demo_log\<lparr>lEntries := [demo_entry 3 1, demo_entry 4 3], lLastIndex := 4\<rparr>, zero_ConflictHint, None)"
  by code_simp

lemma demo_compact:
  "Compact 3 1 demo_log
     = (demo_log\<lparr>lEntries := [demo_entry 4 2, demo_entry 5 2], lSnapshotIndex := 3\<rparr>, None)"
  by code_simp

lemma demo_step: "log_step\<^sup>*\<^sup>* demo_log (demo_log\<lparr>lEntries := [demo_entry 3 1, demo_entry 4 3], lLastIndex := 4\<rparr>)"
  using log_step.append[OF demo_append] by (rule r_into_rtranclp)

theorem log_invariant_witness:
  "log_wf (demo_log\<lparr>lEntries := [demo_entry 3 1, demo_entry 4 3], lLastIndex := 4\<rparr>)"
  using log_invariant[OF demo_log_new demo_step] .

theorem log_committed_stable_witness:
  "EntryAt (demo_log\<lparr>lEntries := [demo_entry 3 1, demo_entry 4 3], lLastIndex := 4\<rparr>) 3 = EntryAt demo_log 3
   \<and> EntryAt demo_log 3 = Inr (demo_entry 3 1)"
  using log_committed_stable[OF demo_log_new rtranclp.rtrancl_refl demo_step]
  by (simp add: demo_log_def EntryAt_def retainedOffset_def Let_def)

theorem Append_refines_spec_witness:
  "append_spec 3 1 [demo_entry 4 3] demo_log
     (demo_log\<lparr>lEntries := [demo_entry 3 1, demo_entry 4 3], lLastIndex := 4\<rparr>)"
  using Append_refines_spec[OF demo_log_wf] demo_append by blast

theorem Append_contains_batch_witness:
  "\<exists>e. EntryAt (demo_log\<lparr>lEntries := [demo_entry 3 1, demo_entry 4 3], lLastIndex := 4\<rparr>) 4 = Inr e \<and> eTerm e = 3"
  using Append_contains_batch[OF demo_log_wf demo_append] by (auto simp: demo_entry_def)

theorem Append_idempotent_witness:
  "let l' = demo_log\<lparr>lEntries := [demo_entry 3 1, demo_entry 4 3], lLastIndex := 4\<rparr>
   in Append 3 1 [demo_entry 4 3] l' = (l', zero_ConflictHint, None)"
  using Append_idempotent[OF demo_log_wf demo_append] by (simp add: Let_def)

lemma demo_mismatch: "Append 5 3 [] demo_log = (demo_log, \<lparr>chTerm = 2, chIndex = 4\<rparr>, Some ErrLogMismatch)"
  by code_simp

theorem Append_hint_witness: "Term demo_log 4 = Inr 2 \<and> Term demo_log 3 \<noteq> Inr 2"
  using Append_hint[OF demo_log_wf demo_mismatch] by (auto simp: demo_log_def)

theorem Compact_keeps_lookups_witness:
  "EntryAt (demo_log\<lparr>lEntries := [demo_entry 4 2, demo_entry 5 2], lSnapshotIndex := 3\<rparr>) 5 = EntryAt demo_log 5"
  using Compact_keeps_lookups[OF demo_log_wf demo_compact] by simp

theorem LastIndexOfTerm_greatest_witness: "LastIndexOfTerm demo_log 2 = Some 5 \<and> Term demo_log 5 = Inr 2"
proof -
  have "LastIndexOfTerm demo_log 2 = Some 5" by code_simp
  then show ?thesis using LastIndexOfTerm_greatest[OF demo_log_wf, of 2] by simp
qed

end
