(* ===== verification/Raft_Snapshot.thy ===== *)
theory Raft_Snapshot
  imports Raft_Messages
begin

text \<open>
  The portable snapshot envelope of \<open>internal/raft/snapshot.go\<close>: its construction and its
  validation.  SHA-256 (package \<open>crypto/sha256\<close>) is the parameter \<open>sha256\<close>, any function from
  byte strings to 32 bytes.  The lemmas show that a constructed envelope decodes to the snapshot
  it was made from, and that nothing but a constructed envelope is accepted.
\<close>

section \<open>The code\<close>

definition SnapshotFormatVersion1 :: u16 where "SnapshotFormatVersion1 = 1"

definition MaxRaftSnapshotBytes :: u64 where "MaxRaftSnapshotBytes = 1073741824"

definition MaxInt :: u64 where "MaxInt = 9223372036854775807"

definition snapshotEnvelopeMagic :: bytes where
  "snapshotEnvelopeMagic = map of_char ''RFSN''"

definition snapshotEnvelopeClusterOffset :: nat where "snapshotEnvelopeClusterOffset = 6"
definition snapshotEnvelopeVotersOffset :: nat where "snapshotEnvelopeVotersOffset = 22"
definition snapshotEnvelopeIndexOffset :: nat where "snapshotEnvelopeIndexOffset = 54"
definition snapshotEnvelopeTermOffset :: nat where "snapshotEnvelopeTermOffset = 62"
definition snapshotEnvelopeSchemaOffset :: nat where "snapshotEnvelopeSchemaOffset = 70"
definition snapshotEnvelopeStateLengthOffset :: nat where "snapshotEnvelopeStateLengthOffset = 74"
definition snapshotEnvelopeStateChecksumOffset :: nat where "snapshotEnvelopeStateChecksumOffset = 82"
definition snapshotEnvelopeChecksumOffset :: nat where "snapshotEnvelopeChecksumOffset = 114"
definition snapshotEnvelopeHeaderBytes :: nat where "snapshotEnvelopeHeaderBytes = 146"

lemmas envelope_offsets =
  snapshotEnvelopeClusterOffset_def snapshotEnvelopeVotersOffset_def snapshotEnvelopeIndexOffset_def
  snapshotEnvelopeTermOffset_def snapshotEnvelopeSchemaOffset_def snapshotEnvelopeStateLengthOffset_def
  snapshotEnvelopeStateChecksumOffset_def snapshotEnvelopeChecksumOffset_def
  snapshotEnvelopeHeaderBytes_def

record Snapshot =
  snMetadata :: SnapshotMetadata
  snID :: SnapshotID
  snStateChecksum :: SnapshotChecksum
  snState :: bytes
  snEnvelope :: bytes

definition validateSnapshotInputs ::
  "StorageIdentity \<Rightarrow> SnapshotMetadata \<Rightarrow> u64 \<Rightarrow> u64 \<Rightarrow> raft_error option" where
  "validateSnapshotInputs identity metadata stateLength maximumStateBytes =
     (if siClusterID identity = 0 \<or> siVoterFingerprint identity = 0 then Some ErrInvalidSnapshot
      else if smLastIncludedIndex metadata = 0 \<or> smLastIncludedTerm metadata = 0
            \<or> smSchemaVersion metadata = 0 then Some ErrInvalidSnapshot
      else if maximumStateBytes = 0 \<or> maximumStateBytes > MaxRaftSnapshotBytes then Some ErrInvalidSnapshot
      else if stateLength > maximumStateBytes then Some ErrInvalidSnapshot
      else None)"

text \<open>
  The bytes of the envelope with the given content of its checksum field.  \<open>NewSnapshot\<close> fills a
  zeroed buffer field by field and writes the checksum of that buffer last.
\<close>

definition envelopeBytes ::
  "StorageIdentity \<Rightarrow> SnapshotMetadata \<Rightarrow> bytes32 \<Rightarrow> bytes \<Rightarrow> bytes32 \<Rightarrow> bytes" where
  "envelopeBytes identity metadata stateChecksum state checksum =
     snapshotEnvelopeMagic @ be_bytes 2 SnapshotFormatVersion1
     @ be_bytes 16 (siClusterID identity) @ be_bytes 32 (siVoterFingerprint identity)
     @ be_bytes 8 (smLastIncludedIndex metadata) @ be_bytes 8 (smLastIncludedTerm metadata)
     @ be_bytes 4 (smSchemaVersion metadata) @ be_bytes 8 (len64 state)
     @ be_bytes 32 stateChecksum @ be_bytes 32 checksum @ state"

definition snapshotIDOf :: "bytes32 \<Rightarrow> SnapshotID" where
  "snapshotIDOf checksum = be_word (take 16 (be_bytes 32 checksum))"

definition NewSnapshot ::
  "(bytes \<Rightarrow> bytes32) \<Rightarrow> StorageIdentity \<Rightarrow> SnapshotMetadata \<Rightarrow> bytes \<Rightarrow> u64 \<Rightarrow> raft_error + Snapshot" where
  "NewSnapshot sha256 identity metadata state maximumStateBytes =
     (case validateSnapshotInputs identity metadata (len64 state) maximumStateBytes of
        Some err \<Rightarrow> Inl err
      | None \<Rightarrow>
          if len64 state > MaxInt - of_nat snapshotEnvelopeHeaderBytes then Inl ErrInvalidSnapshot
          else let stateChecksum = sha256 state;
                   envelopeChecksum = sha256 (envelopeBytes identity metadata stateChecksum state 0)
               in Inr \<lparr>snMetadata = metadata, snID = snapshotIDOf envelopeChecksum,
                       snStateChecksum = stateChecksum, snState = state,
                       snEnvelope = envelopeBytes identity metadata stateChecksum state envelopeChecksum\<rparr>)"

definition DecodeSnapshotEnvelope ::
  "(bytes \<Rightarrow> bytes32) \<Rightarrow> bytes \<Rightarrow> StorageIdentity \<Rightarrow> u64 \<Rightarrow> raft_error + Snapshot" where
  "DecodeSnapshotEnvelope sha256 envelope expected maximumStateBytes =
     (if length envelope < snapshotEnvelopeHeaderBytes then Inl ErrInvalidSnapshot
      else if segment 0 4 envelope \<noteq> snapshotEnvelopeMagic then Inl ErrInvalidSnapshot
      else if (be_word (segment 4 6 envelope) :: u16) \<noteq> SnapshotFormatVersion1 then Inl ErrInvalidSnapshot
      else if segment snapshotEnvelopeClusterOffset snapshotEnvelopeVotersOffset envelope
                \<noteq> be_bytes 16 (siClusterID expected)
            \<or> segment snapshotEnvelopeVotersOffset snapshotEnvelopeIndexOffset envelope
                \<noteq> be_bytes 32 (siVoterFingerprint expected) then Inl ErrInvalidSnapshot
      else
        let metadata = \<lparr>smLastIncludedIndex = be_word (segment snapshotEnvelopeIndexOffset snapshotEnvelopeTermOffset envelope),
                        smLastIncludedTerm = be_word (segment snapshotEnvelopeTermOffset snapshotEnvelopeSchemaOffset envelope),
                        smSchemaVersion = be_word (segment snapshotEnvelopeSchemaOffset snapshotEnvelopeStateLengthOffset envelope)\<rparr>;
            stateLength = be_word (segment snapshotEnvelopeStateLengthOffset snapshotEnvelopeStateChecksumOffset envelope)
        in case validateSnapshotInputs expected metadata stateLength maximumStateBytes of
          Some err \<Rightarrow> Inl err
        | None \<Rightarrow>
            if stateLength > MaxInt \<or> stateLength > MaxUint64 - of_nat snapshotEnvelopeHeaderBytes
            then Inl ErrInvalidSnapshot
            else if unat (of_nat snapshotEnvelopeHeaderBytes + stateLength) \<noteq> length envelope
            then Inl ErrInvalidSnapshot
            else
              let zeroed = take snapshotEnvelopeChecksumOffset envelope @ replicate 32 0
                           @ drop snapshotEnvelopeHeaderBytes envelope;
                  gotEnvelopeChecksum = sha256 zeroed;
                  state = drop snapshotEnvelopeHeaderBytes envelope
              in if be_bytes 32 gotEnvelopeChecksum
                      \<noteq> segment snapshotEnvelopeChecksumOffset snapshotEnvelopeHeaderBytes envelope
                 then Inl ErrInvalidSnapshot
                 else if be_bytes 32 (sha256 state)
                      \<noteq> segment snapshotEnvelopeStateChecksumOffset snapshotEnvelopeChecksumOffset envelope
                 then Inl ErrInvalidSnapshot
                 else Inr \<lparr>snMetadata = metadata, snID = snapshotIDOf gotEnvelopeChecksum,
                           snStateChecksum = sha256 state, snState = state, snEnvelope = envelope\<rparr>)"

record snapshotTransferMetadata =
  tmLeaderID :: u16
  tmTerm :: u64
  tmTransferID :: TransferID
  tmSnapshotID :: SnapshotID
  tmMetadata :: SnapshotMetadata
  tmTotalLength :: u64
  tmChecksum :: SnapshotChecksum

definition snapshotTransferMetadataFor :: "InstallSnapshotRequest \<Rightarrow> snapshotTransferMetadata" where
  "snapshotTransferMetadataFor request =
     \<lparr>tmLeaderID = iqLeaderID request, tmTerm = iqTerm request, tmTransferID = iqTransferID request,
      tmSnapshotID = iqSnapshotID request,
      tmMetadata = \<lparr>smLastIncludedIndex = iqLastIncludedIndex request,
                    smLastIncludedTerm = iqLastIncludedTerm request,
                    smSchemaVersion = iqSchemaVersion request\<rparr>,
      tmTotalLength = iqTotalLength request, tmChecksum = iqChecksum request\<rparr>"

section \<open>The layout\<close>

lemma length_magic [simp]: "length snapshotEnvelopeMagic = 4"
  by (simp add: snapshotEnvelopeMagic_def)

lemma length_envelopeBytes [simp]:
  "length (envelopeBytes identity metadata stateChecksum state checksum) = 146 + length state"
  by (simp add: envelopeBytes_def)

text \<open>Each field of a constructed envelope is found at its offset.\<close>

lemma envelope_fields:
  fixes identity :: StorageIdentity and metadata :: SnapshotMetadata
    and stateChecksum checksum :: bytes32 and state :: bytes
  defines "env \<equiv> envelopeBytes identity metadata stateChecksum state checksum"
  shows "segment 0 4 env = snapshotEnvelopeMagic"
    and "segment 4 6 env = be_bytes 2 SnapshotFormatVersion1"
    and "segment 6 22 env = be_bytes 16 (siClusterID identity)"
    and "segment 22 54 env = be_bytes 32 (siVoterFingerprint identity)"
    and "segment 54 62 env = be_bytes 8 (smLastIncludedIndex metadata)"
    and "segment 62 70 env = be_bytes 8 (smLastIncludedTerm metadata)"
    and "segment 70 74 env = be_bytes 4 (smSchemaVersion metadata)"
    and "segment 74 82 env = be_bytes 8 (len64 state)"
    and "segment 82 114 env = be_bytes 32 stateChecksum"
    and "segment 114 146 env = be_bytes 32 checksum"
    and "drop 146 env = state"
    and "take 114 env @ replicate 32 0 @ state = envelopeBytes identity metadata stateChecksum state 0"
  by (simp_all add: env_def envelopeBytes_def segment_def be_bytes_zero)

text \<open>Conversely, an envelope is determined by its fields.\<close>

lemma split_fields:
  assumes "146 \<le> length env"
  shows "env = segment 0 4 env @ segment 4 6 env @ segment 6 22 env @ segment 22 54 env @ segment 54 62 env
    @ segment 62 70 env @ segment 70 74 env @ segment 74 82 env @ segment 82 114 env @ segment 114 146 env @ drop 146 env"
  using assms by (simp add: append_segments flip: append_assoc) (simp add: segment_def)

lemma state_length:
  assumes "unat (146 + n :: u64) = length env" "n \<le> MaxUint64 - 146"
  shows "len64 (drop 146 env) = n"
proof -
  have "unat (146 + n) = 146 + unat n"
    using assms(2) by (subst unat_add_lem[THEN iffD1]) (auto simp: word_le_nat_alt unat_MaxUint64 unat_sub_le)
  then show ?thesis using assms(1) by (metis add_diff_cancel_left' length_drop of_nat_unat ucast_id)
qed

section \<open>Round trips\<close>

lemma decode_NewSnapshot:
  assumes "NewSnapshot sha256 identity metadata state limit = Inr s" and "length state \<le> unat MaxInt"
  shows "DecodeSnapshotEnvelope sha256 (snEnvelope s) identity limit = Inr s"
proof -
  have small: "length state < 2 ^ 64 - 146"
    using assms(2) by (simp add: MaxInt_def)
  have len: "unat (len64 state) = length state"
    using small by (intro unat_of_nat_u64) simp
  have valid: "validateSnapshotInputs identity metadata (len64 state) limit = None"
      "\<not> len64 state > MaxInt - 146"
    and s: "s = \<lparr>snMetadata = metadata, snID = snapshotIDOf (sha256 (envelopeBytes identity metadata (sha256 state) state 0)),
        snStateChecksum = sha256 state, snState = state,
        snEnvelope = envelopeBytes identity metadata (sha256 state) state
          (sha256 (envelopeBytes identity metadata (sha256 state) state 0))\<rparr>"
    using assms(1) by (auto simp: NewSnapshot_def Let_def envelope_offsets split: option.splits if_splits)
  have "\<not> len64 state > MaxInt" "\<not> len64 state > MaxUint64 - 146"
    using len small assms(2) by (auto simp: word_less_nat_alt unat_MaxUint64 unat_sub_le)
  moreover have "unat (146 + len64 state :: u64) = 146 + length state"
    using len small by (subst unat_add_lem[THEN iffD1]) auto
  ultimately show ?thesis
    using valid(1)
    by (cases metadata) (simp add: s DecodeSnapshotEnvelope_def envelope_offsets envelope_fields Let_def)
qed

text \<open>
  C39.  A snapshot built by \<open>NewSnapshot\<close> survives its envelope: decoding the envelope under the same
  identity and limit returns that very snapshot.  (A Go slice has at most \<open>MaxInt\<close> elements.)
\<close>

theorem snapshot_decode_encode:
  assumes "NewSnapshot sha256 identity metadata state limit = Inr s" and "length state \<le> unat MaxInt"
  shows "DecodeSnapshotEnvelope sha256 (snEnvelope s) identity limit = Inr s"
  using decode_NewSnapshot[OF assms] .

text \<open>
  C40.  Only canonical envelopes are accepted: whatever byte string decodes successfully is exactly
  the envelope \<open>NewSnapshot\<close> builds from the metadata and state it decodes to.
\<close>

theorem snapshot_encode_decode:
  assumes "DecodeSnapshotEnvelope sha256 env identity limit = Inr s"
  shows "NewSnapshot sha256 identity (snMetadata s) (snState s) limit = Inr s \<and> snEnvelope s = env"
proof -
  define n :: u64 where "n = be_word (segment 74 82 env)"
  define md where "md = \<lparr>smLastIncludedIndex = be_word (segment 54 62 env),
    smLastIncludedTerm = be_word (segment 62 70 env), smSchemaVersion = be_word (segment 70 74 env)\<rparr>"
  let ?zeroed = "take 114 env @ replicate 32 0 @ drop 146 env"
  have d: "146 \<le> length env" "segment 0 4 env = snapshotEnvelopeMagic"
      "(be_word (segment 4 6 env) :: u16) = SnapshotFormatVersion1"
      "segment 6 22 env = be_bytes 16 (siClusterID identity)" "segment 22 54 env = be_bytes 32 (siVoterFingerprint identity)"
      "validateSnapshotInputs identity md n limit = None"
      "n \<le> MaxInt" "n \<le> MaxUint64 - 146" "unat (146 + n) = length env"
      "be_bytes 32 (sha256 ?zeroed) = segment 114 146 env"
      "be_bytes 32 (sha256 (drop 146 env)) = segment 82 114 env"
    and s: "s = \<lparr>snMetadata = md, snID = snapshotIDOf (sha256 ?zeroed), snStateChecksum = sha256 (drop 146 env),
        snState = drop 146 env, snEnvelope = env\<rparr>"
    using assms
    by (auto simp: DecodeSnapshotEnvelope_def envelope_offsets Let_def n_def md_def not_less
        split: if_splits option.splits)
  have len: "len64 (drop 146 env) = n" by (rule state_length[OF d(9,8)])
  have fields: "segment 4 6 env = be_bytes 2 SnapshotFormatVersion1"
      "segment 54 62 env = be_bytes 8 (smLastIncludedIndex md)"
      "segment 62 70 env = be_bytes 8 (smLastIncludedTerm md)"
      "segment 70 74 env = be_bytes 4 (smSchemaVersion md)"
      "segment 74 82 env = be_bytes 8 n"
    using d(1) by (simp_all add: be_bytes_be_word md_def n_def flip: d(3))
  have env: "env = envelopeBytes identity md (sha256 (drop 146 env)) (drop 146 env) (sha256 ?zeroed)"
    unfolding envelopeBytes_def len d(2,4,5,10,11)[symmetric] fields[symmetric]
    using split_fields[OF d(1)] by (simp add: d(2,4,5,10,11))
  have "?zeroed = envelopeBytes identity md (sha256 (drop 146 env)) (drop 146 env) 0"
    using envelope_fields(12)[of identity md "sha256 (drop 146 env)" "drop 146 env" "sha256 ?zeroed"]
    by (simp flip: env)
  moreover have "\<not> n > MaxInt - 146"
    using d(6) by (auto simp: validateSnapshotInputs_def MaxRaftSnapshotBytes_def MaxInt_def word_less_nat_alt
        split: if_splits)
  ultimately show ?thesis
    using env d(6) len by (simp add: s NewSnapshot_def Let_def envelope_offsets)
qed

section \<open>A concrete snapshot\<close>

definition demo_identity :: StorageIdentity where
  "demo_identity = \<lparr>siFormatVersion = 1, siClusterID = 9, siLocalVoterID = 1, siVoterFingerprint = 5\<rparr>"

definition demo_metadata :: SnapshotMetadata where
  "demo_metadata = \<lparr>smLastIncludedIndex = 2, smLastIncludedTerm = 1, smSchemaVersion = 1\<rparr>"

text \<open>A stand-in for SHA-256 that depends on its input.\<close>

definition demo_sha256 :: "bytes \<Rightarrow> bytes32" where
  "demo_sha256 bs = word_of_nat (length bs) + be_word (rev (take 4 bs))"

definition demo_snapshot :: Snapshot where
  "demo_snapshot = (case NewSnapshot demo_sha256 demo_identity demo_metadata [1, 2, 3] 1024 of Inr s \<Rightarrow> s)"

lemma demo_snapshot_new: "NewSnapshot demo_sha256 demo_identity demo_metadata [1, 2, 3] 1024 = Inr demo_snapshot"
  by (simp add: demo_snapshot_def NewSnapshot_def validateSnapshotInputs_def demo_identity_def
      demo_metadata_def MaxRaftSnapshotBytes_def MaxInt_def envelope_offsets Let_def)

theorem snapshot_decode_encode_witness:
  "DecodeSnapshotEnvelope demo_sha256 (snEnvelope demo_snapshot) demo_identity 1024 = Inr demo_snapshot"
  using snapshot_decode_encode[OF demo_snapshot_new] by (simp add: MaxInt_def)

lemma demo_snapshot_decodes:
  "DecodeSnapshotEnvelope demo_sha256 (snEnvelope demo_snapshot) demo_identity 1024 = Inr demo_snapshot"
  using decode_NewSnapshot[OF demo_snapshot_new] by (simp add: MaxInt_def)

theorem snapshot_encode_decode_witness:
  "NewSnapshot demo_sha256 demo_identity (snMetadata demo_snapshot) (snState demo_snapshot) 1024 = Inr demo_snapshot"
  using snapshot_encode_decode[OF demo_snapshot_decodes] by simp

end
