(* ===== verification/Raft_Codec.thy ===== *)
theory Raft_Codec
  imports Raft_Snapshot
begin

text \<open>
  The canonical peer codec of \<open>internal/raft/codec.go\<close>.  An encoder appends to its payload under
  a size limit and a decoder consumes a prefix of what remains of its payload; both stop at the
  first error.  The state of a decoder is the unread suffix (the code keeps the payload and an
  offset), so reading with \<open>copy(*d)\<close> and resetting the offset is running on the same suffix twice.
\<close>

section \<open>Limits\<close>

definition MaxRPCPayloadBytes :: u64 where "MaxRPCPayloadBytes = 8388608 - 55 - 32"
definition minimumEntryBytes :: nat where "minimumEntryBytes = 8 + 8 + 1 + 4"
definition MaxRaftCommandBytes :: u64 where "MaxRaftCommandBytes = 1048576"
definition MaxRaftSnapshotChunkBytes :: u64 where "MaxRaftSnapshotChunkBytes = 262144"
definition MaxUint32 :: u64 where "MaxUint32 = 4294967295"
definition RPCSchemaVersion :: u16 where "RPCSchemaVersion = 1"
definition HandshakeSchemaVersion :: u16 where "HandshakeSchemaVersion = 2"

record CodecLimits =
  clMaxAppendEntries :: u16
  clMaxCommandBytes :: u64
  clMaxSnapshotChunkBytes :: u64
  clMaxSnapshotBytes :: u64
  clMaxEncodedBytes :: u64

text \<open>64 is \<open>config.DefaultRaftConfig().MaxAppendEntries\<close>.\<close>

definition DefaultCodecLimits :: CodecLimits where
  "DefaultCodecLimits = \<lparr>clMaxAppendEntries = 64, clMaxCommandBytes = MaxRaftCommandBytes,
     clMaxSnapshotChunkBytes = MaxRaftSnapshotChunkBytes, clMaxSnapshotBytes = MaxRaftSnapshotBytes,
     clMaxEncodedBytes = MaxRPCPayloadBytes\<rparr>"

text \<open>The five defaulting assignments of \<open>resolveCodecLimits\<close>, then its checks.\<close>

definition withDefaultLimits :: "CodecLimits \<Rightarrow> CodecLimits" where
  "withDefaultLimits limits =
     \<lparr>clMaxAppendEntries = (if clMaxAppendEntries limits = 0
        then clMaxAppendEntries DefaultCodecLimits else clMaxAppendEntries limits),
      clMaxCommandBytes = (if clMaxCommandBytes limits = 0
        then clMaxCommandBytes DefaultCodecLimits else clMaxCommandBytes limits),
      clMaxSnapshotChunkBytes = (if clMaxSnapshotChunkBytes limits = 0
        then clMaxSnapshotChunkBytes DefaultCodecLimits else clMaxSnapshotChunkBytes limits),
      clMaxSnapshotBytes = (if clMaxSnapshotBytes limits = 0
        then clMaxSnapshotBytes DefaultCodecLimits else clMaxSnapshotBytes limits),
      clMaxEncodedBytes = (if clMaxEncodedBytes limits = 0
        then clMaxEncodedBytes DefaultCodecLimits else clMaxEncodedBytes limits)\<rparr>"

definition resolveCodecLimits :: "CodecLimits \<Rightarrow> raft_error + CodecLimits" where
  "resolveCodecLimits limits0 =
     (let limits = withDefaultLimits limits0; defaults = DefaultCodecLimits
      in if clMaxCommandBytes limits > clMaxCommandBytes defaults then Inl ErrRPCTooLarge
         else if clMaxSnapshotChunkBytes limits > clMaxSnapshotChunkBytes defaults then Inl ErrRPCTooLarge
         else if clMaxSnapshotBytes limits > clMaxSnapshotBytes defaults then Inl ErrRPCTooLarge
         else if clMaxEncodedBytes limits > clMaxEncodedBytes defaults then Inl ErrRPCTooLarge
         else if clMaxCommandBytes limits > MaxUint32 \<or> clMaxSnapshotChunkBytes limits > MaxUint32
           then Inl ErrRPCTooLarge
         else if clMaxEncodedBytes limits > MaxInt then Inl ErrRPCTooLarge
         else Inr limits)"

section \<open>Validation\<close>

definition validDistinctIDs :: "u16 \<Rightarrow> u16 \<Rightarrow> bool" where
  "validDistinctIDs left right \<longleftrightarrow> left \<noteq> 0 \<and> right \<noteq> 0 \<and> left \<noteq> right"

definition validLogPosition :: "u64 \<Rightarrow> u64 \<Rightarrow> bool" where
  "validLogPosition index term \<longleftrightarrow> (index = 0) = (term = 0)"

definition isNextTerm :: "u64 \<Rightarrow> u64 \<Rightarrow> bool" where
  "isNextTerm current prospective \<longleftrightarrow> current \<noteq> MaxUint64 \<and> prospective = current + 1"

text \<open>The loop of \<open>validateAppendRequest\<close>.\<close>

fun validateAppendEntries :: "u64 \<Rightarrow> u64 \<Rightarrow> u64 \<Rightarrow> u64 \<Rightarrow> Entry list \<Rightarrow> raft_error option" where
  "validateAppendEntries maxCommand term expected previousTerm [] = None"
| "validateAppendEntries maxCommand term expected previousTerm (entry # entries) =
     (if expected = MaxUint64 then Some ErrInvalidRPC
      else if eIndex entry \<noteq> expected + 1 \<or> eTerm entry = 0 \<or> eTerm entry < previousTerm
            \<or> eTerm entry > term \<or> (eKind entry \<noteq> EntryCommand \<and> eKind entry \<noteq> EntryNoOp)
        then Some ErrInvalidRPC
      else if length (eCommand entry) > unat maxCommand then Some ErrRPCTooLarge
      else if eKind entry = EntryNoOp \<and> length (eCommand entry) \<noteq> 0 then Some ErrInvalidRPC
      else validateAppendEntries maxCommand term (expected + 1) (eTerm entry) entries)"

definition validateAppendRequest :: "AppendEntriesRequest \<Rightarrow> CodecLimits \<Rightarrow> raft_error option" where
  "validateAppendRequest m limits =
     (if aqLeaderID m = 0 \<or> aqTerm m = 0 \<or> aqGeneration m = 0
        \<or> \<not> validLogPosition (aqPrevLogIndex m) (aqPrevLogTerm m) \<or> aqPrevLogTerm m > aqTerm m
      then Some ErrInvalidRPC
      else if length (aqEntries m) > unat (clMaxAppendEntries limits) then Some ErrRPCTooLarge
      else validateAppendEntries (clMaxCommandBytes limits) (aqTerm m) (aqPrevLogIndex m) (aqPrevLogTerm m)
             (aqEntries m))"

definition validateAppendResponse :: "AppendEntriesResponse \<Rightarrow> raft_error option" where
  "validateAppendResponse m =
     (if \<not> validDistinctIDs (arResponderID m) (arLeaderID m) \<or> arRequestTerm m = 0
        \<or> arTerm m < arRequestTerm m \<or> arGeneration m = 0
      then Some ErrInvalidRPC
      else if arSuccess m then
        (if arTerm m > arRequestTerm m then Some ErrInvalidRPC
         else if arConflictTerm m \<noteq> 0 \<or> arConflictIndex m \<noteq> 0 then Some ErrInvalidRPC
         else None)
      else if arMatchIndex m \<noteq> 0 \<or> arConflictIndex m = 0 then Some ErrInvalidRPC
      else None)"

definition validateSnapshotRequest :: "InstallSnapshotRequest \<Rightarrow> CodecLimits \<Rightarrow> raft_error option" where
  "validateSnapshotRequest m limits =
     (if iqLeaderID m = 0 \<or> iqTerm m = 0 \<or> TransferID_IsZero (iqTransferID m) \<or> iqSnapshotID m = 0
        \<or> iqChecksum m = 0
      then Some ErrInvalidRPC
      else if iqLastIncludedIndex m = 0 \<or> iqLastIncludedTerm m = 0 \<or> iqLastIncludedTerm m > iqTerm m
        \<or> iqSchemaVersion m = 0
      then Some ErrInvalidRPC
      else if iqTotalLength m > clMaxSnapshotBytes limits then Some ErrRPCTooLarge
      else if length (iqChunk m) > unat (clMaxSnapshotChunkBytes limits) then Some ErrRPCTooLarge
      else if iqOffset m > iqTotalLength m \<or> length (iqChunk m) > unat (iqTotalLength m - iqOffset m)
      then Some ErrInvalidRPC
      else if iqDone m \<noteq> (iqOffset m + len64 (iqChunk m) = iqTotalLength m) then Some ErrInvalidRPC
      else if iqTotalLength m \<noteq> 0 \<and> length (iqChunk m) = 0 then Some ErrInvalidRPC
      else None)"

definition validateSnapshotResponse :: "InstallSnapshotResponse \<Rightarrow> CodecLimits \<Rightarrow> raft_error option" where
  "validateSnapshotResponse m limits =
     (if \<not> validDistinctIDs (irResponderID m) (irLeaderID m) \<or> irRequestTerm m = 0
        \<or> irTerm m < irRequestTerm m \<or> TransferID_IsZero (irTransferID m) \<or> irSnapshotID m = 0
      then Some ErrInvalidRPC
      else if irNextOffset m > clMaxSnapshotBytes limits then Some ErrRPCTooLarge
      else if irDone m \<and> \<not> irSuccess m then Some ErrInvalidRPC
      else None)"

fun validateRPC :: "RPC \<Rightarrow> CodecLimits \<Rightarrow> raft_error option" where
  "validateRPC (RHandshake m) limits =
     (if hkSenderID m = 0 \<or> hkVoterFingerprint m = 0 \<or> hkApplicationFingerprint m = 0
      then Some ErrInvalidRPC else None)"
| "validateRPC (RHandshakeAck m) limits =
     (if haResponderID m = 0 \<or> haVoterFingerprint m = 0 \<or> haApplicationFingerprint m = 0
      then Some ErrInvalidRPC else None)"
| "validateRPC (RPreVoteRequest m) limits =
     (if pqCandidateID m = 0 \<or> \<not> isNextTerm (pqCurrentTerm m) (pqProspectiveTerm m)
        \<or> \<not> validLogPosition (pqLastLogIndex m) (pqLastLogTerm m) \<or> pqLastLogTerm m > pqCurrentTerm m
      then Some ErrInvalidRPC else None)"
| "validateRPC (RPreVoteResponse m) limits =
     (if \<not> validDistinctIDs (prResponderID m) (prCandidateID m)
        \<or> \<not> isNextTerm (prRequestCurrentTerm m) (prProspectiveTerm m)
        \<or> (prTerm m > prProspectiveTerm m \<and> prGranted m)
      then Some ErrInvalidRPC else None)"
| "validateRPC (RRequestVoteRequest m) limits =
     (if vqCandidateID m = 0 \<or> vqTerm m = 0 \<or> \<not> validLogPosition (vqLastLogIndex m) (vqLastLogTerm m)
        \<or> vqLastLogTerm m > vqTerm m
      then Some ErrInvalidRPC else None)"
| "validateRPC (RRequestVoteResponse m) limits =
     (if \<not> validDistinctIDs (vrResponderID m) (vrCandidateID m) \<or> vrRequestTerm m = 0
        \<or> vrTerm m < vrRequestTerm m \<or> (vrTerm m > vrRequestTerm m \<and> vrGranted m)
      then Some ErrInvalidRPC else None)"
| "validateRPC (RAppendEntriesRequest m) limits = validateAppendRequest m limits"
| "validateRPC (RAppendEntriesResponse m) limits = validateAppendResponse m"
| "validateRPC (RInstallSnapshotRequest m) limits = validateSnapshotRequest m limits"
| "validateRPC (RInstallSnapshotResponse m) limits = validateSnapshotResponse m limits"
| "validateRPC (RErrorResponse m) limits =
     (if erResponderID m = 0 \<or> erCode m < ProtocolErrorMalformed \<or> erCode m > ProtocolErrorOverloaded
      then Some ErrInvalidRPC else None)"

section \<open>The payload encoder\<close>

type_synonym encoder = "bytes \<Rightarrow> raft_error + bytes"

text \<open>\<open>if err := first(e); err != nil { return err }; return second(e)\<close>\<close>

definition enc_then :: "encoder \<Rightarrow> encoder \<Rightarrow> encoder" where
  "enc_then first second payload =
     (case first payload of Inl err \<Rightarrow> Inl err | Inr payload' \<Rightarrow> second payload')"

definition enc_done :: encoder where
  "enc_done payload = Inr payload"

definition encoder_add :: "u64 \<Rightarrow> bytes \<Rightarrow> encoder" where
  "encoder_add maximum value payload =
     (if length value > unat (maximum - len64 payload) then Inl ErrRPCTooLarge
      else Inr (payload @ value))"

definition encoder_uint8 :: "u64 \<Rightarrow> u8 \<Rightarrow> encoder" where
  "encoder_uint8 maximum value = encoder_add maximum [value]"

definition encoder_uint16 :: "u64 \<Rightarrow> u16 \<Rightarrow> encoder" where
  "encoder_uint16 maximum value = encoder_add maximum (be_bytes 2 value)"

definition encoder_uint32 :: "u64 \<Rightarrow> u32 \<Rightarrow> encoder" where
  "encoder_uint32 maximum value = encoder_add maximum (be_bytes 4 value)"

definition encoder_uint64 :: "u64 \<Rightarrow> u64 \<Rightarrow> encoder" where
  "encoder_uint64 maximum value = encoder_add maximum (be_bytes 8 value)"

definition encoder_boolean :: "u64 \<Rightarrow> bool \<Rightarrow> encoder" where
  "encoder_boolean maximum value = (if value then encoder_uint8 maximum 1 else encoder_uint8 maximum 0)"

definition encoder_bytes32 :: "u64 \<Rightarrow> bytes \<Rightarrow> encoder" where
  "encoder_bytes32 maximum value =
     (if length value > unat MaxUint32 then (\<lambda>_. Inl ErrRPCTooLarge)
      else enc_then (encoder_uint32 maximum (word_of_nat (length value))) (encoder_add maximum value))"

fun encodeUint16s :: "u64 \<Rightarrow> u16 list \<Rightarrow> encoder" where
  "encodeUint16s maximum [] = enc_done"
| "encodeUint16s maximum (v # vs) = enc_then (encoder_uint16 maximum v) (encodeUint16s maximum vs)"

fun encodeUint64s :: "u64 \<Rightarrow> u64 list \<Rightarrow> encoder" where
  "encodeUint64s maximum [] = enc_done"
| "encodeUint64s maximum (v # vs) = enc_then (encoder_uint64 maximum v) (encodeUint64s maximum vs)"

section \<open>Encoding each message\<close>

definition encodeHandshake :: "u64 \<Rightarrow> Handshake \<Rightarrow> encoder" where
  "encodeHandshake maximum m =
     enc_then (encoder_uint16 maximum (hkSenderID m))
    (enc_then (encoder_add maximum (be_bytes 32 (hkVoterFingerprint m)))
      (encoder_add maximum (be_bytes 32 (hkApplicationFingerprint m))))"

definition encodeHandshakeAck :: "u64 \<Rightarrow> HandshakeAck \<Rightarrow> encoder" where
  "encodeHandshakeAck maximum m =
     enc_then (encoder_uint16 maximum (haResponderID m))
    (enc_then (encoder_add maximum (be_bytes 32 (haVoterFingerprint m)))
      (encoder_add maximum (be_bytes 32 (haApplicationFingerprint m))))"

definition encodePreVoteRequest :: "u64 \<Rightarrow> PreVoteRequest \<Rightarrow> encoder" where
  "encodePreVoteRequest maximum m =
     enc_then (encoder_uint16 maximum (pqCandidateID m))
       (encodeUint64s maximum [pqCurrentTerm m, pqProspectiveTerm m, pqLastLogIndex m, pqLastLogTerm m])"

definition encodePreVoteResponse :: "u64 \<Rightarrow> PreVoteResponse \<Rightarrow> encoder" where
  "encodePreVoteResponse maximum m =
     enc_then (encodeUint16s maximum [prResponderID m, prCandidateID m])
    (enc_then (encodeUint64s maximum [prTerm m, prRequestCurrentTerm m, prProspectiveTerm m])
      (encoder_boolean maximum (prGranted m)))"

definition encodeRequestVoteRequest :: "u64 \<Rightarrow> RequestVoteRequest \<Rightarrow> encoder" where
  "encodeRequestVoteRequest maximum m =
     enc_then (encoder_uint16 maximum (vqCandidateID m))
       (encodeUint64s maximum [vqTerm m, vqLastLogIndex m, vqLastLogTerm m])"

definition encodeRequestVoteResponse :: "u64 \<Rightarrow> RequestVoteResponse \<Rightarrow> encoder" where
  "encodeRequestVoteResponse maximum m =
     enc_then (encodeUint16s maximum [vrResponderID m, vrCandidateID m])
    (enc_then (encodeUint64s maximum [vrTerm m, vrRequestTerm m])
      (encoder_boolean maximum (vrGranted m)))"

text \<open>The body of the loop over \<open>m.Entries\<close>, and the loop.\<close>

definition encodeEntry :: "u64 \<Rightarrow> Entry \<Rightarrow> encoder" where
  "encodeEntry maximum entry =
     enc_then (encodeUint64s maximum [eIndex entry, eTerm entry])
    (enc_then (encoder_uint8 maximum (eKind entry))
      (encoder_bytes32 maximum (eCommand entry)))"

fun encodeEntries :: "u64 \<Rightarrow> Entry list \<Rightarrow> encoder" where
  "encodeEntries maximum [] = enc_done"
| "encodeEntries maximum (entry # entries) = enc_then (encodeEntry maximum entry) (encodeEntries maximum entries)"

definition encodeAppendEntriesRequest :: "u64 \<Rightarrow> AppendEntriesRequest \<Rightarrow> encoder" where
  "encodeAppendEntriesRequest maximum m =
     enc_then (encoder_uint16 maximum (aqLeaderID m))
    (enc_then (encodeUint64s maximum [aqTerm m, aqGeneration m, aqPrevLogIndex m, aqPrevLogTerm m, aqLeaderCommit m])
    (enc_then (encoder_uint16 maximum (word_of_nat (length (aqEntries m))))
      (encodeEntries maximum (aqEntries m))))"

definition encodeAppendEntriesResponse :: "u64 \<Rightarrow> AppendEntriesResponse \<Rightarrow> encoder" where
  "encodeAppendEntriesResponse maximum m =
     enc_then (encodeUint16s maximum [arResponderID m, arLeaderID m])
    (enc_then (encodeUint64s maximum [arTerm m, arRequestTerm m, arGeneration m])
    (enc_then (encoder_boolean maximum (arSuccess m))
      (encodeUint64s maximum [arMatchIndex m, arConflictTerm m, arConflictIndex m])))"

definition encodeInstallSnapshotRequest :: "u64 \<Rightarrow> InstallSnapshotRequest \<Rightarrow> encoder" where
  "encodeInstallSnapshotRequest maximum m =
     enc_then (encoder_uint16 maximum (iqLeaderID m))
    (enc_then (encoder_uint64 maximum (iqTerm m))
    (enc_then (encoder_add maximum (be_bytes 16 (iqTransferID m)))
    (enc_then (encoder_add maximum (be_bytes 16 (iqSnapshotID m)))
    (enc_then (encodeUint64s maximum [iqLastIncludedIndex m, iqLastIncludedTerm m])
    (enc_then (encoder_uint32 maximum (iqSchemaVersion m))
    (enc_then (encoder_uint64 maximum (iqTotalLength m))
    (enc_then (encoder_add maximum (be_bytes 32 (iqChecksum m)))
    (enc_then (encoder_uint64 maximum (iqOffset m))
    (enc_then (encoder_bytes32 maximum (iqChunk m))
      (encoder_boolean maximum (iqDone m)))))))))))"

definition encodeInstallSnapshotResponse :: "u64 \<Rightarrow> InstallSnapshotResponse \<Rightarrow> encoder" where
  "encodeInstallSnapshotResponse maximum m =
     enc_then (encodeUint16s maximum [irResponderID m, irLeaderID m])
    (enc_then (encodeUint64s maximum [irTerm m, irRequestTerm m])
    (enc_then (encoder_add maximum (be_bytes 16 (irTransferID m)))
    (enc_then (encoder_add maximum (be_bytes 16 (irSnapshotID m)))
    (enc_then (encoder_uint64 maximum (irNextOffset m))
    (enc_then (encoder_boolean maximum (irSuccess m))
      (encoder_boolean maximum (irDone m)))))))"

definition encodeErrorResponse :: "u64 \<Rightarrow> ErrorResponse \<Rightarrow> encoder" where
  "encodeErrorResponse maximum m =
     enc_then (encoder_uint16 maximum (erCode m))
    (enc_then (encoder_uint16 maximum (erResponderID m))
      (encoder_uint64 maximum (erTerm m)))"

fun schemaVersionForRPC :: "RPC \<Rightarrow> u16" where
  "schemaVersionForRPC (RHandshake m) = HandshakeSchemaVersion"
| "schemaVersionForRPC (RHandshakeAck m) = HandshakeSchemaVersion"
| "schemaVersionForRPC _ = RPCSchemaVersion"

text \<open>The \<open>switch\<close> of \<open>EncodeRPC\<close>.\<close>

fun encodeBody :: "u64 \<Rightarrow> RPC \<Rightarrow> encoder" where
  "encodeBody maximum (RHandshake m) = encodeHandshake maximum m"
| "encodeBody maximum (RHandshakeAck m) = encodeHandshakeAck maximum m"
| "encodeBody maximum (RPreVoteRequest m) = encodePreVoteRequest maximum m"
| "encodeBody maximum (RPreVoteResponse m) = encodePreVoteResponse maximum m"
| "encodeBody maximum (RRequestVoteRequest m) = encodeRequestVoteRequest maximum m"
| "encodeBody maximum (RRequestVoteResponse m) = encodeRequestVoteResponse maximum m"
| "encodeBody maximum (RAppendEntriesRequest m) = encodeAppendEntriesRequest maximum m"
| "encodeBody maximum (RAppendEntriesResponse m) = encodeAppendEntriesResponse maximum m"
| "encodeBody maximum (RInstallSnapshotRequest m) = encodeInstallSnapshotRequest maximum m"
| "encodeBody maximum (RInstallSnapshotResponse m) = encodeInstallSnapshotResponse maximum m"
| "encodeBody maximum (RErrorResponse m) = encodeErrorResponse maximum m"

definition EncodeRPC :: "RPC \<Rightarrow> CodecLimits \<Rightarrow> raft_error + MessageType \<times> bytes" where
  "EncodeRPC rpc limits =
     (case resolveCodecLimits limits of
        Inl err \<Rightarrow> Inl err
      | Inr resolved \<Rightarrow>
          case validateRPC rpc resolved of
            Some err \<Rightarrow> Inl err
          | None \<Rightarrow>
              let maximum = clMaxEncodedBytes resolved
              in case enc_then (encoder_uint16 maximum (schemaVersionForRPC rpc)) (encodeBody maximum rpc) [] of
                   Inl err \<Rightarrow> Inl err
                 | Inr payload \<Rightarrow> Inr (messageType rpc, payload))"

section \<open>The payload decoder\<close>

type_synonym 'a decoder = "bytes \<Rightarrow> raft_error + 'a \<times> bytes"

text \<open>\<open>x, err := first(d); if err != nil { return err }; ...\<close>\<close>

definition dec_then :: "'a decoder \<Rightarrow> ('a \<Rightarrow> 'b decoder) \<Rightarrow> 'b decoder" where
  "dec_then first second d = (case first d of Inl err \<Rightarrow> Inl err | Inr (x, d') \<Rightarrow> second x d')"

definition dec_return :: "'a \<Rightarrow> 'a decoder" where
  "dec_return x d = Inr (x, d)"

definition decoder_take :: "nat \<Rightarrow> bytes decoder" where
  "decoder_take n d = (if n > length d then Inl ErrMalformedRPC else Inr (take n d, drop n d))"

definition decoder_uint8 :: "u8 decoder" where
  "decoder_uint8 = dec_then (decoder_take 1) (\<lambda>bs. dec_return (bs ! 0))"

definition decoder_uint16 :: "u16 decoder" where
  "decoder_uint16 = dec_then (decoder_take 2) (\<lambda>bs. dec_return (be_word bs))"

definition decoder_uint32 :: "u32 decoder" where
  "decoder_uint32 = dec_then (decoder_take 4) (\<lambda>bs. dec_return (be_word bs))"

definition decoder_uint64 :: "u64 decoder" where
  "decoder_uint64 = dec_then (decoder_take 8) (\<lambda>bs. dec_return (be_word bs))"

definition decoder_boolean :: "bool decoder" where
  "decoder_boolean = dec_then decoder_uint8
     (\<lambda>value d. if value > 1 then Inl ErrMalformedRPC else Inr (value = 1, d))"

text \<open>\<open>fixed\<close> for a destination of \<open>n\<close> bytes, read as one word.\<close>

definition decoder_fixed :: "nat \<Rightarrow> 'a::len word decoder" where
  "decoder_fixed n = dec_then (decoder_take n) (\<lambda>bs. dec_return (be_word bs))"

definition decoder_bytes32Borrowed :: "u64 \<Rightarrow> bytes decoder" where
  "decoder_bytes32Borrowed maximum = dec_then decoder_uint32
     (\<lambda>n d. if ucast n > maximum then Inl ErrRPCTooLarge
            else if unat n > length d then Inl ErrMalformedRPC
            else if n = 0 then Inr ([], d)
            else decoder_take (unat n) d)"

fun decodeUint16s :: "nat \<Rightarrow> u16 list decoder" where
  "decodeUint16s 0 = dec_return []"
| "decodeUint16s (Suc n) =
     dec_then decoder_uint16 (\<lambda>v. dec_then (decodeUint16s n) (\<lambda>vs. dec_return (v # vs)))"

fun decodeUint64s :: "nat \<Rightarrow> u64 list decoder" where
  "decodeUint64s 0 = dec_return []"
| "decodeUint64s (Suc n) =
     dec_then decoder_uint64 (\<lambda>v. dec_then (decodeUint64s n) (\<lambda>vs. dec_return (v # vs)))"

section \<open>Decoding each message\<close>

definition decodeHandshake :: "RPC decoder" where
  "decodeHandshake =
     dec_then decoder_uint16 (\<lambda>sender.
     dec_then (decoder_fixed 32) (\<lambda>voters.
     dec_then (decoder_fixed 32) (\<lambda>application.
     dec_return (RHandshake \<lparr>hkSenderID = sender, hkVoterFingerprint = voters,
       hkApplicationFingerprint = application\<rparr>))))"

definition decodeHandshakeAck :: "RPC decoder" where
  "decodeHandshakeAck =
     dec_then decoder_uint16 (\<lambda>responder.
     dec_then (decoder_fixed 32) (\<lambda>voters.
     dec_then (decoder_fixed 32) (\<lambda>application.
     dec_return (RHandshakeAck \<lparr>haResponderID = responder, haVoterFingerprint = voters,
       haApplicationFingerprint = application\<rparr>))))"

definition decodePreVoteRequest :: "RPC decoder" where
  "decodePreVoteRequest =
     dec_then decoder_uint16 (\<lambda>candidate.
     dec_then (decodeUint64s 4) (\<lambda>fields.
     dec_return (RPreVoteRequest \<lparr>pqCandidateID = candidate, pqCurrentTerm = fields ! 0,
       pqProspectiveTerm = fields ! 1, pqLastLogIndex = fields ! 2, pqLastLogTerm = fields ! 3\<rparr>)))"

definition decodePreVoteResponse :: "RPC decoder" where
  "decodePreVoteResponse =
     dec_then (decodeUint16s 2) (\<lambda>ids.
     dec_then (decodeUint64s 3) (\<lambda>fields.
     dec_then decoder_boolean (\<lambda>granted.
     dec_return (RPreVoteResponse \<lparr>prResponderID = ids ! 0, prCandidateID = ids ! 1, prTerm = fields ! 0,
       prRequestCurrentTerm = fields ! 1, prProspectiveTerm = fields ! 2, prGranted = granted\<rparr>))))"

definition decodeRequestVoteRequest :: "RPC decoder" where
  "decodeRequestVoteRequest =
     dec_then decoder_uint16 (\<lambda>candidate.
     dec_then (decodeUint64s 3) (\<lambda>fields.
     dec_return (RRequestVoteRequest \<lparr>vqCandidateID = candidate, vqTerm = fields ! 0,
       vqLastLogIndex = fields ! 1, vqLastLogTerm = fields ! 2\<rparr>)))"

definition decodeRequestVoteResponse :: "RPC decoder" where
  "decodeRequestVoteResponse =
     dec_then (decodeUint16s 2) (\<lambda>ids.
     dec_then (decodeUint64s 2) (\<lambda>fields.
     dec_then decoder_boolean (\<lambda>granted.
     dec_return (RRequestVoteResponse \<lparr>vrResponderID = ids ! 0, vrCandidateID = ids ! 1, vrTerm = fields ! 0,
       vrRequestTerm = fields ! 1, vrGranted = granted\<rparr>))))"

definition decodeBorrowedEntry :: "u64 \<Rightarrow> Entry decoder" where
  "decodeBorrowedEntry maximumCommandBytes =
     dec_then decoder_uint64 (\<lambda>index.
     dec_then decoder_uint64 (\<lambda>term.
     dec_then decoder_uint8 (\<lambda>kind.
     dec_then (decoder_bytes32Borrowed maximumCommandBytes) (\<lambda>command.
     dec_return \<lparr>eIndex = index, eTerm = term, eKind = kind, eCommand = command\<rparr>))))"

text \<open>The first pass over the entries, on the copy \<open>scan\<close>: it checks and returns what is left.\<close>

fun scanEntries :: "u64 \<Rightarrow> u64 \<Rightarrow> nat \<Rightarrow> u64 \<Rightarrow> u64 \<Rightarrow> bytes \<Rightarrow> raft_error + bytes" where
  "scanEntries maxCommand messageTerm 0 expectedIndex previousTerm scan = Inr scan"
| "scanEntries maxCommand messageTerm (Suc n) expectedIndex previousTerm scan =
     (case decodeBorrowedEntry maxCommand scan of
        Inl err \<Rightarrow> Inl err
      | Inr (entry, scan') \<Rightarrow>
          if expectedIndex = MaxUint64 then Inl ErrInvalidRPC
          else if eIndex entry \<noteq> expectedIndex + 1 \<or> eTerm entry = 0 \<or> eTerm entry < previousTerm
                \<or> eTerm entry > messageTerm \<or> (eKind entry \<noteq> EntryCommand \<and> eKind entry \<noteq> EntryNoOp)
            then Inl ErrInvalidRPC
          else if eKind entry = EntryNoOp \<and> length (eCommand entry) \<noteq> 0 then Inl ErrInvalidRPC
          else scanEntries maxCommand messageTerm n (expectedIndex + 1) (eTerm entry) scan')"

text \<open>The second pass, on the decoder itself.\<close>

fun readEntries :: "u64 \<Rightarrow> nat \<Rightarrow> Entry list decoder" where
  "readEntries maxCommand 0 = dec_return []"
| "readEntries maxCommand (Suc n) =
     dec_then (decodeBorrowedEntry maxCommand) (\<lambda>entry.
     dec_then (readEntries maxCommand n) (\<lambda>entries. dec_return (entry # entries)))"

text \<open>From the count on: the bounds, the header, the two passes.\<close>

definition decodeAppendEntries :: "CodecLimits \<Rightarrow> AppendEntriesRequest \<Rightarrow> u16 \<Rightarrow> RPC decoder" where
  "decodeAppendEntries limits message entryCount d =
     (if entryCount > clMaxAppendEntries limits then Inl ErrRPCTooLarge
      else if unat entryCount * minimumEntryBytes > length d then Inl ErrMalformedRPC
      else case validateAppendRequest message limits of
             Some err \<Rightarrow> Inl err
           | None \<Rightarrow>
               case scanEntries (clMaxCommandBytes limits) (aqTerm message) (unat entryCount)
                      (aqPrevLogIndex message) (aqPrevLogTerm message) d of
                 Inl err \<Rightarrow> Inl err
               | Inr scan \<Rightarrow>
                   if length scan \<noteq> 0 then Inl ErrMalformedRPC
                   else dec_then (readEntries (clMaxCommandBytes limits) (unat entryCount))
                          (\<lambda>entries. dec_return (RAppendEntriesRequest (message\<lparr>aqEntries := entries\<rparr>))) d)"

definition decodeAppendEntriesRequest :: "CodecLimits \<Rightarrow> RPC decoder" where
  "decodeAppendEntriesRequest limits =
     dec_then decoder_uint16 (\<lambda>leaderID.
     dec_then (decodeUint64s 5) (\<lambda>fields.
     dec_then decoder_uint16 (\<lambda>count.
       decodeAppendEntries limits
         \<lparr>aqLeaderID = leaderID, aqTerm = fields ! 0, aqGeneration = fields ! 1,
          aqPrevLogIndex = fields ! 2, aqPrevLogTerm = fields ! 3, aqLeaderCommit = fields ! 4,
          aqEntries = []\<rparr> count)))"

definition decodeAppendEntriesResponse :: "RPC decoder" where
  "decodeAppendEntriesResponse =
     dec_then (decodeUint16s 2) (\<lambda>ids.
     dec_then (decodeUint64s 3) (\<lambda>fields.
     dec_then decoder_boolean (\<lambda>success.
     dec_then (decodeUint64s 3) (\<lambda>hints.
     dec_return (RAppendEntriesResponse \<lparr>arResponderID = ids ! 0, arLeaderID = ids ! 1, arTerm = fields ! 0,
       arRequestTerm = fields ! 1, arGeneration = fields ! 2, arSuccess = success, arMatchIndex = hints ! 0,
       arConflictTerm = hints ! 1, arConflictIndex = hints ! 2\<rparr>)))))"

definition decodeInstallSnapshotRequest :: "CodecLimits \<Rightarrow> RPC decoder" where
  "decodeInstallSnapshotRequest limits =
     dec_then decoder_uint16 (\<lambda>leaderID.
     dec_then decoder_uint64 (\<lambda>term.
     dec_then (decoder_fixed 16) (\<lambda>transferID.
     dec_then (decoder_fixed 16) (\<lambda>snapshotID.
     dec_then (decodeUint64s 2) (\<lambda>metadata.
     dec_then decoder_uint32 (\<lambda>schema.
     dec_then decoder_uint64 (\<lambda>totalLength d.
       if totalLength > clMaxSnapshotBytes limits then Inl ErrRPCTooLarge
       else
        dec_then (decoder_fixed 32) (\<lambda>checksum.
        dec_then decoder_uint64 (\<lambda>offset.
        dec_then (decoder_bytes32Borrowed (clMaxSnapshotChunkBytes limits)) (\<lambda>chunk.
        dec_then decoder_boolean (\<lambda>is_done d'.
          if length d' \<noteq> 0 then Inl ErrMalformedRPC
          else
            let message = \<lparr>iqLeaderID = leaderID, iqTerm = term, iqTransferID = transferID,
                  iqSnapshotID = snapshotID, iqLastIncludedIndex = metadata ! 0, iqLastIncludedTerm = metadata ! 1,
                  iqSchemaVersion = schema, iqTotalLength = totalLength, iqChecksum = checksum,
                  iqOffset = offset, iqChunk = chunk, iqDone = is_done\<rparr>
            in case validateSnapshotRequest message limits of
                 Some err \<Rightarrow> Inl err
               | None \<Rightarrow> Inr (RInstallSnapshotRequest message, d'))))) d)))))))"

definition decodeInstallSnapshotResponse :: "RPC decoder" where
  "decodeInstallSnapshotResponse =
     dec_then (decodeUint16s 2) (\<lambda>ids.
     dec_then (decodeUint64s 2) (\<lambda>fields.
     dec_then (decoder_fixed 16) (\<lambda>transferID.
     dec_then (decoder_fixed 16) (\<lambda>snapshotID.
     dec_then decoder_uint64 (\<lambda>nextOffset.
     dec_then decoder_boolean (\<lambda>success.
     dec_then decoder_boolean (\<lambda>is_done.
     dec_return (RInstallSnapshotResponse \<lparr>irResponderID = ids ! 0, irLeaderID = ids ! 1, irTerm = fields ! 0,
       irRequestTerm = fields ! 1, irTransferID = transferID, irSnapshotID = snapshotID,
       irNextOffset = nextOffset, irSuccess = success, irDone = is_done\<rparr>))))))))"

definition decodeErrorResponse :: "RPC decoder" where
  "decodeErrorResponse =
     dec_then decoder_uint16 (\<lambda>code.
     dec_then decoder_uint16 (\<lambda>responder.
     dec_then decoder_uint64 (\<lambda>term.
     dec_return (RErrorResponse \<lparr>erCode = code, erResponderID = responder, erTerm = term\<rparr>))))"

definition schemaVersionForMessage :: "MessageType \<Rightarrow> u16" where
  "schemaVersionForMessage t = (if t = 100 \<or> t = 101 then HandshakeSchemaVersion else RPCSchemaVersion)"

text \<open>The \<open>switch\<close> of \<open>DecodeRPC\<close>.\<close>

definition decodeBody :: "MessageType \<Rightarrow> CodecLimits \<Rightarrow> RPC decoder" where
  "decodeBody t limits =
     (if t = 100 then decodeHandshake
      else if t = 101 then decodeHandshakeAck
      else if t = 102 then decodePreVoteRequest
      else if t = 103 then decodePreVoteResponse
      else if t = 104 then decodeRequestVoteRequest
      else if t = 105 then decodeRequestVoteResponse
      else if t = 106 then decodeAppendEntriesRequest limits
      else if t = 107 then decodeAppendEntriesResponse
      else if t = 108 then decodeInstallSnapshotRequest limits
      else if t = 109 then decodeInstallSnapshotResponse
      else if t = 110 then decodeErrorResponse
      else (\<lambda>_. Inl ErrUnknownRPC))"

definition DecodeRPC :: "MessageType \<Rightarrow> bytes \<Rightarrow> CodecLimits \<Rightarrow> raft_error + RPC" where
  "DecodeRPC t payload limits =
     (case resolveCodecLimits limits of
        Inl err \<Rightarrow> Inl err
      | Inr resolved \<Rightarrow>
          if length payload > unat (clMaxEncodedBytes resolved) then Inl ErrRPCTooLarge
          else case decoder_uint16 payload of
            Inl err \<Rightarrow> Inl err
          | Inr (version, d) \<Rightarrow>
              if version \<noteq> schemaVersionForMessage t then Inl ErrUnsupportedSchema
              else case decodeBody t resolved d of
                Inl err \<Rightarrow> Inl err
              | Inr (rpc, d') \<Rightarrow>
                  if length d' \<noteq> 0 then Inl ErrMalformedRPC
                  else case validateRPC rpc resolved of
                    Some err \<Rightarrow> Inl err
                  | None \<Rightarrow> Inr rpc)"

end
