(* ===== verification/Raft_Codec_Facts.thy ===== *)
theory Raft_Codec_Facts
  imports Raft_Codec
begin

text \<open>
  The peer codec is exact.  A field of the wire format is a \<open>field_codec\<close>: its decoder succeeds
  precisely on the encodings of admissible values and leaves the rest alone.  The leaf fields of
  \<open>codec.go\<close> are interpretations of that contract, each message body is a sequence of fields, and
  \<open>EncodeRPC\<close> and \<open>DecodeRPC\<close> turn out to be inverse to each other.
\<close>

section \<open>Fields\<close>

locale field_codec =
  fixes enc :: "'a \<Rightarrow> bytes" and dec :: "'a decoder" and admissible :: "'a \<Rightarrow> bool"
  assumes dec_enc: "admissible x \<Longrightarrow> dec (enc x @ rest) = Inr (x, rest)"
    and enc_dec: "dec d = Inr (x, d') \<Longrightarrow> d = enc x @ d' \<and> admissible x"
begin

lemma dec_iff: "dec d = Inr (x, d') \<longleftrightarrow> admissible x \<and> d = enc x @ d'"
  using dec_enc enc_dec by blast

lemma enc_prefix_free: "admissible x \<Longrightarrow> admissible y \<Longrightarrow> enc x @ d = enc y @ d' \<Longrightarrow> x = y \<and> d = d'"
  by (metis Inr_inject dec_enc prod.inject)

end

lemma dec_then_iff:
  "dec_then first second d = Inr r \<longleftrightarrow> (\<exists>x d'. first d = Inr (x, d') \<and> second x d' = Inr r)"
  by (auto simp: dec_then_def split: sum.splits)

lemma dec_return_iff [simp]: "dec_return x d = Inr r \<longleftrightarrow> r = (x, d)"
  by (auto simp: dec_return_def)

lemma decoder_take_iff: "decoder_take n d = Inr (bs, d') \<longleftrightarrow> length bs = n \<and> d = bs @ d'"
  by (auto simp: decoder_take_def append_take_drop_id not_less)

lemma word_field_iff:
  assumes "8 * n = LENGTH('a::len)"
  shows "dec_then (decoder_take n) (\<lambda>bs. dec_return (be_word bs :: 'a word)) d = Inr (w, d')
     \<longleftrightarrow> d = be_bytes n w @ d'"
proof -
  have "be_bytes n (be_word bs :: 'a word) = bs" if "length bs = n" for bs
    using that assms by (intro be_bytes_be_word) auto
  then show ?thesis
    using assms by (auto simp: dec_then_iff decoder_take_iff)
qed

interpretation uint16_field: field_codec "be_bytes 2" decoder_uint16 "\<lambda>_. True"
  by unfold_locales (simp_all add: decoder_uint16_def word_field_iff)

interpretation uint32_field: field_codec "be_bytes 4" decoder_uint32 "\<lambda>_. True"
  by unfold_locales (simp_all add: decoder_uint32_def word_field_iff)

interpretation uint64_field: field_codec "be_bytes 8" decoder_uint64 "\<lambda>_. True"
  by unfold_locales (simp_all add: decoder_uint64_def word_field_iff)

interpretation id_field: field_codec "be_bytes 16" "decoder_fixed 16 :: bytes16 decoder" "\<lambda>_. True"
  by unfold_locales (simp_all add: decoder_fixed_def word_field_iff)

interpretation digest_field: field_codec "be_bytes 32" "decoder_fixed 32 :: bytes32 decoder" "\<lambda>_. True"
  by unfold_locales (simp_all add: decoder_fixed_def word_field_iff)

lemma decoder_uint8_iff: "decoder_uint8 d = Inr (b, d') \<longleftrightarrow> d = b # d'"
proof -
  have "length bs = 1 \<longleftrightarrow> (\<exists>b. bs = [b])" for bs :: bytes
    by (cases bs) auto
  then show ?thesis
    by (auto simp: decoder_uint8_def dec_then_iff decoder_take_iff)
qed

interpretation uint8_field: field_codec "\<lambda>b. [b]" decoder_uint8 "\<lambda>_. True"
  by unfold_locales (simp_all add: decoder_uint8_iff)

definition bool_bytes :: "bool \<Rightarrow> bytes" where
  "bool_bytes b = [if b then 1 else 0]"

lemma u8_le_one: "(v :: u8) \<le> 1 \<longleftrightarrow> v = 0 \<or> v = 1"
  by (auto simp: word_le_nat_alt word_unat_eq_iff)

interpretation boolean_field: field_codec bool_bytes decoder_boolean "\<lambda>_. True"
proof
  show "decoder_boolean (bool_bytes b @ rest) = Inr (b, rest)" for b rest
    by (simp add: decoder_boolean_def dec_then_def decoder_uint8_iff[THEN iffD2] bool_bytes_def
        split: sum.split)
  show "d = bool_bytes b @ d' \<and> True" if "decoder_boolean d = Inr (b, d')" for d b d'
    using that
    by (auto simp: decoder_boolean_def dec_then_iff decoder_uint8_iff bool_bytes_def not_less u8_le_one
        split: if_splits)
qed

lemma unat_ucast_u32: "unat (ucast (n :: u32) :: u64) = unat n"
proof -
  have "unat n < 2 ^ 64" using unsigned_less[of n, where ?'a = nat] by simp
  then show ?thesis by (simp add: unsigned_ucast_eq take_bit_nat_eq_self)
qed

text \<open>A length-prefixed byte string, within the limit given to the decoder.\<close>

definition string_bytes :: "bytes \<Rightarrow> bytes" where
  "string_bytes bs = be_bytes 4 (word_of_nat (length bs) :: u32) @ bs"

lemma decoder_bytes32_iff:
  assumes "maximum \<le> MaxUint32"
  shows "decoder_bytes32Borrowed maximum d = Inr (bs, d')
     \<longleftrightarrow> length bs \<le> unat maximum \<and> d = string_bytes bs @ d'"
proof -
  have max: "unat maximum < 2 ^ 32"
    using assms by (simp add: MaxUint32_def word_le_nat_alt)
  have len: "unat (word_of_nat n :: u32) = n" if "n \<le> unat maximum" for n
    using that max by (simp add: unat_of_nat take_bit_nat_eq_self)
  have lim: "ucast n > maximum \<longleftrightarrow> unat n > unat maximum" for n :: u32
    by (simp add: word_less_nat_alt unat_ucast_u32)
  show ?thesis
  proof (intro iffI)
    assume "decoder_bytes32Borrowed maximum d = Inr (bs, d')"
    then obtain n :: u32 and d1 where d: "d = be_bytes 4 n @ d1" and
        "(if ucast n > maximum then Inl ErrRPCTooLarge else if unat n > length d1 then Inl ErrMalformedRPC
          else if n = 0 then Inr ([], d1) else decoder_take (unat n) d1) = Inr (bs, d')"
      unfolding decoder_bytes32Borrowed_def dec_then_iff uint32_field.dec_iff by blast
    then have "unat n \<le> unat maximum" "length bs = unat n" "d1 = bs @ d'"
      by (auto simp: lim decoder_take_iff split: if_splits)
    then show "length bs \<le> unat maximum \<and> d = string_bytes bs @ d'"
      by (simp add: string_bytes_def d)
  next
    assume bs: "length bs \<le> unat maximum \<and> d = string_bytes bs @ d'"
    then have "\<not> ucast (word_of_nat (length bs) :: u32) > maximum"
      by (simp add: lim len)
    moreover have "(word_of_nat (length bs) :: u32) = 0 \<longleftrightarrow> bs = []"
      using bs len[of "length bs"] by (simp add: word_unat_eq_iff)
    ultimately show "decoder_bytes32Borrowed maximum d = Inr (bs, d')"
      using bs
      by (auto simp: decoder_bytes32Borrowed_def dec_then_iff uint32_field.dec_iff decoder_take_iff
          string_bytes_def len intro!: exI[of _ "word_of_nat (length bs)"])
  qed
qed

lemma decodeUint16s_iff:
  "decodeUint16s n d = Inr (vs, d') \<longleftrightarrow> length vs = n \<and> d = concat (map (be_bytes 2) vs) @ d'"
proof (induction n arbitrary: vs d)
  case (Suc n)
  then show ?case
    by (cases vs) (auto simp: dec_then_iff uint16_field.dec_iff)
qed auto

lemma decodeUint64s_iff:
  "decodeUint64s n d = Inr (vs, d') \<longleftrightarrow> length vs = n \<and> d = concat (map (be_bytes 8) vs) @ d'"
proof (induction n arbitrary: vs d)
  case (Suc n)
  then show ?case
    by (cases vs) (auto simp: dec_then_iff uint64_field.dec_iff)
qed auto

lemmas field_iffs =
  uint8_field.dec_iff uint16_field.dec_iff uint32_field.dec_iff uint64_field.dec_iff
  id_field.dec_iff digest_field.dec_iff boolean_field.dec_iff decodeUint16s_iff decodeUint64s_iff

lemma length_numeral_iffs:
  "length xs = 2 \<longleftrightarrow> (\<exists>a b. xs = [a, b])"
  "length xs = 3 \<longleftrightarrow> (\<exists>a b c. xs = [a, b, c])"
  "length xs = 4 \<longleftrightarrow> (\<exists>a b c e. xs = [a, b, c, e])"
  "length xs = 5 \<longleftrightarrow> (\<exists>a b c e f. xs = [a, b, c, e, f])"
  by (auto simp: length_Suc_conv eval_nat_numeral)

section \<open>The bytes of a message\<close>

definition entry_bytes :: "Entry \<Rightarrow> bytes" where
  "entry_bytes e = be_bytes 8 (eIndex e) @ be_bytes 8 (eTerm e) @ [eKind e] @ string_bytes (eCommand e)"

fun body_bytes :: "RPC \<Rightarrow> bytes" where
  "body_bytes (RHandshake m) =
     be_bytes 2 (hkSenderID m) @ be_bytes 32 (hkVoterFingerprint m) @ be_bytes 32 (hkApplicationFingerprint m)"
| "body_bytes (RHandshakeAck m) =
     be_bytes 2 (haResponderID m) @ be_bytes 32 (haVoterFingerprint m) @ be_bytes 32 (haApplicationFingerprint m)"
| "body_bytes (RPreVoteRequest m) =
     be_bytes 2 (pqCandidateID m) @ be_bytes 8 (pqCurrentTerm m) @ be_bytes 8 (pqProspectiveTerm m)
     @ be_bytes 8 (pqLastLogIndex m) @ be_bytes 8 (pqLastLogTerm m)"
| "body_bytes (RPreVoteResponse m) =
     be_bytes 2 (prResponderID m) @ be_bytes 2 (prCandidateID m) @ be_bytes 8 (prTerm m)
     @ be_bytes 8 (prRequestCurrentTerm m) @ be_bytes 8 (prProspectiveTerm m) @ bool_bytes (prGranted m)"
| "body_bytes (RRequestVoteRequest m) =
     be_bytes 2 (vqCandidateID m) @ be_bytes 8 (vqTerm m) @ be_bytes 8 (vqLastLogIndex m)
     @ be_bytes 8 (vqLastLogTerm m)"
| "body_bytes (RRequestVoteResponse m) =
     be_bytes 2 (vrResponderID m) @ be_bytes 2 (vrCandidateID m) @ be_bytes 8 (vrTerm m)
     @ be_bytes 8 (vrRequestTerm m) @ bool_bytes (vrGranted m)"
| "body_bytes (RAppendEntriesRequest m) =
     be_bytes 2 (aqLeaderID m) @ be_bytes 8 (aqTerm m) @ be_bytes 8 (aqGeneration m)
     @ be_bytes 8 (aqPrevLogIndex m) @ be_bytes 8 (aqPrevLogTerm m) @ be_bytes 8 (aqLeaderCommit m)
     @ be_bytes 2 (word_of_nat (length (aqEntries m)) :: u16) @ concat (map entry_bytes (aqEntries m))"
| "body_bytes (RAppendEntriesResponse m) =
     be_bytes 2 (arResponderID m) @ be_bytes 2 (arLeaderID m) @ be_bytes 8 (arTerm m)
     @ be_bytes 8 (arRequestTerm m) @ be_bytes 8 (arGeneration m) @ bool_bytes (arSuccess m)
     @ be_bytes 8 (arMatchIndex m) @ be_bytes 8 (arConflictTerm m) @ be_bytes 8 (arConflictIndex m)"
| "body_bytes (RInstallSnapshotRequest m) =
     be_bytes 2 (iqLeaderID m) @ be_bytes 8 (iqTerm m) @ be_bytes 16 (iqTransferID m)
     @ be_bytes 16 (iqSnapshotID m) @ be_bytes 8 (iqLastIncludedIndex m) @ be_bytes 8 (iqLastIncludedTerm m)
     @ be_bytes 4 (iqSchemaVersion m) @ be_bytes 8 (iqTotalLength m) @ be_bytes 32 (iqChecksum m)
     @ be_bytes 8 (iqOffset m) @ string_bytes (iqChunk m) @ bool_bytes (iqDone m)"
| "body_bytes (RInstallSnapshotResponse m) =
     be_bytes 2 (irResponderID m) @ be_bytes 2 (irLeaderID m) @ be_bytes 8 (irTerm m)
     @ be_bytes 8 (irRequestTerm m) @ be_bytes 16 (irTransferID m) @ be_bytes 16 (irSnapshotID m)
     @ be_bytes 8 (irNextOffset m) @ bool_bytes (irSuccess m) @ bool_bytes (irDone m)"
| "body_bytes (RErrorResponse m) =
     be_bytes 2 (erCode m) @ be_bytes 2 (erResponderID m) @ be_bytes 8 (erTerm m)"

section \<open>Encoders write those bytes, within the limit\<close>

definition writes :: "u64 \<Rightarrow> bytes \<Rightarrow> encoder \<Rightarrow> bool" where
  "writes maximum bs e \<longleftrightarrow>
     (\<forall>p. length p \<le> unat maximum \<longrightarrow>
        e p = (if length p + length bs \<le> unat maximum then Inr (p @ bs) else Inl ErrRPCTooLarge))"

named_theorems writes_intros \<open>one rule per encoder: the bytes it writes\<close>

lemma writes_then: "writes m a e \<Longrightarrow> writes m b f \<Longrightarrow> writes m (a @ b) (enc_then e f)"
  by (auto simp: writes_def enc_then_def)

lemma writes_done [writes_intros]: "writes m [] enc_done"
  by (simp add: writes_def enc_done_def)

lemma writes_add [writes_intros]: "writes m bs (encoder_add m bs)"
  unfolding writes_def
proof (intro allI impI)
  fix p :: bytes
  assume p: "length p \<le> unat m"
  then have "unat (len64 p :: u64) = length p"
    using unat_lt_u64[of m] by (intro unat_of_nat_u64) linarith
  then have "unat (m - len64 p) = unat m - length p"
    using p by (subst unat_sub_le) (simp_all add: word_le_nat_alt)
  then show "encoder_add m bs p = (if length p + length bs \<le> unat m then Inr (p @ bs) else Inl ErrRPCTooLarge)"
    using p by (auto simp: encoder_add_def)
qed

lemma writes_words [writes_intros]:
  "writes m [v8] (encoder_uint8 m v8)" "writes m (be_bytes 2 v16) (encoder_uint16 m v16)"
  "writes m (be_bytes 4 v32) (encoder_uint32 m v32)" "writes m (be_bytes 8 v64) (encoder_uint64 m v64)"
  by (simp_all add: encoder_uint8_def encoder_uint16_def encoder_uint32_def encoder_uint64_def writes_add)

lemma writes_bool [writes_intros]: "writes m (bool_bytes b) (encoder_boolean m b)"
  by (simp add: encoder_boolean_def bool_bytes_def writes_words)

lemma writes_string: "length bs \<le> unat MaxUint32 \<Longrightarrow> writes m (string_bytes bs) (encoder_bytes32 m bs)"
  by (simp add: encoder_bytes32_def string_bytes_def writes_then writes_words writes_add)

lemma writes_uint16s [writes_intros]: "writes m (concat (map (be_bytes 2) vs)) (encodeUint16s m vs)"
  by (induction vs) (simp_all add: writes_done writes_then writes_words)

lemma writes_uint64s [writes_intros]: "writes m (concat (map (be_bytes 8) vs)) (encodeUint64s m vs)"
  by (induction vs) (simp_all add: writes_done writes_then writes_words)

lemma writes_cong: "writes m bs e \<Longrightarrow> bs = bs' \<Longrightarrow> writes m bs' e"
  by simp

lemma writes_entry: "length (eCommand e) \<le> unat MaxUint32 \<Longrightarrow> writes m (entry_bytes e) (encodeEntry m e)"
  unfolding encodeEntry_def
  by (rule writes_cong, (rule writes_then writes_intros writes_string | assumption)+)
    (simp add: entry_bytes_def)

lemma writes_entries:
  "\<forall>e \<in> set es. length (eCommand e) \<le> unat MaxUint32 \<Longrightarrow>
     writes m (concat (map entry_bytes es)) (encodeEntries m es)"
  by (induction es) (simp_all add: writes_done writes_then writes_entry)

text \<open>The byte strings of a message are within the domain of a 32-bit length.\<close>

fun strings_fit :: "RPC \<Rightarrow> bool" where
  "strings_fit (RAppendEntriesRequest m) = (\<forall>e \<in> set (aqEntries m). length (eCommand e) \<le> unat MaxUint32)"
| "strings_fit (RInstallSnapshotRequest m) = (length (iqChunk m) \<le> unat MaxUint32)"
| "strings_fit _ = True"

lemmas encode_defs =
  encodeHandshake_def encodeHandshakeAck_def encodePreVoteRequest_def encodePreVoteResponse_def
  encodeRequestVoteRequest_def encodeRequestVoteResponse_def encodeAppendEntriesRequest_def
  encodeAppendEntriesResponse_def encodeInstallSnapshotRequest_def encodeInstallSnapshotResponse_def
  encodeErrorResponse_def

lemma writes_body: "strings_fit rpc \<Longrightarrow> writes m (body_bytes rpc) (encodeBody m rpc)"
proof (cases rpc)
  case (RAppendEntriesRequest x)
  assume "strings_fit rpc"
  then have "writes m (concat (map entry_bytes (aqEntries x))) (encodeEntries m (aqEntries x))"
    by (simp add: RAppendEntriesRequest writes_entries)
  then show ?thesis
    unfolding RAppendEntriesRequest encodeBody.simps encode_defs
    by - (rule writes_cong, (rule writes_then writes_intros | assumption)+, simp)
next
  case (RInstallSnapshotRequest x)
  assume "strings_fit rpc"
  then have "writes m (string_bytes (iqChunk x)) (encoder_bytes32 m (iqChunk x))"
    by (simp add: RInstallSnapshotRequest writes_string)
  then show ?thesis
    unfolding RInstallSnapshotRequest encodeBody.simps encode_defs
    by - (rule writes_cong, (rule writes_then writes_intros | assumption)+, simp)
qed (simp only: encodeBody.simps encode_defs, rule writes_cong, (rule writes_then writes_intros)+, simp)+

lemma validateAppendEntries_fit:
  "validateAppendEntries c t i p es = None \<Longrightarrow> e \<in> set es \<Longrightarrow> length (eCommand e) \<le> unat c"
  by (induction es arbitrary: i p) (auto split: if_splits)

lemma resolved_limits:
  assumes "resolveCodecLimits limits = Inr r"
  shows "clMaxCommandBytes r \<le> MaxUint32" "clMaxSnapshotChunkBytes r \<le> MaxUint32"
    "clMaxSnapshotBytes r \<le> MaxRaftSnapshotBytes" "clMaxEncodedBytes r \<le> MaxRPCPayloadBytes"
  using assms by (auto simp: resolveCodecLimits_def Let_def DefaultCodecLimits_def split: if_splits)

lemma valid_strings_fit:
  assumes "resolveCodecLimits limits = Inr r" "validateRPC rpc r = None"
  shows "strings_fit rpc"
proof (cases rpc)
  case (RAppendEntriesRequest m)
  then have "validateAppendEntries (clMaxCommandBytes r) (aqTerm m) (aqPrevLogIndex m) (aqPrevLogTerm m) (aqEntries m) = None"
    using assms(2) by (auto simp: validateAppendRequest_def split: if_splits)
  from validateAppendEntries_fit[OF this] resolved_limits(1)[OF assms(1)] show ?thesis
    by (fastforce simp: RAppendEntriesRequest word_le_nat_alt)
next
  case (RInstallSnapshotRequest m)
  then show ?thesis
    using assms(2) resolved_limits(2)[OF assms(1)]
    by (auto simp: validateSnapshotRequest_def word_le_nat_alt split: if_splits)
qed simp_all

text \<open>What \<open>EncodeRPC\<close> returns, completely.\<close>

lemma EncodeRPC_iff:
  "EncodeRPC rpc limits = Inr (t, payload) \<longleftrightarrow>
     (\<exists>r. resolveCodecLimits limits = Inr r \<and> validateRPC rpc r = None \<and> t = messageType rpc
        \<and> payload = be_bytes 2 (schemaVersionForRPC rpc) @ body_bytes rpc
        \<and> length payload \<le> unat (clMaxEncodedBytes r))"
proof (cases "resolveCodecLimits limits")
  case (Inr r)
  show ?thesis
  proof (cases "validateRPC rpc r")
    case None
    let ?m = "clMaxEncodedBytes r"
    have "writes ?m (be_bytes 2 (schemaVersionForRPC rpc) @ body_bytes rpc)
        (enc_then (encoder_uint16 ?m (schemaVersionForRPC rpc)) (encodeBody ?m rpc))"
      using writes_then[OF writes_words(2) writes_body[OF valid_strings_fit[OF Inr None]]] .
    then show ?thesis
      using Inr None by (auto simp: EncodeRPC_def Let_def writes_def)
  qed (simp add: EncodeRPC_def Inr)
qed (simp add: EncodeRPC_def)

section \<open>Decoders accept exactly those bytes\<close>

lemmas decode_defs =
  decodeHandshake_def decodeHandshakeAck_def decodePreVoteRequest_def decodePreVoteResponse_def
  decodeRequestVoteRequest_def decodeRequestVoteResponse_def decodeAppendEntriesResponse_def
  decodeInstallSnapshotResponse_def decodeErrorResponse_def

lemma ex_list_iffs:
  "(\<exists>xs. (\<exists>a b. xs = [a, b]) \<and> P xs) \<longleftrightarrow> (\<exists>a b. P [a, b])"
  "(\<exists>xs. (\<exists>a b c. xs = [a, b, c]) \<and> P xs) \<longleftrightarrow> (\<exists>a b c. P [a, b, c])"
  "(\<exists>xs. (\<exists>a b c d. xs = [a, b, c, d]) \<and> P xs) \<longleftrightarrow> (\<exists>a b c d. P [a, b, c, d])"
  "(\<exists>xs. (\<exists>a b c d e. xs = [a, b, c, d, e]) \<and> P xs) \<longleftrightarrow> (\<exists>a b c d e. P [a, b, c, d, e])"
  by blast+

lemma fixed_body_iffs:
  "decodeHandshake d = Inr (RHandshake hk, d') \<longleftrightarrow> d = body_bytes (RHandshake hk) @ d'"
  "decodeHandshakeAck d = Inr (RHandshakeAck ha, d') \<longleftrightarrow> d = body_bytes (RHandshakeAck ha) @ d'"
  "decodePreVoteRequest d = Inr (RPreVoteRequest pq, d') \<longleftrightarrow> d = body_bytes (RPreVoteRequest pq) @ d'"
  "decodePreVoteResponse d = Inr (RPreVoteResponse pr, d') \<longleftrightarrow> d = body_bytes (RPreVoteResponse pr) @ d'"
  "decodeRequestVoteRequest d = Inr (RRequestVoteRequest vq, d') \<longleftrightarrow> d = body_bytes (RRequestVoteRequest vq) @ d'"
  "decodeRequestVoteResponse d = Inr (RRequestVoteResponse vr, d') \<longleftrightarrow> d = body_bytes (RRequestVoteResponse vr) @ d'"
  "decodeAppendEntriesResponse d = Inr (RAppendEntriesResponse ar, d') \<longleftrightarrow> d = body_bytes (RAppendEntriesResponse ar) @ d'"
  "decodeInstallSnapshotResponse d = Inr (RInstallSnapshotResponse ir, d') \<longleftrightarrow> d = body_bytes (RInstallSnapshotResponse ir) @ d'"
  "decodeErrorResponse d = Inr (RErrorResponse er, d') \<longleftrightarrow> d = body_bytes (RErrorResponse er) @ d'"
  by (cases hk; cases ha; cases pq; cases pr; cases vq; cases vr; cases ar; cases ir; cases er;
      auto simp: decode_defs dec_then_iff field_iffs length_numeral_iffs ex_list_iffs)+

lemma decodeBorrowedEntry_iff:
  "maximum \<le> MaxUint32 \<Longrightarrow>
     decodeBorrowedEntry maximum d = Inr (e, d') \<longleftrightarrow>
       length (eCommand e) \<le> unat maximum \<and> d = entry_bytes e @ d'"
  by (cases e) (auto simp: decodeBorrowedEntry_def dec_then_iff field_iffs decoder_bytes32_iff entry_bytes_def)

lemma decodeBorrowedEntry_Inl:
  "decodeBorrowedEntry maximum d = Inl err \<Longrightarrow> maximum \<le> MaxUint32 \<Longrightarrow>
     length (eCommand e) \<le> unat maximum \<Longrightarrow> d \<noteq> entry_bytes e @ d'"
  using decodeBorrowedEntry_iff[of maximum d e d'] by auto

lemma readEntries_iff:
  "maximum \<le> MaxUint32 \<Longrightarrow>
     readEntries maximum n d = Inr (es, d') \<longleftrightarrow>
       length es = n \<and> (\<forall>e \<in> set es. length (eCommand e) \<le> unat maximum)
       \<and> d = concat (map entry_bytes es) @ d'"
proof (induction n arbitrary: d es)
  case (Suc n)
  then show ?case
    by (cases es) (auto simp: dec_then_iff decodeBorrowedEntry_iff)
qed auto

lemma scanEntries_iff:
  "maximum \<le> MaxUint32 \<Longrightarrow>
     scanEntries maximum t n i p d = Inr d' \<longleftrightarrow>
       (\<exists>es. length es = n \<and> validateAppendEntries maximum t i p es = None
          \<and> d = concat (map entry_bytes es) @ d')"
proof (induction n arbitrary: i p d)
  case (Suc n)
  show ?case
  proof (cases "decodeBorrowedEntry maximum d")
    case (Inl err)
    then show ?thesis
      using decodeBorrowedEntry_Inl[OF Inl Suc.prems]
      by (force simp: length_Suc_conv split: if_splits)
  next
    case (Inr a)
    then obtain e rest where "decodeBorrowedEntry maximum d = Inr (e, rest)"
      by (cases a) simp
    then have d: "decodeBorrowedEntry maximum d = Inr (e, rest)"
        "length (eCommand e) \<le> unat maximum" "d = entry_bytes e @ rest"
      by (simp_all add: decodeBorrowedEntry_iff[OF Suc.prems])
    have same: "e' = e \<and> rest' = rest"
      if "d = entry_bytes e' @ rest'" "length (eCommand e') \<le> unat maximum" for e' rest'
      using that decodeBorrowedEntry_iff[OF Suc.prems, of d e' rest'] d(1) by simp
    have "(\<exists>es. length es = Suc n \<and> validateAppendEntries maximum t i p es = None
          \<and> d = concat (map entry_bytes es) @ d') \<longleftrightarrow>
        (\<exists>es. length es = n \<and> validateAppendEntries maximum t i p (e # es) = None
          \<and> rest = concat (map entry_bytes es) @ d')" (is "(\<exists>es. ?L es) \<longleftrightarrow> (\<exists>es. ?R es)")
    proof
      assume "\<exists>es. ?L es"
      then obtain es where es: "?L es" ..
      moreover from this obtain y ys where "es = y # ys"
        by (cases es) auto
      ultimately have ys: "?L (y # ys)"
        by simp
      then have "length (eCommand y) \<le> unat maximum"
        using validateAppendEntries_fit[of maximum t i p "y # ys" y] by simp
      then have "y = e \<and> concat (map entry_bytes ys) @ d' = rest"
        using same[of y] ys by simp
      then have "?R ys"
        using ys by (simp del: validateAppendEntries.simps)
      then show "\<exists>es. ?R es" ..
    next
      assume "\<exists>es. ?R es"
      then obtain es where "?R es" ..
      then have "?L (e # es)"
        using d(3) by (simp del: validateAppendEntries.simps)
      then show "\<exists>es. ?L es" ..
    qed
    then show ?thesis
      using Suc.IH[OF Suc.prems] d(1,2) by simp
  qed
qed simp

lemma length_entry_bytes: "minimumEntryBytes \<le> length (entry_bytes e)"
  by (simp add: entry_bytes_def string_bytes_def minimumEntryBytes_def)

lemma length_entries_bytes: "length es * minimumEntryBytes \<le> length (concat (map entry_bytes es))"
  by (induction es) (simp_all, metis add_mono length_entry_bytes)

lemma decodeAppendEntries_iff:
  assumes "clMaxCommandBytes r \<le> MaxUint32"
  shows "decodeAppendEntries r message n d = Inr (RAppendEntriesRequest m, d') \<longleftrightarrow>
    m = message\<lparr>aqEntries := aqEntries m\<rparr> \<and> n \<le> clMaxAppendEntries r
    \<and> length (aqEntries m) = unat n \<and> validateAppendRequest message r = None
    \<and> validateAppendEntries (clMaxCommandBytes r) (aqTerm message) (aqPrevLogIndex message)
        (aqPrevLogTerm message) (aqEntries m) = None
    \<and> d = concat (map entry_bytes (aqEntries m)) \<and> d' = []" (is "?lhs \<longleftrightarrow> ?rhs")
proof
  note scan = scanEntries_iff[OF assms] and read = readEntries_iff[OF assms]
  assume ?lhs
  then obtain es where 1: "n \<le> clMaxAppendEntries r" "validateAppendRequest message r = None"
      "scanEntries (clMaxCommandBytes r) (aqTerm message) (unat n) (aqPrevLogIndex message)
         (aqPrevLogTerm message) d = Inr []"
      "readEntries (clMaxCommandBytes r) (unat n) d = Inr (es, d')" "m = message\<lparr>aqEntries := es\<rparr>"
    by (auto simp: decodeAppendEntries_def dec_then_iff Let_def split: if_splits option.splits sum.splits)
  from 1(3) obtain es' where 2: "length es' = unat n" "d = concat (map entry_bytes es') @ []"
      "validateAppendEntries (clMaxCommandBytes r) (aqTerm message) (aqPrevLogIndex message)
        (aqPrevLogTerm message) es' = None"
    unfolding scan by blast
  then have "readEntries (clMaxCommandBytes r) (unat n) d = Inr (es', [])"
    unfolding read by (simp add: validateAppendEntries_fit)
  with 1 2 show ?rhs
    by (cases message) simp
next
  note scan = scanEntries_iff[OF assms] and read = readEntries_iff[OF assms]
  assume R: ?rhs
  then have "scanEntries (clMaxCommandBytes r) (aqTerm message) (unat n) (aqPrevLogIndex message)
         (aqPrevLogTerm message) d = Inr []"
    unfolding scan by (intro exI[of _ "aqEntries m"]) simp
  moreover have "readEntries (clMaxCommandBytes r) (unat n) d = Inr (aqEntries m, [])"
    unfolding read using R by (auto intro: validateAppendEntries_fit)
  moreover have "unat n * minimumEntryBytes \<le> length d"
    using R length_entries_bytes[of "aqEntries m"] by simp
  ultimately show ?lhs
    using R by (simp add: decodeAppendEntries_def dec_then_iff not_less)
qed

lemma dec_then_Inr: "f d = Inr (x, d') \<Longrightarrow> dec_then f k d = k x d'"
  by (simp add: dec_then_def)

lemma decodeAppendEntriesRequest_iff:
  assumes "clMaxCommandBytes r \<le> MaxUint32"
  shows "decodeAppendEntriesRequest r d = Inr (RAppendEntriesRequest m, d') \<longleftrightarrow>
    d' = [] \<and> d = body_bytes (RAppendEntriesRequest m) \<and> validateAppendRequest m r = None" (is "?lhs \<longleftrightarrow> ?rhs")
proof
  assume ?lhs
  then show ?rhs
    by (cases m) (auto simp: decodeAppendEntriesRequest_def dec_then_iff field_iffs length_numeral_iffs
      ex_list_iffs decodeAppendEntries_iff[OF assms] validateAppendRequest_def word_le_nat_alt split: if_splits)
next
  assume R: ?rhs
  let ?n = "word_of_nat (length (aqEntries m)) :: u16"
  have "length (aqEntries m) \<le> unat (clMaxAppendEntries r)"
    using R by (simp add: validateAppendRequest_def split: if_splits)
  then have n: "unat ?n = length (aqEntries m)"
    using unsigned_less[of "clMaxAppendEntries r", where ?'a = nat]
    by (simp add: unat_of_nat take_bit_nat_eq_self)
  let ?message = "\<lparr>aqLeaderID = aqLeaderID m, aqTerm = aqTerm m, aqGeneration = aqGeneration m,
      aqPrevLogIndex = aqPrevLogIndex m, aqPrevLogTerm = aqPrevLogTerm m,
      aqLeaderCommit = aqLeaderCommit m, aqEntries = []\<rparr>"
  have "decodeAppendEntries r ?message ?n (concat (map entry_bytes (aqEntries m)))
      = Inr (RAppendEntriesRequest m, [])"
    unfolding decodeAppendEntries_iff[OF assms]
    using R n by (auto simp: validateAppendRequest_def word_le_nat_alt split: if_splits)
  moreover have "decodeUint64s 5 (be_bytes 8 a @ be_bytes 8 b @ be_bytes 8 c @ be_bytes 8 e @ be_bytes 8 f @ x)
      = Inr ([a, b, c, e, f], x)" for a b c e f x
    by (simp add: decodeUint64s_iff)
  moreover have "decoder_uint16 (be_bytes 2 v @ x) = Inr (v, x)" for v x
    by (simp add: field_iffs)
  ultimately show ?lhs
    using R by (simp add: decodeAppendEntriesRequest_def dec_then_Inr)
qed

lemma decodeInstallSnapshotRequest_iff:
  assumes "clMaxSnapshotChunkBytes r \<le> MaxUint32"
  shows "decodeInstallSnapshotRequest r d = Inr (RInstallSnapshotRequest m, d') \<longleftrightarrow>
    d' = [] \<and> d = body_bytes (RInstallSnapshotRequest m) \<and> validateSnapshotRequest m r = None"
    (is "?lhs \<longleftrightarrow> ?rhs")
proof
  assume ?lhs
  then show ?rhs
    by (cases m) (auto simp: decodeInstallSnapshotRequest_def dec_then_iff field_iffs length_numeral_iffs
      ex_list_iffs decoder_bytes32_iff[OF assms] Let_def split: if_splits option.splits)
next
  assume R: ?rhs
  then have "length (iqChunk m) \<le> unat (clMaxSnapshotChunkBytes r)" "\<not> clMaxSnapshotBytes r < iqTotalLength m"
    by (simp_all add: validateSnapshotRequest_def split: if_splits)
  moreover from this(1)
  have "decoder_bytes32Borrowed (clMaxSnapshotChunkBytes r) (string_bytes (iqChunk m) @ x) = Inr (iqChunk m, x)" for x
    by (simp add: decoder_bytes32_iff[OF assms])
  moreover have "decodeUint64s 2 (be_bytes 8 a @ be_bytes 8 b @ x) = Inr ([a, b], x)" for a b x
    by (simp add: decodeUint64s_iff)
  moreover have "decoder_boolean (bool_bytes b) = Inr (b, [])" for b
    by (simp add: field_iffs)
  moreover have "decoder_uint16 (be_bytes 2 u @ x) = Inr (u, x)" "decoder_uint64 (be_bytes 8 v @ x) = Inr (v, x)"
      "decoder_uint32 (be_bytes 4 w @ x) = Inr (w, x)" "decoder_fixed 16 (be_bytes 16 i @ x) = Inr (i, x)"
      "decoder_fixed 32 (be_bytes 32 c @ x) = Inr (c, x)"
    for u v w x and i :: bytes16 and c :: bytes32
    by (simp_all add: field_iffs)
  ultimately show ?lhs
    using R by (cases m) (simp add: decodeInstallSnapshotRequest_def dec_then_Inr)
qed

section \<open>Round trip\<close>

text \<open>A decoder returns a message of its own type.\<close>

lemma decode_type:
  "decodeBody t r d = Inr (rpc, d') \<Longrightarrow> messageType rpc = t"
  by (auto simp: decodeBody_def decode_defs decodeAppendEntriesRequest_def decodeInstallSnapshotRequest_def
      decodeAppendEntries_def dec_then_iff Let_def split: if_splits option.splits sum.splits)

lemma decodeBody_iff:
  assumes "resolveCodecLimits limits = Inr r"
  shows "decodeBody t r d = Inr (rpc, []) \<and> validateRPC rpc r = None \<longleftrightarrow>
    messageType rpc = t \<and> d = body_bytes rpc \<and> validateRPC rpc r = None"
proof (cases "messageType rpc = t")
  case True
  then show ?thesis
    using resolved_limits(1,2)[OF assms]
    by (cases rpc) (auto simp: decodeBody_def fixed_body_iffs decodeAppendEntriesRequest_iff
      decodeInstallSnapshotRequest_iff simp del: body_bytes.simps)
qed (use decode_type in blast)

lemma schemaVersion_agree: "schemaVersionForMessage (messageType rpc) = schemaVersionForRPC rpc"
  by (cases rpc) (simp_all add: schemaVersionForMessage_def)

lemma DecodeRPC_iff:
  "DecodeRPC t payload limits = Inr rpc \<longleftrightarrow>
     (\<exists>r. resolveCodecLimits limits = Inr r \<and> validateRPC rpc r = None \<and> t = messageType rpc
        \<and> payload = be_bytes 2 (schemaVersionForRPC rpc) @ body_bytes rpc
        \<and> length payload \<le> unat (clMaxEncodedBytes r))"
proof (cases "resolveCodecLimits limits")
  case (Inr r)
  have "DecodeRPC t payload limits = Inr rpc \<longleftrightarrow> length payload \<le> unat (clMaxEncodedBytes r)
      \<and> (\<exists>d. payload = be_bytes 2 (schemaVersionForMessage t) @ d
           \<and> decodeBody t r d = Inr (rpc, []) \<and> validateRPC rpc r = None)"
  proof (cases "decoder_uint16 payload")
    case (Inl err)
    then show ?thesis
      using uint16_field.dec_iff[of payload "schemaVersionForMessage t"] by (auto simp: DecodeRPC_def Inr)
  next
    case (Inr a)
    then obtain v d where p: "decoder_uint16 payload = Inr (v, d)"
      by (cases a) simp
    then have "payload = be_bytes 2 (schemaVersionForMessage t) @ d' \<longleftrightarrow> v = schemaVersionForMessage t \<and> d = d'" for d'
      using uint16_field.dec_iff[of payload "schemaVersionForMessage t" d'] by auto
    then show ?thesis
      by (auto simp: DecodeRPC_def \<open>resolveCodecLimits limits = Inr r\<close> p not_less
        split: sum.splits option.splits if_splits)
  qed
  also have "\<dots> \<longleftrightarrow> length payload \<le> unat (clMaxEncodedBytes r)
      \<and> payload = be_bytes 2 (schemaVersionForMessage t) @ body_bytes rpc
      \<and> messageType rpc = t \<and> validateRPC rpc r = None"
    by (auto simp: decodeBody_iff[OF Inr])
  finally show ?thesis
    using Inr by (auto simp: schemaVersion_agree)
qed (simp add: DecodeRPC_def)

text \<open>C22.  The RPC codec is a bijection between the messages a configuration admits and the payloads it
  accepts: \<open>EncodeRPC\<close> yields a type and payload exactly when \<open>DecodeRPC\<close> of that type and payload, under the
  same limits, returns the same message.  So decoding inverts encoding, and no second payload decodes to
  the same message.\<close>

theorem EncodeRPC_DecodeRPC:
  "EncodeRPC rpc limits = Inr (t, payload) \<longleftrightarrow> DecodeRPC t payload limits = Inr rpc"
  by (simp only: EncodeRPC_iff DecodeRPC_iff)

text \<open>The entries a request may carry: consecutive from the previous index, without wrap-around, with terms that
  do not decrease and do not pass the leader's.\<close>

lemma validateAppendEntries_index:
  "validateAppendEntries c t i p es = None \<Longrightarrow> k < length es \<Longrightarrow>
     unat (eIndex (es ! k)) = unat i + 1 + k \<and> eTerm (es ! k) \<le> t"
proof (induction es arbitrary: i p k)
  case (Cons e es)
  then have e: "i \<noteq> MaxUint64" "eIndex e = i + 1" "eTerm e \<le> t"
      and IH: "validateAppendEntries c t (i + 1) (eTerm e) es = None"
    by (auto split: if_splits)
  have "unat (i + 1) = unat i + 1"
    using e(1) by (simp add: unat_Suc_word)
  then show ?case
    using Cons.IH[OF IH, of "k - 1"] Cons.prems(2) e by (cases k) auto
qed simp

lemma validateAppendEntries_terms:
  "validateAppendEntries c t i p es = None \<Longrightarrow> sorted (p # map eTerm es)"
proof (induction es arbitrary: i p)
  case (Cons e es)
  then have "p \<le> eTerm e" "validateAppendEntries c t (i + 1) (eTerm e) es = None"
    by (auto split: if_splits)
  then show ?case
    using Cons.IH[of "i + 1" "eTerm e"] by auto
qed simp

text \<open>C23.  What an append request can carry off the wire: the payload is within the protocol's ceiling
  (8 MiB less the frame overhead) and pays at least 21 bytes for every entry, and the entries are consecutive from the previous log
  index (without wrap-around), with terms that start at or after the previous term, never decrease and
  never exceed the leader's term.\<close>

theorem DecodeRPC_append_bounds:
  assumes "DecodeRPC t payload limits = Inr (RAppendEntriesRequest m)"
  shows "46 + length (aqEntries m) * minimumEntryBytes \<le> length payload
    \<and> length payload \<le> unat MaxRPCPayloadBytes
    \<and> sorted (aqPrevLogTerm m # map eTerm (aqEntries m))
    \<and> (\<forall>k < length (aqEntries m). unat (eIndex (aqEntries m ! k)) = unat (aqPrevLogIndex m) + 1 + k
          \<and> eTerm (aqEntries m ! k) \<le> aqTerm m)"
proof -
  from assms obtain r where r: "resolveCodecLimits limits = Inr r" "validateAppendRequest m r = None"
      "payload = be_bytes 2 RPCSchemaVersion @ body_bytes (RAppendEntriesRequest m)"
      "length payload \<le> unat (clMaxEncodedBytes r)"
    by (auto simp: DecodeRPC_iff)
  then have v: "validateAppendEntries (clMaxCommandBytes r) (aqTerm m) (aqPrevLogIndex m) (aqPrevLogTerm m)
      (aqEntries m) = None"
    by (simp add: validateAppendRequest_def split: if_splits)
  show ?thesis
    using r resolved_limits(4)[OF r(1)] length_entries_bytes[of "aqEntries m"]
      validateAppendEntries_index[OF v] validateAppendEntries_terms[OF v]
    by (auto simp: word_le_nat_alt)
qed

definition demo_append :: AppendEntriesRequest where
  "demo_append = \<lparr>aqLeaderID = 1, aqTerm = 3, aqGeneration = 1, aqPrevLogIndex = 7, aqPrevLogTerm = 2,
     aqLeaderCommit = 7, aqEntries =
       [\<lparr>eIndex = 8, eTerm = 2, eKind = EntryCommand, eCommand = [104, 105]\<rparr>,
        \<lparr>eIndex = 9, eTerm = 3, eKind = EntryNoOp, eCommand = []\<rparr>]\<rparr>"

definition demo_append_payload :: bytes where
  "demo_append_payload = be_bytes 2 RPCSchemaVersion @ body_bytes (RAppendEntriesRequest demo_append)"

lemmas limit_defs =
  MaxRPCPayloadBytes_def MaxRaftCommandBytes_def MaxRaftSnapshotChunkBytes_def MaxRaftSnapshotBytes_def
  MaxUint32_def MaxInt_def

lemma demo_append_decodes:
  "DecodeRPC 106 demo_append_payload DefaultCodecLimits = Inr (RAppendEntriesRequest demo_append)"
proof -
  have "resolveCodecLimits DefaultCodecLimits = Inr DefaultCodecLimits"
    by (simp add: resolveCodecLimits_def withDefaultLimits_def DefaultCodecLimits_def
      limit_defs Let_def)
  moreover have "validateRPC (RAppendEntriesRequest demo_append) DefaultCodecLimits = None"
    by (simp add: validateAppendRequest_def demo_append_def DefaultCodecLimits_def limit_defs validLogPosition_def
      EntryCommand_def EntryNoOp_def)
  moreover have "length demo_append_payload \<le> unat (clMaxEncodedBytes DefaultCodecLimits)"
    by (simp add: demo_append_payload_def demo_append_def entry_bytes_def string_bytes_def
        DefaultCodecLimits_def MaxRPCPayloadBytes_def)
  ultimately show ?thesis
    by (simp add: DecodeRPC_iff demo_append_payload_def)
qed

theorem DecodeRPC_append_bounds_witness:
  "DecodeRPC 106 demo_append_payload DefaultCodecLimits = Inr (RAppendEntriesRequest demo_append)
   \<and> 46 + 2 * minimumEntryBytes \<le> length demo_append_payload \<and> sorted [2, 2, eTerm (aqEntries demo_append ! 1)]"
  using DecodeRPC_append_bounds[OF demo_append_decodes] demo_append_decodes
  by (simp add: demo_append_def)

end
