(* ===== verification/Raft_Storage.thy ===== *)
theory Raft_Storage
  imports Raft_Codec Raft_Log
begin

text \<open>
  The durable state of one voter: \<open>internal/raft/storage.go\<close>, \<open>installRecoveredSnapshot\<close> of
  \<open>snapshot.go\<close> and the lookups of \<open>node_durability.go\<close>.  SHA-256 is the parameter \<open>sha256\<close>.  An optional field (a Go pointer that
  may be nil) is an \<open>option\<close>; an error built with \<open>fmt.Errorf("%w: ...")\<close> is the sentinel it wraps.
\<close>

section \<open>The durable state and its validation\<close>

definition DefaultSnapshotLimitBytes :: u64 where "DefaultSnapshotLimitBytes = 16777216"

text \<open>\<open>StoreOptions.snapshotLimit\<close>; the options are their only field.\<close>

definition snapshotLimitOf :: "u64 \<Rightarrow> raft_error + u64" where
  "snapshotLimitOf maxSnapshotBytes =
     (let limit = if maxSnapshotBytes = 0 then DefaultSnapshotLimitBytes else maxSnapshotBytes
      in if limit > MaxRaftSnapshotBytes then Inl ErrInvalidStorageState else Inr limit)"

record RecoveredState =
  rsIdentity :: StorageIdentity
  rsHardState :: HardState
  rsSnapshotBase :: SnapshotMetadata
  rsSnapshot :: "Snapshot option"
  rsAppliedIndex :: u64
  rsEntries :: "Entry list"

abbreviation rsBaseIndex :: "RecoveredState \<Rightarrow> u64" where
  "rsBaseIndex state \<equiv> smLastIncludedIndex (rsSnapshotBase state)"

abbreviation rsTerm :: "RecoveredState \<Rightarrow> u64" where
  "rsTerm state \<equiv> hsTerm (rsHardState state)"

abbreviation rsCommitIndex :: "RecoveredState \<Rightarrow> u64" where
  "rsCommitIndex state \<equiv> hsCommitIndex (rsHardState state)"

record PersistenceBatch =
  pbHardState :: "HardState option"
  pbReplaceFrom :: u64
  pbEntries :: "Entry list"
  pbSnapshotBase :: "SnapshotMetadata option"
  pbSnapshot :: "Snapshot option"
  pbAppliedIndex :: "u64 option"

text \<open>The loop over the retained entries: it returns the last index.\<close>

fun validateRecoveredEntries :: "u64 \<Rightarrow> u64 \<Rightarrow> u64 \<Rightarrow> Entry list \<Rightarrow> raft_error + u64" where
  "validateRecoveredEntries hardTerm lastIndex previousTerm [] = Inr lastIndex"
| "validateRecoveredEntries hardTerm lastIndex previousTerm (entry # entries) =
     (if lastIndex = MaxUint64 then Inl ErrInvalidStorageState
      else if eIndex entry \<noteq> lastIndex + 1 then Inl ErrInvalidStorageState
      else if validateLogEntry entry \<noteq> None then Inl ErrInvalidStorageState
      else if eTerm entry < previousTerm \<or> eTerm entry > hardTerm then Inl ErrInvalidStorageState
      else validateRecoveredEntries hardTerm (lastIndex + 1) (eTerm entry) entries)"

text \<open>The check of the snapshot payload, when there is one.\<close>

definition validateRecoveredSnapshot ::
    "(bytes \<Rightarrow> bytes32) \<Rightarrow> RecoveredState \<Rightarrow> StorageIdentity \<Rightarrow> u64 \<Rightarrow> raft_error option" where
  "validateRecoveredSnapshot sha256 state expected snapshotLimit =
     (case rsSnapshot state of
        None \<Rightarrow> None
      | Some snapshot \<Rightarrow>
          if rsBaseIndex state = 0 \<or> snMetadata snapshot \<noteq> rsSnapshotBase state then Some ErrInvalidStorageState
          else if length (snState snapshot) > unat snapshotLimit then Some ErrInvalidStorageState
          else case DecodeSnapshotEnvelope sha256 (snEnvelope snapshot) expected snapshotLimit of
                 Inl _ \<Rightarrow> Some ErrInvalidStorageState
               | Inr decoded \<Rightarrow>
                   if snID decoded \<noteq> snID snapshot \<or> snStateChecksum decoded \<noteq> snStateChecksum snapshot
                   then Some ErrInvalidStorageState else None)"

definition validateRecoveredStateWithSnapshotLimit ::
    "(bytes \<Rightarrow> bytes32) \<Rightarrow> RecoveredState \<Rightarrow> StorageIdentity \<Rightarrow> VoterSet \<Rightarrow> u64 \<Rightarrow> raft_error option" where
  "validateRecoveredStateWithSnapshotLimit sha256 state expected voters snapshotLimit =
     (let identity = rsIdentity state; hard = rsHardState state; base = rsSnapshotBase state
      in if siFormatVersion expected \<noteq> StorageFormatVersion1 \<or> identity \<noteq> expected
           then Some ErrInvalidStorageState
         else if siClusterID identity = 0 \<or> siVoterFingerprint identity \<noteq> vsFingerprint voters
           then Some ErrInvalidStorageState
         else if ValidateLocalID voters (siLocalVoterID identity) \<noteq> None then Some ErrInvalidStorageState
         else if hsVotedFor hard \<noteq> 0 \<and> (hsTerm hard = 0 \<or> \<not> Contains voters (hsVotedFor hard))
           then Some ErrInvalidStorageState
         else if (smLastIncludedIndex base = 0) \<noteq> (smLastIncludedTerm base = 0) then Some ErrInvalidStorageState
         else if smLastIncludedTerm base > hsTerm hard then Some ErrInvalidStorageState
         else if smLastIncludedIndex base > rsAppliedIndex state \<or> rsAppliedIndex state > hsCommitIndex hard
           then Some ErrInvalidStorageState
         else case validateRecoveredSnapshot sha256 state expected snapshotLimit of
                Some err \<Rightarrow> Some err
              | None \<Rightarrow>
                  case validateRecoveredEntries (hsTerm hard) (smLastIncludedIndex base) (smLastIncludedTerm base)
                         (rsEntries state) of
                    Inl err \<Rightarrow> Some err
                  | Inr lastIndex \<Rightarrow>
                      if hsCommitIndex hard > lastIndex then Some ErrInvalidStorageState else None)"

definition ValidateRecoveredState ::
    "(bytes \<Rightarrow> bytes32) \<Rightarrow> RecoveredState \<Rightarrow> StorageIdentity \<Rightarrow> VoterSet \<Rightarrow> raft_error option" where
  "ValidateRecoveredState sha256 state expected voters =
     validateRecoveredStateWithSnapshotLimit sha256 state expected voters MaxRaftSnapshotBytes"

text \<open>The lookups of \<open>node_durability.go\<close>.\<close>

definition recoveredEntryAt :: "RecoveredState \<Rightarrow> u64 \<Rightarrow> Entry option" where
  "recoveredEntryAt state index =
     (if index \<le> rsBaseIndex state then None
      else let offset = index - rsBaseIndex state - 1
           in if unat offset \<ge> length (rsEntries state) then None
              else Some (rsEntries state ! unat offset))"

definition recoveredTermAt :: "RecoveredState \<Rightarrow> u64 \<Rightarrow> raft_error + u64" where
  "recoveredTermAt state index =
     (if index = 0 then Inr 0
      else if index = rsBaseIndex state then Inr (smLastIncludedTerm (rsSnapshotBase state))
      else case recoveredEntryAt state index of
             None \<Rightarrow> Inl ErrLogUnavailable
           | Some entry \<Rightarrow> Inr (eTerm entry))"

section \<open>Persistence batches\<close>

definition walRecordHeaderBytes :: nat where "walRecordHeaderBytes = 16"
definition walRecordChecksumBytes :: nat where "walRecordChecksumBytes = 4"
definition boundaryPayloadBytes :: nat where "boundaryPayloadBytes = 12"
definition hardStatePayloadBytes :: nat where "hardStatePayloadBytes = 26"
definition truncatePayloadBytes :: nat where "truncatePayloadBytes = 16"
definition snapshotPayloadBytes :: nat where "snapshotPayloadBytes = 28"
definition appliedPayloadBytes :: nat where "appliedPayloadBytes = 16"
definition minimumWALEntryBytes :: nat where "minimumWALEntryBytes = 21"
definition MaxWALRecordPayloadBytes :: u64 where "MaxWALRecordPayloadBytes = MaxRPCPayloadBytes"
definition MaxWALTransactionBytes :: u64 where "MaxWALTransactionBytes = MaxRPCPayloadBytes"

definition checkedBoundedAdd :: "u64 \<Rightarrow> u64 \<Rightarrow> u64 \<Rightarrow> u64 option" where
  "checkedBoundedAdd current addition maximum =
     (if current > maximum \<or> addition > maximum - current then None else Some (current + addition))"

text \<open>The loop over the entries: the payload of their record, or \<open>None\<close> for an error.\<close>

fun entriesPayloadBytes :: "u64 \<Rightarrow> Entry list \<Rightarrow> u64 option" where
  "entriesPayloadBytes payload [] = Some payload"
| "entriesPayloadBytes payload (entry # entries) =
     (if length (eCommand entry) > unat MaxRaftCommandBytes then None
      else case checkedBoundedAdd payload (word_of_nat minimumWALEntryBytes + len64 (eCommand entry))
                  MaxWALRecordPayloadBytes of
             None \<Rightarrow> None
           | Some payload' \<Rightarrow> entriesPayloadBytes payload' entries)"

text \<open>\<open>if present \<and> !addRecord(payloadBytes) { return error }\<close>\<close>

definition addRecord :: "bool \<Rightarrow> u64 \<Rightarrow> u64 option \<Rightarrow> u64 option" where
  "addRecord present payloadBytes accumulated =
     (case accumulated of
        None \<Rightarrow> None
      | Some t \<Rightarrow>
          if present
          then checkedBoundedAdd t (word_of_nat (walRecordHeaderBytes + walRecordChecksumBytes) + payloadBytes)
                 MaxWALTransactionBytes
          else Some t)"

definition validatePersistenceBatchBounds :: "PersistenceBatch \<Rightarrow> raft_error option" where
  "validatePersistenceBatchBounds batch =
     (if pbHardState batch = None \<and> pbReplaceFrom batch = 0 \<and> length (pbEntries batch) = 0
        \<and> pbSnapshotBase batch = None \<and> pbSnapshot batch = None \<and> pbAppliedIndex batch = None
        then Some ErrInvalidStorageState
      else if pbReplaceFrom batch = 0 \<and> length (pbEntries batch) \<noteq> 0 then Some ErrInvalidStorageState
      else if (case pbSnapshot batch of
                 None \<Rightarrow> False
               | Some snapshot \<Rightarrow> pbSnapshotBase batch \<noteq> Some (snMetadata snapshot))
        then Some ErrInvalidStorageState
      else if length (pbEntries batch) > 65535 then Some ErrInvalidStorageState
      else case (if length (pbEntries batch) \<noteq> 0 then entriesPayloadBytes 10 (pbEntries batch) else Some 0) of
             None \<Rightarrow> Some ErrInvalidStorageState
           | Some entriesPayload \<Rightarrow>
               let total = Some (word_of_nat
                     (2 * (walRecordHeaderBytes + boundaryPayloadBytes + walRecordChecksumBytes)));
                   total = addRecord (pbSnapshotBase batch \<noteq> None) (word_of_nat snapshotPayloadBytes) total;
                   total = addRecord (pbReplaceFrom batch \<noteq> 0) (word_of_nat truncatePayloadBytes) total;
                   total = addRecord (length (pbEntries batch) \<noteq> 0) entriesPayload total;
                   total = addRecord (pbAppliedIndex batch \<noteq> None) (word_of_nat appliedPayloadBytes) total;
                   total = addRecord (pbHardState batch \<noteq> None) (word_of_nat hardStatePayloadBytes) total
               in if total = None then Some ErrInvalidStorageState else None)"

text \<open>The checks of the next hard state.\<close>

definition checkNextHardState :: "HardState \<Rightarrow> HardState option \<Rightarrow> raft_error option" where
  "checkNextHardState current nxt =
     (case nxt of
        None \<Rightarrow> None
      | Some n \<Rightarrow>
          if hsTerm n < hsTerm current \<or> hsCommitIndex n < hsCommitIndex current
            then Some ErrInvalidStorageState
          else if hsTerm n = hsTerm current \<and> hsVotedFor current \<noteq> 0 \<and> hsVotedFor n \<noteq> hsVotedFor current
            then Some ErrInvalidStorageState
          else None)"

text \<open>The snapshot step: the state after it and whether the base advanced.\<close>

definition applySnapshotBase ::
    "RecoveredState \<Rightarrow> PersistenceBatch \<Rightarrow> raft_error + RecoveredState \<times> bool" where
  "applySnapshotBase current batch =
     (case pbSnapshotBase batch of
        None \<Rightarrow> Inr (current, False)
      | Some base \<Rightarrow>
          let baseIndex = smLastIncludedIndex base; oldIndex = rsBaseIndex current;
              commit = rsCommitIndex current;
              effectiveCommit = (case pbHardState batch of
                 Some n \<Rightarrow> if hsCommitIndex n > commit then hsCommitIndex n else commit
               | None \<Rightarrow> commit);
              offset = baseIndex - oldIndex;
              snapshot = (case pbSnapshot batch of
                 Some s \<Rightarrow> Some s
               | None \<Rightarrow> if rsSnapshotBase current \<noteq> base then None else rsSnapshot current)
          in if baseIndex < oldIndex then Inl ErrInvalidStorageState
             else if baseIndex = oldIndex \<and> base \<noteq> rsSnapshotBase current then Inl ErrInvalidStorageState
             else if baseIndex > effectiveCommit then Inl ErrInvalidStorageState
             else if baseIndex > oldIndex then
               (if unat offset \<le> length (rsEntries current) then
                  (if eTerm (rsEntries current ! unat (offset - 1)) \<noteq> smLastIncludedTerm base then
                     (if baseIndex \<le> commit then Inl ErrInvalidStorageState
                      else Inr (current\<lparr>rsEntries := [], rsSnapshotBase := base, rsSnapshot := snapshot\<rparr>, True))
                   else Inr (current\<lparr>rsEntries := drop (unat offset) (rsEntries current),
                              rsSnapshotBase := base, rsSnapshot := snapshot\<rparr>, True))
                else if commit \<noteq> 0 then Inl ErrInvalidStorageState
                else Inr (current\<lparr>rsEntries := [], rsSnapshotBase := base, rsSnapshot := snapshot\<rparr>, True))
             else Inr (current\<lparr>rsSnapshotBase := base, rsSnapshot := snapshot\<rparr>, False))"

text \<open>The replacement of a suffix.\<close>

definition applyReplacement ::
    "bool \<Rightarrow> PersistenceBatch \<Rightarrow> RecoveredState \<Rightarrow> raft_error + RecoveredState" where
  "applyReplacement snapshotAdvanced batch prospective =
     (if pbReplaceFrom batch = 0 then Inr prospective
      else
        let baseIndex = rsBaseIndex prospective; from = pbReplaceFrom batch;
            replacesSnapshotSuffix = snapshotAdvanced \<and> checkedNextIndex baseIndex = Some from;
            lastIndex = baseIndex + len64 (rsEntries prospective);
            offset = from - baseIndex - 1
        in if from \<le> baseIndex \<or> (from \<le> rsCommitIndex prospective \<and> \<not> replacesSnapshotSuffix)
             then Inl ErrInvalidStorageState
           else if lastIndex < baseIndex
               \<or> (from > lastIndex \<and> (lastIndex = MaxUint64 \<or> from \<noteq> lastIndex + 1))
             then Inl ErrInvalidStorageState
           else if unat offset > length (rsEntries prospective) \<or> offset > MaxInt
             then Inl ErrInvalidStorageState
           else if length (pbEntries batch) \<noteq> 0 \<and> eIndex (pbEntries batch ! 0) \<noteq> from
             then Inl ErrInvalidStorageState
           else Inr (prospective\<lparr>rsEntries := take (unat offset) (rsEntries prospective) @ pbEntries batch\<rparr>))"

text \<open>The last steps: hard state, applied index.\<close>

definition applyIndices :: "PersistenceBatch \<Rightarrow> RecoveredState \<Rightarrow> raft_error + RecoveredState" where
  "applyIndices batch prospective0 =
     (let prospective = (case pbHardState batch of
            None \<Rightarrow> prospective0 | Some n \<Rightarrow> prospective0\<lparr>rsHardState := n\<rparr>)
      in case pbAppliedIndex batch of
           None \<Rightarrow> Inr prospective
         | Some applied \<Rightarrow>
             if applied < rsAppliedIndex prospective then Inl ErrInvalidStorageState
             else Inr (prospective\<lparr>rsAppliedIndex := applied\<rparr>))"

definition applyValidatedPersistenceBatch ::
    "(bytes \<Rightarrow> bytes32) \<Rightarrow> RecoveredState \<Rightarrow> PersistenceBatch \<Rightarrow> StorageIdentity \<Rightarrow> VoterSet
       \<Rightarrow> raft_error + RecoveredState" where
  "applyValidatedPersistenceBatch sha256 current batch expected voters =
     (case checkNextHardState (rsHardState current) (pbHardState batch) of
        Some err \<Rightarrow> Inl err
      | None \<Rightarrow>
          case applySnapshotBase current batch of
            Inl err \<Rightarrow> Inl err
          | Inr (based, snapshotAdvanced) \<Rightarrow>
              case applyReplacement snapshotAdvanced batch based of
                Inl err \<Rightarrow> Inl err
              | Inr replaced \<Rightarrow>
                  case applyIndices batch replaced of
                    Inl err \<Rightarrow> Inl err
                  | Inr prospective \<Rightarrow>
                      case ValidateRecoveredState sha256 prospective expected voters of
                        Some err \<Rightarrow> Inl err
                      | None \<Rightarrow> Inr prospective)"

definition applyPersistenceBatch ::
    "(bytes \<Rightarrow> bytes32) \<Rightarrow> RecoveredState \<Rightarrow> PersistenceBatch \<Rightarrow> StorageIdentity \<Rightarrow> VoterSet
       \<Rightarrow> raft_error + RecoveredState" where
  "applyPersistenceBatch sha256 current batch expected voters =
     (case validatePersistenceBatchBounds batch of
        Some err \<Rightarrow> Inl err
      | None \<Rightarrow> applyValidatedPersistenceBatch sha256 current batch expected voters)"

section \<open>Snapshots\<close>

definition compactRecoveredState ::
    "(bytes \<Rightarrow> bytes32) \<Rightarrow> RecoveredState \<Rightarrow> Snapshot \<Rightarrow> StorageIdentity \<Rightarrow> VoterSet \<Rightarrow> u64
       \<Rightarrow> raft_error + RecoveredState" where
  "compactRecoveredState sha256 current snapshot expected voters snapshotLimit =
     (if length (snState snapshot) > unat snapshotLimit then Inl ErrInvalidStorageState
      else case DecodeSnapshotEnvelope sha256 (snEnvelope snapshot) expected snapshotLimit of
        Inl _ \<Rightarrow> Inl ErrInvalidStorageState
      | Inr decoded \<Rightarrow>
          let metadata = snMetadata snapshot; index = smLastIncludedIndex metadata;
              offset = index - rsBaseIndex current
          in if snID decoded \<noteq> snID snapshot \<or> snMetadata decoded \<noteq> metadata
               \<or> snStateChecksum decoded \<noteq> snStateChecksum snapshot
               then Inl ErrInvalidStorageState
             else if index \<le> rsBaseIndex current then
               (if metadata = rsSnapshotBase current
                    \<and> (case rsSnapshot current of None \<Rightarrow> False | Some s \<Rightarrow> snID s = snID snapshot)
                then Inr current else Inl ErrInvalidStorageState)
             else if index > rsCommitIndex current then Inl ErrInvalidStorageState
             else if recoveredTermAt current index \<noteq> Inr (smLastIncludedTerm metadata)
               then Inl ErrInvalidStorageState
             else if unat offset > length (rsEntries current) then Inl ErrInvalidStorageState
             else
               let prospective = current\<lparr>rsSnapshotBase := metadata, rsSnapshot := Some decoded,
                     rsEntries := drop (unat offset) (rsEntries current),
                     rsAppliedIndex := (if rsAppliedIndex current < index then index
                                        else rsAppliedIndex current)\<rparr>
               in case validateRecoveredStateWithSnapshotLimit sha256 prospective expected voters snapshotLimit of
                    Some err \<Rightarrow> Inl err
                  | None \<Rightarrow> Inr prospective)"

definition installRecoveredSnapshot ::
    "(bytes \<Rightarrow> bytes32) \<Rightarrow> RecoveredState \<Rightarrow> Snapshot \<Rightarrow> StorageIdentity \<Rightarrow> VoterSet
       \<Rightarrow> raft_error + RecoveredState" where
  "installRecoveredSnapshot sha256 current snapshot expected voters =
     (let metadata = snMetadata snapshot; index = smLastIncludedIndex metadata;
          lastIndex = rsBaseIndex current + len64 (rsEntries current)
      in if index \<le> rsCommitIndex current then Inl ErrSnapshotRejected
         else if lastIndex < rsBaseIndex current then Inl ErrLogOverflow
         else
           case (if index \<le> lastIndex then
                   (case recoveredTermAt current index of
                      Inl err \<Rightarrow> Inl err
                    | Inr term \<Rightarrow>
                        Inr (if term = smLastIncludedTerm metadata
                             then drop (unat (index - rsBaseIndex current)) (rsEntries current) else []))
                 else Inr []) of
             Inl err \<Rightarrow> Inl err
           | Inr retained \<Rightarrow>
               let prospective = current\<lparr>rsSnapshotBase := metadata, rsSnapshot := Some snapshot,
                     rsEntries := retained,
                     rsHardState := (rsHardState current)\<lparr>hsCommitIndex := index\<rparr>,
                     rsAppliedIndex := (if rsAppliedIndex current < index then index
                                        else rsAppliedIndex current)\<rparr>
               in case ValidateRecoveredState sha256 prospective expected voters of
                    Some err \<Rightarrow> Inl err
                  | None \<Rightarrow> Inr prospective)"

end
