(* ===== verification/Raft_MemoryStore.thy ===== *)
theory Raft_MemoryStore
  imports Raft_Storage
begin

text \<open>
  The transactional store of \<open>internal/raft/memory_storage.go\<close>.  Each method takes the mutex for its
  whole body, so it is one function of the store; it returns the store it leaves behind, also on the
  error paths.  The fault queues are a function from operations to lists: a queue deleted from the Go
  map and an empty one are the same.
\<close>

section \<open>The store\<close>

datatype StorageOperation =
    StorageOperationRecover | StorageOperationPersist | StorageOperationClose
  | StorageOperationSnapshotPersist | StorageOperationSnapshotStageWrite
  | StorageOperationSnapshotStageSync | StorageOperationSnapshotInstall

record memorySnapshotStage =
  stageMetadata :: snapshotTransferMetadata
  stageBytes :: bytes

record MemoryStore =
  msIdentity :: StorageIdentity
  msVoters :: VoterSet
  msSnapshotLimit :: u64
  msState :: RecoveredState
  msClosed :: bool
  msFaults :: "StorageOperation \<Rightarrow> raft_error list"
  msStage :: "memorySnapshotStage option"

record SnapshotStageResult =
  srNextOffset :: u64
  srDone :: bool
  srState :: RecoveredState

definition zero_StorageIdentity :: StorageIdentity where
  "zero_StorageIdentity = \<lparr>siFormatVersion = 0, siClusterID = 0, siLocalVoterID = 0, siVoterFingerprint = 0\<rparr>"

text \<open>\<open>RecoveredState{Identity: identity}\<close>; with the zero identity it is the zero value.\<close>

definition emptyState :: "StorageIdentity \<Rightarrow> RecoveredState" where
  "emptyState identity = \<lparr>rsIdentity = identity, rsHardState = zero_HardState,
     rsSnapshotBase = zero_SnapshotMetadata, rsSnapshot = None, rsAppliedIndex = 0, rsEntries = []\<rparr>"

definition NewMemoryStoreWithOptions ::
    "(bytes \<Rightarrow> bytes32) \<Rightarrow> StorageIdentity \<Rightarrow> VoterSet \<Rightarrow> u64 \<Rightarrow> raft_error + MemoryStore" where
  "NewMemoryStoreWithOptions sha256 identity voters maxSnapshotBytes =
     (case snapshotLimitOf maxSnapshotBytes of
        Inl err \<Rightarrow> Inl err
      | Inr limit \<Rightarrow>
          case ValidateRecoveredState sha256 (emptyState identity) identity voters of
            Some err \<Rightarrow> Inl err
          | None \<Rightarrow> Inr \<lparr>msIdentity = identity, msVoters = voters, msSnapshotLimit = limit,
              msState = emptyState identity, msClosed = False, msFaults = (\<lambda>_. []), msStage = None\<rparr>)"

definition NewMemoryStore :: "(bytes \<Rightarrow> bytes32) \<Rightarrow> StorageIdentity \<Rightarrow> VoterSet \<Rightarrow> raft_error + MemoryStore" where
  "NewMemoryStore sha256 identity voters = NewMemoryStoreWithOptions sha256 identity voters 0"

definition FailNext :: "StorageOperation \<Rightarrow> raft_error \<Rightarrow> MemoryStore \<Rightarrow> MemoryStore" where
  "FailNext operation err store =
     store\<lparr>msFaults := (msFaults store)(operation := msFaults store operation @ [err])\<rparr>"

definition takeFault :: "StorageOperation \<Rightarrow> MemoryStore \<Rightarrow> MemoryStore \<times> raft_error option" where
  "takeFault operation store =
     (case msFaults store operation of
        [] \<Rightarrow> (store, None)
      | err # queued \<Rightarrow> (store\<lparr>msFaults := (msFaults store)(operation := queued)\<rparr>, Some err))"

definition Recover :: "(bytes \<Rightarrow> bytes32) \<Rightarrow> MemoryStore \<Rightarrow> MemoryStore \<times> (raft_error + RecoveredState)" where
  "Recover sha256 store =
     (if msClosed store then (store, Inl ErrStoreClosed)
      else case takeFault StorageOperationRecover store of
        (store', Some err) \<Rightarrow> (store', Inl err)
      | (store', None) \<Rightarrow>
          (store', case validateRecoveredStateWithSnapshotLimit sha256 (msState store') (msIdentity store')
                          (msVoters store') (msSnapshotLimit store') of
                     Some err \<Rightarrow> Inl err
                   | None \<Rightarrow> Inr (msState store')))"

definition Persist :: "(bytes \<Rightarrow> bytes32) \<Rightarrow> PersistenceBatch \<Rightarrow> MemoryStore \<Rightarrow> MemoryStore \<times> raft_error option" where
  "Persist sha256 batch store =
     (if msClosed store then (store, Some ErrStoreClosed)
      else case validatePersistenceBatchBounds batch of
        Some err \<Rightarrow> (store, Some err)
      | None \<Rightarrow>
          if (case pbSnapshot batch of
                None \<Rightarrow> False
              | Some snapshot \<Rightarrow> length (snState snapshot) > unat (msSnapshotLimit store))
          then (store, Some ErrInvalidStorageState)
          else case takeFault StorageOperationPersist store of
            (store', Some err) \<Rightarrow> (store', Some err)
          | (store', None) \<Rightarrow>
              case applyValidatedPersistenceBatch sha256 (msState store') batch (msIdentity store')
                     (msVoters store') of
                Inl err \<Rightarrow> (store', Some err)
              | Inr prospective \<Rightarrow> (store'\<lparr>msState := prospective\<rparr>, None))"

definition PersistSnapshot :: "(bytes \<Rightarrow> bytes32) \<Rightarrow> Snapshot \<Rightarrow> MemoryStore \<Rightarrow> MemoryStore \<times> raft_error option" where
  "PersistSnapshot sha256 snapshot store =
     (if msClosed store then (store, Some ErrStoreClosed)
      else case takeFault StorageOperationSnapshotPersist store of
        (store', Some err) \<Rightarrow> (store', Some err)
      | (store', None) \<Rightarrow>
          case compactRecoveredState sha256 (msState store') snapshot (msIdentity store') (msVoters store')
                 (msSnapshotLimit store') of
            Inl err \<Rightarrow> (store', Some err)
          | Inr prospective \<Rightarrow> (store'\<lparr>msState := prospective\<rparr>, None))"

text \<open>The sum of \<open>RetainedWALBytes\<close>.\<close>

fun retainedBytes :: "u64 \<Rightarrow> Entry list \<Rightarrow> raft_error + u64" where
  "retainedBytes accumulated [] = Inr accumulated"
| "retainedBytes accumulated (entry # entries) =
     (let addition = word_of_nat (minimumWALEntryBytes + length (eCommand entry))
      in if accumulated > MaxUint64 - addition then Inl ErrLogOverflow
         else retainedBytes (accumulated + addition) entries)"

definition RetainedWALBytes :: "MemoryStore \<Rightarrow> raft_error + u64" where
  "RetainedWALBytes store =
     (if msClosed store then Inl ErrStoreClosed else retainedBytes 0 (rsEntries (msState store)))"

definition AbortSnapshotStage :: "MemoryStore \<Rightarrow> MemoryStore \<times> raft_error option" where
  "AbortSnapshotStage store =
     (if msClosed store then (store, Some ErrStoreClosed) else (store\<lparr>msStage := None\<rparr>, None))"

definition Close :: "MemoryStore \<Rightarrow> MemoryStore \<times> raft_error option" where
  "Close store =
     (if msClosed store then (store, Some ErrStoreClosed)
      else case takeFault StorageOperationClose store of
        (store', Some err) \<Rightarrow> (store', Some err)
      | (store', None) \<Rightarrow> (store'\<lparr>msStage := None, msClosed := True\<rparr>, None))"

section \<open>Staging a received snapshot\<close>

text \<open>The switch on the offset: the store with the bytes it now owns, and the next offset.\<close>

definition stageChunk ::
    "InstallSnapshotRequest \<Rightarrow> memorySnapshotStage \<Rightarrow> MemoryStore \<Rightarrow> MemoryStore \<times> (raft_error + u64)" where
  "stageChunk request stage store =
     (let nextOffset = len64 (stageBytes stage);
          stop = iqOffset request + len64 (iqChunk request);
          dropped = (\<lambda>s. s\<lparr>msStage := None\<rparr>)
      in if iqOffset request = nextOffset then
           (case takeFault StorageOperationSnapshotStageWrite store of
              (store', Some err) \<Rightarrow> (dropped store', Inl err)
            | (store', None) \<Rightarrow>
                (case takeFault StorageOperationSnapshotStageSync store' of
                   (store'', Some err) \<Rightarrow> (dropped store'', Inl err)
                 | (store'', None) \<Rightarrow>
                     (store''\<lparr>msStage := Some (stage\<lparr>stageBytes := stageBytes stage @ iqChunk request\<rparr>)\<rparr>, Inr stop)))
         else if stop \<le> nextOffset then
           (if segment (unat (iqOffset request)) (unat stop) (stageBytes stage) \<noteq> iqChunk request
            then (dropped store, Inl ErrSnapshotRejected)
            else (store\<lparr>msStage := Some stage\<rparr>, Inr nextOffset))
         else (dropped store, Inl ErrSnapshotRejected))"

text \<open>After the last chunk: checksum, identity, installation.\<close>

definition completeStage ::
    "(bytes \<Rightarrow> bytes32) \<Rightarrow> InstallSnapshotRequest \<Rightarrow> u64 \<Rightarrow> memorySnapshotStage \<Rightarrow> MemoryStore
       \<Rightarrow> MemoryStore \<times> (raft_error + SnapshotStageResult)" where
  "completeStage sha256 request nextOffset stage store =
     (let dropped = (\<lambda>s. s\<lparr>msStage := None\<rparr>)
      in if sha256 (stageBytes stage) \<noteq> iqChecksum request then (dropped store, Inl ErrSnapshotRejected)
         else case NewSnapshot sha256 (msIdentity store) (tmMetadata (stageMetadata stage))
                     (stageBytes stage) (msSnapshotLimit store) of
           Inl _ \<Rightarrow> (dropped store, Inl ErrSnapshotRejected)
         | Inr snapshot \<Rightarrow>
             if snID snapshot \<noteq> iqSnapshotID request then (dropped store, Inl ErrSnapshotRejected)
             else case installRecoveredSnapshot sha256 (msState store) snapshot (msIdentity store)
                         (msVoters store) of
               Inl err \<Rightarrow> (dropped store, Inl err)
             | Inr prospective \<Rightarrow>
                 (case takeFault StorageOperationSnapshotInstall store of
                    (store', Some err) \<Rightarrow> (dropped store', Inl err)
                  | (store', None) \<Rightarrow>
                      (store'\<lparr>msState := prospective, msStage := None\<rparr>,
                       Inr \<lparr>srNextOffset = nextOffset, srDone = True, srState = prospective\<rparr>)))"

definition StageSnapshotChunk ::
    "(bytes \<Rightarrow> bytes32) \<Rightarrow> InstallSnapshotRequest \<Rightarrow> MemoryStore
       \<Rightarrow> MemoryStore \<times> (raft_error + SnapshotStageResult)" where
  "StageSnapshotChunk sha256 request store =
     (let dropped = store\<lparr>msStage := None\<rparr>; metadata = snapshotTransferMetadataFor request
      in if msClosed store then (store, Inl ErrStoreClosed)
         else if validateSnapshotRequest request
                   (DefaultCodecLimits\<lparr>clMaxSnapshotBytes := msSnapshotLimit store\<rparr>) \<noteq> None
           then (dropped, Inl ErrSnapshotRejected)
         else if msStage store = None \<and> iqOffset request \<noteq> 0 then (store, Inl ErrSnapshotRejected)
         else
           let stage = (case msStage store of
                 None \<Rightarrow> \<lparr>stageMetadata = metadata, stageBytes = []\<rparr> | Some s \<Rightarrow> s)
           in if stageMetadata stage \<noteq> metadata then (dropped, Inl ErrSnapshotRejected)
              else case stageChunk request stage store of
                (store', Inl err) \<Rightarrow> (store', Inl err)
              | (store', Inr nextOffset) \<Rightarrow>
                  if \<not> iqDone request
                  then (store', Inr \<lparr>srNextOffset = nextOffset, srDone = False,
                          srState = emptyState zero_StorageIdentity\<rparr>)
                  else (case msStage store' of
                          None \<Rightarrow> (store', Inl ErrSnapshotRejected) \<comment> \<open>unreachable: the stage is set above\<close>
                        | Some stage' \<Rightarrow> completeStage sha256 request nextOffset stage' store'))"

end
