(* ===== verification/Raft_Storage_Facts.thy ===== *)
theory Raft_Storage_Facts
  imports Raft_MemoryStore Raft_Log_Facts
begin

text \<open>
  What the durable store guarantees: every state it ever holds is valid, its term, vote and indices
  never regress, a failed call changes nothing durable, committed entries survive, and a valid state
  loads as a log with the same lookups.
\<close>

section \<open>Valid states\<close>

text \<open>A chain of checks returns no error exactly when each of them passes.\<close>

lemma guard_None:
  "(if b then Some err else rest) = None \<longleftrightarrow> \<not> b \<and> rest = None"
  "(case check of None \<Rightarrow> rest | Some e \<Rightarrow> Some e) = None \<longleftrightarrow> check = None \<and> rest = None"
  by (auto split: option.split)

lemma guard_Inr:
  "(if b then Inl err else rest) = Inr y \<longleftrightarrow> \<not> b \<and> rest = Inr y"
  "(case check of None \<Rightarrow> rest | Some e \<Rightarrow> Inl e) = Inr y \<longleftrightarrow> check = None \<and> rest = Inr y"
  "(case call of Inl e \<Rightarrow> Inl e | Inr x \<Rightarrow> f x) = Inr y \<longleftrightarrow> (\<exists>x. call = Inr x \<and> f x = Inr y)"
  by (auto split: option.split sum.split)

lemma validateRecoveredEntries_iff:
  "validateRecoveredEntries h i p es = Inr final \<longleftrightarrow>
     contiguous i es \<and> unat final = unat i + length es \<and> sorted (p # map eTerm es)
     \<and> (\<forall>e \<in> set es. eTerm e \<le> h)"
proof (induction es arbitrary: i p)
  case Nil
  then show ?case by (auto simp: word_unat_eq_iff)
next
  case (Cons e es)
  show ?case
  proof (cases "i = MaxUint64")
    case True
    then have "unat (eIndex e) \<noteq> Suc (unat i)"
      using unat_lt_u64[of "eIndex e"] by (simp add: unat_MaxUint64)
    with True show ?thesis by (auto simp: contiguous_def)
  next
    case False
    then have i': "unat (i + 1) = unat i + 1" by (simp add: unat_Suc_word)
    show ?thesis
      using False Cons.IH[of "i + 1" "eTerm e"] contiguous_Cons[OF i'] i'
      by (auto simp: not_less intro: order_trans[of p "eTerm e"])
  qed
qed

lemma validateRecoveredEntries_error:
  "validateRecoveredEntries h i p es = Inl err \<Longrightarrow> err = ErrInvalidStorageState"
  by (induction es arbitrary: i p) (auto split: if_splits)

definition payload_ok :: "(bytes \<Rightarrow> bytes32) \<Rightarrow> u64 \<Rightarrow> RecoveredState \<Rightarrow> bool" where
  "payload_ok sha256 limit st \<longleftrightarrow> validateRecoveredSnapshot sha256 st (rsIdentity st) limit = None"

text \<open>The checks of \<open>validateRecoveredStateWithSnapshotLimit\<close>, as one predicate.\<close>

definition state_ok :: "(bytes \<Rightarrow> bytes32) \<Rightarrow> u64 \<Rightarrow> VoterSet \<Rightarrow> RecoveredState \<Rightarrow> bool" where
  "state_ok sha256 limit voters st \<longleftrightarrow>
     siFormatVersion (rsIdentity st) = StorageFormatVersion1 \<and> siClusterID (rsIdentity st) \<noteq> 0
   \<and> siVoterFingerprint (rsIdentity st) = vsFingerprint voters
   \<and> ValidateLocalID voters (siLocalVoterID (rsIdentity st)) = None
   \<and> (hsVotedFor (rsHardState st) \<noteq> 0 \<longrightarrow> rsTerm st \<noteq> 0 \<and> Contains voters (hsVotedFor (rsHardState st)))
   \<and> (rsBaseIndex st = 0 \<longleftrightarrow> smLastIncludedTerm (rsSnapshotBase st) = 0)
   \<and> smLastIncludedTerm (rsSnapshotBase st) \<le> rsTerm st
   \<and> rsBaseIndex st \<le> rsAppliedIndex st \<and> rsAppliedIndex st \<le> rsCommitIndex st
   \<and> payload_ok sha256 limit st
   \<and> contiguous (rsBaseIndex st) (rsEntries st)
   \<and> sorted (smLastIncludedTerm (rsSnapshotBase st) # map eTerm (rsEntries st))
   \<and> (\<forall>e \<in> set (rsEntries st). eTerm e \<le> rsTerm st)
   \<and> unat (rsCommitIndex st) \<le> unat (rsBaseIndex st) + length (rsEntries st)"

lemma validate_iff:
  "validateRecoveredStateWithSnapshotLimit sha256 st expected voters limit = None \<longleftrightarrow>
     rsIdentity st = expected \<and> state_ok sha256 limit voters st"
proof -
  let ?v = "validateRecoveredEntries (rsTerm st) (rsBaseIndex st) (smLastIncludedTerm (rsSnapshotBase st))
    (rsEntries st)"
  let ?last = "word_of_nat (unat (rsBaseIndex st) + length (rsEntries st)) :: u64"
  have last: "unat ?last = unat (rsBaseIndex st) + length (rsEntries st)"
    if "contiguous (rsBaseIndex st) (rsEntries st)"
    using contiguous_size[OF that] by (rule unat_of_nat_u64)
  have entries: "(case ?v of Inl err \<Rightarrow> Some err
        | Inr lastIndex \<Rightarrow> if rsCommitIndex st > lastIndex then Some ErrInvalidStorageState else None) = None \<longleftrightarrow>
      contiguous (rsBaseIndex st) (rsEntries st)
      \<and> sorted (smLastIncludedTerm (rsSnapshotBase st) # map eTerm (rsEntries st))
      \<and> (\<forall>e \<in> set (rsEntries st). eTerm e \<le> rsTerm st)
      \<and> unat (rsCommitIndex st) \<le> unat (rsBaseIndex st) + length (rsEntries st)" (is "?l \<longleftrightarrow> ?r")
  proof
    assume ?l
    then obtain f where "?v = Inr f" "\<not> f < rsCommitIndex st"
      by (auto split: sum.splits if_splits)
    then show ?r
      by (auto simp: validateRecoveredEntries_iff word_less_nat_alt)
  next
    assume r: ?r
    then have "?v = Inr ?last"
      unfolding validateRecoveredEntries_iff using last by simp
    then show ?l
      using r last by (simp add: word_less_nat_alt)
  qed
  have "validateRecoveredStateWithSnapshotLimit sha256 st expected voters limit = None \<longleftrightarrow>
     \<not> (siFormatVersion expected \<noteq> StorageFormatVersion1 \<or> rsIdentity st \<noteq> expected)
   \<and> \<not> (siClusterID (rsIdentity st) = 0 \<or> siVoterFingerprint (rsIdentity st) \<noteq> vsFingerprint voters)
   \<and> ValidateLocalID voters (siLocalVoterID (rsIdentity st)) = None
   \<and> \<not> (hsVotedFor (rsHardState st) \<noteq> 0 \<and> (rsTerm st = 0 \<or> \<not> Contains voters (hsVotedFor (rsHardState st))))
   \<and> (rsBaseIndex st = 0) = (smLastIncludedTerm (rsSnapshotBase st) = 0)
   \<and> \<not> rsTerm st < smLastIncludedTerm (rsSnapshotBase st)
   \<and> \<not> (rsAppliedIndex st < rsBaseIndex st \<or> rsCommitIndex st < rsAppliedIndex st)
   \<and> validateRecoveredSnapshot sha256 st expected limit = None
   \<and> ?l"
    unfolding validateRecoveredStateWithSnapshotLimit_def Let_def
    by (simp only: guard_None not_not)
  then show ?thesis
    unfolding entries state_ok_def payload_ok_def by (auto simp: not_less)
qed

section \<open>One transition\<close>

definition durable_le :: "RecoveredState \<Rightarrow> RecoveredState \<Rightarrow> bool" where
  "durable_le st st' \<longleftrightarrow>
     rsIdentity st' = rsIdentity st \<and> rsTerm st \<le> rsTerm st'
   \<and> (rsTerm st' = rsTerm st \<and> hsVotedFor (rsHardState st) \<noteq> 0
        \<longrightarrow> hsVotedFor (rsHardState st') = hsVotedFor (rsHardState st))
   \<and> rsCommitIndex st \<le> rsCommitIndex st' \<and> rsBaseIndex st \<le> rsBaseIndex st'
   \<and> rsAppliedIndex st \<le> rsAppliedIndex st'"

lemma durable_le_trans: "durable_le a b \<Longrightarrow> durable_le b c \<Longrightarrow> durable_le a c"
proof -
  assume ab: "durable_le a b" and bc: "durable_le b c"
  have "rsTerm a \<le> rsTerm b" "rsTerm b \<le> rsTerm c"
    using ab bc by (simp_all add: durable_le_def)
  then have "rsTerm c = rsTerm a \<Longrightarrow> rsTerm b = rsTerm a \<and> rsTerm c = rsTerm b"
    by simp
  then have "rsTerm c = rsTerm a \<and> hsVotedFor (rsHardState a) \<noteq> 0
      \<Longrightarrow> hsVotedFor (rsHardState c) = hsVotedFor (rsHardState a)"
    using ab bc unfolding durable_le_def by metis
  then show ?thesis
    using ab bc unfolding durable_le_def by (metis order_trans)
qed

interpretation durable: step_preorder durable_le
  by unfold_locales (simp add: durable_le_def, rule durable_le_trans)

lemma applySnapshotBase_frame:
  assumes "applySnapshotBase st batch = Inr (st', advanced)"
  shows "rsIdentity st' = rsIdentity st" "rsHardState st' = rsHardState st"
    "rsAppliedIndex st' = rsAppliedIndex st" "rsBaseIndex st \<le> rsBaseIndex st'"
    "pbSnapshotBase batch = None \<Longrightarrow> st' = st \<and> \<not> advanced"
proof -
  have *: "rsIdentity st' = rsIdentity st \<and> rsHardState st' = rsHardState st
      \<and> rsAppliedIndex st' = rsAppliedIndex st \<and> rsBaseIndex st \<le> rsBaseIndex st'
      \<and> (pbSnapshotBase batch = None \<longrightarrow> st' = st \<and> \<not> advanced)"
  proof (cases "pbSnapshotBase batch")
    case None
    then show ?thesis using assms by (simp add: applySnapshotBase_def)
  next
    case (Some base)
    show ?thesis
      using assms unfolding applySnapshotBase_def Let_def Some option.case guard_Inr
      by (auto simp: guard_Inr split: if_splits)
  qed
  then show "rsIdentity st' = rsIdentity st" "rsHardState st' = rsHardState st"
    "rsAppliedIndex st' = rsAppliedIndex st" "rsBaseIndex st \<le> rsBaseIndex st'"
    "pbSnapshotBase batch = None \<Longrightarrow> st' = st \<and> \<not> advanced"
    by simp_all
qed

lemma applyReplacement_frame:
  "applyReplacement advanced batch st = Inr st' \<Longrightarrow> st' = st\<lparr>rsEntries := rsEntries st'\<rparr>"
  by (auto simp: applyReplacement_def Let_def split: if_splits)

lemma applyIndices_frame:
  assumes "applyIndices batch st = Inr st'"
  shows "rsIdentity st' = rsIdentity st" "rsSnapshotBase st' = rsSnapshotBase st" "rsEntries st' = rsEntries st"
    "rsHardState st' = (case pbHardState batch of None \<Rightarrow> rsHardState st | Some n \<Rightarrow> n)"
    "rsAppliedIndex st \<le> rsAppliedIndex st'"
  using assms by (auto simp: applyIndices_def Let_def not_less split: option.splits if_splits)

text \<open>The steps of an accepted batch.\<close>

lemma applyValidated_cases:
  assumes "applyValidatedPersistenceBatch sha256 st batch expected voters = Inr st'"
  obtains based advanced replaced where
    "checkNextHardState (rsHardState st) (pbHardState batch) = None"
    "applySnapshotBase st batch = Inr (based, advanced)" "applyReplacement advanced batch based = Inr replaced"
    "applyIndices batch replaced = Inr st'" "rsIdentity st' = expected" "state_ok sha256 MaxRaftSnapshotBytes voters st'"
  using assms
  by (auto simp: applyValidatedPersistenceBatch_def ValidateRecoveredState_def validate_iff
      split: option.splits sum.splits prod.splits)

lemma applyValidated_le:
  assumes "applyValidatedPersistenceBatch sha256 st batch expected voters = Inr st'"
  shows "durable_le st st'"
  using assms
proof (rule applyValidated_cases)
  fix based advanced replaced
  assume h: "checkNextHardState (rsHardState st) (pbHardState batch) = None"
    and b: "applySnapshotBase st batch = Inr (based, advanced)"
    and r: "applyReplacement advanced batch based = Inr replaced" and i: "applyIndices batch replaced = Inr st'"
  have "rsIdentity replaced = rsIdentity based" "rsHardState replaced = rsHardState based"
      "rsSnapshotBase replaced = rsSnapshotBase based" "rsAppliedIndex replaced = rsAppliedIndex based"
    by (subst applyReplacement_frame[OF r], simp)+
  then show ?thesis
    using h applySnapshotBase_frame[OF b] applyIndices_frame[OF i]
    by (auto simp: durable_le_def checkNextHardState_def not_less split: option.splits if_splits)
qed

text \<open>A snapshot that fits a store's limit fits the protocol's.\<close>

lemma decode_limit_mono:
  assumes "DecodeSnapshotEnvelope sha256 envelope expected limit = Inr s" "limit \<le> MaxRaftSnapshotBytes"
  shows "DecodeSnapshotEnvelope sha256 envelope expected MaxRaftSnapshotBytes = Inr s"
proof -
  have "validateSnapshotInputs i m l MaxRaftSnapshotBytes = None" if "validateSnapshotInputs i m l limit = None" for i m l
    using that assms(2) by (auto simp: validateSnapshotInputs_def MaxRaftSnapshotBytes_def split: if_splits)
  then show ?thesis
    using assms(1) by (auto simp: DecodeSnapshotEnvelope_def Let_def split: if_splits option.splits)
qed

lemma state_ok_limit_mono:
  assumes "state_ok sha256 limit voters st" "limit \<le> MaxRaftSnapshotBytes"
  shows "state_ok sha256 MaxRaftSnapshotBytes voters st"
proof -
  have "payload_ok sha256 MaxRaftSnapshotBytes st" if "payload_ok sha256 limit st"
    using that assms(2) decode_limit_mono[OF _ assms(2)] unfolding word_le_nat_alt
    by (force simp: payload_ok_def validateRecoveredSnapshot_def not_less split: option.splits if_splits sum.splits)
  then show ?thesis
    using assms(1) by (simp add: state_ok_def)
qed

lemma compactRecoveredState_cases:
  assumes "compactRecoveredState sha256 st snapshot expected voters limit = Inr st'"
  obtains "st' = st"
  | "rsBaseIndex st < smLastIncludedIndex (snMetadata snapshot)"
    "smLastIncludedIndex (snMetadata snapshot) \<le> rsCommitIndex st"
    "recoveredTermAt st (smLastIncludedIndex (snMetadata snapshot)) = Inr (smLastIncludedTerm (snMetadata snapshot))"
    "rsSnapshotBase st' = snMetadata snapshot" "rsHardState st' = rsHardState st" "rsIdentity st' = rsIdentity st"
    "rsEntries st' = drop (unat (smLastIncludedIndex (snMetadata snapshot) - rsBaseIndex st)) (rsEntries st)"
    "rsAppliedIndex st' = (if rsAppliedIndex st < smLastIncludedIndex (snMetadata snapshot)
       then smLastIncludedIndex (snMetadata snapshot) else rsAppliedIndex st)"
    "rsIdentity st' = expected" "state_ok sha256 limit voters st'"
proof (cases "smLastIncludedIndex (snMetadata snapshot) \<le> rsBaseIndex st")
  case True
  then show ?thesis
    using assms that(1) unfolding compactRecoveredState_def Let_def
    by (auto split: sum.splits if_splits)
next
  case False
  let ?i = "smLastIncludedIndex (snMetadata snapshot)"
  let ?st = "\<lambda>decoded. st\<lparr>rsSnapshotBase := snMetadata snapshot, rsSnapshot := Some decoded,
     rsEntries := drop (unat (?i - rsBaseIndex st)) (rsEntries st),
     rsAppliedIndex := (if rsAppliedIndex st < ?i then ?i else rsAppliedIndex st)\<rparr>"
  obtain decoded where d: "?i \<le> rsCommitIndex st"
      "recoveredTermAt st ?i = Inr (smLastIncludedTerm (snMetadata snapshot))"
      "validateRecoveredStateWithSnapshotLimit sha256 (?st decoded) expected voters limit = None"
      "st' = ?st decoded"
    using assms False unfolding compactRecoveredState_def Let_def guard_Inr
    by (auto simp: guard_Inr not_less split: sum.splits)
  show ?thesis
    by (rule that(2)) (use d False in \<open>simp_all add: validate_iff\<close>)
qed

lemma installRecoveredSnapshot_cases:
  assumes "installRecoveredSnapshot sha256 st snapshot expected voters = Inr st'"
  obtains "rsCommitIndex st < smLastIncludedIndex (snMetadata snapshot)"
    "rsSnapshotBase st' = snMetadata snapshot" "rsIdentity st' = rsIdentity st"
    "rsHardState st' = (rsHardState st)\<lparr>hsCommitIndex := smLastIncludedIndex (snMetadata snapshot)\<rparr>"
    "rsAppliedIndex st' = (if rsAppliedIndex st < smLastIncludedIndex (snMetadata snapshot)
       then smLastIncludedIndex (snMetadata snapshot) else rsAppliedIndex st)"
    "rsSnapshot st' = Some snapshot"
    "rsIdentity st' = expected" "state_ok sha256 MaxRaftSnapshotBytes voters st'"
  using assms that unfolding installRecoveredSnapshot_def Let_def guard_Inr
  by (auto simp: guard_Inr ValidateRecoveredState_def validate_iff not_le)

lemma compactRecoveredState_le:
  assumes "compactRecoveredState sha256 st snapshot expected voters limit = Inr st'"
  shows "durable_le st st'"
  using assms
proof (cases rule: compactRecoveredState_cases)
  case 1
  then show ?thesis by (simp add: durable_le_def)
next
  case 2
  then show ?thesis by (simp add: durable_le_def less_imp_le)
qed

lemma installRecoveredSnapshot_le:
  assumes "installRecoveredSnapshot sha256 st snapshot expected voters = Inr st'"
    and "rsBaseIndex st \<le> rsCommitIndex st"
  shows "durable_le st st'"
  using assms(1)
proof (cases rule: installRecoveredSnapshot_cases)
  case 1
  moreover from this(1) have "rsBaseIndex st < smLastIncludedIndex (snMetadata snapshot)"
    using assms(2) by simp
  ultimately show ?thesis by (simp add: durable_le_def less_imp_le)
qed

section \<open>Lookups\<close>

lemma recoveredEntryAt_ok:
  "recoveredEntryAt st i =
     (if rsBaseIndex st < i \<and> unat i - unat (rsBaseIndex st) - 1 < length (rsEntries st)
      then Some (rsEntries st ! (unat i - unat (rsBaseIndex st) - 1)) else None)"
  by (auto simp: recoveredEntryAt_def Let_def unat_offset not_le)

lemma recoveredEntryAt_drop:
  assumes "rsEntries st' = drop (unat (rsBaseIndex st' - rsBaseIndex st)) (rsEntries st)"
    and "rsBaseIndex st \<le> rsBaseIndex st'" "rsBaseIndex st' < i"
  shows "recoveredEntryAt st' i = recoveredEntryAt st i"
proof -
  have "unat (rsBaseIndex st' - rsBaseIndex st) + (unat i - unat (rsBaseIndex st') - 1)
      = unat i - unat (rsBaseIndex st) - 1"
    using assms(2,3) by (simp add: unat_sub word_le_nat_alt word_less_nat_alt)
  moreover have "rsBaseIndex st < i"
    using assms(2,3) by simp
  ultimately show ?thesis
    using assms by (auto simp: recoveredEntryAt_ok)
qed

text \<open>A valid state loads as a log that agrees with it on every position.\<close>

lemma recovered_log_ok:
  assumes "state_ok sha256 limit voters st"
  shows "\<exists>l. NewLog (rsBaseIndex st) (smLastIncludedTerm (rsSnapshotBase st)) (rsCommitIndex st)
       (rsAppliedIndex st) (rsEntries st) = Inr l
     \<and> (\<forall>i e. EntryAt l i = Inr e \<longleftrightarrow> recoveredEntryAt st i = Some e)
     \<and> (\<forall>i t. rsBaseIndex st \<le> i \<longrightarrow> (Term l i = Inr t \<longleftrightarrow> recoveredTermAt st i = Inr t))
     \<and> (\<forall>i < rsBaseIndex st. Term l i = Inl ErrLogCompacted
           \<and> recoveredTermAt st i = (if i = 0 then Inr 0 else Inl ErrLogUnavailable))"
proof -
  let ?last = "word_of_nat (unat (rsBaseIndex st) + length (rsEntries st)) :: u64"
  define l where "l = \<lparr>lSnapshotIndex = rsBaseIndex st, lSnapshotTerm = smLastIncludedTerm (rsSnapshotBase st),
    lCommitIndex = rsCommitIndex st, lAppliedIndex = rsAppliedIndex st, lLastIndex = ?last,
    lEntries = rsEntries st\<rparr>"
  have c: "contiguous (rsBaseIndex st) (rsEntries st)"
    using assms by (simp add: state_ok_def)
  then have last: "unat ?last = unat (rsBaseIndex st) + length (rsEntries st)"
    using contiguous_size unat_of_nat_u64 by blast
  have "checkContiguous (rsBaseIndex st) (rsEntries st) = Inr ?last"
    unfolding checkContiguous_ok using c last by simp
  then have new: "NewLog (rsBaseIndex st) (smLastIncludedTerm (rsSnapshotBase st)) (rsCommitIndex st)
       (rsAppliedIndex st) (rsEntries st) = Inr l"
    using assms last by (auto simp: NewLog_def l_def state_ok_def not_less word_le_nat_alt)
  note wf = NewLog_wf[OF new]
  have fields: "lSnapshotIndex l = rsBaseIndex st" "lEntries l = rsEntries st"
      "unat (lLastIndex l) = unat (rsBaseIndex st) + length (rsEntries st)"
    using last by (simp_all add: l_def)
  have entry: "EntryAt l i = Inr e \<longleftrightarrow> recoveredEntryAt st i = Some e" for i e
    by (auto simp: EntryAt_ok[OF wf] recoveredEntryAt_ok pos_def fields word_less_nat_alt word_le_nat_alt)
  have zero: "smLastIncludedTerm (rsSnapshotBase st) = 0" if "rsBaseIndex st = 0"
    using assms that by (simp add: state_ok_def)
  have "Term l i = Inr t \<longleftrightarrow> recoveredTermAt st i = Inr t" if "rsBaseIndex st \<le> i" for i t
  proof (cases "i = rsBaseIndex st")
    case True
    then show ?thesis using zero by (auto simp: Term_def recoveredTermAt_def l_def)
  next
    case False
    then have "rsBaseIndex st < i" "i \<noteq> 0"
      using that by auto
    then have "Term l i = Inr t \<longleftrightarrow> (\<exists>e. EntryAt l i = Inr e \<and> eTerm e = t)"
      by (auto simp: Term_def EntryAt_def l_def split: sum.splits)
    then show ?thesis
      using False \<open>i \<noteq> 0\<close> by (auto simp: entry recoveredTermAt_def split: option.splits)
  qed
  moreover have "Term l i = Inl ErrLogCompacted
      \<and> recoveredTermAt st i = (if i = 0 then Inr 0 else Inl ErrLogUnavailable)" if "i < rsBaseIndex st" for i
    using that by (auto simp: Term_def recoveredTermAt_def recoveredEntryAt_def l_def)
  ultimately show ?thesis using new entry by blast
qed

section \<open>Committed entries survive\<close>

definition entries_kept :: "RecoveredState \<Rightarrow> RecoveredState \<Rightarrow> bool" where
  "entries_kept st st' \<longleftrightarrow>
     (\<forall>i. rsBaseIndex st' < i \<longrightarrow> i \<le> rsCommitIndex st \<longrightarrow> recoveredEntryAt st' i = recoveredEntryAt st i)"

lemma applySnapshotBase_kept:
  assumes "applySnapshotBase st batch = Inr (st', advanced)"
  shows "entries_kept st st'"
proof (cases "pbSnapshotBase batch")
  case None
  then show ?thesis using assms by (simp add: applySnapshotBase_def entries_kept_def)
next
  case (Some base)
  have "(rsEntries st' = [] \<and> (rsCommitIndex st < rsBaseIndex st' \<or> rsCommitIndex st = 0))
      \<or> (rsEntries st' = drop (unat (rsBaseIndex st' - rsBaseIndex st)) (rsEntries st)
          \<and> rsBaseIndex st \<le> rsBaseIndex st')"
    using assms unfolding applySnapshotBase_def Let_def Some option.case guard_Inr
    by (auto simp: guard_Inr not_le less_imp_le split: if_splits)
  then show ?thesis
  proof
    assume "rsEntries st' = [] \<and> (rsCommitIndex st < rsBaseIndex st' \<or> rsCommitIndex st = 0)"
    then have "\<not> (rsBaseIndex st' < i \<and> i \<le> rsCommitIndex st)" for i
      by auto
    then show ?thesis
      unfolding entries_kept_def by blast
  next
    assume "rsEntries st' = drop (unat (rsBaseIndex st' - rsBaseIndex st)) (rsEntries st)
          \<and> rsBaseIndex st \<le> rsBaseIndex st'"
    then show ?thesis
      unfolding entries_kept_def using recoveredEntryAt_drop[of st' st] by blast
  qed
qed

lemma applyReplacement_kept:
  assumes "applyReplacement False batch st = Inr st'"
    and "unat (rsCommitIndex st) \<le> unat (rsBaseIndex st) + length (rsEntries st)"
  shows "entries_kept st st'"
proof (cases "pbReplaceFrom batch = 0")
  case True
  then show ?thesis using assms by (simp add: applyReplacement_def entries_kept_def)
next
  case False
  let ?n = "unat (pbReplaceFrom batch - rsBaseIndex st - 1)"
  have st': "st' = st\<lparr>rsEntries := take ?n (rsEntries st) @ pbEntries batch\<rparr>"
      and fr: "rsBaseIndex st < pbReplaceFrom batch" "rsCommitIndex st < pbReplaceFrom batch"
    using assms(1) False by (auto simp: applyReplacement_def Let_def not_le split: if_splits)
  have n: "?n = unat (pbReplaceFrom batch) - unat (rsBaseIndex st) - 1"
    using fr(1) by (rule unat_offset)
  show ?thesis
    unfolding entries_kept_def
  proof (intro allI impI)
    fix i
    assume "rsBaseIndex st' < i" "i \<le> rsCommitIndex st"
    then have "unat i - unat (rsBaseIndex st) - 1 < ?n"
        "unat i - unat (rsBaseIndex st) - 1 < length (rsEntries st)"
      using fr assms(2) unfolding n by (auto simp: st' word_less_nat_alt word_le_nat_alt)
    then show "recoveredEntryAt st' i = recoveredEntryAt st i"
      by (auto simp: recoveredEntryAt_ok st' nth_append min_def)
  qed
qed

text \<open>Installing a base keeps the commit index within the log, and reports whether the base moved.\<close>

lemma applySnapshotBase_commit:
  assumes "applySnapshotBase st batch = Inr (based, advanced)"
    and "unat (rsCommitIndex st) \<le> unat (rsBaseIndex st) + length (rsEntries st)"
  shows "unat (rsCommitIndex based) \<le> unat (rsBaseIndex based) + length (rsEntries based)"
    and "advanced \<Longrightarrow> pbSnapshotBase batch \<noteq> None \<and> rsBaseIndex st < rsBaseIndex based"
proof -
  have c: "rsCommitIndex based = rsCommitIndex st" using applySnapshotBase_frame(2)[OF assms(1)] by simp
  have "(rsEntries based = [] \<and> (rsCommitIndex st < rsBaseIndex based \<or> rsCommitIndex st = 0))
      \<or> (rsEntries based = drop (unat (rsBaseIndex based - rsBaseIndex st)) (rsEntries st)
          \<and> rsBaseIndex st \<le> rsBaseIndex based)"
  proof (cases "pbSnapshotBase batch")
    case None
    then show ?thesis using assms(1) by (simp add: applySnapshotBase_def)
  next
    case (Some base)
    then show ?thesis
      using assms(1) unfolding applySnapshotBase_def Let_def Some option.case guard_Inr
      by (auto simp: guard_Inr not_le less_imp_le split: if_splits)
  qed
  then show "unat (rsCommitIndex based) \<le> unat (rsBaseIndex based) + length (rsEntries based)"
    unfolding c using assms(2) by (auto simp: word_less_nat_alt word_le_nat_alt unat_sub_le)
  show "pbSnapshotBase batch \<noteq> None \<and> rsBaseIndex st < rsBaseIndex based" if advanced
  proof (cases "pbSnapshotBase batch")
    case None
    then show ?thesis using assms(1) that by (simp add: applySnapshotBase_def)
  next
    case (Some base)
    then show ?thesis
      using assms(1) that unfolding applySnapshotBase_def Let_def Some option.case guard_Inr
      by (auto simp: guard_Inr split: if_splits)
  qed
qed

text \<open>The one batch that may rewrite committed entries: it moves the base and replaces all that follows it.\<close>

definition rewrites_suffix :: "PersistenceBatch \<Rightarrow> RecoveredState \<Rightarrow> RecoveredState \<Rightarrow> bool" where
  "rewrites_suffix batch st st' \<longleftrightarrow> pbSnapshotBase batch \<noteq> None \<and> rsBaseIndex st < rsBaseIndex st' \<and>
     pbReplaceFrom batch = rsBaseIndex st' + 1 \<and> rsEntries st' = pbEntries batch"

lemma applyReplacement_suffix:
  assumes "applyReplacement advanced batch st = Inr st'"
  shows "applyReplacement False batch st = Inr st'
    \<or> advanced \<and> pbReplaceFrom batch = rsBaseIndex st + 1 \<and> rsEntries st' = pbEntries batch"
proof (cases "advanced \<and> pbReplaceFrom batch \<noteq> 0 \<and> checkedNextIndex (rsBaseIndex st) = Some (pbReplaceFrom batch)")
  case True
  then have "pbReplaceFrom batch = rsBaseIndex st + 1" by (auto simp: checkedNextIndex_def split: if_splits)
  moreover from this have "rsEntries st' = pbEntries batch"
    using assms True unfolding applyReplacement_def Let_def by (auto split: if_splits)
  ultimately show ?thesis using True by simp
next
  case False
  have "applyReplacement advanced batch st = applyReplacement False batch st"
  proof (cases "pbReplaceFrom batch = 0")
    case True
    then show ?thesis by (simp add: applyReplacement_def)
  next
    case False': False
    then have "(advanced \<and> checkedNextIndex (rsBaseIndex st) = Some (pbReplaceFrom batch)) = False" using False by simp
    then show ?thesis by (simp only: applyReplacement_def Let_def simp_thms)
  qed
  then show ?thesis using assms by simp
qed

lemma applyValidated_kept:
  assumes "applyValidatedPersistenceBatch sha256 st batch expected voters = Inr st'"
    and "state_ok sha256 limit voters st"
  shows "entries_kept st st' \<or> rewrites_suffix batch st st'"
  using assms(1)
proof (rule applyValidated_cases)
  fix based advanced replaced
  assume b: "applySnapshotBase st batch = Inr (based, advanced)"
    and r: "applyReplacement advanced batch based = Inr replaced" and i: "applyIndices batch replaced = Inr st'"
  have commit: "unat (rsCommitIndex st) \<le> unat (rsBaseIndex st) + length (rsEntries st)"
    using assms(2) by (simp add: state_ok_def)
  note base = applySnapshotBase_commit[OF b commit]
  have rep: "rsBaseIndex replaced = rsBaseIndex based" by (subst applyReplacement_frame[OF r]) simp
  from applyReplacement_suffix[OF r] show "entries_kept st st' \<or> rewrites_suffix batch st st'"
  proof
    assume "applyReplacement False batch based = Inr replaced"
    then have "entries_kept based replaced" using applyReplacement_kept base(1) by blast
    then have "entries_kept st replaced"
      using applySnapshotBase_kept[OF b] applySnapshotBase_frame(2)[OF b] rep by (simp add: entries_kept_def)
    moreover have "recoveredEntryAt st' j = recoveredEntryAt replaced j" for j
      using applyIndices_frame[OF i] by (simp add: recoveredEntryAt_ok)
    ultimately show ?thesis using applyIndices_frame(2)[OF i] by (simp add: entries_kept_def)
  next
    assume "advanced \<and> pbReplaceFrom batch = rsBaseIndex based + 1 \<and> rsEntries replaced = pbEntries batch"
    then show ?thesis using base(2) rep applyIndices_frame(2,3)[OF i] by (simp add: rewrites_suffix_def)
  qed
qed

lemma compactRecoveredState_kept:
  assumes "compactRecoveredState sha256 st snapshot expected voters limit = Inr st'"
  shows "entries_kept st st'"
  using assms
proof (cases rule: compactRecoveredState_cases)
  case 1
  then show ?thesis by (simp add: entries_kept_def)
next
  case 2
  then show ?thesis
    unfolding entries_kept_def using recoveredEntryAt_drop[of st' st] by (simp add: less_imp_le)
qed

lemma installRecoveredSnapshot_kept:
  assumes "installRecoveredSnapshot sha256 st snapshot expected voters = Inr st'"
  shows "entries_kept st st'"
  using assms
proof (cases rule: installRecoveredSnapshot_cases)
  case 1
  then have "\<not> (rsBaseIndex st' < i \<and> i \<le> rsCommitIndex st)" for i
    by auto
  then show ?thesis
    unfolding entries_kept_def by blast
qed

section \<open>The store\<close>

inductive store_step :: "(bytes \<Rightarrow> bytes32) \<Rightarrow> MemoryStore \<Rightarrow> MemoryStore \<Rightarrow> bool" for sha256 where
  fail_next: "store_step sha256 s (FailNext operation err s)"
| recover: "Recover sha256 s = (s', r) \<Longrightarrow> store_step sha256 s s'"
| persist: "Persist sha256 batch s = (s', r) \<Longrightarrow> store_step sha256 s s'"
| persist_snapshot: "PersistSnapshot sha256 snapshot s = (s', r) \<Longrightarrow> store_step sha256 s s'"
| stage: "StageSnapshotChunk sha256 request s = (s', r') \<Longrightarrow> store_step sha256 s s'"
| abort: "AbortSnapshotStage s = (s', r) \<Longrightarrow> store_step sha256 s s'"
| close: "Close s = (s', r) \<Longrightarrow> store_step sha256 s s'"

definition store_ok :: "(bytes \<Rightarrow> bytes32) \<Rightarrow> MemoryStore \<Rightarrow> bool" where
  "store_ok sha256 s \<longleftrightarrow>
     rsIdentity (msState s) = msIdentity s \<and> state_ok sha256 MaxRaftSnapshotBytes (msVoters s) (msState s)
   \<and> msSnapshotLimit s \<le> MaxRaftSnapshotBytes"

definition store_le :: "MemoryStore \<Rightarrow> MemoryStore \<Rightarrow> bool" where
  "store_le s t \<longleftrightarrow>
     msIdentity t = msIdentity s \<and> msVoters t = msVoters s \<and> msSnapshotLimit t = msSnapshotLimit s
   \<and> durable_le (msState s) (msState t)
   \<and> (msClosed s \<longrightarrow> msClosed t \<and> msState t = msState s)"

text \<open>What a call may change of the store: nothing but the fault queues, the stage and the closed flag, or
  the durable state by one accepted transition.\<close>

definition same_durable :: "MemoryStore \<Rightarrow> MemoryStore \<Rightarrow> bool" where
  "same_durable s t \<longleftrightarrow>
     msIdentity t = msIdentity s \<and> msVoters t = msVoters s \<and> msSnapshotLimit t = msSnapshotLimit s
   \<and> msState t = msState s \<and> (msClosed s \<longrightarrow> msClosed t)"

definition moved :: "(bytes \<Rightarrow> bytes32) \<Rightarrow> MemoryStore \<Rightarrow> MemoryStore \<Rightarrow> bool" where
  "moved sha256 s t \<longleftrightarrow> \<not> msClosed s
   \<and> msIdentity t = msIdentity s \<and> msVoters t = msVoters s \<and> msSnapshotLimit t = msSnapshotLimit s
   \<and> ((\<exists>batch. applyValidatedPersistenceBatch sha256 (msState s) batch (msIdentity s) (msVoters s) = Inr (msState t))
    \<or> (\<exists>snapshot. compactRecoveredState sha256 (msState s) snapshot (msIdentity s) (msVoters s)
          (msSnapshotLimit s) = Inr (msState t))
    \<or> (\<exists>snapshot. installRecoveredSnapshot sha256 (msState s) snapshot (msIdentity s) (msVoters s)
          = Inr (msState t)))"

lemma takeFault_same:
  "takeFault operation s = (s', r) \<Longrightarrow> same_durable s s' \<and> msStage s' = msStage s \<and> msClosed s' = msClosed s"
  by (auto simp: takeFault_def same_durable_def split: list.splits)

lemma same_durable_trans: "same_durable a b \<Longrightarrow> same_durable b c \<Longrightarrow> same_durable a c"
  by (simp add: same_durable_def)

lemma same_durable_stage [simp]: "same_durable s (t\<lparr>msStage := x\<rparr>) \<longleftrightarrow> same_durable s t"
  by (simp add: same_durable_def)

lemma Persist_cases:
  assumes "Persist sha256 batch s = (s', r)"
  shows "(r \<noteq> None \<and> same_durable s s') \<or>
    (r = None \<and> moved sha256 s s' \<and>
     applyValidatedPersistenceBatch sha256 (msState s) batch (msIdentity s) (msVoters s) = Inr (msState s'))"
  using assms unfolding Persist_def moved_def
  by (fastforce simp: same_durable_def dest!: takeFault_same split: if_splits option.splits sum.splits prod.splits)

lemma PersistSnapshot_cases:
  assumes "PersistSnapshot sha256 snapshot s = (s', r)"
  shows "(r \<noteq> None \<and> same_durable s s') \<or>
    (r = None \<and> moved sha256 s s' \<and> compactRecoveredState sha256 (msState s) snapshot (msIdentity s) (msVoters s)
       (msSnapshotLimit s) = Inr (msState s'))"
  using assms unfolding PersistSnapshot_def moved_def
  by (fastforce simp: same_durable_def dest!: takeFault_same split: if_splits option.splits sum.splits prod.splits)

lemma stageChunk_same: "stageChunk request stage s = (s', r) \<Longrightarrow> same_durable s s' \<and> msClosed s' = msClosed s"
  by (fastforce simp: stageChunk_def Let_def same_durable_def dest!: takeFault_same
      split: if_splits option.splits prod.splits)

lemma completeStage_cases:
  assumes "completeStage sha256 request nextOffset stage s = (s', r)" "\<not> msClosed s"
  shows "(\<exists>err. r = Inl err \<and> same_durable s s') \<or> (\<exists>result. r = Inr result \<and> moved sha256 s s' \<and> srDone result)"
  using assms unfolding completeStage_def Let_def moved_def
  by (fastforce simp: same_durable_def dest!: takeFault_same split: if_splits option.splits sum.splits prod.splits)

lemma moved_from: "same_durable s t \<Longrightarrow> msClosed t = msClosed s \<Longrightarrow> moved sha256 t u \<Longrightarrow> moved sha256 s u"
  by (simp add: moved_def same_durable_def)

lemma StageSnapshotChunk_cases:
  assumes "StageSnapshotChunk sha256 request s = (s', r)"
  shows "same_durable s s' \<or> (\<exists>result. r = Inr result \<and> moved sha256 s s')"
proof -
  define stage where "stage = (case msStage s of
      None \<Rightarrow> \<lparr>stageMetadata = snapshotTransferMetadataFor request, stageBytes = []\<rparr> | Some x \<Rightarrow> x)"
  show ?thesis
  proof (cases "same_durable s s'")
    case False
    then have r: "\<not> msClosed s" "(case stageChunk request stage s of
          (t, Inl err) \<Rightarrow> (t, Inl err)
        | (t, Inr nextOffset) \<Rightarrow>
            if \<not> iqDone request
            then (t, Inr \<lparr>srNextOffset = nextOffset, srDone = False, srState = emptyState zero_StorageIdentity\<rparr>)
            else (case msStage t of None \<Rightarrow> (t, Inl ErrSnapshotRejected)
                  | Some stage' \<Rightarrow> completeStage sha256 request nextOffset stage' t)) = (s', r)"
      using assms unfolding StageSnapshotChunk_def Let_def stage_def[symmetric]
      by (auto simp: same_durable_def split: if_splits)
    obtain t q where t: "stageChunk request stage s = (t, q)"
      by fastforce
    note same = stageChunk_same[OF t]
    then obtain n stage' where "completeStage sha256 request n stage' t = (s', r)"
      using False r t by (auto split: sum.splits if_splits option.splits)
    from completeStage_cases[OF this] show ?thesis
      using same r(1) False by (auto intro: moved_from dest: same_durable_trans)
  qed simp
qed

lemma store_step_cases: "store_step sha256 s t \<Longrightarrow> same_durable s t \<or> moved sha256 s t"
proof (induction rule: store_step.induct)
  case (fail_next operation err s)
  then show ?case by (simp add: FailNext_def same_durable_def)
next
  case (recover s s' r)
  then show ?case
    by (auto simp: Recover_def same_durable_def dest!: takeFault_same split: if_splits prod.splits option.splits)
next
  case (persist batch s s' r)
  then show ?case using Persist_cases by blast
next
  case (persist_snapshot snapshot s s' r)
  then show ?case using PersistSnapshot_cases by blast
next
  case (stage request s s' r')
  then show ?case using StageSnapshotChunk_cases by blast
next
  case (abort s s' r)
  then show ?case by (auto simp: AbortSnapshotStage_def same_durable_def split: if_splits)
next
  case (close s s' r)
  then show ?case
    by (auto simp: Close_def same_durable_def dest!: takeFault_same split: if_splits prod.splits option.splits)
qed

lemma moved_ok:
  assumes "store_ok sha256 s" "moved sha256 s t"
  shows "store_ok sha256 t \<and> durable_le (msState s) (msState t)"
proof -
  have "rsIdentity (msState t) = msIdentity s \<and> state_ok sha256 MaxRaftSnapshotBytes (msVoters s) (msState t)
      \<and> durable_le (msState s) (msState t)"
    using assms(2) unfolding moved_def
  proof (elim conjE disjE exE)
    fix batch
    assume "applyValidatedPersistenceBatch sha256 (msState s) batch (msIdentity s) (msVoters s) = Inr (msState t)"
    then show ?thesis
      using applyValidated_le by (blast elim: applyValidated_cases)
  next
    fix snapshot
    assume c: "compactRecoveredState sha256 (msState s) snapshot (msIdentity s) (msVoters s) (msSnapshotLimit s)
      = Inr (msState t)"
    from c show ?thesis
    proof (cases rule: compactRecoveredState_cases)
      case 1
      then show ?thesis using assms(1) compactRecoveredState_le[OF c] by (simp add: store_ok_def)
    next
      case 2
      then show ?thesis
        using assms(1) compactRecoveredState_le[OF c] state_ok_limit_mono unfolding store_ok_def by blast
    qed
  next
    fix snapshot
    assume i: "installRecoveredSnapshot sha256 (msState s) snapshot (msIdentity s) (msVoters s) = Inr (msState t)"
    have "rsBaseIndex (msState s) \<le> rsCommitIndex (msState s)"
      using assms(1) by (auto simp: store_ok_def state_ok_def)
    with i show ?thesis
      using installRecoveredSnapshot_le by (blast elim: installRecoveredSnapshot_cases)
  qed
  then show ?thesis
    using assms by (simp add: store_ok_def moved_def)
qed

interpretation memory_store: guarded_system store_le "store_step sha256" "store_ok sha256"
proof
  show "store_le s s" for s
    by (simp add: store_le_def durable.R_refl)
  show "store_le s u" if "store_le s t" "store_le t u" for s t u
    using that durable_le_trans unfolding store_le_def by metis
  show "store_ok sha256 t" if "store_ok sha256 s" "store_step sha256 s t" for s t
    using store_step_cases[OF that(2)] that(1) moved_ok[OF that(1)]
    by (auto simp: same_durable_def store_ok_def)
  show "store_le s t" if "store_ok sha256 s" "store_step sha256 s t" for s t
    using store_step_cases[OF that(2)]
  proof
    assume "same_durable s t"
    then show ?thesis by (simp add: same_durable_def store_le_def durable.R_refl)
  next
    assume "moved sha256 s t"
    then show ?thesis using moved_ok[OF that(1)] by (simp add: moved_def store_le_def)
  qed
qed

lemma NewMemoryStore_ok: "NewMemoryStoreWithOptions sha256 identity voters m = Inr s \<Longrightarrow> store_ok sha256 s"
  by (auto simp: NewMemoryStoreWithOptions_def guard_Inr ValidateRecoveredState_def validate_iff store_ok_def
      snapshotLimitOf_def Let_def not_less split: if_splits)

end
