(* ===== verification/Raft_Store_Properties.thy ===== *)
theory Raft_Store_Properties
  imports Raft_Storage_Facts
begin

text \<open>
  The guarantees of the durable store, with a store they hold on.
\<close>

section \<open>Safety of the store\<close>

text \<open>C11.  Every state a store ever holds is valid.  After any sequence of calls, failed ones and injected
  faults included, the durable state of a store passes \<open>ValidateRecoveredState\<close> for the identity and the
  voters the store was created with.\<close>

theorem store_state_valid:
  assumes "NewMemoryStoreWithOptions sha256 identity voters maxSnapshotBytes = Inr s0"
    and "(store_step sha256)\<^sup>*\<^sup>* s0 s"
  shows "ValidateRecoveredState sha256 (msState s) identity voters = None"
proof -
  note ok = NewMemoryStore_ok[OF assms(1)]
  have "msIdentity s0 = identity" "msVoters s0 = voters"
    using assms(1) by (auto simp: NewMemoryStoreWithOptions_def guard_Inr)
  then show ?thesis
    using memory_store.run_inv[OF assms(2) ok] memory_store.run_rel[OF assms(2) ok]
    by (auto simp: ValidateRecoveredState_def validate_iff store_ok_def store_le_def)
qed

text \<open>C2.  Durable facts never regress.  Along any sequence of calls the durable term, commit index,
  snapshot base and applied index only grow, and a vote cast in a term is the only vote of that term.\<close>

theorem store_never_regresses:
  assumes "NewMemoryStoreWithOptions sha256 identity voters maxSnapshotBytes = Inr s0"
    and "(store_step sha256)\<^sup>*\<^sup>* s0 s" "(store_step sha256)\<^sup>*\<^sup>* s t"
  shows "rsTerm (msState s) \<le> rsTerm (msState t) \<and> rsCommitIndex (msState s) \<le> rsCommitIndex (msState t)
    \<and> rsBaseIndex (msState s) \<le> rsBaseIndex (msState t)
    \<and> rsAppliedIndex (msState s) \<le> rsAppliedIndex (msState t)
    \<and> (rsTerm (msState t) = rsTerm (msState s) \<and> hsVotedFor (rsHardState (msState s)) \<noteq> 0
        \<longrightarrow> hsVotedFor (rsHardState (msState t)) = hsVotedFor (rsHardState (msState s)))"
  using memory_store.run_rel[OF assms(3) memory_store.run_inv[OF assms(2) NewMemoryStore_ok[OF assms(1)]]]
  by (simp add: store_le_def durable_le_def)

lemma StageSnapshotChunk_progress:
  assumes "StageSnapshotChunk sha256 request s = (s', Inr result)" "\<not> srDone result"
  shows "msState s' = msState s"
proof -
  have "\<exists>t n. stageChunk request (case msStage s of
      None \<Rightarrow> \<lparr>stageMetadata = snapshotTransferMetadataFor request, stageBytes = []\<rparr> | Some x \<Rightarrow> x) s = (t, Inr n)
      \<and> (s' = t \<or> (\<exists>stage. completeStage sha256 request n stage t = (s', Inr result)))"
    using assms(1) unfolding StageSnapshotChunk_def Let_def
    by (auto split: if_splits prod.splits sum.splits option.splits)
  then obtain t n stage where t: "same_durable s t"
      "s' = t \<or> completeStage sha256 request n stage t = (s', Inr result)"
    using stageChunk_same by blast
  moreover have "srDone result" if "completeStage sha256 request n stage t = (s', Inr result)"
    using that unfolding completeStage_def Let_def
    by (auto split: if_splits sum.splits prod.splits option.splits)
  ultimately show ?thesis
    using assms(2) by (auto simp: same_durable_def)
qed

lemma StageSnapshotChunk_failed:
  assumes "StageSnapshotChunk sha256 request s = (s', Inl err)"
  shows "msState s' = msState s"
  using StageSnapshotChunk_cases[OF assms] by (simp add: same_durable_def)

text \<open>C12.  Transactions are atomic.  A call of \<open>Persist\<close> or \<open>PersistSnapshot\<close> that returns an error, and a
  call of \<open>StageSnapshotChunk\<close> that does not report a completed installation, leave the durable state as it
  was.\<close>

theorem store_failures_atomic:
  "(\<forall>err. snd (Persist sha256 batch s) = Some err \<longrightarrow> msState (fst (Persist sha256 batch s)) = msState s)
   \<and> (\<forall>err. snd (PersistSnapshot sha256 snapshot s) = Some err
        \<longrightarrow> msState (fst (PersistSnapshot sha256 snapshot s)) = msState s)
   \<and> ((\<forall>result. snd (StageSnapshotChunk sha256 request s) = Inr result \<longrightarrow> \<not> srDone result)
        \<longrightarrow> msState (fst (StageSnapshotChunk sha256 request s)) = msState s)"
proof (intro conjI allI impI)
  fix err
  assume "snd (Persist sha256 batch s) = Some err"
  then show "msState (fst (Persist sha256 batch s)) = msState s"
    using Persist_cases[of sha256 batch s "fst (Persist sha256 batch s)" "Some err"]
    by (simp add: prod_eq_iff same_durable_def)
next
  fix err
  assume "snd (PersistSnapshot sha256 snapshot s) = Some err"
  then show "msState (fst (PersistSnapshot sha256 snapshot s)) = msState s"
    using PersistSnapshot_cases[of sha256 snapshot s "fst (PersistSnapshot sha256 snapshot s)" "Some err"]
    by (simp add: prod_eq_iff same_durable_def)
next
  assume *: "\<forall>result. snd (StageSnapshotChunk sha256 request s) = Inr result \<longrightarrow> \<not> srDone result"
  show "msState (fst (StageSnapshotChunk sha256 request s)) = msState s"
  proof (cases "snd (StageSnapshotChunk sha256 request s)")
    case (Inl err)
    then show ?thesis using StageSnapshotChunk_failed by (metis prod.collapse)
  next
    case (Inr result)
    then show ?thesis using StageSnapshotChunk_progress * by (metis prod.collapse)
  qed
qed

text \<open>C10.  Committed entries survive.  An accepted batch, a local compaction and an installed snapshot leave every
  committed entry after the new base exactly as it was, with one exception that the code allows: a batch that
  moves the snapshot base forward and replaces the log from the very next index on; then the log after the new
  base is exactly the batch's entries.\<close>

theorem store_keeps_committed:
  assumes "ValidateRecoveredState sha256 st identity voters = None"
    and "applyPersistenceBatch sha256 st batch identity voters = Inr st'
       \<or> compactRecoveredState sha256 st snapshot identity voters limit = Inr st'
       \<or> installRecoveredSnapshot sha256 st snapshot identity voters = Inr st'"
    and "rsBaseIndex st' < i" "i \<le> rsCommitIndex st"
  shows "recoveredEntryAt st' i = recoveredEntryAt st i
    \<or> applyPersistenceBatch sha256 st batch identity voters = Inr st' \<and> pbSnapshotBase batch \<noteq> None
      \<and> rsBaseIndex st < rsBaseIndex st' \<and> pbReplaceFrom batch = rsBaseIndex st' + 1 \<and> rsEntries st' = pbEntries batch"
proof -
  have "entries_kept st st' \<or> rewrites_suffix batch st st'" if "applyPersistenceBatch sha256 st batch identity voters = Inr st'"
    using assms(1) that applyValidated_kept[of sha256 st batch "rsIdentity st" voters st' MaxRaftSnapshotBytes]
    by (auto simp: applyPersistenceBatch_def ValidateRecoveredState_def validate_iff guard_Inr)
  then have "entries_kept st st' \<or> applyPersistenceBatch sha256 st batch identity voters = Inr st' \<and> rewrites_suffix batch st st'"
    using assms(2) compactRecoveredState_kept installRecoveredSnapshot_kept by blast
  then show ?thesis
    using assms(3,4) by (auto simp: entries_kept_def rewrites_suffix_def)
qed

text \<open>C13.  A valid durable state is a log.  \<open>NewLog\<close> accepts its fields, and the log it builds answers every
  entry lookup, and every term lookup from the base on, as the durable state does.  Below the base the log
  reports every index as compacted, while the durable state answers term 0 for index 0 and reports every other
  index as unavailable.\<close>

theorem recovered_state_is_log:
  assumes "ValidateRecoveredState sha256 st identity voters = None"
  shows "\<exists>l. NewLog (rsBaseIndex st) (smLastIncludedTerm (rsSnapshotBase st)) (rsCommitIndex st)
       (rsAppliedIndex st) (rsEntries st) = Inr l
     \<and> (\<forall>i e. EntryAt l i = Inr e \<longleftrightarrow> recoveredEntryAt st i = Some e)
     \<and> (\<forall>i t. rsBaseIndex st \<le> i \<longrightarrow> (Term l i = Inr t \<longleftrightarrow> recoveredTermAt st i = Inr t))
     \<and> (\<forall>i < rsBaseIndex st. Term l i = Inl ErrLogCompacted
           \<and> recoveredTermAt st i = (if i = 0 then Inr 0 else Inl ErrLogUnavailable))"
proof (rule recovered_log_ok)
  show "state_ok sha256 MaxRaftSnapshotBytes voters st"
    using assms by (simp add: ValidateRecoveredState_def validate_iff)
qed

section \<open>A transfer in order completes\<close>

text \<open>The requests that carry a state split into \<open>chunks\<close>, as the leader builds them, and the store after
  staging a list of requests with the last result.\<close>

definition chunkRequest :: "InstallSnapshotRequest \<Rightarrow> nat \<Rightarrow> bytes \<Rightarrow> InstallSnapshotRequest" where
  "chunkRequest header offset chunk =
     header\<lparr>iqOffset := word_of_nat offset, iqChunk := chunk,
            iqDone := (word_of_nat (offset + length chunk) = iqTotalLength header)\<rparr>"

fun chunkRequests :: "InstallSnapshotRequest \<Rightarrow> nat \<Rightarrow> bytes list \<Rightarrow> InstallSnapshotRequest list" where
  "chunkRequests header offset [] = []"
| "chunkRequests header offset (chunk # chunks) =
     chunkRequest header offset chunk # chunkRequests header (offset + length chunk) chunks"

fun stageAll :: "(bytes \<Rightarrow> bytes32) \<Rightarrow> InstallSnapshotRequest list \<Rightarrow> MemoryStore
    \<Rightarrow> MemoryStore \<times> (raft_error + SnapshotStageResult) option" where
  "stageAll sha256 [] s = (s, None)"
| "stageAll sha256 (request # requests) s =
     (case StageSnapshotChunk sha256 request s of
        (s', r) \<Rightarrow> if requests = [] then (s', Some r) else stageAll sha256 requests s')"

definition staged :: "InstallSnapshotRequest \<Rightarrow> bytes \<Rightarrow> MemoryStore \<Rightarrow> bool" where
  "staged header received s \<longleftrightarrow> \<not> msClosed s \<and> (\<forall>operation. msFaults s operation = [])
     \<and> (msStage s = None \<and> received = []
        \<or> msStage s = Some \<lparr>stageMetadata = snapshotTransferMetadataFor header, stageBytes = received\<rparr>)"

lemma takeFault_none: "msFaults s operation = [] \<Longrightarrow> takeFault operation s = (s, None)"
  by (simp add: takeFault_def)

lemma chunkRequest_metadata: "snapshotTransferMetadataFor (chunkRequest h n c) = snapshotTransferMetadataFor h"
  by (simp add: snapshotTransferMetadataFor_def chunkRequest_def)

lemma stage_next:
  assumes "staged header received s"
    and "validateSnapshotRequest (chunkRequest header (length received) chunk)
           (DefaultCodecLimits\<lparr>clMaxSnapshotBytes := msSnapshotLimit s\<rparr>) = None"
  defines "stage \<equiv> \<lparr>stageMetadata = snapshotTransferMetadataFor header, stageBytes = received @ chunk\<rparr>"
    and "n \<equiv> word_of_nat (length received + length chunk)"
  shows "StageSnapshotChunk sha256 (chunkRequest header (length received) chunk) s =
    (if n = iqTotalLength header
     then completeStage sha256 (chunkRequest header (length received) chunk) n stage (s\<lparr>msStage := Some stage\<rparr>)
     else (s\<lparr>msStage := Some stage\<rparr>, Inr \<lparr>srNextOffset = n, srDone = False,
             srState = emptyState zero_StorageIdentity\<rparr>))"
proof -
  let ?r = "chunkRequest header (length received) chunk"
  let ?old = "\<lparr>stageMetadata = snapshotTransferMetadataFor header, stageBytes = received\<rparr>"
  have fields: "iqOffset ?r = len64 received" "iqChunk ?r = chunk" "iqDone ?r \<longleftrightarrow> n = iqTotalLength header"
    by (simp_all add: chunkRequest_def n_def)
  have open_store: "\<not> msClosed s" "\<And>operation. msFaults s operation = []"
    using assms(1) by (simp_all add: staged_def)
  have "stageChunk ?r ?old s = (s\<lparr>msStage := Some stage\<rparr>, Inr n)"
    by (simp add: stageChunk_def fields takeFault_none open_store stage_def n_def)
  moreover have "(case msStage s of None \<Rightarrow> \<lparr>stageMetadata = snapshotTransferMetadataFor header, stageBytes = []\<rparr>
      | Some x \<Rightarrow> x) = ?old"
      "(msStage s = None \<and> (len64 received :: u64) \<noteq> 0) = False"
    using assms(1) by (auto simp: staged_def)
  ultimately show ?thesis
    using open_store(1) assms(2)
    by (simp add: StageSnapshotChunk_def Let_def chunkRequest_metadata fields) auto
qed

lemma stageAll_completes:
  assumes "staged header received s" "received @ concat chunks = state" "chunks \<noteq> []"
    and "\<forall>request \<in> set (chunkRequests header (length received) chunks).
           validateSnapshotRequest request (DefaultCodecLimits\<lparr>clMaxSnapshotBytes := msSnapshotLimit s\<rparr>) = None"
    and "iqTotalLength header = len64 state" "length state < 2 ^ 64" "tl chunks = [] \<or> [] \<notin> set (tl chunks)"
    and "sha256 state = iqChecksum header"
    and "NewSnapshot sha256 (msIdentity s) (tmMetadata (snapshotTransferMetadataFor header)) state
           (msSnapshotLimit s) = Inr snapshot" "snID snapshot = iqSnapshotID header"
    and "installRecoveredSnapshot sha256 (msState s) snapshot (msIdentity s) (msVoters s) = Inr st"
  shows "stageAll sha256 (chunkRequests header (length received) chunks) s =
    (s\<lparr>msState := st, msStage := None\<rparr>,
     Some (Inr \<lparr>srNextOffset = len64 state, srDone = True, srState = st\<rparr>))"
  using assms
proof (induction chunks arbitrary: received s)
  case Nil
  then show ?case by simp
next
  case (Cons chunk chunks)
  let ?stage = "\<lparr>stageMetadata = snapshotTransferMetadataFor header, stageBytes = received @ chunk\<rparr>"
  note next_stage = stage_next[OF Cons.prems(1), of chunk sha256]
  have faults: "\<And>operation. msFaults s operation = []"
    using Cons.prems(1) by (simp add: staged_def)
  show ?case
  proof (cases "chunks = []")
    case True
    then have "received @ chunk = state"
      using Cons.prems(2) by simp
    moreover from this have "length received + length chunk = length state"
      by auto
    ultimately show ?thesis
      using next_stage Cons.prems(4,5,8-11) True faults
      by (simp add: completeStage_def takeFault_none Let_def chunkRequest_def snapshotTransferMetadataFor_def)
  next
    case False
    then obtain c cs where chunks: "chunks = c # cs" "c \<noteq> []"
      using Cons.prems(7) by (cases chunks) auto
    have "length received + length chunk < length state"
      unfolding Cons.prems(2)[symmetric] using chunks by simp
    then have more: "word_of_nat (length received + length chunk) \<noteq> iqTotalLength header"
      using Cons.prems(5,6) by (metis unat_of_nat_u64 less_trans nat_neq_iff)
    let ?s = "s\<lparr>msStage := Some ?stage\<rparr>"
    have "stageAll sha256 (chunkRequests header (length (received @ chunk)) chunks) ?s =
        (?s\<lparr>msState := st, msStage := None\<rparr>, Some (Inr \<lparr>srNextOffset = len64 state, srDone = True, srState = st\<rparr>))"
      by (rule Cons.IH)
        (use Cons.prems False chunks in \<open>simp_all add: staged_def\<close>)
    then show ?thesis
      using next_stage Cons.prems(4) more chunks(1) by simp
  qed
qed

text \<open>C24.  A snapshot transfer completes.  When the chunks of a snapshot the store can install arrive in
  order at a running store without pending faults, the last one reports completion, and the store then
  holds exactly the state that \<open>installRecoveredSnapshot\<close> computes, with no staging left behind.\<close>

theorem snapshot_transfer_completes:
  assumes "\<not> msClosed s" "\<And>operation. msFaults s operation = []" "msStage s = None"
    and "chunks \<noteq> []" "[] \<notin> set (tl chunks)"
    and "iqTotalLength header = len64 (concat chunks)" "length (concat chunks) < 2 ^ 64"
    and "\<forall>request \<in> set (chunkRequests header 0 chunks).
           validateSnapshotRequest request (DefaultCodecLimits\<lparr>clMaxSnapshotBytes := msSnapshotLimit s\<rparr>) = None"
    and "sha256 (concat chunks) = iqChecksum header"
    and "NewSnapshot sha256 (msIdentity s) (tmMetadata (snapshotTransferMetadataFor header)) (concat chunks)
           (msSnapshotLimit s) = Inr snapshot" "snID snapshot = iqSnapshotID header"
    and "installRecoveredSnapshot sha256 (msState s) snapshot (msIdentity s) (msVoters s) = Inr st"
  shows "stageAll sha256 (chunkRequests header 0 chunks) s =
    (s\<lparr>msState := st, msStage := None\<rparr>,
     Some (Inr \<lparr>srNextOffset = len64 (concat chunks), srDone = True, srState = st\<rparr>))"
  using stageAll_completes[of header "[]" s chunks "concat chunks" sha256 snapshot st] assms
  by (simp add: staged_def)

section \<open>A store they hold on\<close>

lemma take_be_bytes: "take m (be_bytes (m + n) w) = be_bytes m (drop_bit (8 * n) w)"
  by (induction m) (simp_all add: add.commute add_mult_distrib2)

lemma snapshotIDOf_high: "snapshotIDOf checksum = ucast (drop_bit 128 checksum)"
proof -
  have "be_bytes n x = be_bytes n (ucast x :: 128 word)" if "n \<le> 16" for n and x :: bytes32
    using that
  proof (induction n)
    case (Suc n)
    have "(ucast (drop_bit (8 * n) x) :: u8) = ucast (drop_bit (8 * n) (ucast x :: 128 word))"
      using Suc.prems by (intro bit_word_eqI) (auto simp: bit_ucast_iff bit_drop_bit_eq)
    with Suc show ?case by simp
  qed simp
  from this[of 16 "drop_bit 128 checksum"] show ?thesis
    using take_be_bytes[of 16 16 checksum] by (simp add: snapshotIDOf_def)
qed

text \<open>A digest that depends on the length only, with a nonzero high half.\<close>

definition length_digest :: "bytes \<Rightarrow> bytes32" where
  "length_digest bs = push_bit 128 (word_of_nat (length bs)) OR word_of_nat (length bs)"

definition store_voters :: VoterSet where
  "store_voters = (case NewVoterSet (\<lambda>_. 5) Some demo_config of Inr s \<Rightarrow> s)"

definition demo_store :: MemoryStore where
  "demo_store = (case NewMemoryStoreWithOptions length_digest demo_identity store_voters 1024 of Inr s \<Rightarrow> s)"

definition voted_state :: RecoveredState where
  "voted_state = (emptyState demo_identity)\<lparr>rsHardState := \<lparr>hsTerm = 2, hsVotedFor = 1, hsCommitIndex = 0\<rparr>\<rparr>"

definition vote_batch :: PersistenceBatch where
  "vote_batch = \<lparr>pbHardState = Some \<lparr>hsTerm = 2, hsVotedFor = 1, hsCommitIndex = 0\<rparr>, pbReplaceFrom = 0,
     pbEntries = [], pbSnapshotBase = None, pbSnapshot = None, pbAppliedIndex = None\<rparr>"

lemmas wal_sizes =
  walRecordHeaderBytes_def walRecordChecksumBytes_def boundaryPayloadBytes_def hardStatePayloadBytes_def
  truncatePayloadBytes_def snapshotPayloadBytes_def appliedPayloadBytes_def minimumWALEntryBytes_def

lemma store_voters_ok:
  "vsFingerprint store_voters = 5" "Contains store_voters 1" "ValidateLocalID store_voters 1 = None"
  by code_simp+

lemma demo_store_new: "NewMemoryStoreWithOptions length_digest demo_identity store_voters 1024 = Inr demo_store"
  and demo_store_fields: "msState demo_store = emptyState demo_identity" "msIdentity demo_store = demo_identity"
    "msVoters demo_store = store_voters" "msClosed demo_store = False" "msFaults demo_store = (\<lambda>_. [])"
    "msStage demo_store = None" "msSnapshotLimit demo_store = 1024"
proof -
  have "ValidateRecoveredState length_digest (emptyState demo_identity) demo_identity store_voters = None"
    unfolding ValidateRecoveredState_def validate_iff
    by (simp add: state_ok_def payload_ok_def validateRecoveredSnapshot_def emptyState_def demo_identity_def
        store_voters_ok zero_HardState_def zero_SnapshotMetadata_def StorageFormatVersion1_def)
  then have new: "NewMemoryStoreWithOptions length_digest demo_identity store_voters 1024 =
    Inr \<lparr>msIdentity = demo_identity, msVoters = store_voters, msSnapshotLimit = 1024,
         msState = emptyState demo_identity, msClosed = False, msFaults = (\<lambda>_. []), msStage = None\<rparr>"
    by (simp add: NewMemoryStoreWithOptions_def snapshotLimitOf_def MaxRaftSnapshotBytes_def)
  show "NewMemoryStoreWithOptions length_digest demo_identity store_voters 1024 = Inr demo_store"
    "msState demo_store = emptyState demo_identity" "msIdentity demo_store = demo_identity"
    "msVoters demo_store = store_voters" "msClosed demo_store = False" "msFaults demo_store = (\<lambda>_. [])"
    "msStage demo_store = None" "msSnapshotLimit demo_store = 1024"
    using new by (simp_all add: demo_store_def)
qed

lemma voted_state_valid: "ValidateRecoveredState length_digest voted_state demo_identity store_voters = None"
  unfolding ValidateRecoveredState_def validate_iff
  by (simp add: state_ok_def payload_ok_def validateRecoveredSnapshot_def voted_state_def emptyState_def
      demo_identity_def store_voters_ok zero_HardState_def zero_SnapshotMetadata_def StorageFormatVersion1_def)

lemma demo_vote: "Persist length_digest vote_batch demo_store = (demo_store\<lparr>msState := voted_state\<rparr>, None)"
proof -
  have "validatePersistenceBatchBounds vote_batch = None"
    by (simp add: validatePersistenceBatchBounds_def vote_batch_def addRecord_def checkedBoundedAdd_def Let_def
        wal_sizes MaxWALTransactionBytes_def MaxRPCPayloadBytes_def)
  moreover have "applyValidatedPersistenceBatch length_digest (emptyState demo_identity) vote_batch demo_identity
      store_voters = Inr voted_state"
    using voted_state_valid
    by (simp add: applyValidatedPersistenceBatch_def checkNextHardState_def applySnapshotBase_def
        applyReplacement_def applyIndices_def vote_batch_def voted_state_def emptyState_def zero_HardState_def)
  ultimately show ?thesis
    by (simp add: Persist_def takeFault_def demo_store_fields vote_batch_def)
qed

lemma demo_voted: "(store_step length_digest)\<^sup>*\<^sup>* demo_store (demo_store\<lparr>msState := voted_state\<rparr>)"
  using demo_vote by (blast intro: store_step.persist)

theorem store_state_valid_witness:
  "ValidateRecoveredState length_digest voted_state demo_identity store_voters = None"
  using store_state_valid[OF demo_store_new demo_voted] by simp

theorem store_never_regresses_witness:
  "(store_step length_digest)\<^sup>*\<^sup>* demo_store (demo_store\<lparr>msState := voted_state\<rparr>)
   \<and> rsTerm (emptyState demo_identity) \<le> rsTerm voted_state"
  using store_never_regresses[OF demo_store_new rtranclp.rtrancl_refl demo_voted] demo_voted
  by (simp add: demo_store_fields)

text \<open>A second vote in the term of the first is refused.\<close>

definition second_vote :: PersistenceBatch where
  "second_vote = vote_batch\<lparr>pbHardState := Some \<lparr>hsTerm = 2, hsVotedFor = 3, hsCommitIndex = 0\<rparr>\<rparr>"

lemma demo_second_vote:
  "Persist length_digest second_vote (demo_store\<lparr>msState := voted_state\<rparr>)
     = (demo_store\<lparr>msState := voted_state\<rparr>, Some ErrInvalidStorageState)"
proof -
  have "validatePersistenceBatchBounds second_vote = None"
    by (simp add: validatePersistenceBatchBounds_def second_vote_def vote_batch_def addRecord_def
        checkedBoundedAdd_def Let_def wal_sizes MaxWALTransactionBytes_def MaxRPCPayloadBytes_def)
  then show ?thesis
    by (simp add: Persist_def takeFault_def demo_store_fields second_vote_def vote_batch_def
        applyValidatedPersistenceBatch_def checkNextHardState_def voted_state_def)
qed

theorem store_failures_atomic_witness:
  "snd (Persist length_digest second_vote (demo_store\<lparr>msState := voted_state\<rparr>)) = Some ErrInvalidStorageState
   \<and> msState (fst (Persist length_digest second_vote (demo_store\<lparr>msState := voted_state\<rparr>))) = voted_state"
  using store_failures_atomic[of length_digest second_vote "demo_store\<lparr>msState := voted_state\<rparr>"]
  by (simp add: demo_second_vote)

definition committed_state :: RecoveredState where
  "committed_state = (emptyState demo_identity)\<lparr>
     rsHardState := \<lparr>hsTerm = 2, hsVotedFor = 1, hsCommitIndex = 1\<rparr>,
     rsEntries := [\<lparr>eIndex = 1, eTerm = 1, eKind = EntryCommand, eCommand = [7]\<rparr>,
                   \<lparr>eIndex = 2, eTerm = 1, eKind = EntryCommand, eCommand = [8]\<rparr>]\<rparr>"

definition replace_batch :: PersistenceBatch where
  "replace_batch = \<lparr>pbHardState = None, pbReplaceFrom = 2,
     pbEntries = [\<lparr>eIndex = 2, eTerm = 2, eKind = EntryNoOp, eCommand = []\<rparr>],
     pbSnapshotBase = None, pbSnapshot = None, pbAppliedIndex = None\<rparr>"

definition replaced_state :: RecoveredState where
  "replaced_state = committed_state\<lparr>rsEntries := [rsEntries committed_state ! 0,
     \<lparr>eIndex = 2, eTerm = 2, eKind = EntryNoOp, eCommand = []\<rparr>]\<rparr>"

lemma demo_states_valid:
  "ValidateRecoveredState length_digest committed_state demo_identity store_voters = None"
  "ValidateRecoveredState length_digest replaced_state demo_identity store_voters = None"
  unfolding ValidateRecoveredState_def
  by (simp_all add: validateRecoveredStateWithSnapshotLimit_def validateRecoveredSnapshot_def replaced_state_def
      committed_state_def emptyState_def demo_identity_def store_voters_ok zero_HardState_def
      zero_SnapshotMetadata_def StorageFormatVersion1_def validateLogEntry_def EntryCommand_def EntryNoOp_def)

lemma demo_replace:
  "applyPersistenceBatch length_digest committed_state replace_batch demo_identity store_voters = Inr replaced_state"
proof -
  have "validatePersistenceBatchBounds replace_batch = None"
    by (simp add: validatePersistenceBatchBounds_def replace_batch_def addRecord_def MaxWALRecordPayloadBytes_def
        checkedBoundedAdd_def Let_def wal_sizes MaxWALTransactionBytes_def MaxRPCPayloadBytes_def)
  moreover have "\<not> (2 :: u64) \<le> 1"
    by (simp add: word_le_nat_alt)
  ultimately show ?thesis
    using demo_states_valid(2)
    by (simp add: applyPersistenceBatch_def applyValidatedPersistenceBatch_def checkNextHardState_def
        applySnapshotBase_def applyReplacement_def applyIndices_def replace_batch_def replaced_state_def
        committed_state_def emptyState_def zero_HardState_def zero_SnapshotMetadata_def Let_def
        checkedNextIndex_def MaxInt_def)
qed

lemma demo_replace_fields:
  "pbSnapshotBase replace_batch = None" "rsBaseIndex replaced_state = 0" "rsCommitIndex committed_state = 1"
  by (simp_all add: replace_batch_def replaced_state_def committed_state_def emptyState_def
      zero_SnapshotMetadata_def)

theorem store_keeps_committed_witness:
  "recoveredEntryAt replaced_state 1 = recoveredEntryAt committed_state 1"
  using store_keeps_committed[OF demo_states_valid(1), of replace_batch replaced_state undefined undefined 1]
    demo_replace demo_replace_fields by simp

theorem recovered_state_is_log_witness:
  "\<exists>l. NewLog 0 0 1 0 (rsEntries committed_state) = Inr l
     \<and> (\<forall>i e. EntryAt l i = Inr e \<longleftrightarrow> recoveredEntryAt committed_state i = Some e)"
  using recovered_state_is_log[OF demo_states_valid(1)]
  by (auto simp: committed_state_def emptyState_def zero_SnapshotMetadata_def)

definition chunk_header :: InstallSnapshotRequest where
  "chunk_header = \<lparr>iqLeaderID = 2, iqTerm = 2, iqTransferID = 77, iqSnapshotID = 149,
     iqLastIncludedIndex = 2, iqLastIncludedTerm = 1, iqSchemaVersion = 1, iqTotalLength = 3,
     iqChecksum = length_digest [1, 2, 3], iqOffset = 0, iqChunk = [], iqDone = False\<rparr>"

definition sent_snapshot :: Snapshot where
  "sent_snapshot = (case NewSnapshot length_digest demo_identity demo_metadata [1, 2, 3] 1024 of Inr s \<Rightarrow> s)"

lemma sent_snapshot_new: "NewSnapshot length_digest demo_identity demo_metadata [1, 2, 3] 1024 = Inr sent_snapshot"
  and sent_snapshot_fields: "snID sent_snapshot = 149" "snMetadata sent_snapshot = demo_metadata"
    "length (snState sent_snapshot) = 3"
proof -
  let ?c = "length_digest (envelopeBytes demo_identity demo_metadata (length_digest [1, 2, 3]) [1, 2, 3] 0)"
  have "?c = push_bit 128 149 OR 149"
    by (simp add: length_digest_def envelope_offsets)
  then have "snapshotIDOf ?c = 149"
    by (simp add: snapshotIDOf_high)
  then show "NewSnapshot length_digest demo_identity demo_metadata [1, 2, 3] 1024 = Inr sent_snapshot"
    "snID sent_snapshot = 149" "snMetadata sent_snapshot = demo_metadata" "length (snState sent_snapshot) = 3"
    by (simp_all add: sent_snapshot_def NewSnapshot_def validateSnapshotInputs_def demo_identity_def
        demo_metadata_def MaxRaftSnapshotBytes_def MaxInt_def envelope_offsets Let_def)
qed

definition installed_state :: RecoveredState where
  "installed_state = voted_state\<lparr>rsSnapshotBase := demo_metadata, rsSnapshot := Some sent_snapshot,
     rsHardState := \<lparr>hsTerm = 2, hsVotedFor = 1, hsCommitIndex = 2\<rparr>, rsAppliedIndex := 2\<rparr>"

lemma demo_install:
  "installRecoveredSnapshot length_digest voted_state sent_snapshot demo_identity store_voters = Inr installed_state"
proof -
  have "DecodeSnapshotEnvelope length_digest (snEnvelope sent_snapshot) demo_identity MaxRaftSnapshotBytes
      = Inr sent_snapshot"
    by (rule decode_limit_mono[OF decode_NewSnapshot[OF sent_snapshot_new]])
      (simp_all add: MaxInt_def MaxRaftSnapshotBytes_def)
  then have "ValidateRecoveredState length_digest installed_state demo_identity store_voters = None"
    unfolding ValidateRecoveredState_def validate_iff
    by (simp add: state_ok_def payload_ok_def validateRecoveredSnapshot_def installed_state_def voted_state_def
        emptyState_def store_voters_ok StorageFormatVersion1_def sent_snapshot_fields MaxRaftSnapshotBytes_def)
      (simp add: demo_identity_def demo_metadata_def store_voters_ok StorageFormatVersion1_def)
  then show ?thesis
    by (simp add: installRecoveredSnapshot_def Let_def sent_snapshot_fields installed_state_def voted_state_def
        emptyState_def zero_SnapshotMetadata_def demo_metadata_def)
qed

lemma demo_chunks_valid:
  "\<forall>request \<in> set (chunkRequests chunk_header 0 [[1, 2], [3]]).
     validateSnapshotRequest request (DefaultCodecLimits\<lparr>clMaxSnapshotBytes := 1024\<rparr>) = None"
  by (simp add: chunkRequest_def chunk_header_def validateSnapshotRequest_def DefaultCodecLimits_def
      TransferID_IsZero_def MaxRaftSnapshotChunkBytes_def length_digest_def)

theorem snapshot_transfer_completes_witness:
  "fst (stageAll length_digest (chunkRequests chunk_header 0 [[1, 2], [3]]) (demo_store\<lparr>msState := voted_state\<rparr>))
     = demo_store\<lparr>msState := installed_state\<rparr>"
proof -
  have "stageAll length_digest (chunkRequests chunk_header 0 [[1, 2], [3]]) (demo_store\<lparr>msState := voted_state\<rparr>) =
    (demo_store\<lparr>msState := voted_state\<rparr>\<lparr>msState := installed_state, msStage := None\<rparr>,
     Some (Inr \<lparr>srNextOffset = len64 (concat [[1, 2], [3 :: u8]]), srDone = True, srState = installed_state\<rparr>))"
  proof (rule snapshot_transfer_completes)
    show "NewSnapshot length_digest (msIdentity (demo_store\<lparr>msState := voted_state\<rparr>))
       (tmMetadata (snapshotTransferMetadataFor chunk_header)) (concat [[1, 2], [3]])
       (msSnapshotLimit (demo_store\<lparr>msState := voted_state\<rparr>)) = Inr sent_snapshot"
      using sent_snapshot_new
      by (simp add: demo_store_fields snapshotTransferMetadataFor_def chunk_header_def demo_metadata_def)
  qed (use demo_chunks_valid demo_install in
       \<open>simp_all add: demo_store_fields sent_snapshot_fields chunk_header_def\<close>)
  then show ?thesis
    by (simp add: demo_store_fields)
qed

end
