(* ===== verification/Raft_Core.thy ===== *)
theory Raft_Core
  imports Raft_Storage Bounded_Random
begin

text \<open>
  The deterministic consensus core of \<open>internal/raft/core.go\<close>: its output batches (\<open>ready.go\<close>), its
  state, and the helpers the handlers of \<open>Raft_Handlers\<close> call.

  A method with a pointer receiver and an error result is a function into \<open>outcome\<close>: the core it leaves
  behind, also next to an error, or \<open>None\<close> when it does not return.  It does not return in two cases, a
  write to a nil map and a random source that never yields an acceptable sample; the map-valued fields the
  code writes without a guard are therefore options (\<open>None\<close> is nil), and the random source is a stream.
  The maps that the code makes before it writes them (\<open>pendingProposals\<close>, \<open>proposalAtIndex\<close>,
  \<open>outgoingSnapshots\<close>) are plain maps: nil and empty cannot be told apart.  Errors are sentinels.
\<close>

section \<open>Output batches\<close>

record DurabilityPrerequisite =
  dpHardState :: bool
  dpEntriesThrough :: u64

definition no_prerequisite :: DurabilityPrerequisite where
  "no_prerequisite = \<lparr>dpHardState = False, dpEntriesThrough = 0\<rparr>"

record PeerMessage =
  pmTo :: u16
  pmRPC :: RPC
  pmRequires :: DurabilityPrerequisite

record CommittedProposal =
  cpID :: ProposalID
  cpEntry :: Entry

record FailedProposal =
  fpID :: ProposalID
  fpEntry :: Entry
  fpErr :: raft_error

datatype SnapshotActionKind = SnapshotActionStage | SnapshotActionAbort

record SnapshotAction =
  saKind :: SnapshotActionKind
  saRequest :: InstallSnapshotRequest
  saReset :: bool

record SnapshotActionResult =
  sarNextOffset :: u64
  sarDone :: bool
  sarState :: RecoveredState
  sarRejected :: bool

record Ready =
  rdToken :: ReadyToken
  rdHardState :: "HardState option"
  rdEntries :: "Entry list"
  rdMessages :: "PeerMessage list"
  rdCommittedEntries :: "Entry list"
  rdCommittedProposals :: "CommittedProposal list"
  rdFailedProposals :: "FailedProposal list"
  rdSnapshotActions :: "SnapshotAction list"

definition empty_Ready :: Ready where
  "empty_Ready = \<lparr>rdToken = 0, rdHardState = None, rdEntries = [], rdMessages = [], rdCommittedEntries = [],
     rdCommittedProposals = [], rdFailedProposals = [], rdSnapshotActions = []\<rparr>"

section \<open>State\<close>

record CoreOptions =
  coLocalID :: u16
  coVoters :: VoterSet
  coHardState :: HardState
  coLog :: "Log option"
  coAppliedIndex :: u64
  coElectionTimeoutMin :: u64
  coElectionTimeoutMax :: u64
  coHeartbeatInterval :: u64
  coMaxAppendEntries :: u16
  coMaxAppendBytes :: u64
  coRandom :: "source option"

record incomingSnapshotProgress =
  inMetadata :: snapshotTransferMetadata
  inNextOffset :: u64
  inRequest :: InstallSnapshotRequest

record outgoingSnapshotProgress =
  ouTerm :: u64
  ouPeerID :: u16
  ouTransferID :: TransferID
  ouSnapshot :: Snapshot
  ouState :: bytes
  ouNextOffset :: u64
  ouChunkLimit :: u64
  ouActiveEnd :: u64

record Core =
  cLocalID :: u16
  cVoters :: VoterSet
  cHardState :: HardState
  cLog :: Log
  cRole :: Role
  cLeaderID :: u16
  cNow :: u64
  cElectionDeadline :: u64
  cDeadlineExhausted :: bool
  cElectionTimeoutMin :: u64
  cElectionTimeoutMax :: u64
  cRandom :: source
  cRecentLeader :: bool
  cHeartbeatInterval :: u64
  cHeartbeatDeadline :: u64
  cQuorumDeadline :: u64
  cQuorumResponses :: "u16 set option"
  cAppendLimits :: CodecLimits
  cPreVotes :: "u16 set option"
  cVotes :: "u16 set option"
  cProgress :: "(u16 \<rightharpoonup> Progress) option"
  cNextProposalID :: ProposalID
  cPendingProposals :: "ProposalID \<rightharpoonup> Entry"
  cPendingProposalOrder :: "ProposalID list"
  cProposalAtIndex :: "u64 \<rightharpoonup> ProposalID"
  cIncomingSnapshot :: "incomingSnapshotProgress option"
  cOutgoingSnapshots :: "u16 \<rightharpoonup> outgoingSnapshotProgress"
  cSnapshotActionDone :: bool
  cPendingReady :: Ready
  cHasPending :: bool
  cNextToken :: ReadyToken
  cTerminalErr :: "raft_error option"

abbreviation cTerm :: "Core \<Rightarrow> u64" where
  "cTerm core \<equiv> hsTerm (cHardState core)"

abbreviation cVotedFor :: "Core \<Rightarrow> u16" where
  "cVotedFor core \<equiv> hsVotedFor (cHardState core)"

type_synonym core_outcome = "(Core, raft_error) outcome"

text \<open>The voters other than the local one, in canonical order.\<close>

definition peers :: "Core \<Rightarrow> u16 list" where
  "peers core = filter (\<lambda>peer. peer \<noteq> cLocalID core) (map vID (vsVoters (cVoters core)))"

text \<open>Reads of a map that may be nil, and writes, which panic on nil.\<close>

definition members :: "u16 set option \<Rightarrow> u16 set" where
  "members s = (case s of None \<Rightarrow> {} | Some x \<Rightarrow> x)"

definition progressOf :: "Core \<Rightarrow> u16 \<Rightarrow> Progress option" where
  "progressOf core peer = (case cProgress core of None \<Rightarrow> None | Some m \<Rightarrow> m peer)"

definition progressOrZero :: "Core \<Rightarrow> u16 \<Rightarrow> Progress" where
  "progressOrZero core peer = (case progressOf core peer of None \<Rightarrow> zero_Progress | Some p \<Rightarrow> p)"

definition putProgress :: "u16 \<Rightarrow> Progress \<Rightarrow> Core \<Rightarrow> core_outcome" where
  "putProgress peer progress core =
     (case cProgress core of
        None \<Rightarrow> None
      | Some m \<Rightarrow> ok (core\<lparr>cProgress := Some (m(peer \<mapsto> progress))\<rparr>))"

definition putQuorumResponse :: "u16 \<Rightarrow> Core \<Rightarrow> core_outcome" where
  "putQuorumResponse peer core =
     (case cQuorumResponses core of
        None \<Rightarrow> None
      | Some responses \<Rightarrow> ok (core\<lparr>cQuorumResponses := Some (insert peer responses)\<rparr>))"

definition putPreVote :: "u16 \<Rightarrow> Core \<Rightarrow> core_outcome" where
  "putPreVote voter core =
     (case cPreVotes core of
        None \<Rightarrow> None | Some votes \<Rightarrow> ok (core\<lparr>cPreVotes := Some (insert voter votes)\<rparr>))"

definition putVote :: "u16 \<Rightarrow> Core \<Rightarrow> core_outcome" where
  "putVote voter core =
     (case cVotes core of
        None \<Rightarrow> None | Some votes \<Rightarrow> ok (core\<lparr>cVotes := Some (insert voter votes)\<rparr>))"

section \<open>Queueing output\<close>

definition recordHardState :: "Core \<Rightarrow> Core" where
  "recordHardState core =
     core\<lparr>cPendingReady := (cPendingReady core)\<lparr>rdHardState := Some (cHardState core)\<rparr>, cHasPending := True\<rparr>"

definition queueEntries :: "Entry list \<Rightarrow> Core \<Rightarrow> Core" where
  "queueEntries entries core =
     core\<lparr>cPendingReady := (cPendingReady core)\<lparr>rdEntries := rdEntries (cPendingReady core) @ entries\<rparr>,
          cHasPending := True\<rparr>"

definition queueMessage :: "u16 \<Rightarrow> RPC \<Rightarrow> DurabilityPrerequisite \<Rightarrow> Core \<Rightarrow> Core" where
  "queueMessage to rpc requires core =
     core\<lparr>cPendingReady := (cPendingReady core)\<lparr>rdMessages := rdMessages (cPendingReady core)
            @ [\<lparr>pmTo = to, pmRPC = rpc, pmRequires = requires\<rparr>]\<rparr>,
          cHasPending := True\<rparr>"

definition queueSnapshotAction :: "SnapshotAction \<Rightarrow> Core \<Rightarrow> Core" where
  "queueSnapshotAction action core =
     core\<lparr>cPendingReady := (cPendingReady core)\<lparr>rdSnapshotActions := rdSnapshotActions (cPendingReady core) @ [action]\<rparr>,
          cHasPending := True\<rparr>"

definition cancelIncomingSnapshot :: "Core \<Rightarrow> Core" where
  "cancelIncomingSnapshot core =
     (case cIncomingSnapshot core of
        None \<Rightarrow> core
      | Some incoming \<Rightarrow>
          queueSnapshotAction \<lparr>saKind = SnapshotActionAbort, saRequest = inRequest incoming, saReset = False\<rparr>
            (core\<lparr>cIncomingSnapshot := None\<rparr>))"

text \<open>The loop of \<open>failPendingProposals\<close>, then the order is dropped.\<close>

fun failProposals :: "raft_error \<Rightarrow> ProposalID list \<Rightarrow> Core \<Rightarrow> Core" where
  "failProposals reason [] core = core"
| "failProposals reason (proposalID # order) core =
     (case cPendingProposals core proposalID of
        None \<Rightarrow> failProposals reason order core
      | Some proposal \<Rightarrow>
          failProposals reason order (core\<lparr>
            cPendingReady := (cPendingReady core)\<lparr>rdFailedProposals := rdFailedProposals (cPendingReady core)
              @ [\<lparr>fpID = proposalID, fpEntry = proposal, fpErr = reason\<rparr>]\<rparr>,
            cProposalAtIndex := (cProposalAtIndex core)(eIndex proposal := None),
            cPendingProposals := (cPendingProposals core)(proposalID := None),
            cHasPending := True\<rparr>))"

definition failPendingProposals :: "raft_error \<Rightarrow> Core \<Rightarrow> Core" where
  "failPendingProposals reason core =
     (failProposals reason (cPendingProposalOrder core) core)\<lparr>cPendingProposalOrder := []\<rparr>"

section \<open>Deadlines and terms\<close>

definition saturatingTickAdd :: "u64 \<Rightarrow> u64 \<Rightarrow> u64" where
  "saturatingTickAdd now interval = (if now > MaxUint64 - interval then MaxUint64 else now + interval)"

text \<open>The core with the random source it leaves, and the deadline.\<close>

definition sampleDeadline :: "u64 \<Rightarrow> Core \<Rightarrow> (Core \<times> (raft_error + u64)) option" where
  "sampleDeadline now core =
     (case Uint64n (cRandom core) (cElectionTimeoutMax core - cElectionTimeoutMin core) of
        None \<Rightarrow> None
      | Some (offset, random) \<Rightarrow>
          let timeout = cElectionTimeoutMin core + offset
          in Some (core\<lparr>cRandom := random\<rparr>,
                   if now > MaxUint64 - timeout then Inl ErrDeadlineOverflow else Inr (now + timeout)))"

definition adoptHigherTerm :: "u64 \<Rightarrow> Core \<Rightarrow> Core" where
  "adoptHigherTerm term core0 =
     (let core = cancelIncomingSnapshot (failPendingProposals ErrProposalFailed core0);
          core = core\<lparr>cHardState := (cHardState core)\<lparr>hsTerm := term, hsVotedFor := 0\<rparr>,
            cRole := RoleFollower, cLeaderID := 0, cRecentLeader := False, cPreVotes := None, cVotes := None,
            cProgress := None, cOutgoingSnapshots := (\<lambda>_. None), cQuorumResponses := None\<rparr>;
          core = (if cNow core > MaxUint64 - cElectionTimeoutMin core
                  then core\<lparr>cElectionDeadline := MaxUint64, cDeadlineExhausted := True\<rparr> else core)
      in recordHardState core)"

definition candidateLogIsUpToDate :: "u64 \<Rightarrow> u64 \<Rightarrow> Core \<Rightarrow> bool" where
  "candidateLogIsUpToDate candidateIndex candidateTerm core =
     (let localTerm = LastTerm (cLog core)
      in if candidateTerm \<noteq> localTerm then candidateTerm > localTerm
         else candidateIndex \<ge> lLastIndex (cLog core))"

definition hasCommittedCurrentTerm :: "Core \<Rightarrow> bool" where
  "hasCommittedCurrentTerm core =
     (if lCommitIndex (cLog core) = 0 then False
      else Term (cLog core) (lCommitIndex (cLog core)) = Inr (cTerm core))"

section \<open>Committed entries\<close>

definition sameEntry :: "Entry \<Rightarrow> Entry \<Rightarrow> bool" where
  "sameEntry left right \<longleftrightarrow>
     eIndex left = eIndex right \<and> eTerm left = eTerm right \<and> eKind left = eKind right
     \<and> eCommand left = eCommand right"

fun removeFirst :: "ProposalID \<Rightarrow> ProposalID list \<Rightarrow> ProposalID list" where
  "removeFirst proposalID [] = []"
| "removeFirst proposalID (pending # order) =
     (if pending \<noteq> proposalID then pending # removeFirst proposalID order else order)"

definition removePendingProposalOrder :: "ProposalID \<Rightarrow> Core \<Rightarrow> Core" where
  "removePendingProposalOrder proposalID core =
     core\<lparr>cPendingProposalOrder := removeFirst proposalID (cPendingProposalOrder core)\<rparr>"

definition resolveCommittedProposal :: "Entry \<Rightarrow> Core \<Rightarrow> Core" where
  "resolveCommittedProposal entry core =
     (case cProposalAtIndex core (eIndex entry) of
        None \<Rightarrow> core
      | Some proposalID \<Rightarrow>
          case cPendingProposals core proposalID of
            None \<Rightarrow> core\<lparr>cProposalAtIndex := (cProposalAtIndex core)(eIndex entry := None)\<rparr>
          | Some proposal \<Rightarrow>
              let ready = cPendingReady core;
                  ready = (if sameEntry proposal entry
                    then ready\<lparr>rdCommittedProposals := rdCommittedProposals ready
                           @ [\<lparr>cpID = proposalID, cpEntry = proposal\<rparr>]\<rparr>
                    else ready\<lparr>rdFailedProposals := rdFailedProposals ready
                           @ [\<lparr>fpID = proposalID, fpEntry = proposal, fpErr = ErrProposalFailed\<rparr>]\<rparr>)
              in removePendingProposalOrder proposalID
                   (core\<lparr>cPendingReady := ready,
                         cPendingProposals := (cPendingProposals core)(proposalID := None),
                         cProposalAtIndex := (cProposalAtIndex core)(eIndex entry := None)\<rparr>))"

text \<open>The loop of \<open>queueCommittedEntries\<close>, from \<open>index\<close> on.\<close>

function queueCommittedFrom :: "u64 \<Rightarrow> u64 \<Rightarrow> Core \<Rightarrow> Core \<times> raft_error option" where
  "queueCommittedFrom index commitIndex core =
     (if index \<le> commitIndex then
        (case EntryAt (cLog core) index of
           Inl err \<Rightarrow> (core, Some err)
         | Inr entry \<Rightarrow>
             let core = core\<lparr>cPendingReady := (cPendingReady core)\<lparr>rdCommittedEntries :=
                          rdCommittedEntries (cPendingReady core) @ [entry]\<rparr>\<rparr>;
                 core = (resolveCommittedProposal entry core)\<lparr>cHasPending := True\<rparr>
             in if index = MaxUint64 then (core, None)
                else queueCommittedFrom (index + 1) commitIndex core)
      else (core, None))"
  by pat_completeness auto
termination
  by (relation "measure (\<lambda>(index, commitIndex, _). Suc (unat commitIndex) - unat index)")
    (auto simp: unat_Suc_word word_le_nat_alt)

definition queueCommittedEntries :: "u64 \<Rightarrow> u64 \<Rightarrow> Core \<Rightarrow> core_outcome" where
  "queueCommittedEntries previousCommit commitIndex core =
     (case checkedNextIndex previousCommit of
        None \<Rightarrow> fail core ErrLogOverflow
      | Some index \<Rightarrow> Some (queueCommittedFrom index commitIndex core))"

section \<open>Replication\<close>

definition readyContainsEntry :: "Entry list \<Rightarrow> u64 \<Rightarrow> bool" where
  "readyContainsEntry entries index = list_ex (\<lambda>entry. eIndex entry = index) entries"

text \<open>The loop of \<open>issueAppend\<close> that fills a request within the limits.\<close>

function collectEntries ::
    "Log \<Rightarrow> CodecLimits \<Rightarrow> u64 \<Rightarrow> AppendEntriesRequest \<Rightarrow> raft_error + AppendEntriesRequest" where
  "collectEntries l limits index request =
     (if index \<le> lLastIndex l then
        (if length (aqEntries request) = unat (clMaxAppendEntries limits) then Inr request
         else case EntryAt l index of
           Inl err \<Rightarrow> Inl err
         | Inr entry \<Rightarrow>
             let candidate = request\<lparr>aqEntries := aqEntries request @ [entry]\<rparr>
             in case EncodeRPC (RAppendEntriesRequest candidate) limits of
                  Inl err \<Rightarrow> if err = ErrRPCTooLarge then Inr request else Inl err
                | Inr _ \<Rightarrow>
                    if index = MaxUint64 then Inr candidate
                    else collectEntries l limits (index + 1) candidate)
      else Inr request)"
  by pat_completeness auto
termination
  by (relation "measure (\<lambda>(l, _, index, _). Suc (unat (lLastIndex l)) - unat index)")
    (auto simp: unat_Suc_word word_le_nat_alt)

definition lastEntryIndex :: "Entry list \<Rightarrow> u64" where
  "lastEntryIndex entries = eIndex (entries ! (length entries - 1))"

text \<open>From the clamped progress on: build the request, record it as the live one, queue it.\<close>

definition sendAppend :: "u16 \<Rightarrow> Progress \<Rightarrow> Core \<Rightarrow> core_outcome" where
  "sendAppend peerID progress core =
     (let prevIndex = pNextIndex progress - 1
      in case Term (cLog core) prevIndex of
           Inl err \<Rightarrow> fail core err
         | Inr prevTerm \<Rightarrow>
             let generation = pGeneration progress + 1
             in case collectEntries (cLog core) (cAppendLimits core) (pNextIndex progress)
                  \<lparr>aqLeaderID = cLocalID core, aqTerm = cTerm core, aqGeneration = generation,
                   aqPrevLogIndex = prevIndex, aqPrevLogTerm = prevTerm,
                   aqLeaderCommit = lCommitIndex (cLog core), aqEntries = []\<rparr> of
                  Inl err \<Rightarrow> fail core err
                | Inr request \<Rightarrow>
                    let entries = aqEntries request;
                        matchIndex = (if length entries \<noteq> 0 then lastEntryIndex entries else prevIndex);
                        requires = \<lparr>dpHardState = (rdHardState (cPendingReady core) \<noteq> None),
                          dpEntriesThrough = (if length entries \<noteq> 0
                              \<and> readyContainsEntry (rdEntries (cPendingReady core)) (lastEntryIndex entries)
                            then lastEntryIndex entries else 0)\<rparr>
                    in and_then
                         (putProgress peerID (progress\<lparr>pGeneration := generation, pActiveGeneration := generation,
                            pActiveMatchIndex := matchIndex\<rparr>) core)
                         (\<lambda>core. ok (queueMessage peerID (RAppendEntriesRequest request) requires core)))"

definition issueAppend :: "u16 \<Rightarrow> Core \<Rightarrow> core_outcome" where
  "issueAppend peerID core =
     (case progressOf core peerID of
        None \<Rightarrow> ok core
      | Some progress \<Rightarrow>
          if peerID = cLocalID core \<or> pSnapshotNeeded progress then ok core
          else if pGeneration progress = MaxUint64 then fail core ErrReplicationGenerationOverflow
          else case checkedNextIndex (pMatchIndex progress) of
            None \<Rightarrow> fail core ErrLogOverflow
          | Some minimumNext \<Rightarrow>
              let progress = (if pNextIndex progress < minimumNext
                    then progress\<lparr>pNextIndex := minimumNext\<rparr> else progress)
              in case checkedNextIndex (lLastIndex (cLog core)) of
                   None \<Rightarrow> fail core ErrLogOverflow
                 | Some maximumNext \<Rightarrow>
                     let progress = (if pNextIndex progress > maximumNext
                           then progress\<lparr>pNextIndex := maximumNext\<rparr> else progress)
                     in if pNextIndex progress \<le> lSnapshotIndex (cLog core)
                        then putProgress peerID (progress\<lparr>pSnapshotNeeded := True, pActiveGeneration := 0\<rparr>) core
                        else sendAppend peerID progress core)"

definition issueSnapshotChunk :: "u16 \<Rightarrow> Core \<Rightarrow> core_outcome" where
  "issueSnapshotChunk peerID core =
     (case cOutgoingSnapshots core peerID of
        None \<Rightarrow> ok core
      | Some transfer \<Rightarrow>
          if cRole core \<noteq> RoleLeader \<or> ouTerm transfer \<noteq> cTerm core then ok core
          else
            let totalLength = len64 (ouState transfer); offset = ouNextOffset transfer
            in if offset > totalLength then fail core ErrInvalidCoreState
               else
                 let stop = offset + ouChunkLimit transfer;
                     stop = (if stop < offset \<or> stop > totalLength then totalLength else stop);
                     metadata = snMetadata (ouSnapshot transfer);
                     request = \<lparr>iqLeaderID = cLocalID core, iqTerm = ouTerm transfer,
                       iqTransferID = ouTransferID transfer, iqSnapshotID = snID (ouSnapshot transfer),
                       iqLastIncludedIndex = smLastIncludedIndex metadata,
                       iqLastIncludedTerm = smLastIncludedTerm metadata,
                       iqSchemaVersion = smSchemaVersion metadata, iqTotalLength = totalLength,
                       iqChecksum = snStateChecksum (ouSnapshot transfer), iqOffset = offset,
                       iqChunk = segment (unat offset) (unat stop) (ouState transfer),
                       iqDone = (stop = totalLength)\<rparr>
                 in ok (queueMessage peerID (RInstallSnapshotRequest request) no_prerequisite
                      (core\<lparr>cOutgoingSnapshots := (cOutgoingSnapshots core)(peerID \<mapsto>
                         transfer\<lparr>ouActiveEnd := stop\<rparr>)\<rparr>)))"

text \<open>The peers get a snapshot chunk while a transfer is active and entries otherwise.\<close>

definition issueNext :: "u16 \<Rightarrow> Core \<Rightarrow> core_outcome" where
  "issueNext peerID core =
     (if cOutgoingSnapshots core peerID \<noteq> None then issueSnapshotChunk peerID core
      else issueAppend peerID core)"

definition replicas :: "Core \<Rightarrow> u64 \<Rightarrow> nat" where
  "replicas core candidate =
     length (filter (\<lambda>voter. pMatchIndex (progressOrZero core (vID voter)) \<ge> candidate) (vsVoters (cVoters core)))"

text \<open>The downward loop of \<open>advanceLeaderCommit\<close> over \<open>candidate\<close>.\<close>

function advanceCommitFrom :: "u64 \<Rightarrow> u64 \<Rightarrow> Core \<Rightarrow> core_outcome" where
  "advanceCommitFrom currentCommit candidate core =
     (if candidate > currentCommit then
        (case Term (cLog core) candidate of
           Inl err \<Rightarrow> fail core err
         | Inr term \<Rightarrow>
             if term \<noteq> cTerm core \<or> replicas core candidate < Majority (cVoters core)
             then advanceCommitFrom currentCommit (candidate - 1) core
             else case AdvanceCommit candidate (cLog core) of
                    (_, Some err) \<Rightarrow> fail core err
                  | (l, None) \<Rightarrow>
                      queueCommittedEntries currentCommit candidate
                        (recordHardState (core\<lparr>cLog := l,
                           cHardState := (cHardState core)\<lparr>hsCommitIndex := candidate\<rparr>\<rparr>)))
      else ok core)"
  by pat_completeness auto
termination
  by (relation "measure (\<lambda>(_, candidate, _). unat candidate)")
    (auto simp: word_less_nat_alt unat_pred_word word_neq_0_conv)

definition advanceLeaderCommit :: "Core \<Rightarrow> core_outcome" where
  "advanceLeaderCommit core =
     advanceCommitFrom (lCommitIndex (cLog core)) (lLastIndex (cLog core)) core"

definition clearOutgoingSnapshot :: "u16 \<Rightarrow> Core \<Rightarrow> core_outcome" where
  "clearOutgoingSnapshot peerID core0 =
     (let core = core0\<lparr>cOutgoingSnapshots := (cOutgoingSnapshots core0)(peerID := None)\<rparr>
      in case progressOf core peerID of
           None \<Rightarrow> ok core
         | Some progress \<Rightarrow>
             putProgress peerID (progress\<lparr>pActiveTransferID := 0, pActiveSnapshotID := 0,
               pSnapshotNextOffset := 0\<rparr>) core)"

definition snapshotResponse :: "InstallSnapshotRequest \<Rightarrow> bool \<Rightarrow> bool \<Rightarrow> u64 \<Rightarrow> Core \<Rightarrow> PeerMessage" where
  "snapshotResponse request success is_done nextOffset core =
     \<lparr>pmTo = iqLeaderID request,
      pmRPC = RInstallSnapshotResponse \<lparr>irResponderID = cLocalID core, irLeaderID = iqLeaderID request,
        irTerm = cTerm core, irRequestTerm = iqTerm request, irTransferID = iqTransferID request,
        irSnapshotID = iqSnapshotID request, irNextOffset = nextOffset, irSuccess = success,
        irDone = is_done\<rparr>,
      pmRequires = no_prerequisite\<rparr>"

end
