(* ===== verification/Raft_Handlers.thy ===== *)
theory Raft_Handlers
  imports Raft_Core
begin

text \<open>
  The entry points of \<open>core.go\<close> and the handlers they dispatch to: construction, ticks, peer messages,
  proposals, the \<open>Ready\<close>/\<open>Advance\<close> cycle and the snapshot operations of the owner.  Each definition is the
  whole method, with the state it leaves next to an error.
\<close>

section \<open>Elections\<close>

definition startPreVote :: "u64 \<Rightarrow> Core \<Rightarrow> core_outcome" where
  "startPreVote now core0 =
     (if cTerm core0 = MaxUint64 then fail core0 ErrTermOverflow
      else case sampleDeadline now core0 of
        None \<Rightarrow> None
      | Some (core, Inl err) \<Rightarrow> fail core err
      | Some (core, Inr deadline) \<Rightarrow>
          let request = RPreVoteRequest \<lparr>pqCandidateID = cLocalID core, pqCurrentTerm = cTerm core,
                pqProspectiveTerm = cTerm core + 1, pqLastLogIndex = lLastIndex (cLog core),
                pqLastLogTerm = LastTerm (cLog core)\<rparr>;
              core = core\<lparr>cNow := now, cElectionDeadline := deadline, cDeadlineExhausted := False,
                cRole := RolePreCandidate, cLeaderID := 0, cRecentLeader := False,
                cPreVotes := Some {cLocalID core}, cVotes := None\<rparr>
          in for_each (\<lambda>peer core. ok (queueMessage peer request no_prerequisite core)) (peers core) core)"

definition handlePreVoteRequest :: "PreVoteRequest \<Rightarrow> Core \<Rightarrow> core_outcome" where
  "handlePreVoteRequest request core =
     (let granted = (cRole core \<noteq> RoleLeader \<and> \<not> cRecentLeader core \<and> pqCurrentTerm request \<ge> cTerm core
            \<and> candidateLogIsUpToDate (pqLastLogIndex request) (pqLastLogTerm request) core)
      in ok (queueMessage (pqCandidateID request) (RPreVoteResponse \<lparr>prResponderID = cLocalID core,
               prCandidateID = pqCandidateID request, prTerm = cTerm core,
               prRequestCurrentTerm = pqCurrentTerm request, prProspectiveTerm = pqProspectiveTerm request,
               prGranted = granted\<rparr>) no_prerequisite core))"

definition startElection :: "u16 \<Rightarrow> Core \<Rightarrow> core_outcome" where
  "startElection finalPreVoter core0 =
     (if cTerm core0 = MaxUint64 then fail core0 ErrTermOverflow
      else case sampleDeadline (cNow core0) core0 of
        None \<Rightarrow> None
      | Some (core, Inl err) \<Rightarrow> fail core err
      | Some (core, Inr deadline) \<Rightarrow>
          let term = cTerm core + 1;
              request = RRequestVoteRequest \<lparr>vqCandidateID = cLocalID core, vqTerm = term,
                vqLastLogIndex = lLastIndex (cLog core), vqLastLogTerm = LastTerm (cLog core)\<rparr>
          in and_then (putPreVote finalPreVoter core) (\<lambda>core.
               let core = cancelIncomingSnapshot core;
                   core = core\<lparr>cHardState := (cHardState core)\<lparr>hsTerm := term, hsVotedFor := cLocalID core\<rparr>,
                     cRole := RoleCandidate, cLeaderID := 0, cRecentLeader := False,
                     cElectionDeadline := deadline, cDeadlineExhausted := False, cPreVotes := None,
                     cVotes := Some {cLocalID core}\<rparr>;
                   core = recordHardState core
               in for_each (\<lambda>peer core. ok (queueMessage peer request
                     \<lparr>dpHardState = True, dpEntriesThrough = 0\<rparr> core)) (peers core) core))"

definition handlePreVoteResponse :: "PreVoteResponse \<Rightarrow> Core \<Rightarrow> core_outcome" where
  "handlePreVoteResponse response core =
     (if cRole core \<noteq> RolePreCandidate \<or> prCandidateID response \<noteq> cLocalID core
         \<or> prRequestCurrentTerm response \<noteq> cTerm core \<or> cTerm core = MaxUint64
         \<or> prProspectiveTerm response \<noteq> cTerm core + 1 \<or> prTerm response > cTerm core
         \<or> \<not> prGranted response
      then ok core
      else if prResponderID response \<in> members (cPreVotes core) then ok core
      else if card (members (cPreVotes core)) + 1 < Majority (cVoters core)
      then putPreVote (prResponderID response) core
      else startElection (prResponderID response) core)"

definition queueVoteResponse :: "RequestVoteRequest \<Rightarrow> bool \<Rightarrow> bool \<Rightarrow> Core \<Rightarrow> Core" where
  "queueVoteResponse request granted hardStateChanged core =
     queueMessage (vqCandidateID request) (RRequestVoteResponse \<lparr>vrResponderID = cLocalID core,
       vrCandidateID = vqCandidateID request, vrTerm = cTerm core, vrRequestTerm = vqTerm request,
       vrGranted = granted\<rparr>) \<lparr>dpHardState = hardStateChanged, dpEntriesThrough = 0\<rparr> core"

definition handleVoteRequest :: "RequestVoteRequest \<Rightarrow> Core \<Rightarrow> core_outcome" where
  "handleVoteRequest request core0 =
     (if vqTerm request < cTerm core0 then ok (queueVoteResponse request False False core0)
      else
        let higher = vqTerm request > cTerm core0;
            core = (if higher then adoptHigherTerm (vqTerm request) core0 else core0);
            canVote = (cVotedFor core = 0 \<or> cVotedFor core = vqCandidateID request);
            granted = (canVote
              \<and> candidateLogIsUpToDate (vqLastLogIndex request) (vqLastLogTerm request) core);
            casts = (granted \<and> cVotedFor core = 0);
            core = (if casts
              then recordHardState (core\<lparr>cHardState := (cHardState core)\<lparr>hsVotedFor := vqCandidateID request\<rparr>\<rparr>)
              else core)
        in ok (queueVoteResponse request granted (higher \<or> casts) core))"

text \<open>The peer loop of \<open>becomeLeader\<close>.\<close>

definition initiatePeer :: "u64 \<Rightarrow> u16 \<Rightarrow> Core \<Rightarrow> core_outcome" where
  "initiatePeer newIndex peer core =
     and_then (putProgress peer (zero_Progress\<lparr>pNextIndex := newIndex\<rparr>) core) (issueNext peer)"

definition becomeLeader :: "u16 \<Rightarrow> Core \<Rightarrow> core_outcome" where
  "becomeLeader finalVoter core =
     (let previousIndex = lLastIndex (cLog core)
      in case checkedNextIndex previousIndex of
           None \<Rightarrow> fail core ErrLogOverflow
         | Some newIndex \<Rightarrow>
         (case checkedNextIndex newIndex of
            None \<Rightarrow> fail core ErrLogOverflow
          | Some selfNext \<Rightarrow>
          (case NewEntry newIndex (cTerm core) EntryNoOp [] of
             Inl err \<Rightarrow> fail core err
           | Inr entry \<Rightarrow>
           (case Append previousIndex (LastTerm (cLog core)) [entry] (cLog core) of
              (l, _, Some err) \<Rightarrow> fail (core\<lparr>cLog := l\<rparr>) err
            | (l, _, None) \<Rightarrow>
                and_then (putVote finalVoter (core\<lparr>cLog := l\<rparr>)) (\<lambda>core.
                  let core = core\<lparr>cRole := RoleLeader, cLeaderID := cLocalID core, cPreVotes := None,
                        cRecentLeader := False,
                        cProgress := Some [cLocalID core \<mapsto>
                          zero_Progress\<lparr>pMatchIndex := newIndex, pNextIndex := selfNext\<rparr>],
                        cQuorumResponses := Some {},
                        cHeartbeatDeadline := saturatingTickAdd (cNow core) (cHeartbeatInterval core),
                        cQuorumDeadline := saturatingTickAdd (cNow core) (cElectionTimeoutMin core)\<rparr>;
                      core = queueEntries [entry] core
                  in for_each (initiatePeer newIndex) (peers core) core)))))"

definition handleVoteResponse :: "RequestVoteResponse \<Rightarrow> Core \<Rightarrow> core_outcome" where
  "handleVoteResponse response core =
     (if vrCandidateID response \<noteq> cLocalID core \<or> cRole core \<noteq> RoleCandidate
         \<or> vrRequestTerm response \<noteq> cTerm core
      then ok core
      else if vrTerm response > cTerm core then ok (adoptHigherTerm (vrTerm response) core)
      else if vrTerm response \<noteq> cTerm core \<or> \<not> vrGranted response then ok core
      else if vrResponderID response \<in> members (cVotes core) then ok core
      else if card (members (cVotes core)) + 1 < Majority (cVoters core)
      then putVote (vrResponderID response) core
      else becomeLeader (vrResponderID response) core)"

section \<open>The leader's clock\<close>

text \<open>The assignments of \<open>stepDownWithoutTermChange\<close>, with the deadline and the flag it computed.\<close>

definition stepDownTo :: "u64 \<Rightarrow> bool \<Rightarrow> Core \<Rightarrow> Core" where
  "stepDownTo deadline exhausted core =
     failPendingProposals ErrProposalFailed (core\<lparr>cDeadlineExhausted := exhausted, cRole := RoleFollower,
       cLeaderID := 0, cRecentLeader := False, cProgress := None, cOutgoingSnapshots := (\<lambda>_. None),
       cQuorumResponses := None, cElectionDeadline := deadline\<rparr>)"

definition stepDownWithoutTermChange :: "u64 \<Rightarrow> Core \<Rightarrow> core_outcome" where
  "stepDownWithoutTermChange now core0 =
     (case sampleDeadline now core0 of
        None \<Rightarrow> None
      | Some (core, Inl err) \<Rightarrow>
          if err \<noteq> ErrDeadlineOverflow then fail core err else ok (stepDownTo MaxUint64 True core)
      | Some (core, Inr deadline) \<Rightarrow> ok (stepDownTo deadline False core))"

text \<open>The two loops of \<open>tickLeader\<close>: the overflow check of a due heartbeat, and the heartbeat.\<close>

definition generationExhausted :: "Core \<Rightarrow> bool" where
  "generationExhausted core =
     list_ex (\<lambda>peer. \<not> pSnapshotNeeded (progressOrZero core peer)
                 \<and> pGeneration (progressOrZero core peer) = MaxUint64) (peers core)"

definition tickLeader :: "u64 \<Rightarrow> Core \<Rightarrow> core_outcome" where
  "tickLeader now core0 =
     (if now \<ge> cQuorumDeadline core0
         \<and> 1 + card (members (cQuorumResponses core0)) < Majority (cVoters core0)
      then stepDownWithoutTermChange now (core0\<lparr>cNow := now\<rparr>)
      else if now \<ge> cHeartbeatDeadline core0 \<and> generationExhausted core0
      then fail core0 ErrReplicationGenerationOverflow
      else
        let core = core0\<lparr>cNow := now\<rparr>;
            core = (if now \<ge> cQuorumDeadline core
              then core\<lparr>cQuorumResponses := Some {},
                        cQuorumDeadline := saturatingTickAdd now (cElectionTimeoutMin core)\<rparr>
              else core)
        in if now < cHeartbeatDeadline core then ok core
           else and_then (for_each issueNext (peers core) core)
                  (\<lambda>core. ok (core\<lparr>cHeartbeatDeadline := saturatingTickAdd now (cHeartbeatInterval core)\<rparr>)))"

definition Tick :: "u64 \<Rightarrow> Core \<Rightarrow> core_outcome" where
  "Tick now core =
     (case cTerminalErr core of
        Some err \<Rightarrow> fail core err
      | None \<Rightarrow>
          if cHasPending core then fail core ErrReadyOutstanding
          else if now < cNow core then fail core ErrTickRegression
          else if cRole core = RoleLeader then tickLeader now core
          else if cDeadlineExhausted core then ok (core\<lparr>cNow := now\<rparr>)
          else if now < cElectionDeadline core then ok (core\<lparr>cNow := now\<rparr>)
          else startPreVote now core)"

section \<open>Following a leader\<close>

text \<open>The assignments of \<open>handleLeaderContact\<close>, with the deadline and the flag it computed.\<close>

definition followLeader :: "u16 \<Rightarrow> u64 \<Rightarrow> u64 \<Rightarrow> bool \<Rightarrow> Core \<Rightarrow> Core" where
  "followLeader leaderID term deadline exhausted core0 =
     (let core = (case cIncomingSnapshot core0 of
            Some incoming \<Rightarrow>
              if tmTerm (inMetadata incoming) \<noteq> term \<or> tmLeaderID (inMetadata incoming) \<noteq> leaderID
              then cancelIncomingSnapshot core0 else core0
          | None \<Rightarrow> core0);
          core = (if term > cTerm core then adoptHigherTerm term core
                  else if cRole core = RoleLeader \<and> leaderID \<noteq> cLocalID core
                  then failPendingProposals ErrProposalFailed core else core)
      in core\<lparr>cRole := RoleFollower, cLeaderID := leaderID, cRecentLeader := True, cPreVotes := None,
           cVotes := None, cProgress := None, cOutgoingSnapshots := (\<lambda>_. None), cQuorumResponses := None,
           cElectionDeadline := deadline, cDeadlineExhausted := exhausted\<rparr>)"

definition handleLeaderContact :: "u16 \<Rightarrow> u64 \<Rightarrow> Core \<Rightarrow> core_outcome" where
  "handleLeaderContact leaderID term core0 =
     (if term < cTerm core0 then ok core0
      else case sampleDeadline (cNow core0) core0 of
        None \<Rightarrow> None
      | Some (core, Inl err) \<Rightarrow>
          if err \<noteq> ErrDeadlineOverflow then fail core err
          else ok (followLeader leaderID term MaxUint64 True core)
      | Some (core, Inr deadline) \<Rightarrow> ok (followLeader leaderID term deadline False core))"

definition queueAppendResponse ::
    "AppendEntriesRequest \<Rightarrow> bool \<Rightarrow> u64 \<Rightarrow> ConflictHint \<Rightarrow> DurabilityPrerequisite \<Rightarrow> Core \<Rightarrow> Core" where
  "queueAppendResponse request success matchIndex hint requires core =
     queueMessage (aqLeaderID request) (RAppendEntriesResponse \<lparr>arResponderID = cLocalID core,
       arLeaderID = aqLeaderID request, arTerm = cTerm core, arRequestTerm = aqTerm request,
       arGeneration = aqGeneration request, arSuccess = success, arMatchIndex = matchIndex,
       arConflictTerm = chTerm hint, arConflictIndex = chIndex hint\<rparr>) requires core"

text \<open>The loop of \<open>changedLogEntries\<close>: the first position below \<open>shared\<close> where the lists differ.\<close>

fun firstChanged :: "Entry list \<Rightarrow> Entry list \<Rightarrow> nat" where
  "firstChanged (b # before) (a # after) = (if sameEntry b a then Suc (firstChanged before after) else 0)"
| "firstChanged _ _ = 0"

definition changedLogEntries :: "Entry list \<Rightarrow> Entry list \<Rightarrow> Entry list" where
  "changedLogEntries before after =
     (let shared = min (length before) (length after); changed = firstChanged before after
      in if changed = shared \<and> length after = length before then [] else drop changed after)"

text \<open>The part of \<open>handleAppendRequest\<close> after the append was accepted.\<close>

definition acceptAppend :: "AppendEntriesRequest \<Rightarrow> bool \<Rightarrow> Entry list \<Rightarrow> Core \<Rightarrow> core_outcome" where
  "acceptAppend request hardStateChanged before core0 =
     (let lastVerified = (if length (aqEntries request) \<noteq> 0 then lastEntryIndex (aqEntries request)
            else aqPrevLogIndex request);
          previousCommit = lCommitIndex (cLog core0);
          commitIndex = (if aqLeaderCommit request > lastVerified then lastVerified else aqLeaderCommit request);
          advances = commitIndex > previousCommit
      in and_then
           (if advances then
              (case AdvanceCommit commitIndex (cLog core0) of
                 (_, Some err) \<Rightarrow> fail core0 err
               | (l, None) \<Rightarrow>
                   queueCommittedEntries previousCommit commitIndex
                     (recordHardState (core0\<lparr>cLog := l,
                        cHardState := (cHardState core0)\<lparr>hsCommitIndex := commitIndex\<rparr>\<rparr>)))
            else ok core0)
           (\<lambda>core.
              let changed = changedLogEntries before (lEntries (cLog core));
                  requires = \<lparr>dpHardState = (hardStateChanged \<or> advances),
                    dpEntriesThrough = (if length changed \<noteq> 0 then lastEntryIndex changed else 0)\<rparr>;
                  core = (if length changed \<noteq> 0 then queueEntries changed core else core)
              in ok (queueAppendResponse request True lastVerified zero_ConflictHint requires core)))"

definition handleAppendRequest :: "AppendEntriesRequest \<Rightarrow> Core \<Rightarrow> core_outcome" where
  "handleAppendRequest request core =
     (let l = cLog core
      in if aqTerm request < cTerm core then
           (let conflictIndex = (case checkedNextIndex (lLastIndex l) of
                  None \<Rightarrow> lLastIndex l | Some index \<Rightarrow> index)
            in ok (queueAppendResponse request False 0 \<lparr>chTerm = 0, chIndex = conflictIndex\<rparr> no_prerequisite core))
         else case NewLog (lSnapshotIndex l) (lSnapshotTerm l) (lCommitIndex l) (lAppliedIndex l) (lEntries l) of
           Inl err \<Rightarrow> fail core err
         | Inr copied \<Rightarrow>
             (case Append (aqPrevLogIndex request) (aqPrevLogTerm request) (aqEntries request) copied of
                (trialLog, hint, appendErr) \<Rightarrow>
                  if appendErr \<notin> {None, Some ErrLogUnavailable, Some ErrLogCompacted, Some ErrLogMismatch}
                  then (case appendErr of Some err \<Rightarrow> fail core err | None \<Rightarrow> ok core)
                  else
                    let hardStateChanged = aqTerm request > cTerm core
                    in and_then (handleLeaderContact (aqLeaderID request) (aqTerm request) core) (\<lambda>core.
                         if appendErr \<noteq> None
                         then ok (queueAppendResponse request False 0 hint
                                \<lparr>dpHardState = hardStateChanged, dpEntriesThrough = 0\<rparr> core)
                         else acceptAppend request hardStateChanged (lEntries l) (core\<lparr>cLog := trialLog\<rparr>))))"

text \<open>The part of \<open>handleInstallSnapshotRequest\<close> after the checks on the leader and the commit index.\<close>

definition receiveChunk :: "InstallSnapshotRequest \<Rightarrow> Core \<Rightarrow> Core" where
  "receiveChunk request core0 =
     (let metadata = snapshotTransferMetadataFor request;
          abort = queueSnapshotAction \<lparr>saKind = SnapshotActionAbort, saRequest = request, saReset = False\<rparr>;
          fresh = \<lparr>inMetadata = metadata, inNextOffset = 0, inRequest = request\<rparr>;
          changed = (case cIncomingSnapshot core0 of None \<Rightarrow> True | Some incoming \<Rightarrow> inMetadata incoming \<noteq> metadata);
          reset = (changed \<and> cIncomingSnapshot core0 \<noteq> None)
      in if changed \<and> iqOffset request \<noteq> 0 then abort core0
         else
           let incoming = (if changed then fresh
                 else case cIncomingSnapshot core0 of None \<Rightarrow> fresh | Some i \<Rightarrow> i);
               core = core0\<lparr>cIncomingSnapshot := Some incoming\<rparr>;
               nextOffset = inNextOffset incoming;
               stop = iqOffset request + len64 (iqChunk request)
           in if iqOffset request > nextOffset \<or> (iqOffset request < nextOffset \<and> stop > nextOffset)
              then abort core
              else queueSnapshotAction \<lparr>saKind = SnapshotActionStage, saRequest = request, saReset = reset\<rparr>
                     (core\<lparr>cIncomingSnapshot := Some (incoming\<lparr>inRequest := request\<rparr>)\<rparr>))"

definition installReply :: "InstallSnapshotRequest \<Rightarrow> u64 \<Rightarrow> bool \<Rightarrow> Core \<Rightarrow> RPC" where
  "installReply request nextOffset installed core =
     RInstallSnapshotResponse \<lparr>irResponderID = cLocalID core, irLeaderID = iqLeaderID request,
       irTerm = cTerm core, irRequestTerm = iqTerm request, irTransferID = iqTransferID request,
       irSnapshotID = iqSnapshotID request, irNextOffset = nextOffset, irSuccess = installed,
       irDone = installed\<rparr>"

definition handleInstallSnapshotRequest :: "InstallSnapshotRequest \<Rightarrow> Core \<Rightarrow> core_outcome" where
  "handleInstallSnapshotRequest request core =
     (if iqTerm request < cTerm core
      then ok (queueMessage (iqLeaderID request) (installReply request 0 False core) no_prerequisite core)
      else
        let hardStateChanged = iqTerm request > cTerm core;
            authorityChanged = (case cIncomingSnapshot core of
              None \<Rightarrow> False
            | Some incoming \<Rightarrow> tmTerm (inMetadata incoming) \<noteq> iqTerm request
                \<or> tmLeaderID (inMetadata incoming) \<noteq> iqLeaderID request)
        in and_then (handleLeaderContact (iqLeaderID request) (iqTerm request) core) (\<lambda>core.
             if authorityChanged then ok core
             else if iqLastIncludedIndex request \<le> lCommitIndex (cLog core) then
               (let core = cancelIncomingSnapshot core
                in ok (queueMessage (iqLeaderID request) (installReply request (iqTotalLength request) True core)
                     \<lparr>dpHardState = hardStateChanged, dpEntriesThrough = 0\<rparr> core))
             else ok (receiveChunk request core)))"

section \<open>Responses to the leader\<close>

text \<open>A successful append response, from the cleared progress on.\<close>

definition appendSucceeded :: "AppendEntriesResponse \<Rightarrow> Progress \<Rightarrow> Core \<Rightarrow> core_outcome" where
  "appendSucceeded response progress0 core0 =
     (let responder = arResponderID response;
          progress = (if arMatchIndex response > pMatchIndex progress0
            then progress0\<lparr>pMatchIndex := arMatchIndex response\<rparr> else progress0)
      in case checkedNextIndex (pMatchIndex progress) of
           None \<Rightarrow> fail core0 ErrLogOverflow
         | Some nextIndex \<Rightarrow>
             let progress = (if pNextIndex progress < nextIndex then progress\<lparr>pNextIndex := nextIndex\<rparr> else progress);
                 progress = progress\<lparr>pSnapshotNeeded := False\<rparr>
             in if pNextIndex progress \<le> lLastIndex (cLog core0) \<and> pGeneration progress = MaxUint64
                then fail core0 ErrReplicationGenerationOverflow
                else and_then (putProgress responder progress core0) (\<lambda>core.
                     and_then (putQuorumResponse responder core) (\<lambda>core.
                     and_then (advanceLeaderCommit core) (\<lambda>core.
                       if pNextIndex progress \<le> lLastIndex (cLog core) then issueAppend responder core
                       else ok core))))"

text \<open>A refused append response, from the cleared progress on.\<close>

definition appendRefused :: "AppendEntriesResponse \<Rightarrow> Progress \<Rightarrow> Core \<Rightarrow> core_outcome" where
  "appendRefused response progress0 core0 =
     (let responder = arResponderID response; l = cLog core0;
          hinted = (if arConflictTerm response \<noteq> 0 then
              (case LastIndexOfTerm l (arConflictTerm response) of
                 Some lastIndex \<Rightarrow> checkedNextIndex lastIndex
               | None \<Rightarrow> Some (arConflictIndex response))
            else Some (arConflictIndex response))
      in case hinted of None \<Rightarrow> fail core0 ErrLogOverflow
       | Some nextIndex \<Rightarrow>
       (case checkedNextIndex (lLastIndex l) of None \<Rightarrow> fail core0 ErrLogOverflow
        | Some maximumNext \<Rightarrow>
        (case checkedNextIndex (pMatchIndex progress0) of None \<Rightarrow> fail core0 ErrLogOverflow
         | Some minimumNext \<Rightarrow>
             let nextIndex = (if nextIndex > maximumNext then maximumNext else nextIndex);
                 nextIndex = (if nextIndex < minimumNext then minimumNext else nextIndex);
                 progress = progress0\<lparr>pNextIndex := nextIndex\<rparr>
             in if nextIndex \<le> lSnapshotIndex l then
                  and_then (putProgress responder (progress\<lparr>pSnapshotNeeded := True\<rparr>) core0)
                    (putQuorumResponse responder)
                else if pGeneration progress = MaxUint64 then fail core0 ErrReplicationGenerationOverflow
                else and_then (putProgress responder (progress\<lparr>pSnapshotNeeded := False\<rparr>) core0) (\<lambda>core.
                     and_then (putQuorumResponse responder core) (issueAppend responder)))))"

definition handleAppendResponse :: "AppendEntriesResponse \<Rightarrow> Core \<Rightarrow> core_outcome" where
  "handleAppendResponse response core =
     (if cRole core \<noteq> RoleLeader \<or> arLeaderID response \<noteq> cLocalID core \<or> arRequestTerm response \<noteq> cTerm core
      then ok core
      else case progressOf core (arResponderID response) of
        None \<Rightarrow> ok core
      | Some progress \<Rightarrow>
          if arGeneration response \<noteq> pActiveGeneration progress then ok core
          else if arSuccess response \<and> arMatchIndex response \<noteq> pActiveMatchIndex progress then ok core
          else
            let cleared = progress\<lparr>pActiveGeneration := 0, pActiveMatchIndex := 0\<rparr>
            in if arTerm response > cTerm core then
                 and_then (putProgress (arResponderID response) cleared core) (\<lambda>core.
                 and_then (putQuorumResponse (arResponderID response) core) (\<lambda>core.
                   ok (adoptHigherTerm (arTerm response) core)))
               else if arSuccess response then appendSucceeded response cleared core
               else appendRefused response cleared core)"

text \<open>The offset test of \<open>handleInstallSnapshotResponse\<close>.\<close>

definition responseOffsetOk :: "InstallSnapshotResponse \<Rightarrow> outgoingSnapshotProgress \<Rightarrow> bool" where
  "responseOffsetOk response transfer =
     (let totalLength = len64 (ouState transfer); offset = irNextOffset response
      in if irSuccess response then
           (if irDone response then offset = totalLength
            else offset = ouActiveEnd transfer \<and> offset < totalLength)
         else \<not> ((totalLength = 0 \<and> offset \<noteq> 0)
                \<or> (totalLength \<noteq> 0 \<and> (offset \<ge> totalLength \<or> offset > ouNextOffset transfer))))"

text \<open>The completed transfer: the peer goes back to log replication.\<close>

definition snapshotInstalled :: "u16 \<Rightarrow> u64 \<Rightarrow> Core \<Rightarrow> core_outcome" where
  "snapshotInstalled responder includedIndex core =
     and_then (clearOutgoingSnapshot responder core) (\<lambda>core.
       let progress = progressOrZero core responder;
           progress = (if includedIndex > pMatchIndex progress
             then progress\<lparr>pMatchIndex := includedIndex\<rparr> else progress)
       in case checkedNextIndex (pMatchIndex progress) of
            None \<Rightarrow> fail core ErrLogOverflow
          | Some nextIndex \<Rightarrow>
              and_then (putProgress responder (progress\<lparr>pNextIndex := nextIndex, pSnapshotNeeded := False\<rparr>) core) (\<lambda>core.
              and_then (advanceLeaderCommit core) (issueAppend responder)))"

definition handleInstallSnapshotResponse :: "InstallSnapshotResponse \<Rightarrow> Core \<Rightarrow> core_outcome" where
  "handleInstallSnapshotResponse response core =
     (let responder = irResponderID response
      in if cRole core \<noteq> RoleLeader \<or> irLeaderID response \<noteq> cLocalID core then ok core
         else case cOutgoingSnapshots core responder of
           None \<Rightarrow> ok core
         | Some transfer \<Rightarrow>
             if irRequestTerm response \<noteq> ouTerm transfer \<or> irTransferID response \<noteq> ouTransferID transfer
                \<or> irSnapshotID response \<noteq> snID (ouSnapshot transfer) then ok core
             else if irTerm response > cTerm core then ok (adoptHigherTerm (irTerm response) core)
             else if irTerm response \<noteq> cTerm core then ok core
             else if \<not> responseOffsetOk response transfer then ok core
             else
               and_then (putQuorumResponse responder core) (\<lambda>core.
                 let core = core\<lparr>cOutgoingSnapshots := (cOutgoingSnapshots core)(responder \<mapsto>
                       transfer\<lparr>ouNextOffset := irNextOffset response\<rparr>)\<rparr>;
                     progress = progressOrZero core responder
                 in if \<not> irSuccess response then
                      and_then (putProgress responder
                          (if irNextOffset response > pSnapshotNextOffset progress
                           then progress\<lparr>pSnapshotNextOffset := irNextOffset response\<rparr> else progress) core)
                        (issueSnapshotChunk responder)
                    else
                      and_then (putProgress responder (progress\<lparr>pSnapshotNextOffset := irNextOffset response\<rparr>) core)
                        (\<lambda>core. if \<not> irDone response then issueSnapshotChunk responder core
                                else snapshotInstalled responder
                                       (smLastIncludedIndex (snMetadata (ouSnapshot transfer))) core)))"

section \<open>Peer messages\<close>

fun dispatch :: "RPC \<Rightarrow> Core \<Rightarrow> core_outcome" where
  "dispatch (RPreVoteRequest m) core = handlePreVoteRequest m core"
| "dispatch (RPreVoteResponse m) core = handlePreVoteResponse m core"
| "dispatch (RRequestVoteRequest m) core = handleVoteRequest m core"
| "dispatch (RRequestVoteResponse m) core = handleVoteResponse m core"
| "dispatch (RAppendEntriesRequest m) core = handleAppendRequest m core"
| "dispatch (RInstallSnapshotRequest m) core = handleInstallSnapshotRequest m core"
| "dispatch (RAppendEntriesResponse m) core = handleAppendResponse m core"
| "dispatch (RInstallSnapshotResponse m) core = handleInstallSnapshotResponse m core"
| "dispatch (RErrorResponse m) core = ok core"
| "dispatch (RHandshake m) core = ok core"
| "dispatch (RHandshakeAck m) core = ok core"

text \<open>The admission checks of \<open>Step\<close>; an append request must fit the core's own limits.\<close>

definition stepAdmission :: "u16 \<Rightarrow> RPC \<Rightarrow> Core \<Rightarrow> raft_error option" where
  "stepAdmission senderID rpc core =
     (case ValidateRPCSender rpc senderID (cVoters core) of
        Some err \<Rightarrow> Some err
      | None \<Rightarrow>
          (case rpc of
             RAppendEntriesRequest _ \<Rightarrow>
               (case EncodeRPC rpc (cAppendLimits core) of Inl err \<Rightarrow> Some err | Inr _ \<Rightarrow> None)
           | _ \<Rightarrow> validateRPC rpc DefaultCodecLimits))"

definition Step :: "u16 \<Rightarrow> RPC \<Rightarrow> Core \<Rightarrow> core_outcome" where
  "Step senderID rpc core =
     (case cTerminalErr core of
        Some err \<Rightarrow> fail core err
      | None \<Rightarrow>
          if cHasPending core then fail core ErrReadyOutstanding
          else case stepAdmission senderID rpc core of
                 Some err \<Rightarrow> fail core err
               | None \<Rightarrow> dispatch rpc core)"

section \<open>Proposals\<close>

text \<open>The result next to the core: an error, or the identity and the entry.\<close>

definition proposeTracked ::
    "EntryKind \<Rightarrow> bytes \<Rightarrow> Core \<Rightarrow> (Core \<times> (raft_error + ProposalID \<times> Entry)) option" where
  "proposeTracked kind command core =
     (let refuse = (\<lambda>err. Some (core, Inl err)); previousIndex = lLastIndex (cLog core)
      in case cTerminalErr core of Some err \<Rightarrow> refuse err
       | None \<Rightarrow>
         if cHasPending core then refuse ErrReadyOutstanding
         else if cRole core \<noteq> RoleLeader then refuse ErrNotLeader
         else if \<not> hasCommittedCurrentTerm core then refuse ErrLeadershipNotAuthorized
         else if length command > unat (clMaxCommandBytes (cAppendLimits core)) then refuse ErrRPCTooLarge
         else if cNextProposalID core = MaxUint64 then refuse ErrProposalIdentityOverflow
         else if list_ex (\<lambda>peer. pGeneration (progressOrZero core peer) = MaxUint64) (peers core)
           then refuse ErrReplicationGenerationOverflow
         else case checkedNextIndex previousIndex of None \<Rightarrow> refuse ErrLogOverflow
       | Some newIndex \<Rightarrow>
         (case checkedNextIndex newIndex of None \<Rightarrow> refuse ErrLogOverflow
       | Some selfNext \<Rightarrow>
         (case NewEntry newIndex (cTerm core) kind command of Inl err \<Rightarrow> refuse err
       | Inr entry \<Rightarrow>
         (case Append previousIndex (LastTerm (cLog core)) [entry] (cLog core) of
            (l, _, Some err) \<Rightarrow> Some (core\<lparr>cLog := l\<rparr>, Inl err)
          | (l, _, None) \<Rightarrow>
              let proposalID = cNextProposalID core + 1
              in case and_then
                   (putProgress (cLocalID core) (zero_Progress\<lparr>pMatchIndex := newIndex, pNextIndex := selfNext\<rparr>)
                     (core\<lparr>cLog := l, cNextProposalID := proposalID,
                       cPendingProposals := (cPendingProposals core)(proposalID \<mapsto> entry),
                       cPendingProposalOrder := cPendingProposalOrder core @ [proposalID],
                       cProposalAtIndex := (cProposalAtIndex core)(eIndex entry \<mapsto> proposalID)\<rparr>))
                   (\<lambda>core. for_each issueAppend (peers core) (queueEntries [entry] core)) of
                   None \<Rightarrow> None
                 | Some (core', Some err) \<Rightarrow> Some (core', Inl err)
                 | Some (core', None) \<Rightarrow> Some (core', Inr (proposalID, entry))))))"

definition ProposeEntry :: "bytes \<Rightarrow> Core \<Rightarrow> (Core \<times> (raft_error + Entry)) option" where
  "ProposeEntry command core =
     map_option (\<lambda>(core', r). (core', case r of Inl err \<Rightarrow> Inl err | Inr (_, entry) \<Rightarrow> Inr entry))
       (proposeTracked EntryCommand command core)"

section \<open>The Ready cycle\<close>

definition ReadyOf :: "Core \<Rightarrow> Core \<times> Ready option" where
  "ReadyOf core =
     (if \<not> cHasPending core then (core, None)
      else if rdToken (cPendingReady core) = 0 then
        (if cNextToken core = MaxUint64 then (core\<lparr>cTerminalErr := Some ErrReadyTokenExhausted\<rparr>, None)
         else
           let token = cNextToken core + 1; ready = (cPendingReady core)\<lparr>rdToken := token\<rparr>
           in (core\<lparr>cNextToken := token, cPendingReady := ready\<rparr>, Some ready))
      else (core, Some (cPendingReady core)))"

definition Advance :: "ReadyToken \<Rightarrow> Core \<Rightarrow> Core \<times> raft_error option" where
  "Advance token core =
     (let ready = cPendingReady core;
          finish = (\<lambda>core. (core\<lparr>cPendingReady := empty_Ready, cHasPending := False,
                                   cSnapshotActionDone := False\<rparr>, None))
      in case cTerminalErr core of Some err \<Rightarrow> (core, Some err)
       | None \<Rightarrow>
         if \<not> cHasPending core \<or> token = 0 \<or> token \<noteq> rdToken ready then (core, Some ErrAdvanceToken)
         else if length (rdSnapshotActions ready) \<noteq> 0 \<and> \<not> cSnapshotActionDone core
           then (core, Some ErrReadyOutstanding)
         else if length (rdCommittedEntries ready) \<noteq> 0 then
           (case AdvanceApplied (lastEntryIndex (rdCommittedEntries ready)) (cLog core) of
              (_, Some err) \<Rightarrow> (core, Some err)
            | (l, None) \<Rightarrow> finish (core\<lparr>cLog := l\<rparr>))
         else finish core)"

definition StatusOf :: "Core \<Rightarrow> Status" where
  "StatusOf core = \<lparr>stRole = cRole core, stTerm = cTerm core, stLeaderID = cLeaderID core,
     stCommitIndex = lCommitIndex (cLog core), stAppliedIndex = lAppliedIndex (cLog core),
     stLastIndex = lLastIndex (cLog core)\<rparr>"

section \<open>Snapshots of the owner\<close>

text \<open>The loop over the progress map touches every peer independently.\<close>

definition markLagging :: "Core \<Rightarrow> (u16 \<rightharpoonup> Progress) \<Rightarrow> (u16 \<rightharpoonup> Progress)" where
  "markLagging core m peerID =
     (case m peerID of
        None \<Rightarrow> None
      | Some progress \<Rightarrow>
          if peerID \<noteq> cLocalID core \<and> pNextIndex progress \<le> lSnapshotIndex (cLog core)
          then Some (progress\<lparr>pSnapshotNeeded := True, pActiveGeneration := 0, pActiveMatchIndex := 0,
                 pActiveTransferID := 0, pActiveSnapshotID := 0, pSnapshotNextOffset := 0\<rparr>)
          else Some progress)"

definition CompactSnapshot :: "SnapshotMetadata \<Rightarrow> Core \<Rightarrow> Core \<times> raft_error option" where
  "CompactSnapshot metadata core =
     (case cTerminalErr core of Some err \<Rightarrow> (core, Some err)
      | None \<Rightarrow>
        if cHasPending core then (core, Some ErrReadyOutstanding)
        else case Compact (smLastIncludedIndex metadata) (smLastIncludedTerm metadata) (cLog core) of
          (l, Some err) \<Rightarrow> (core\<lparr>cLog := l\<rparr>, Some err)
        | (l, None) \<Rightarrow>
            let core = core\<lparr>cLog := l\<rparr>
            in if cRole core = RoleLeader
               then (core\<lparr>cOutgoingSnapshots := (\<lambda>_. None),
                           cProgress := map_option (markLagging core) (cProgress core)\<rparr>, None)
               else (core, None))"

definition StartSnapshotTransfer :: "u16 \<Rightarrow> Snapshot \<Rightarrow> TransferID \<Rightarrow> u64 \<Rightarrow> Core \<Rightarrow> core_outcome" where
  "StartSnapshotTransfer peerID snapshot transferID chunkLimit core =
     (case cTerminalErr core of Some err \<Rightarrow> fail core err
      | None \<Rightarrow>
        if cHasPending core then fail core ErrReadyOutstanding
        else if cRole core \<noteq> RoleLeader then fail core ErrNotLeader
        else case progressOf core peerID of None \<Rightarrow> fail core ErrInvalidCoreState
      | Some progress \<Rightarrow>
        if peerID = cLocalID core \<or> \<not> pSnapshotNeeded progress then fail core ErrInvalidCoreState
        else if TransferID_IsZero transferID then fail core ErrInvalidCoreState
        else if chunkLimit = 0 \<or> chunkLimit > MaxRaftSnapshotChunkBytes then fail core ErrInvalidCoreState
        else if smLastIncludedIndex (snMetadata snapshot) \<noteq> lSnapshotIndex (cLog core)
           \<or> smLastIncludedTerm (snMetadata snapshot) \<noteq> lSnapshotTerm (cLog core) \<or> snID snapshot = 0
          then fail core ErrInvalidCoreState
        else if cOutgoingSnapshots core peerID \<noteq> None then fail core ErrInvalidCoreState
        else
          let transfer = \<lparr>ouTerm = cTerm core, ouPeerID = peerID, ouTransferID = transferID,
                ouSnapshot = snapshot, ouState = snState snapshot, ouNextOffset = 0,
                ouChunkLimit = chunkLimit, ouActiveEnd = 0\<rparr>;
              core = core\<lparr>cOutgoingSnapshots := (cOutgoingSnapshots core)(peerID \<mapsto> transfer)\<rparr>
          in and_then (putProgress peerID (progress\<lparr>pActiveTransferID := transferID,
                 pActiveSnapshotID := snID snapshot, pSnapshotNextOffset := 0\<rparr>) core)
               (issueSnapshotChunk peerID))"

text \<open>Whether the state an installation reports is the one of the request.\<close>

definition installedStateMatches :: "InstallSnapshotRequest \<Rightarrow> RecoveredState \<Rightarrow> Core \<Rightarrow> bool" where
  "installedStateMatches request state core =
     (let metadata = tmMetadata (snapshotTransferMetadataFor request)
      in (case rsSnapshot state of None \<Rightarrow> False
          | Some snapshot \<Rightarrow> snID snapshot = iqSnapshotID request \<and> snMetadata snapshot = metadata
              \<and> snStateChecksum snapshot = iqChecksum request)
         \<and> rsSnapshotBase state = metadata \<and> rsTerm state = cTerm core
         \<and> hsVotedFor (rsHardState state) = cVotedFor core
         \<and> rsCommitIndex state \<ge> iqLastIncludedIndex request \<and> rsAppliedIndex state \<ge> iqLastIncludedIndex request)"

text \<open>The installed state replaces the log and the hard state.\<close>

definition adoptInstalled ::
    "InstallSnapshotRequest \<Rightarrow> RecoveredState \<Rightarrow> u64 \<Rightarrow> Core \<Rightarrow> Core \<times> (raft_error + PeerMessage)" where
  "adoptInstalled request state nextOffset core =
     (if \<not> installedStateMatches request state core then (core, Inl ErrInvalidCoreState)
      else case NewLog (rsBaseIndex state) (smLastIncludedTerm (rsSnapshotBase state)) (rsCommitIndex state)
                  (rsAppliedIndex state) (rsEntries state) of
        Inl _ \<Rightarrow> (core, Inl ErrInvalidCoreState)
      | Inr l \<Rightarrow>
          let core = core\<lparr>cLog := l, cHardState := rsHardState state, cIncomingSnapshot := None,
                cSnapshotActionDone := True\<rparr>
          in (core, Inr (snapshotResponse request True True nextOffset core)))"

text \<open>The result of staging one chunk, with the live transfer \<open>incoming\<close>.\<close>

definition completeStaged ::
    "InstallSnapshotRequest \<Rightarrow> incomingSnapshotProgress \<Rightarrow> SnapshotActionResult \<Rightarrow> Core
       \<Rightarrow> Core \<times> (raft_error + PeerMessage)" where
  "completeStaged request incoming result core =
     (let refuse = (core, Inl ErrInvalidCoreState);
          stop = iqOffset request + len64 (iqChunk request);
          durable = inNextOffset incoming;
          wantNext = (if iqOffset request = durable then stop else durable)
      in if iqOffset request \<noteq> durable \<and> stop > durable then refuse
         else if sarNextOffset result \<noteq> wantNext \<or> sarNextOffset result > iqTotalLength request then refuse
         else if \<not> sarDone result then
           (if iqDone request \<or> sarNextOffset result = iqTotalLength request then refuse
            else
              let core = core\<lparr>cIncomingSnapshot := Some (incoming\<lparr>inNextOffset := sarNextOffset result\<rparr>),
                    cSnapshotActionDone := True\<rparr>
              in (core, Inr (snapshotResponse request True False (sarNextOffset result) core)))
         else if \<not> iqDone request \<or> sarNextOffset result \<noteq> iqTotalLength request then refuse
         else adoptInstalled request (sarState result) (sarNextOffset result) core)"

definition CompleteSnapshotAction ::
    "ReadyToken \<Rightarrow> SnapshotActionResult \<Rightarrow> Core \<Rightarrow> Core \<times> (raft_error + PeerMessage)" where
  "CompleteSnapshotAction token result core =
     (let ready = cPendingReady core;
          discard = (\<lambda>request. let core = core\<lparr>cIncomingSnapshot := None, cSnapshotActionDone := True\<rparr>
             in (core, Inr (snapshotResponse request False False 0 core)))
      in case cTerminalErr core of Some err \<Rightarrow> (core, Inl err)
       | None \<Rightarrow>
         if \<not> cHasPending core \<or> token = 0 \<or> token \<noteq> rdToken ready
            \<or> length (rdSnapshotActions ready) \<noteq> 1 \<or> cSnapshotActionDone core
           then (core, Inl ErrAdvanceToken)
         else
           let action = rdSnapshotActions ready ! 0; request = saRequest action
           in if saKind action = SnapshotActionAbort then discard request
              else case cIncomingSnapshot core of
                None \<Rightarrow> (core, Inl ErrInvalidCoreState)
              | Some incoming \<Rightarrow>
                  if inMetadata incoming \<noteq> snapshotTransferMetadataFor request
                  then (core, Inl ErrInvalidCoreState)
                  else if sarRejected result then discard request
                  else completeStaged request incoming result core)"

section \<open>Construction\<close>

definition appendLimitsOf :: "CoreOptions \<Rightarrow> CodecLimits" where
  "appendLimitsOf options =
     (let limits = DefaultCodecLimits;
          limits = (if coMaxAppendEntries options \<noteq> 0
            then limits\<lparr>clMaxAppendEntries := coMaxAppendEntries options\<rparr> else limits)
      in if coMaxAppendBytes options \<noteq> 0
         then limits\<lparr>clMaxEncodedBytes := coMaxAppendBytes options\<rparr> else limits)"

text \<open>The recovery checks of \<open>NewCore\<close>, in order; every failure is \<open>ErrInvalidCoreState\<close>.\<close>

definition recoveryInvalid :: "CoreOptions \<Rightarrow> Log \<Rightarrow> bool" where
  "recoveryInvalid options l =
     (let hard = coHardState options
      in lCommitIndex l \<noteq> hsCommitIndex hard \<or> lAppliedIndex l \<noteq> coAppliedIndex options
         \<or> (hsVotedFor hard \<noteq> 0 \<and> (hsTerm hard = 0 \<or> \<not> Contains (coVoters options) (hsVotedFor hard)))
         \<or> LastTerm l > hsTerm hard)"

definition newCoreWith :: "CoreOptions \<Rightarrow> u64 \<Rightarrow> Log \<Rightarrow> source \<Rightarrow> Core" where
  "newCoreWith options heartbeatInterval l random =
     \<lparr>cLocalID = coLocalID options, cVoters = coVoters options, cHardState = coHardState options, cLog = l,
      cRole = RoleFollower, cLeaderID = 0, cNow = 0, cElectionDeadline = 0, cDeadlineExhausted = False,
      cElectionTimeoutMin = coElectionTimeoutMin options, cElectionTimeoutMax = coElectionTimeoutMax options,
      cRandom = random, cRecentLeader = False, cHeartbeatInterval = heartbeatInterval,
      cHeartbeatDeadline = 0, cQuorumDeadline = 0, cQuorumResponses = None,
      cAppendLimits = appendLimitsOf options, cPreVotes = None, cVotes = None, cProgress = None,
      cNextProposalID = 0, cPendingProposals = (\<lambda>_. None), cPendingProposalOrder = [],
      cProposalAtIndex = (\<lambda>_. None), cIncomingSnapshot = None, cOutgoingSnapshots = (\<lambda>_. None),
      cSnapshotActionDone = False, cPendingReady = empty_Ready, cHasPending = False, cNextToken = 0,
      cTerminalErr = None\<rparr>"

text \<open>\<open>None\<close> when the random source never yields an initial deadline.\<close>

definition NewCore :: "CoreOptions \<Rightarrow> (raft_error + Core) option" where
  "NewCore options =
     (let refuse = Some (Inl ErrInvalidCoreState);
          heartbeatInterval = (if coHeartbeatInterval options = 0 then 1 else coHeartbeatInterval options)
      in if ValidateLocalID (coVoters options) (coLocalID options) \<noteq> None then refuse
         else case (coLog options, coRandom options) of
           (Some l, Some random) \<Rightarrow>
             if coElectionTimeoutMin options = 0 \<or> coElectionTimeoutMin options \<ge> coElectionTimeoutMax options
               then refuse
             else if heartbeatInterval \<ge> coElectionTimeoutMin options then refuse
             else (case EncodeRPC (RAppendEntriesRequest \<lparr>aqLeaderID = coLocalID options, aqTerm = 1,
                      aqGeneration = 1, aqPrevLogIndex = 0, aqPrevLogTerm = 0, aqLeaderCommit = 0,
                      aqEntries = []\<rparr>) (appendLimitsOf options) of
               Inl _ \<Rightarrow> refuse
             | Inr _ \<Rightarrow>
                 if recoveryInvalid options l then refuse
                 else (case NewLog (lSnapshotIndex l) (lSnapshotTerm l) (lCommitIndex l) (lAppliedIndex l)
                              (lEntries l) of
                   Inl _ \<Rightarrow> refuse
                 | Inr ownedLog \<Rightarrow>
                     (case sampleDeadline 0 (newCoreWith options heartbeatInterval ownedLog random) of
                        None \<Rightarrow> None
                      | Some (_, Inl _) \<Rightarrow> refuse
                      | Some (core, Inr deadline) \<Rightarrow> Some (Inr (core\<lparr>cElectionDeadline := deadline\<rparr>)))))
         | _ \<Rightarrow> refuse)"

end
