(* ===== verification/Raft_Core_Facts.thy ===== *)
theory Raft_Core_Facts
  imports Raft_Handlers Raft_Log_Facts
begin

text \<open>
  How the helpers of the core move its state.  A helper that only queues output or updates the leader's
  bookkeeping keeps the fields of \<open>steady\<close>; the rules for \<open>sound\<close> carry that through sequences and loops,
  together with the fact that no map write panics.
\<close>

section \<open>Total correctness of calls\<close>

text \<open>\<open>sound b P m\<close>: the call returns if \<open>b\<close> holds, and whenever it returns the receiver satisfies \<open>P\<close>.\<close>

definition sound :: "bool \<Rightarrow> ('s \<Rightarrow> bool) \<Rightarrow> ('s, 'e) outcome \<Rightarrow> bool" where
  "sound b P m \<longleftrightarrow> (b \<longrightarrow> m \<noteq> None) \<and> ensures P m"

lemma sound_Some [simp]: "sound b P (Some (s, e)) \<longleftrightarrow> P s"
  by (simp add: sound_def)

lemma sound_None [simp]: "sound b P None \<longleftrightarrow> \<not> b"
  by (simp add: sound_def)

lemma sound_mono: "sound b P m \<Longrightarrow> (\<And>s. P s \<Longrightarrow> Q s) \<Longrightarrow> sound b Q m"
  by (auto simp: sound_def elim: ensures_mono)

lemma sound_weaken: "sound True P m \<Longrightarrow> sound b P m"
  by (simp add: sound_def)

lemma sound_and_then:
  assumes "sound b P m" and "\<And>s. P s \<Longrightarrow> sound b Q (f s)" and "\<And>s. P s \<Longrightarrow> Q s"
  shows "sound b Q (and_then m f)"
  using assms by (cases m) (auto simp: sound_def and_then_def split: option.splits)

lemma sound_for_each:
  assumes "P s" and "\<And>x s. x \<in> set xs \<Longrightarrow> P s \<Longrightarrow> sound b P (f x s)"
  shows "sound b P (for_each f xs s)"
  using assms
proof (induction xs arbitrary: s)
  case (Cons x xs)
  then show ?case by (auto intro!: sound_and_then[where P = P])
qed simp

text \<open>The same for a relation between the receiver before and after, over any preorder.\<close>

context step_preorder
begin

lemma sound_then:
  assumes "sound b (R s) m" and "\<And>t. R s t \<Longrightarrow> sound b (R t) (f t)"
  shows "sound b (R s) (and_then m f)"
proof (rule sound_and_then[OF assms(1)])
  fix t
  assume "R s t"
  then show "sound b (R s) (f t)"
    using assms(2) by (blast intro: sound_mono R_trans)
qed

lemma sound_from: "R s t \<Longrightarrow> sound b (R t) m \<Longrightarrow> sound b (R s) m"
  by (blast intro: sound_mono R_trans)

lemma sound_each:
  assumes "\<And>x t. x \<in> set xs \<Longrightarrow> R s t \<Longrightarrow> sound b (R t) (f x t)"
  shows "sound b (R s) (for_each f xs s)"
  by (rule sound_for_each) (use assms in \<open>blast intro: R_refl sound_mono R_trans\<close>)+

end

section \<open>What the bookkeeping keeps\<close>

text \<open>The granted votes among the queued messages: responder, term, candidate.\<close>

fun ballot_of :: "RPC \<Rightarrow> (u16 \<times> u64 \<times> u16) set" where
  "ballot_of (RRequestVoteResponse m) =
     (if vrGranted m then {(vrResponderID m, vrTerm m, vrCandidateID m)} else {})"
| "ballot_of _ = {}"

definition ballots :: "Core \<Rightarrow> (u16 \<times> u64 \<times> u16) set" where
  "ballots core = (\<Union>m \<in> set (rdMessages (cPendingReady core)). ballot_of (pmRPC m))"

text \<open>The fields that queueing output and the leader's bookkeeping leave alone.\<close>

definition view :: "Core \<Rightarrow> _" where
  "view c = ((cLocalID c, cVoters c, cHardState c, cLog c, cRole c, cLeaderID c, cNow c, cElectionTimeoutMin c,
     cElectionTimeoutMax c, cRandom c, cHeartbeatInterval c, cAppendLimits c, cPreVotes c, cVotes c),
     (cProgress c = None, cQuorumResponses c = None, cSnapshotActionDone c, cNextToken c, cTerminalErr c,
      rdToken (cPendingReady c), rdHardState (cPendingReady c), ballots c))"

definition pending_grows :: "Core \<Rightarrow> Core \<Rightarrow> bool" where
  "pending_grows c c' \<longleftrightarrow> (cHasPending c \<longrightarrow> cHasPending c') \<and> (cHasPending c' \<or> cPendingReady c' = cPendingReady c)"

definition calm :: "Core \<Rightarrow> Core \<Rightarrow> bool" where
  "calm c c' \<longleftrightarrow> view c' = view c \<and> pending_grows c c'"

text \<open>It also leaves the incoming transfer alone.\<close>

definition steady :: "Core \<Rightarrow> Core \<Rightarrow> bool" where
  "steady c c' \<longleftrightarrow> calm c c' \<and> cIncomingSnapshot c' = cIncomingSnapshot c
     \<and> rdSnapshotActions (cPendingReady c') = rdSnapshotActions (cPendingReady c)"

lemma calm_trans: "calm a b \<Longrightarrow> calm b c \<Longrightarrow> calm a c"
  unfolding calm_def pending_grows_def by metis

interpretation calm: step_preorder calm
  by unfold_locales (simp add: calm_def pending_grows_def, rule calm_trans)

interpretation steady: step_preorder steady
  by unfold_locales (simp add: steady_def calm.R_refl, use calm_trans in \<open>simp add: steady_def, blast\<close>)

lemma calmD:
  assumes "calm c c'"
  shows "cLocalID c' = cLocalID c" "cVoters c' = cVoters c" "cHardState c' = cHardState c" "cLog c' = cLog c"
    "cRole c' = cRole c" "cLeaderID c' = cLeaderID c" "cNow c' = cNow c"
    "cElectionTimeoutMin c' = cElectionTimeoutMin c" "cElectionTimeoutMax c' = cElectionTimeoutMax c"
    "cRandom c' = cRandom c" "cHeartbeatInterval c' = cHeartbeatInterval c" "cAppendLimits c' = cAppendLimits c"
    "cPreVotes c' = cPreVotes c" "cVotes c' = cVotes c" "cProgress c' = None \<longleftrightarrow> cProgress c = None"
    "cQuorumResponses c' = None \<longleftrightarrow> cQuorumResponses c = None" "cSnapshotActionDone c' = cSnapshotActionDone c"
    "cNextToken c' = cNextToken c" "cTerminalErr c' = cTerminalErr c"
    "rdToken (cPendingReady c') = rdToken (cPendingReady c)"
    "rdHardState (cPendingReady c') = rdHardState (cPendingReady c)" "ballots c' = ballots c"
  using assms unfolding calm_def view_def prod.inject by blast+

lemma steadyD:
  assumes "steady c c'"
  shows "calm c c'" "cIncomingSnapshot c' = cIncomingSnapshot c"
    "rdSnapshotActions (cPendingReady c') = rdSnapshotActions (cPendingReady c)"
  using assms by (simp_all add: steady_def)

named_theorems steady_intros \<open>bookkeeping steps that keep the steady fields\<close>

lemma ballots_queue [simp]:
  "ballots (queueMessage to rpc requires c) = ballots c \<union> ballot_of rpc"
  by (auto simp: ballots_def queueMessage_def)

lemma steady_queueMessage [steady_intros]:
  "ballot_of rpc = {} \<Longrightarrow> steady c (queueMessage to rpc requires c)"
  using ballots_queue[of to rpc requires c]
  by (simp add: steady_def calm_def view_def pending_grows_def queueMessage_def)

lemma steady_queueEntries [steady_intros]: "steady c (queueEntries es c)"
  by (simp add: steady_def calm_def view_def pending_grows_def queueEntries_def ballots_def)

lemma calm_queueSnapshotAction: "calm c (queueSnapshotAction a c)"
  by (simp add: calm_def view_def pending_grows_def queueSnapshotAction_def ballots_def)

lemma putProgress_steady:
  "cProgress c \<noteq> None \<Longrightarrow> sound True (steady c) (putProgress peer x c)"
  by (auto simp: putProgress_def steady_def calm_def view_def pending_grows_def ballots_def)

lemma putQuorumResponse_steady:
  "cQuorumResponses c \<noteq> None \<Longrightarrow> sound True (steady c) (putQuorumResponse peer c)"
  by (auto simp: putQuorumResponse_def steady_def calm_def view_def pending_grows_def ballots_def)

lemmas steady_defs = steady_def calm_def view_def pending_grows_def ballots_def

lemma failProposals_steady: "steady c (failProposals reason order c)"
proof (induction order arbitrary: c)
  case (Cons p order)
  show ?case
  proof (cases "cPendingProposals c p")
    case (Some proposal)
    let ?c = "c\<lparr>cPendingReady := (cPendingReady c)\<lparr>rdFailedProposals := rdFailedProposals (cPendingReady c)
        @ [\<lparr>fpID = p, fpEntry = proposal, fpErr = reason\<rparr>]\<rparr>,
      cProposalAtIndex := (cProposalAtIndex c)(eIndex proposal := None),
      cPendingProposals := (cPendingProposals c)(p := None), cHasPending := True\<rparr>"
    have "steady c ?c"
      by (simp add: steady_defs)
    from steady.R_trans[OF this Cons.IH] show ?thesis
      by (simp add: Some)
  qed (simp add: Cons.IH)
qed (simp add: steady.R_refl)

lemma failPendingProposals_steady [steady_intros]: "steady c (failPendingProposals reason c)"
proof -
  have "steady d (d\<lparr>cPendingProposalOrder := []\<rparr>)" for d
    by (simp add: steady_defs)
  then show ?thesis
    using failProposals_steady steady.R_trans unfolding failPendingProposals_def by blast
qed

lemma resolveCommittedProposal_steady:
  assumes "cHasPending c"
  shows "steady c (resolveCommittedProposal entry c)"
proof -
  have "steady c (removePendingProposalOrder p (c\<lparr>cPendingReady := (cPendingReady c)\<lparr>rdCommittedProposals := x\<rparr>,
      cPendingProposals := y, cProposalAtIndex := z\<rparr>))"
    "steady c (removePendingProposalOrder p (c\<lparr>cPendingReady := (cPendingReady c)\<lparr>rdFailedProposals := w\<rparr>,
      cPendingProposals := y, cProposalAtIndex := z\<rparr>))"
    "steady c (c\<lparr>cProposalAtIndex := z\<rparr>)" for p x y z w
    using assms by (simp_all add: removePendingProposalOrder_def steady_defs)
  then show ?thesis
    by (simp add: resolveCommittedProposal_def Let_def steady.R_refl split: option.split)
qed

lemma resolveCommittedProposal_pending:
  "(resolveCommittedProposal e c)\<lparr>cHasPending := True\<rparr> = resolveCommittedProposal e (c\<lparr>cHasPending := True\<rparr>)"
  unfolding resolveCommittedProposal_def Let_def removePendingProposalOrder_def
  by (cases "cProposalAtIndex c (eIndex e)"; cases "cPendingProposals c (the (cProposalAtIndex c (eIndex e)))")
    simp_all

lemma queueCommittedFrom_steady: "steady c (fst (queueCommittedFrom index commitIndex c))"
proof (induction index commitIndex c rule: queueCommittedFrom.induct)
  case (1 index commitIndex c)
  show ?case
  proof (cases "index \<le> commitIndex \<and> (\<exists>e. EntryAt (cLog c) index = Inr e)")
    case True
    then obtain e where e: "EntryAt (cLog c) index = Inr e" by blast
    let ?c1 = "c\<lparr>cPendingReady := (cPendingReady c)\<lparr>rdCommittedEntries := rdCommittedEntries (cPendingReady c) @ [e]\<rparr>\<rparr>"
    let ?c2 = "(resolveCommittedProposal e ?c1)\<lparr>cHasPending := True\<rparr>"
    have "?c2 = resolveCommittedProposal e (?c1\<lparr>cHasPending := True\<rparr>)"
      by (rule resolveCommittedProposal_pending)
    moreover have "steady c (?c1\<lparr>cHasPending := True\<rparr>)"
      by (simp add: steady_defs)
    ultimately have "steady c ?c2"
      using resolveCommittedProposal_steady steady.R_trans by simp
    then show ?thesis
      using 1[OF conjunct1[OF True] e refl refl] True e steady.R_trans
      by (subst queueCommittedFrom.simps) (auto simp: Let_def)
  next
    case False
    then show ?thesis
      by (subst queueCommittedFrom.simps) (auto simp: steady.R_refl split: sum.split)
  qed
qed

lemma queueCommittedEntries_steady: "sound True (steady c) (queueCommittedEntries previous commit c)"
proof (cases "checkedNextIndex previous")
  case (Some i)
  then show ?thesis
    using queueCommittedFrom_steady[of c i commit]
    by (cases "queueCommittedFrom i commit c") (simp add: queueCommittedEntries_def)
qed (simp add: queueCommittedEntries_def steady.R_refl)

lemma progressOf_nil: "progressOf c peer = Some x \<Longrightarrow> cProgress c \<noteq> None"
  by (auto simp: progressOf_def split: option.splits)

lemma sendAppend_steady: "cProgress c \<noteq> None \<Longrightarrow> sound True (steady c) (sendAppend peer progress c)"
  unfolding sendAppend_def Let_def
  by (auto simp: steady.R_refl split: sum.split
      intro!: steady.sound_then putProgress_steady steady_queueMessage)

lemma issueAppend_steady: "sound True (steady c) (issueAppend peer c)"
proof (cases "progressOf c peer")
  case (Some progress)
  then show ?thesis
    using progressOf_nil[OF Some]
    by (auto simp: issueAppend_def Let_def steady.R_refl split: option.split
        intro: putProgress_steady sendAppend_steady)
qed (simp add: issueAppend_def steady.R_refl)

lemma issueSnapshotChunk_steady: "sound True (steady c) (issueSnapshotChunk peer c)"
proof -
  have "steady c (queueMessage p (RInstallSnapshotRequest r) q (c\<lparr>cOutgoingSnapshots := x\<rparr>))" for p r q x
    by (simp add: steady_defs queueMessage_def)
  then show ?thesis
    by (auto simp: issueSnapshotChunk_def Let_def steady.R_refl split: option.split)
qed

lemma issueNext_steady: "sound True (steady c) (issueNext peer c)"
  by (simp add: issueNext_def issueSnapshotChunk_steady issueAppend_steady)

lemma clearOutgoingSnapshot_steady: "sound True (steady c) (clearOutgoingSnapshot peer c)"
proof -
  let ?c = "c\<lparr>cOutgoingSnapshots := (cOutgoingSnapshots c)(peer := None)\<rparr>"
  have "steady c ?c"
    by (simp add: steady_defs)
  moreover have "sound True (steady ?c) (putProgress peer x ?c)" if "progressOf ?c peer = Some y" for x y
    by (rule putProgress_steady) (rule progressOf_nil[OF that])
  ultimately show ?thesis
    unfolding clearOutgoingSnapshot_def Let_def
    by (auto split: option.split intro: steady.sound_from)
qed

text \<open>Dropping the incoming transfer queues at most one abort.\<close>

lemma cancelIncomingSnapshot_calm: "calm c (cancelIncomingSnapshot c)"
  by (simp add: cancelIncomingSnapshot_def queueSnapshotAction_def calm_def view_def pending_grows_def
      ballots_def split: option.split)

lemma cancelIncomingSnapshot_none [simp]: "cIncomingSnapshot (cancelIncomingSnapshot c) = None"
  by (auto simp: cancelIncomingSnapshot_def queueSnapshotAction_def split: option.split)

lemma cancelIncomingSnapshot_actions:
  "rdSnapshotActions (cPendingReady (cancelIncomingSnapshot c)) = rdSnapshotActions (cPendingReady c) @
     (case cIncomingSnapshot c of None \<Rightarrow> []
      | Some incoming \<Rightarrow> [\<lparr>saKind = SnapshotActionAbort, saRequest = inRequest incoming, saReset = False\<rparr>])"
  by (simp add: cancelIncomingSnapshot_def queueSnapshotAction_def split: option.split)

end
