(* ===== verification/Raft_Core_Inv.thy ===== *)
theory Raft_Core_Inv
  imports Raft_Core_Facts
begin

text \<open>
  The invariant of the core and the relation between a core and its successors, with the steps of the
  log that the handlers compose.
\<close>

section \<open>Terms in the log\<close>

text \<open>Terms never decrease along the log and stay within the current term.\<close>

definition terms_ok :: "u64 \<Rightarrow> Log \<Rightarrow> bool" where
  "terms_ok t l \<longleftrightarrow> sorted (lSnapshotTerm l # map eTerm (lEntries l))
     \<and> (\<forall>x \<in> set (lSnapshotTerm l # map eTerm (lEntries l)). x \<le> t)"

lemma terms_ok_mono: "terms_ok t l \<Longrightarrow> t \<le> t' \<Longrightarrow> terms_ok t' l"
  unfolding terms_ok_def by (meson order_trans)

lemma terms_ok_frame [simp]:
  "terms_ok t (l\<lparr>lCommitIndex := c\<rparr>) = terms_ok t l" "terms_ok t (l\<lparr>lAppliedIndex := a\<rparr>) = terms_ok t l"
  by (simp_all add: terms_ok_def)

lemma terms_ok_LastTerm: "terms_ok t l \<Longrightarrow> LastTerm l \<le> t"
  by (auto simp: terms_ok_def LastTerm_def)

lemma mergeSuffix_shape: "mergeSuffix olds ns = olds \<or> map eTerm (mergeSuffix olds ns) = map eTerm ns"
  by (induction olds ns rule: mergeSuffix.induct) auto

lemma sorted_le_last: "sorted xs \<Longrightarrow> x \<in> set xs \<Longrightarrow> x \<le> (last xs :: 'a::linorder)"
  by (induction xs) auto

lemma Term_last:
  assumes "log_wf l" "Term l prev = Inr t" "lSnapshotIndex l \<le> prev" "prev \<le> lLastIndex l"
  shows "t = last (lSnapshotTerm l # map eTerm (take (unat prev - unat (lSnapshotIndex l)) (lEntries l)))"
proof (cases "prev = lSnapshotIndex l")
  case True
  then show ?thesis using assms(2) by (simp add: Term_def)
next
  case False
  then have p: "lSnapshotIndex l < prev"
    using assms(3) by simp
  then have k: "unat prev - unat (lSnapshotIndex l) = Suc (pos l prev)"
    by (simp add: pos_def word_less_nat_alt)
  have "pos l prev < length (lEntries l)"
    using pos_bound[OF assms(1) p assms(4)] .
  moreover have "t = eTerm (lEntries l ! pos l prev)"
    using assms(2,4) p by (auto simp: Term_ok[OF assms(1)] split: if_splits)
  ultimately show ?thesis
    unfolding k by (simp add: take_Suc_conv_app_nth)
qed

lemma append_spec_terms:
  assumes "log_wf l" "append_spec prev prevTerm ns l l'" "terms_ok t l"
    and "sorted (prevTerm # map eTerm ns)" "\<forall>e \<in> set ns. eTerm e \<le> t"
  shows "terms_ok t l'"
proof -
  let ?k = "unat prev - unat (lSnapshotIndex l)" and ?es = "lEntries l"
  note suffix = append_spec_suffix[OF assms(1,2)]
  have l': "lSnapshotTerm l' = lSnapshotTerm l"
    using assms(2) by (simp add: append_spec_def Let_def)
  have last: "last (lSnapshotTerm l # map eTerm (take ?k ?es)) = prevTerm"
    using Term_last[OF assms(1), of prev prevTerm] assms(2) by (simp add: append_spec_def Let_def)
  show ?thesis
  proof (cases "mergeSuffix (drop ?k ?es) ns = drop ?k ?es")
    case True
    then have "lEntries l' = ?es"
      using suffix(3) by simp
    then show ?thesis using assms(3) l' by (simp add: terms_ok_def)
  next
    case False
    then have terms: "map eTerm (lEntries l') = map eTerm (take ?k ?es) @ map eTerm ns"
      using suffix(3) mergeSuffix_shape[of "drop ?k ?es" ns] by simp
    have "sorted (lSnapshotTerm l # map eTerm (take ?k ?es))"
      using assms(3) sorted_wrt_take[of "(\<le>)" "lSnapshotTerm l # map eTerm ?es" "Suc ?k"]
      by (simp add: terms_ok_def take_map del: sorted_wrt.simps)
    moreover have "x \<le> prevTerm" if "x \<in> set (lSnapshotTerm l # map eTerm (take ?k ?es))" for x
      using sorted_le_last[OF calculation that] last by simp
    moreover have "sorted (map eTerm ns)" "\<And>y. y \<in> set (map eTerm ns) \<Longrightarrow> prevTerm \<le> y"
      using assms(4) by auto
    ultimately have "sorted ((lSnapshotTerm l # map eTerm (take ?k ?es)) @ map eTerm ns)"
      unfolding sorted_append by (meson order_trans)
    moreover have "\<forall>x \<in> set ((lSnapshotTerm l # map eTerm (take ?k ?es)) @ map eTerm ns). x \<le> t"
      using assms(3,5) by (auto simp: terms_ok_def dest: in_set_takeD)
    ultimately show ?thesis
      unfolding terms_ok_def l' terms by simp
  qed
qed

lemma Compact_terms:
  assumes "log_wf l" "Compact index ct l = (l', err)" "terms_ok t l"
  shows "terms_ok t l'"
  using Compact_cases[OF assms(1,2)]
proof (elim disjE conjE)
  assume i: "lSnapshotIndex l < index" "index \<le> lAppliedIndex l" "Term l index = Inr ct"
    and l': "l' = l\<lparr>lEntries := drop (Suc (pos l index)) (lEntries l), lSnapshotIndex := index, lSnapshotTerm := ct\<rparr>"
  have "index \<le> lLastIndex l"
    using assms(1) i by (auto simp: log_wf_def)
  then have "ct = eTerm (lEntries l ! pos l index)" "pos l index < length (lEntries l)"
    using i pos_bound[OF assms(1) i(1)] by (auto simp: Term_ok[OF assms(1)] split: if_splits)
  then have "lSnapshotTerm l' # map eTerm (lEntries l') = drop (Suc (pos l index)) (lSnapshotTerm l # map eTerm (lEntries l))"
    unfolding l' by (simp add: drop_map flip: Cons_nth_drop_Suc)
  then show ?thesis
    using assms(3) unfolding terms_ok_def by (metis sorted_wrt_drop in_set_dropD)
qed (simp add: assms)

section \<open>The invariant\<close>

definition fixed_ok :: "Core \<Rightarrow> bool" where
  "fixed_ok c \<longleftrightarrow> voters_wf (cVoters c) \<and> cLocalID c \<in> voter_ids (cVoters c)
     \<and> cElectionTimeoutMin c < cElectionTimeoutMax c"

definition log_ok :: "Core \<Rightarrow> bool" where
  "log_ok c \<longleftrightarrow> log_wf (cLog c) \<and> hsCommitIndex (cHardState c) = lCommitIndex (cLog c)
     \<and> terms_ok (cTerm c) (cLog c)"

text \<open>A candidate or leader has voted for itself, holds the set of its votes, and a leader holds a majority.
  The maps a role writes are not nil.\<close>

abbreviation stands :: "Core \<Rightarrow> bool" where
  "stands c \<equiv> cRole c = RoleCandidate \<or> cRole c = RoleLeader"

definition role_ok :: "Core \<Rightarrow> bool" where
  "role_ok c \<longleftrightarrow>
     (cRole c = RolePreCandidate \<longrightarrow> cPreVotes c \<noteq> None)
   \<and> (stands c \<longrightarrow> cVotedFor c = cLocalID c \<and> cTerm c \<noteq> 0 \<and> cVotes c \<noteq> None
        \<and> members (cVotes c) \<subseteq> voter_ids (cVoters c))
   \<and> (cRole c = RoleLeader \<longrightarrow> cProgress c \<noteq> None \<and> cQuorumResponses c \<noteq> None
        \<and> Majority (cVoters c) \<le> card (members (cVotes c)))"

text \<open>The queued batch carries the current hard state when it changed, and only votes that the hard state
  records; at most one snapshot action is queued, and a chunk to stage lies beyond the commit index.\<close>

definition pending_ok :: "Core \<Rightarrow> bool" where
  "pending_ok c \<longleftrightarrow>
     (\<not> cHasPending c \<longrightarrow> cPendingReady c = empty_Ready \<and> \<not> cSnapshotActionDone c)
   \<and> (\<forall>hs. rdHardState (cPendingReady c) = Some hs \<longrightarrow>
        hsTerm hs = cTerm c \<and> hsVotedFor hs = cVotedFor c
        \<and> (\<not> cSnapshotActionDone c \<longrightarrow> hsCommitIndex hs = hsCommitIndex (cHardState c)))
   \<and> ballots c \<subseteq> {(cLocalID c, cTerm c, cVotedFor c)}
   \<and> length (rdSnapshotActions (cPendingReady c)) \<le> 1
   \<and> (\<forall>a \<in> set (rdSnapshotActions (cPendingReady c)).
        saKind a = SnapshotActionStage \<longrightarrow> \<not> cSnapshotActionDone c \<longrightarrow>
          lCommitIndex (cLog c) < iqLastIncludedIndex (saRequest a))
   \<and> (\<forall>i. cIncomingSnapshot c = Some i \<longrightarrow> tmTerm (inMetadata i) \<le> cTerm c)"

definition core_ok :: "Core \<Rightarrow> bool" where
  "core_ok c \<longleftrightarrow> fixed_ok c \<and> log_ok c \<and> role_ok c \<and> pending_ok c"

text \<open>What every step keeps of the hard state.\<close>

definition core_le :: "Core \<Rightarrow> Core \<Rightarrow> bool" where
  "core_le c c' \<longleftrightarrow>
     cLocalID c' = cLocalID c \<and> cVoters c' = cVoters c \<and> cTerm c \<le> cTerm c'
   \<and> (cTerm c' = cTerm c \<and> cVotedFor c \<noteq> 0 \<longrightarrow> cVotedFor c' = cVotedFor c)
   \<and> hsCommitIndex (cHardState c) \<le> hsCommitIndex (cHardState c')"

lemma core_le_refl: "core_le c c"
  by (simp add: core_le_def)

lemma core_le_trans: "core_le a b \<Longrightarrow> core_le b c \<Longrightarrow> core_le a c"
proof -
  assume ab: "core_le a b" and bc: "core_le b c"
  then have "cTerm a \<le> cTerm b" "cTerm b \<le> cTerm c"
    by (simp_all add: core_le_def)
  then have "cTerm c = cTerm a \<Longrightarrow> cTerm b = cTerm a \<and> cTerm c = cTerm b"
    by simp
  then have "cTerm c = cTerm a \<and> cVotedFor a \<noteq> 0 \<Longrightarrow> cVotedFor c = cVotedFor a"
    using ab bc unfolding core_le_def by metis
  then show ?thesis
    using ab bc unfolding core_le_def by (metis order_trans)
qed

text \<open>The votes a core may count after a message: the ones it had in this term, its own, and the one the
  message grants.  Only a candidate of this term becomes its leader.\<close>

fun support :: "RPC \<Rightarrow> u16 \<Rightarrow> u64 \<Rightarrow> u16 set" where
  "support (RRequestVoteResponse m) candidate term =
     (if vrGranted m \<and> vrTerm m = term \<and> vrCandidateID m = candidate then {vrResponderID m} else {})"
| "support _ candidate term = {}"

definition counts :: "u16 set \<Rightarrow> Core \<Rightarrow> Core \<Rightarrow> bool" where
  "counts S c c' \<longleftrightarrow> (stands c' \<longrightarrow>
     members (cVotes c') \<subseteq> (if cTerm c' = cTerm c \<and> stands c then members (cVotes c) else {})
        \<union> {cLocalID c'} \<union> S)
   \<and> (cRole c' = RoleLeader \<longrightarrow> stands c \<and> cTerm c' = cTerm c)"

text \<open>The batch of a step that started with none reports every change of the hard state.\<close>

definition reports :: "Core \<Rightarrow> Core \<Rightarrow> bool" where
  "reports c c' \<longleftrightarrow> (rdHardState (cPendingReady c') = None \<longrightarrow> cHardState c' = cHardState c)"

definition moves :: "u16 set \<Rightarrow> Core \<Rightarrow> Core \<Rightarrow> bool" where
  "moves S c c' \<longleftrightarrow> core_ok c' \<and> core_le c c' \<and> counts S c c' \<and> reports c c' \<and> log_step\<^sup>*\<^sup>* (cLog c) (cLog c')
     \<and> cElectionTimeoutMax c' = cElectionTimeoutMax c \<and> cElectionTimeoutMin c' = cElectionTimeoutMin c"

section \<open>Steps that the invariant does not see\<close>

lemma ballots_frame [frame_simps]:
  "ballots (c\<lparr>cNow := n\<rparr>) = ballots c" "ballots (c\<lparr>cElectionDeadline := n\<rparr>) = ballots c"
  "ballots (c\<lparr>cDeadlineExhausted := b\<rparr>) = ballots c" "ballots (c\<lparr>cRandom := r\<rparr>) = ballots c"
  "ballots (c\<lparr>cRecentLeader := b\<rparr>) = ballots c" "ballots (c\<lparr>cHeartbeatDeadline := n\<rparr>) = ballots c"
  "ballots (c\<lparr>cQuorumDeadline := n\<rparr>) = ballots c" "ballots (c\<lparr>cLeaderID := i\<rparr>) = ballots c"
  "ballots (c\<lparr>cOutgoingSnapshots := o'\<rparr>) = ballots c" "ballots (c\<lparr>cLog := l\<rparr>) = ballots c"
  "ballots (c\<lparr>cHardState := h\<rparr>) = ballots c" "ballots (c\<lparr>cRole := ro\<rparr>) = ballots c"
  "ballots (c\<lparr>cPreVotes := v\<rparr>) = ballots c" "ballots (c\<lparr>cVotes := v\<rparr>) = ballots c"
  "ballots (c\<lparr>cProgress := p\<rparr>) = ballots c" "ballots (c\<lparr>cQuorumResponses := v\<rparr>) = ballots c"
  "ballots (c\<lparr>cIncomingSnapshot := s\<rparr>) = ballots c" "ballots (c\<lparr>cSnapshotActionDone := b\<rparr>) = ballots c"
  "ballots (c\<lparr>cNextProposalID := x\<rparr>) = ballots c" "ballots (c\<lparr>cPendingProposals := x1\<rparr>) = ballots c"
  "ballots (c\<lparr>cPendingProposalOrder := x2\<rparr>) = ballots c" "ballots (c\<lparr>cProposalAtIndex := x3\<rparr>) = ballots c"
  "ballots (recordHardState c) = ballots c" "ballots (queueEntries es c) = ballots c"
  by (simp_all add: ballots_def recordHardState_def queueEntries_def)

lemmas core_ok_defs = core_ok_def fixed_ok_def log_ok_def role_ok_def pending_ok_def

lemma steady_core_ok: "steady c d \<Longrightarrow> core_ok c \<Longrightarrow> core_ok d"
proof -
  assume s: "steady c d" and ok: "core_ok c"
  note fields = calmD[OF steadyD(1)[OF s]] steadyD(2,3)[OF s]
  have "pending_grows c d"
    using steadyD(1)[OF s] by (simp add: calm_def)
  then have pend: "\<not> cHasPending d \<Longrightarrow> cPendingReady d = cPendingReady c \<and> \<not> cHasPending c"
    unfolding pending_grows_def by blast
  have "fixed_ok d" "log_ok d" "role_ok d"
    using ok unfolding core_ok_defs fields by blast+
  moreover have "\<not> cHasPending d \<longrightarrow> cPendingReady d = empty_Ready \<and> \<not> cSnapshotActionDone c"
    using ok pend unfolding core_ok_def pending_ok_def by metis
  then have "pending_ok d"
    using ok unfolding core_ok_def pending_ok_def fields by blast
  ultimately show ?thesis
    by (simp add: core_ok_def)
qed

lemma moves_steady: "moves S c d \<Longrightarrow> steady d e \<Longrightarrow> moves S c e"
proof -
  assume m: "moves S c d" and s: "steady d e"
  note fields = calmD[OF steadyD(1)[OF s]]
  have "core_ok e"
    using m s steady_core_ok by (simp add: moves_def)
  moreover have "core_le c e" "counts S c e" "reports c e"
    using m unfolding moves_def core_le_def counts_def reports_def fields by blast+
  ultimately show ?thesis
    using m by (simp add: moves_def fields)
qed

text \<open>A core between the start of a call and its last output: nothing electoral is queued, and at most the
  abort of the incoming transfer.\<close>

definition unvoted :: "Core \<Rightarrow> bool" where
  "unvoted c \<longleftrightarrow> ballots c = {} \<and> \<not> cSnapshotActionDone c
   \<and> length (rdSnapshotActions (cPendingReady c)) \<le> 1
   \<and> (\<forall>a \<in> set (rdSnapshotActions (cPendingReady c)). saKind a = SnapshotActionAbort)
   \<and> (rdSnapshotActions (cPendingReady c) \<noteq> [] \<longrightarrow> cIncomingSnapshot c = None)"

definition idle :: "Core \<Rightarrow> bool" where
  "idle c \<longleftrightarrow> core_ok c \<and> \<not> cHasPending c"

lemma idle_pending: "idle c \<Longrightarrow> cPendingReady c = empty_Ready \<and> \<not> cSnapshotActionDone c"
  unfolding idle_def core_ok_def pending_ok_def by blast

lemma idle_unvoted: "idle c \<Longrightarrow> unvoted c"
  using idle_pending[of c] by (simp add: unvoted_def ballots_def empty_Ready_def)

lemma idle_moves: "idle c \<Longrightarrow> moves S c c"
  by (simp add: idle_def moves_def core_le_refl counts_def reports_def) blast

lemma steady_unvoted: "steady c d \<Longrightarrow> unvoted c \<Longrightarrow> unvoted d"
proof -
  assume s: "steady c d" and u: "unvoted c"
  note fields = calmD(17,22)[OF steadyD(1)[OF s]] steadyD(2,3)[OF s]
  show ?thesis
    using u unfolding unvoted_def fields .
qed

text \<open>The relation handlers compose: after a call from an idle core, the invariant and the relation hold.\<close>

definition runs :: "u16 set \<Rightarrow> Core \<Rightarrow> Core \<Rightarrow> bool" where
  "runs S c d \<longleftrightarrow> moves S c d \<and> unvoted d"

lemma runs_steady: "runs S c d \<Longrightarrow> steady d e \<Longrightarrow> runs S c e"
  unfolding runs_def using moves_steady steady_unvoted by blast

lemma idle_runs: "idle c \<Longrightarrow> runs S c c"
  by (simp add: runs_def idle_moves idle_unvoted)

lemma sound_runs_steady: "runs S c d \<Longrightarrow> sound True (steady d) m \<Longrightarrow> sound b (runs S c) m"
  unfolding sound_def using runs_steady ensures_mono by blast

end
