(* ===== verification/Raft_Core_Steps.thy ===== *)
theory Raft_Core_Steps
  imports Raft_Core_Inv
begin

text \<open>
  The elementary changes of state the handlers are made of, each with the proof that it keeps the
  invariant and the relation to the core the call started from.
\<close>

section \<open>Fields outside the invariant\<close>

text \<open>The fields the invariant and the relation read.\<close>

definition core_view :: "Core \<Rightarrow> _" where
  "core_view d = ((cVoters d, cLocalID d, cElectionTimeoutMin d, cElectionTimeoutMax d), (cLog d, cHardState d),
     (cRole d, cPreVotes d, cVotes d, cProgress d, cQuorumResponses d),
     (cHasPending d, cPendingReady d, cSnapshotActionDone d, cIncomingSnapshot d))"

lemmas runs_defs = runs_def moves_def core_le_def counts_def reports_def unvoted_def

lemma core_viewD:
  assumes "core_view e = core_view d"
  shows "cVoters e = cVoters d" "cLocalID e = cLocalID d" "cElectionTimeoutMin e = cElectionTimeoutMin d"
    "cElectionTimeoutMax e = cElectionTimeoutMax d" "cLog e = cLog d" "cHardState e = cHardState d"
    "cRole e = cRole d" "cPreVotes e = cPreVotes d" "cVotes e = cVotes d" "cProgress e = cProgress d"
    "cQuorumResponses e = cQuorumResponses d" "cHasPending e = cHasPending d"
    "cPendingReady e = cPendingReady d" "cSnapshotActionDone e = cSnapshotActionDone d"
    "cIncomingSnapshot e = cIncomingSnapshot d"
  using assms unfolding core_view_def prod.inject by blast+

lemma core_ok_view: "core_view e = core_view d \<Longrightarrow> core_ok e = core_ok d"
proof -
  assume "core_view e = core_view d"
  note eqs = core_viewD[OF this]
  show ?thesis
    unfolding core_ok_defs ballots_def eqs by (rule refl)
qed

lemma runs_view: "core_view e = core_view d \<Longrightarrow> runs S c e = runs S c d"
proof -
  assume "core_view e = core_view d"
  note eqs = core_viewD[OF this]
  show ?thesis
    unfolding runs_defs core_ok_defs ballots_def eqs by (rule refl)
qed

lemma runs_same: "runs S c d \<Longrightarrow> core_view e = core_view d \<Longrightarrow> runs S c e"
  using runs_view by blast

lemma runs_frame [simp]:
  "runs S c (d\<lparr>cNow := n\<rparr>) = runs S c d" "runs S c (d\<lparr>cElectionDeadline := n\<rparr>) = runs S c d"
  "runs S c (d\<lparr>cDeadlineExhausted := b\<rparr>) = runs S c d" "runs S c (d\<lparr>cRandom := r\<rparr>) = runs S c d"
  "runs S c (d\<lparr>cRecentLeader := b\<rparr>) = runs S c d" "runs S c (d\<lparr>cHeartbeatDeadline := n\<rparr>) = runs S c d"
  "runs S c (d\<lparr>cQuorumDeadline := n\<rparr>) = runs S c d" "runs S c (d\<lparr>cLeaderID := i\<rparr>) = runs S c d"
  "runs S c (d\<lparr>cOutgoingSnapshots := o'\<rparr>) = runs S c d"
  by (rule runs_view, simp add: core_view_def)+

lemma runsD:
  assumes "runs S c d"
  shows "core_ok d" "fixed_ok d" "log_ok d" "role_ok d" "pending_ok d" "core_le c d" "counts S c d" "reports c d"
    "log_step\<^sup>*\<^sup>* (cLog c) (cLog d)" "cElectionTimeoutMax d = cElectionTimeoutMax c"
    "cElectionTimeoutMin d = cElectionTimeoutMin c" "unvoted d"
  using assms by (simp_all add: runs_def moves_def core_ok_def)

lemma runsI:
  assumes "fixed_ok d" "log_ok d" "role_ok d" "pending_ok d" "core_le c d" "counts S c d" "reports c d"
    "log_step\<^sup>*\<^sup>* (cLog c) (cLog d)" "cElectionTimeoutMax d = cElectionTimeoutMax c"
    "cElectionTimeoutMin d = cElectionTimeoutMin c" "unvoted d"
  shows "runs S c d"
  using assms by (simp add: runs_def moves_def core_ok_def)

text \<open>The parts of the invariant after an update of fields they do not read.\<close>

lemma fixed_ok_eq:
  "cVoters e = cVoters d \<Longrightarrow> cLocalID e = cLocalID d \<Longrightarrow> cElectionTimeoutMin e = cElectionTimeoutMin d
    \<Longrightarrow> cElectionTimeoutMax e = cElectionTimeoutMax d \<Longrightarrow> fixed_ok e = fixed_ok d"
  by (simp add: fixed_ok_def)

lemma log_ok_eq: "cLog e = cLog d \<Longrightarrow> cHardState e = cHardState d \<Longrightarrow> log_ok e = log_ok d"
  by (simp add: log_ok_def)

lemma counts_eq:
  "cRole e = cRole d \<Longrightarrow> cVotes e = cVotes d \<Longrightarrow> cTerm e = cTerm d \<Longrightarrow> cLocalID e = cLocalID d
    \<Longrightarrow> counts S c e = counts S c d"
  by (simp only: counts_def)

lemma unvoted_eq:
  "cPendingReady e = cPendingReady d \<Longrightarrow> cSnapshotActionDone e = cSnapshotActionDone d
    \<Longrightarrow> cIncomingSnapshot e = cIncomingSnapshot d \<Longrightarrow> unvoted e = unvoted d"
  by (simp add: unvoted_def ballots_def)

lemma pending_ok_eq:
  assumes "cHasPending e = cHasPending d" "cPendingReady e = cPendingReady d"
    "cSnapshotActionDone e = cSnapshotActionDone d" "cIncomingSnapshot e = cIncomingSnapshot d"
    "cHardState e = cHardState d" "cLocalID e = cLocalID d" "lCommitIndex (cLog e) = lCommitIndex (cLog d)"
  shows "pending_ok e = pending_ok d"
  unfolding pending_ok_def ballots_def assms by (rule refl)

lemma runs_follower:
  assumes "runs S c d"
  shows "runs S c (d\<lparr>cRole := RoleFollower, cPreVotes := p, cVotes := v, cProgress := x, cQuorumResponses := y\<rparr>)"
    (is "runs S c ?e")
proof (rule runsI)
  note facts = runsD[OF assms]
  show "fixed_ok ?e" using facts(2) fixed_ok_eq[of ?e d] by simp
  show "log_ok ?e" using facts(3) log_ok_eq[of ?e d] by simp
  show "role_ok ?e" "counts S c ?e" by (simp_all add: role_ok_def counts_def)
  show "pending_ok ?e" using facts(5) pending_ok_eq[of ?e d] by simp
  show "unvoted ?e" using facts(12) unvoted_eq[of ?e d] by simp
  show "core_le c ?e" "reports c ?e" using facts(6,8) by (simp_all add: core_le_def reports_def)
qed (use runsD[OF assms] in simp_all)


section \<open>Changes of state\<close>

lemma pending_okI:
  assumes "unvoted e" "\<not> cHasPending e \<Longrightarrow> cPendingReady e = empty_Ready"
    "\<And>hs. rdHardState (cPendingReady e) = Some hs \<Longrightarrow> hs = cHardState e"
    "\<And>i. cIncomingSnapshot e = Some i \<Longrightarrow> tmTerm (inMetadata i) \<le> cTerm e"
  shows "pending_ok e"
  using assms unfolding pending_ok_def unvoted_def by auto

lemma pending_okD:
  assumes "pending_ok d"
  shows "\<not> cHasPending d \<Longrightarrow> cPendingReady d = empty_Ready"
    and "cIncomingSnapshot d = Some i \<Longrightarrow> tmTerm (inMetadata i) \<le> cTerm d"
  using assms by (simp_all add: pending_ok_def)

lemma runs_calm:
  assumes "runs S c d" "calm d e" "unvoted e"
    and "cIncomingSnapshot e = None \<or> cIncomingSnapshot e = cIncomingSnapshot d"
  shows "runs S c e"
proof -
  note fields = calmD[OF assms(2)] and facts = runsD[OF assms(1)]
  have "pending_grows d e"
    using assms(2) by (simp add: calm_def)
  then have pend: "\<not> cHasPending e \<Longrightarrow> cPendingReady e = cPendingReady d \<and> \<not> cHasPending d"
    unfolding pending_grows_def by blast
  have parts: "fixed_ok e" "log_ok e" "role_ok e" "core_le c e" "counts S c e" "reports c e"
    using facts(2-4,6-8) unfolding fixed_ok_def log_ok_def role_ok_def core_le_def counts_def reports_def fields
    by blast+
  have "\<And>i. cIncomingSnapshot e = Some i \<Longrightarrow> tmTerm (inMetadata i) \<le> cTerm e"
    using assms(4) pending_okD(2)[OF facts(5)] by (auto simp: fields)
  moreover have "\<not> cHasPending e \<Longrightarrow> cPendingReady e = empty_Ready"
    using pend pending_okD(1)[OF facts(5)] by simp
  moreover have "\<And>hs. rdHardState (cPendingReady e) = Some hs \<Longrightarrow> hs = cHardState e"
    using facts(5,12) unfolding fields pending_ok_def unvoted_def by (metis HardState.equality old.unit.exhaust)
  ultimately have "pending_ok e"
    using pending_okI[OF assms(3)] by blast
  then show ?thesis
    using parts facts(9-11) assms(3) by (intro runsI) (simp_all add: fields)
qed

lemma cancelIncomingSnapshot_runs: "runs S c d \<Longrightarrow> runs S c (cancelIncomingSnapshot d)"
proof -
  assume r: "runs S c d"
  note fields = calmD(17,22)[OF cancelIncomingSnapshot_calm[of d]]
  have "unvoted (cancelIncomingSnapshot d)"
    using r by (auto simp: runs_def unvoted_def fields cancelIncomingSnapshot_actions split: option.splits)
  then show ?thesis
    using runs_calm[OF r cancelIncomingSnapshot_calm] by simp
qed

text \<open>A new hard state: a higher term, or a first vote in this one.\<close>

lemma runs_hard:
  assumes "runs S c d" "\<not> stands d" "cTerm d \<le> hsTerm h" "hsCommitIndex h = hsCommitIndex (cHardState d)"
    and "hsTerm h = cTerm d \<Longrightarrow> cVotedFor d \<noteq> 0 \<Longrightarrow> hsVotedFor h = cVotedFor d"
  shows "runs S c (recordHardState (d\<lparr>cHardState := h\<rparr>))" (is "runs S c ?e")
proof -
  note facts = runsD[OF assms(1)]
  have e: "cHardState ?e = h" "cLog ?e = cLog d" "cRole ?e = cRole d" "rdHardState (cPendingReady ?e) = Some h"
    "cIncomingSnapshot ?e = cIncomingSnapshot d" "cLocalID ?e = cLocalID d" "cVoters ?e = cVoters d"
    "cPreVotes ?e = cPreVotes d" "cHasPending ?e"
    by (simp_all add: recordHardState_def)
  have "unvoted ?e"
    using facts(12) by (simp add: unvoted_def frame_simps) (simp add: recordHardState_def)
  moreover have "pending_ok ?e"
    using pending_okD(2)[OF facts(5)] assms(3) calculation by (auto intro!: pending_okI simp: e)
  moreover have "core_le d ?e"
    using assms(3,4,5) by (auto simp: core_le_def e)
  then have "core_le c ?e"
    using facts(6) core_le_trans by blast
  moreover have "fixed_ok ?e"
    using facts(2) fixed_ok_eq[of ?e d] by (simp add: recordHardState_def)
  moreover have "log_ok ?e"
    using facts(3) terms_ok_mono[OF _ assms(3)] assms(4) by (simp add: log_ok_def e)
  moreover have "role_ok ?e" "counts S c ?e" "reports c ?e"
    using facts(4) assms(2) by (simp_all add: role_ok_def counts_def reports_def e)
  ultimately show ?thesis
    using facts(9-11) by (intro runsI) (simp_all add: recordHardState_def)
qed

lemma runs_candidate:
  assumes "runs S c d" "cVotedFor d = cLocalID d" "cTerm d \<noteq> 0"
  shows "runs S c (d\<lparr>cRole := RoleCandidate, cPreVotes := p, cVotes := Some {cLocalID d}\<rparr>)" (is "runs S c ?e")
proof (rule runsI)
  note facts = runsD[OF assms(1)]
  show "fixed_ok ?e" using facts(2) fixed_ok_eq[of ?e d] by simp
  show "log_ok ?e" using facts(3) log_ok_eq[of ?e d] by simp
  show "role_ok ?e" using facts(2) assms(2,3) by (simp add: role_ok_def members_def fixed_ok_def)
  show "counts S c ?e" by (simp add: counts_def members_def)
  show "pending_ok ?e" using facts(5) pending_ok_eq[of ?e d] by simp
  show "unvoted ?e" using facts(12) unvoted_eq[of ?e d] by simp
  show "core_le c ?e" "reports c ?e" using facts(6,8) by (simp_all add: core_le_def reports_def)
qed (use runsD[OF assms(1)] in simp_all)

lemma runs_log:
  assumes "runs S c d" "log_step\<^sup>*\<^sup>* (cLog d) l" "lCommitIndex l = lCommitIndex (cLog d)" "log_wf l" "terms_ok (cTerm d) l"
  shows "runs S c (d\<lparr>cLog := l\<rparr>)" (is "runs S c ?e")
proof (rule runsI)
  note facts = runsD[OF assms(1)]
  show "fixed_ok ?e" using facts(2) fixed_ok_eq[of ?e d] by simp
  show "log_ok ?e" using facts(3) assms(3-5) by (simp add: log_ok_def)
  show "role_ok ?e" using facts(4) by (simp add: role_ok_def)
  show "counts S c ?e" using facts(7) counts_eq[of ?e d S c] by simp
  show "pending_ok ?e" using facts(5) pending_ok_eq[of ?e d] assms(3) by simp
  show "unvoted ?e" using facts(12) unvoted_eq[of ?e d] by simp
  show "core_le c ?e" "reports c ?e" using facts(6,8) by (simp_all add: core_le_def reports_def)
  show "log_step\<^sup>*\<^sup>* (cLog c) (cLog ?e)" using facts(9) assms(2) by simp
qed (use runsD[OF assms(1)] in simp_all)

lemma AdvanceCommit_None:
  assumes "AdvanceCommit k l = (l', None)"
  shows "l' = l\<lparr>lCommitIndex := k\<rparr>" "lCommitIndex l \<le> k" "k \<le> lLastIndex l"
  using assms by (auto simp: AdvanceCommit_def split: if_splits)

lemma runs_commit:
  assumes "runs S c d" "AdvanceCommit k (cLog d) = (l, None)"
  shows "runs S c (recordHardState (d\<lparr>cLog := l, cHardState := (cHardState d)\<lparr>hsCommitIndex := k\<rparr>\<rparr>))" (is "runs S c ?e")
proof -
  note facts = runsD[OF assms(1)] and l = AdvanceCommit_None[OF assms(2)]
  have log: "log_wf (cLog d)" "hsCommitIndex (cHardState d) = lCommitIndex (cLog d)" "terms_ok (cTerm d) (cLog d)"
    using facts(3) by (simp_all add: log_ok_def)
  have step: "log_step (cLog d) l"
    using log_step.commit[of k "cLog d"] assms(2) by simp
  have e: "cHardState ?e = (cHardState d)\<lparr>hsCommitIndex := k\<rparr>" "cLog ?e = l" "cRole ?e = cRole d"
    "rdHardState (cPendingReady ?e) = Some (cHardState ?e)" "cVotes ?e = cVotes d" "cProgress ?e = cProgress d"
    "cQuorumResponses ?e = cQuorumResponses d"
    "cIncomingSnapshot ?e = cIncomingSnapshot d" "cLocalID ?e = cLocalID d" "cVoters ?e = cVoters d"
    "cPreVotes ?e = cPreVotes d" "cHasPending ?e"
    by (simp_all add: recordHardState_def)
  have "unvoted ?e"
    using facts(12) by (simp add: unvoted_def frame_simps) (simp add: recordHardState_def)
  moreover have "pending_ok ?e"
    using pending_okD(2)[OF facts(5)] calculation by (auto intro!: pending_okI simp: e)
  moreover have "core_le d ?e"
    using l(2) log(2) by (auto simp: core_le_def e)
  then have "core_le c ?e"
    using facts(6) core_le_trans by blast
  moreover have "fixed_ok ?e"
    using facts(2) fixed_ok_eq[of ?e d] by (simp add: recordHardState_def)
  moreover have "log_wf l"
    using log_step_preserves[OF step] log(1) by blast
  then have "log_ok ?e"
    using log(3) unfolding log_ok_def e by (simp add: l(1))
  moreover have "counts S c ?e"
    using facts(7) counts_eq[of ?e d S c] by (simp add: e)
  moreover have "role_ok ?e" "reports c ?e"
    using facts(4) unfolding role_ok_def reports_def e by simp_all
  moreover have "log_step\<^sup>*\<^sup>* (cLog c) (cLog ?e)"
    using facts(9) step by (simp add: e)
  ultimately show ?thesis
    using facts(10,11) by (intro runsI) (simp_all add: recordHardState_def)
qed

lemma runs_vote:
  assumes "runs S c d" "cRole d = RoleCandidate" "v \<in> S" "v \<in> voter_ids (cVoters d)"
  shows "sound True (\<lambda>e. runs S c e \<and> e = d\<lparr>cVotes := Some (insert v (members (cVotes d)))\<rparr>) (putVote v d)"
proof -
  note facts = runsD[OF assms(1)]
  obtain votes where votes: "cVotes d = Some votes"
    using facts(4) assms(2) by (auto simp: role_ok_def)
  let ?e = "d\<lparr>cVotes := Some (insert v (members (cVotes d)))\<rparr>"
  have "runs S c ?e"
  proof (rule runsI)
    show "fixed_ok ?e" using facts(2) fixed_ok_eq[of ?e d] by simp
    show "log_ok ?e" using facts(3) log_ok_eq[of ?e d] by simp
    show "role_ok ?e" using facts(4) assms(2,4) by (auto simp: role_ok_def members_def votes)
    show "counts S c ?e" using facts(7) assms(2,3) by (auto simp: counts_def members_def votes split: if_splits)
    show "pending_ok ?e" using facts(5) pending_ok_eq[of ?e d] by simp
    show "unvoted ?e" using facts(12) unvoted_eq[of ?e d] by simp
    show "core_le c ?e" "reports c ?e" using facts(6,8) by (simp_all add: core_le_def reports_def)
  qed (use facts in simp_all)
  then show ?thesis
    by (simp add: putVote_def votes members_def)
qed

lemma runs_lead:
  assumes "runs S c d" "cRole d = RoleCandidate" "Majority (cVoters d) \<le> card (members (cVotes d))"
    "stands c" "cTerm d = cTerm c"
  shows "runs S c (d\<lparr>cRole := RoleLeader, cPreVotes := p, cProgress := Some m, cQuorumResponses := Some q\<rparr>)" (is "runs S c ?e")
proof (rule runsI)
  note facts = runsD[OF assms(1)]
  show "fixed_ok ?e" using facts(2) fixed_ok_eq[of ?e d] by simp
  show "log_ok ?e" using facts(3) log_ok_eq[of ?e d] by simp
  show "role_ok ?e" using facts(4) assms(2,3) by (simp add: role_ok_def)
  show "counts S c ?e" using facts(7) assms(2,4,5) by (simp add: counts_def)
  show "pending_ok ?e" using facts(5) pending_ok_eq[of ?e d] by simp
  show "unvoted ?e" using facts(12) unvoted_eq[of ?e d] by simp
  show "core_le c ?e" "reports c ?e" using facts(6,8) by (simp_all add: core_le_def reports_def)
qed (use runsD[OF assms(1)] in simp_all)

section \<open>Last outputs\<close>

lemma runs_moves: "runs S c d \<Longrightarrow> moves S c d"
  by (simp add: runs_def)

lemma moves_ballot:
  assumes "runs S c d" "ballot_of rpc \<subseteq> {(cLocalID d, cTerm d, cVotedFor d)}"
  shows "moves S c (queueMessage to rpc requires d)" (is "moves S c ?e")
proof -
  note facts = runsD[OF assms(1)]
  have e: "cHardState ?e = cHardState d" "cLog ?e = cLog d" "cRole ?e = cRole d"
    "rdHardState (cPendingReady ?e) = rdHardState (cPendingReady d)" "cVotes ?e = cVotes d" "cProgress ?e = cProgress d"
    "cQuorumResponses ?e = cQuorumResponses d" "cElectionTimeoutMin ?e = cElectionTimeoutMin d"
    "cElectionTimeoutMax ?e = cElectionTimeoutMax d"
    "cIncomingSnapshot ?e = cIncomingSnapshot d" "cLocalID ?e = cLocalID d" "cVoters ?e = cVoters d"
    "cPreVotes ?e = cPreVotes d" "cHasPending ?e" "cSnapshotActionDone ?e = cSnapshotActionDone d"
    "rdSnapshotActions (cPendingReady ?e) = rdSnapshotActions (cPendingReady d)" "ballots ?e = ballot_of rpc"
    using facts(12) by (simp_all add: unvoted_def) (simp_all add: queueMessage_def)
  have "pending_ok ?e"
    using facts(5) assms(2) e(14) unfolding pending_ok_def e by blast
  moreover have "fixed_ok ?e" "log_ok ?e" "role_ok ?e" "core_le c ?e" "counts S c ?e" "reports c ?e"
    using facts(2-4,6-8) unfolding fixed_ok_def log_ok_def role_ok_def core_le_def counts_def reports_def e by blast+
  ultimately show ?thesis
    using facts(9-11) by (simp add: moves_def core_ok_def e)
qed

lemma moves_action:
  assumes "runs S c d" "rdSnapshotActions (cPendingReady d) = []"
    and "saKind a = SnapshotActionStage \<Longrightarrow> lCommitIndex (cLog d) < iqLastIncludedIndex (saRequest a)"
    and "\<And>i. incoming = Some i \<Longrightarrow> tmTerm (inMetadata i) \<le> cTerm d"
  shows "moves S c (queueSnapshotAction a (d\<lparr>cIncomingSnapshot := incoming\<rparr>))" (is "moves S c ?e")
proof -
  note facts = runsD[OF assms(1)]
  have e: "cHardState ?e = cHardState d" "cLog ?e = cLog d" "cRole ?e = cRole d"
    "rdHardState (cPendingReady ?e) = rdHardState (cPendingReady d)" "cVotes ?e = cVotes d" "cProgress ?e = cProgress d"
    "cQuorumResponses ?e = cQuorumResponses d" "cElectionTimeoutMin ?e = cElectionTimeoutMin d"
    "cElectionTimeoutMax ?e = cElectionTimeoutMax d"
    "cIncomingSnapshot ?e = incoming" "cLocalID ?e = cLocalID d" "cVoters ?e = cVoters d"
    "cPreVotes ?e = cPreVotes d" "cHasPending ?e" "cSnapshotActionDone ?e = cSnapshotActionDone d"
    "rdSnapshotActions (cPendingReady ?e) = [a]" "ballots ?e = ballots d"
    using assms(2) by (simp_all add: queueSnapshotAction_def ballots_def)
  have "length [a] \<le> 1" "\<forall>x \<in> set [a]. saKind x = SnapshotActionStage \<longrightarrow> \<not> cSnapshotActionDone d \<longrightarrow>
      lCommitIndex (cLog d) < iqLastIncludedIndex (saRequest x)"
    using assms(3) by simp_all
  then have "pending_ok ?e"
    using facts(5) assms(4) e(14) unfolding pending_ok_def e by blast
  moreover have "fixed_ok ?e" "log_ok ?e" "role_ok ?e" "core_le c ?e" "counts S c ?e" "reports c ?e"
    using facts(2-4,6-8) unfolding fixed_ok_def log_ok_def role_ok_def core_le_def counts_def reports_def e by blast+
  ultimately show ?thesis
    using facts(9-11) by (simp add: moves_def core_ok_def e)
qed

end
