(* ===== verification/Raft_Core_Runs.thy ===== *)
theory Raft_Core_Runs
  imports Raft_Core_Steps Raft_Codec_Facts
begin

text \<open>
  Every operation of the core keeps the invariant, moves the hard state forward, and returns as long as the
  random source yields a sample.  One lemma per handler, composed from the steps of \<open>Raft_Core_Steps\<close>.
\<close>

section \<open>Deadlines and terms\<close>

text \<open>The random source yields a sample for the election interval.\<close>

definition yields :: "Core \<Rightarrow> bool" where
  "yields c \<longleftrightarrow> Uint64n (cRandom c) (cElectionTimeoutMax c - cElectionTimeoutMin c) \<noteq> None"

lemma yields_frame [simp]:
  "yields (c\<lparr>cNow := n\<rparr>) = yields c"
  by (simp add: yields_def)

lemma sampleDeadline_cases:
  obtains "sampleDeadline now d = None" "\<not> yields d"
  | r random where "sampleDeadline now d = Some (d\<lparr>cRandom := random\<rparr>, r)" "r = Inl ErrDeadlineOverflow \<or> (\<exists>x. r = Inr x)"
  by (cases "Uint64n (cRandom d) (cElectionTimeoutMax d - cElectionTimeoutMin d)")
    (auto simp: sampleDeadline_def yields_def Let_def split: if_splits)

lemma adoptHigherTerm_shape:
  obtains e x y where "e = cancelIncomingSnapshot (failPendingProposals ErrProposalFailed d)"
    and "adoptHigherTerm t d = (recordHardState (e\<lparr>cRole := RoleFollower, cPreVotes := None, cVotes := None,
      cProgress := None, cQuorumResponses := None, cHardState := (cHardState e)\<lparr>hsTerm := t, hsVotedFor := 0\<rparr>\<rparr>))
      \<lparr>cLeaderID := 0, cRecentLeader := False, cOutgoingSnapshots := \<lambda>_. None, cElectionDeadline := x,
       cDeadlineExhausted := y\<rparr>"
proof -
  let ?e = "cancelIncomingSnapshot (failPendingProposals ErrProposalFailed d)"
  show thesis
    by (rule that[of ?e "if cNow ?e > MaxUint64 - cElectionTimeoutMin ?e then True else cDeadlineExhausted ?e"
          "if cNow ?e > MaxUint64 - cElectionTimeoutMin ?e then MaxUint64 else cElectionDeadline ?e"])
      (simp_all add: adoptHigherTerm_def Let_def recordHardState_def)
qed

lemma adoptHigherTerm_runs: "runs S c d \<Longrightarrow> cTerm d < t \<Longrightarrow> runs S c (adoptHigherTerm t d)"
proof -
  assume r: "runs S c d" and t: "cTerm d < t"
  obtain e x y where e: "e = cancelIncomingSnapshot (failPendingProposals ErrProposalFailed d)"
    and eq: "adoptHigherTerm t d = (recordHardState (e\<lparr>cRole := RoleFollower, cPreVotes := None, cVotes := None,
      cProgress := None, cQuorumResponses := None, cHardState := (cHardState e)\<lparr>hsTerm := t, hsVotedFor := 0\<rparr>\<rparr>))
      \<lparr>cLeaderID := 0, cRecentLeader := False, cOutgoingSnapshots := \<lambda>_. None, cElectionDeadline := x,
       cDeadlineExhausted := y\<rparr>"
    by (rule adoptHigherTerm_shape)
  have "runs S c e"
    unfolding e by (rule cancelIncomingSnapshot_runs) (rule runs_steady[OF r failPendingProposals_steady])
  moreover have "cHardState e = cHardState d"
    unfolding e using calmD(3)[OF cancelIncomingSnapshot_calm] calmD(3)[OF steadyD(1)[OF failPendingProposals_steady]]
    by simp
  ultimately have "runs S c (recordHardState (e\<lparr>cRole := RoleFollower, cPreVotes := None, cVotes := None,
      cProgress := None, cQuorumResponses := None, cHardState := (cHardState e)\<lparr>hsTerm := t, hsVotedFor := 0\<rparr>\<rparr>))"
    using t by (intro runs_hard runs_follower) auto
  then show ?thesis
    by (simp add: eq)
qed

lemma adoptHigherTerm_fields [simp]:
  "cTerm (adoptHigherTerm t d) = t" "cVotedFor (adoptHigherTerm t d) = 0" "cLog (adoptHigherTerm t d) = cLog d"
  "cRole (adoptHigherTerm t d) = RoleFollower" "cLocalID (adoptHigherTerm t d) = cLocalID d"
  "cVoters (adoptHigherTerm t d) = cVoters d" "cIncomingSnapshot (adoptHigherTerm t d) = None"
proof -
  note fields = calmD[OF cancelIncomingSnapshot_calm] calmD[OF steadyD(1)[OF failPendingProposals_steady]]
  show "cTerm (adoptHigherTerm t d) = t" "cVotedFor (adoptHigherTerm t d) = 0" "cLog (adoptHigherTerm t d) = cLog d"
    "cRole (adoptHigherTerm t d) = RoleFollower" "cLocalID (adoptHigherTerm t d) = cLocalID d"
    "cVoters (adoptHigherTerm t d) = cVoters d" "cIncomingSnapshot (adoptHigherTerm t d) = None"
    by (simp_all add: adoptHigherTerm_def Let_def recordHardState_def fields)
qed

section \<open>Elections\<close>

lemma broadcast_runs:
  assumes "runs S c d" "ballot_of rpc = {}"
  shows "sound b (runs S c) (for_each (\<lambda>peer core. ok (queueMessage peer rpc requires core)) targets d)"
proof (rule sound_runs_steady[OF assms(1)])
  show "sound True (steady d) (for_each (\<lambda>peer core. ok (queueMessage peer rpc requires core)) targets d)"
    by (rule steady.sound_each) (simp add: steady_queueMessage assms(2))
qed

lemma runs_precandidate:
  assumes "runs S c d"
  shows "runs S c (d\<lparr>cRole := RolePreCandidate, cPreVotes := Some p, cVotes := v\<rparr>)" (is "runs S c ?e")
proof (rule runsI)
  note facts = runsD[OF assms]
  show "fixed_ok ?e" using facts(2) fixed_ok_eq[of ?e d] by simp
  show "log_ok ?e" using facts(3) log_ok_eq[of ?e d] by simp
  show "role_ok ?e" "counts S c ?e" by (simp_all add: role_ok_def counts_def)
  show "pending_ok ?e" using facts(5) pending_ok_eq[of ?e d] by simp
  show "unvoted ?e" using facts(12) unvoted_eq[of ?e d] by simp
  show "core_le c ?e" "reports c ?e" using facts(6,8) by (simp_all add: core_le_def reports_def)
qed (use runsD[OF assms] in simp_all)

lemma startPreVote_runs: "runs S c d \<Longrightarrow> sound (yields d) (runs S c) (startPreVote now d)"
proof -
  assume r: "runs S c d"
  show ?thesis
  proof (cases rule: sampleDeadline_cases[of now d])
    case 1
    then show ?thesis by (simp add: startPreVote_def r)
  next
    case (2 x random)
    then show ?thesis
      using r by (auto simp: startPreVote_def Let_def core_view_def
          intro!: broadcast_runs runs_same[OF runs_precandidate[OF r, where p = "{cLocalID d}" and v = None]])
  qed
qed

lemma putPreVote_runs:
  assumes "runs S c d" "cRole d = RolePreCandidate"
  shows "\<exists>p. putPreVote v d = ok (d\<lparr>cPreVotes := Some p\<rparr>) \<and> runs S c (d\<lparr>cPreVotes := Some p\<rparr>)"
proof -
  obtain votes where votes: "cPreVotes d = Some votes"
    using runsD(4)[OF assms(1)] assms(2) by (auto simp: role_ok_def)
  have "runs S c (d\<lparr>cPreVotes := Some (insert v votes)\<rparr>)"
    by (rule runs_same[OF runs_precandidate[OF assms(1), where p = "insert v votes" and v = "cVotes d"]])
      (simp add: core_view_def assms(2))
  then show ?thesis
    by (intro exI[of _ "insert v votes"]) (simp add: putPreVote_def votes)
qed

lemma runs_elected:
  assumes "runs S c e" "\<not> stands e" "cTerm e \<noteq> MaxUint64"
  shows "runs S c (recordHardState (e\<lparr>cHardState := (cHardState e)\<lparr>hsTerm := cTerm e + 1, hsVotedFor := cLocalID e\<rparr>,
     cRole := RoleCandidate, cPreVotes := None, cVotes := Some {cLocalID e}\<rparr>))"
proof -
  let ?h = "(cHardState e)\<lparr>hsTerm := cTerm e + 1, hsVotedFor := cLocalID e\<rparr>"
  have t: "cTerm e < cTerm e + 1"
    using assms(3) by (simp add: word_less_nat_alt unat_Suc_word)
  have "runs S c (recordHardState (e\<lparr>cHardState := ?h\<rparr>))"
    by (rule runs_hard[OF assms(1,2)]) (use t in auto)
  moreover have "cTerm e + 1 \<noteq> 0"
    using t by (metis word_not_simps(1))
  ultimately have "runs S c ((recordHardState (e\<lparr>cHardState := ?h\<rparr>))\<lparr>cRole := RoleCandidate, cPreVotes := None,
      cVotes := Some {cLocalID (recordHardState (e\<lparr>cHardState := ?h\<rparr>))}\<rparr>)"
    by (intro runs_candidate) (simp_all add: recordHardState_def)
  then show ?thesis
    by (rule runs_same) (simp add: core_view_def recordHardState_def)
qed

lemma startElection_runs:
  assumes r: "runs S c d" "cRole d = RolePreCandidate"
  shows "sound (yields d) (runs S c) (startElection voter d)"
proof (cases rule: sampleDeadline_cases[of "cNow d" d])
  case 1
  then show ?thesis by (simp add: startElection_def r)
next
  case (2 x random)
  let ?d = "d\<lparr>cRandom := random\<rparr>"
  obtain p where p: "putPreVote voter ?d = ok (?d\<lparr>cPreVotes := Some p\<rparr>)" "runs S c (?d\<lparr>cPreVotes := Some p\<rparr>)"
    using putPreVote_runs[of S c ?d voter] r by auto
  define e where "e = cancelIncomingSnapshot (?d\<lparr>cPreVotes := Some p\<rparr>)"
  note fields = calmD(3,5)[OF cancelIncomingSnapshot_calm[of "?d\<lparr>cPreVotes := Some p\<rparr>"], folded e_def]
  have e: "runs S c e" "cRole e = RolePreCandidate" "cHardState e = cHardState d"
    using cancelIncomingSnapshot_runs[OF p(2)] r(2) fields by (simp_all add: e_def)
  have "runs S c (recordHardState (e\<lparr>cHardState := (cHardState e)\<lparr>hsTerm := cTerm d + 1, hsVotedFor := cLocalID e\<rparr>,
      cRole := RoleCandidate, cLeaderID := 0, cRecentLeader := False, cElectionDeadline := dl,
      cDeadlineExhausted := False, cPreVotes := None, cVotes := Some {cLocalID e}\<rparr>))"
    if "cTerm d \<noteq> MaxUint64" for dl
    by (rule runs_same[OF runs_elected[OF e(1)]])
      (use that e(2,3) in \<open>simp_all add: core_view_def recordHardState_def\<close>)
  then show ?thesis
    using 2 r p(1) by (auto simp: startElection_def Let_def e_def[symmetric] intro!: broadcast_runs)
qed

lemma handlePreVoteResponse_runs: "runs S c d \<Longrightarrow> sound (yields d) (runs S c) (handlePreVoteResponse m d)"
proof -
  assume r: "runs S c d"
  have "sound b (runs S c) (putPreVote v d)" if "cRole d = RolePreCandidate" for b v
    using putPreVote_runs[OF r that, of v] by auto
  then show ?thesis
    using r startElection_runs[OF r] by (simp add: handlePreVoteResponse_def)
qed

lemma handlePreVoteRequest_runs: "runs S c d \<Longrightarrow> sound b (runs S c) (handlePreVoteRequest m d)"
  by (simp add: handlePreVoteRequest_def Let_def runs_steady steady_queueMessage)

lemma stands_voted: "core_ok d \<Longrightarrow> stands d \<Longrightarrow> cVotedFor d \<noteq> 0"
  using zero_not_voter by (auto simp: core_ok_def fixed_ok_def role_ok_def)

lemma vote_reply_moves:
  assumes e: "runs S c e" "granted \<Longrightarrow> cVotedFor e = 0 \<or> cVotedFor e = vqCandidateID m"
  shows "moves S c (queueVoteResponse m granted q (if granted \<and> cVotedFor e = 0
     then recordHardState (e\<lparr>cHardState := (cHardState e)\<lparr>hsVotedFor := vqCandidateID m\<rparr>\<rparr>) else e))"
proof -
  let ?h = "(cHardState e)\<lparr>hsVotedFor := vqCandidateID m\<rparr>"
  have reply: "moves S c (queueVoteResponse m g q f)" if "runs S c f" "g \<Longrightarrow> cVotedFor f = vqCandidateID m" for f g
    unfolding queueVoteResponse_def by (rule moves_ballot[OF that(1)]) (use that(2) in \<open>cases g; simp\<close>)
  have "runs S c (recordHardState (e\<lparr>cHardState := ?h\<rparr>))" if "cVotedFor e = 0"
    by (rule runs_hard[OF e(1)]) (use that stands_voted[OF runsD(1)[OF e(1)]] in auto)
  moreover have "cVotedFor (recordHardState (e\<lparr>cHardState := ?h\<rparr>)) = vqCandidateID m"
    by (simp add: recordHardState_def)
  ultimately show ?thesis
    using reply e by auto
qed

lemma handleVoteRequest_moves: "runs S c d \<Longrightarrow> sound b (moves S c) (handleVoteRequest m d)"
proof -
  assume r: "runs S c d"
  let ?d = "if vqTerm m > cTerm d then adoptHigherTerm (vqTerm m) d else d"
  have d: "runs S c ?d"
    using r adoptHigherTerm_runs by auto
  show ?thesis
  proof (cases "vqTerm m < cTerm d")
    case True
    then show ?thesis
      using vote_reply_moves[OF r, of False m False] by (simp add: handleVoteRequest_def)
  next
    case False
    show ?thesis
      unfolding handleVoteRequest_def Let_def if_not_P[OF False] sound_Some
      by (rule vote_reply_moves[OF d]) blast
  qed
qed

section \<open>Becoming the leader\<close>

lemma runs_append:
  assumes "runs S c d" "Append prev pt ns (cLog d) = (l, h, err)" "sorted (pt # map eTerm ns)"
    "\<forall>e \<in> set ns. eTerm e \<le> cTerm d"
  shows "runs S c (d\<lparr>cLog := l\<rparr>)"
proof -
  have log: "log_wf (cLog d)" "terms_ok (cTerm d) (cLog d)"
    using runsD(3)[OF assms(1)] by (simp_all add: log_ok_def)
  have step: "log_step (cLog d) l"
    using assms(2) by (rule log_step.append)
  have "lCommitIndex l = lCommitIndex (cLog d) \<and> terms_ok (cTerm d) l"
    using Append_cases[OF log(1) assms(2)]
  proof (elim disjE conjE)
    assume a: "append_spec prev pt ns (cLog d) l"
    have "lCommitIndex l = lCommitIndex (cLog d)"
      using a by (simp add: append_spec_def Let_def)
    then show ?thesis
      using append_spec_terms[OF log(1) a log(2) assms(3,4)] by simp
  qed (simp add: log)
  then show ?thesis
    using log_step_preserves[OF step log(1)] step by (intro runs_log[OF assms(1)]) auto
qed

lemma sound_steadies:
  assumes "runs S c d" "\<And>x e. x \<in> set xs \<Longrightarrow> cProgress e \<noteq> None \<Longrightarrow> sound True (steady e) (f x e)" "cProgress d \<noteq> None"
  shows "sound b (runs S c) (for_each f xs d)"
proof (rule sound_runs_steady[OF assms(1)])
  show "sound True (steady d) (for_each f xs d)"
  proof (rule steady.sound_each)
    fix x t
    assume x: "x \<in> set xs" and t: "steady d t"
    show "sound True (steady t) (f x t)"
      by (rule assms(2)[OF x]) (use assms(3) calmD(15)[OF steadyD(1)[OF t]] in simp)
  qed
qed

lemma initiatePeer_steady: "cProgress d \<noteq> None \<Longrightarrow> sound True (steady d) (initiatePeer newIndex peer d)"
  unfolding initiatePeer_def by (intro steady.sound_then putProgress_steady issueNext_steady)

lemma NewEntry_ok: "NewEntry i t k cmd = Inr e \<Longrightarrow> e = \<lparr>eIndex = i, eTerm = t, eKind = k, eCommand = cmd\<rparr>"
  by (auto simp: NewEntry_def split: if_splits)

lemma becomeLeader_runs:
  assumes r: "runs S c d" "cRole d = RoleCandidate" "v \<in> S" "v \<in> voter_ids (cVoters d)"
    and "v \<notin> members (cVotes d)" "Majority (cVoters d) \<le> card (members (cVotes d)) + 1" "stands c" "cTerm d = cTerm c"
  shows "sound b (runs S c) (becomeLeader v d)"
proof -
  have fresh: "finite (members (cVotes d))" "terms_ok (cTerm d) (cLog d)"
    using runsD(3,4)[OF r(1)] r(2) finite_subset[OF _ finite_voter_ids] by (auto simp: role_ok_def log_ok_def)
  show ?thesis
  proof (cases "checkedNextIndex (lLastIndex (cLog d))")
    case (Some newIndex)
    show ?thesis
    proof (cases "checkedNextIndex newIndex")
      case selfNext: (Some selfNext)
      show ?thesis
      proof (cases "NewEntry newIndex (cTerm d) EntryNoOp []")
        case (Inr entry)
        obtain l h err where a: "Append (lLastIndex (cLog d)) (LastTerm (cLog d)) [entry] (cLog d) = (l, h, err)"
          by (metis prod_cases3)
        have l: "runs S c (d\<lparr>cLog := l\<rparr>)"
          by (rule runs_append[OF r(1) a]) (use NewEntry_ok[OF Inr] terms_ok_LastTerm[OF fresh(2)] in simp_all)
        have vote: "sound True (\<lambda>e. runs S c e \<and> e = d\<lparr>cLog := l, cVotes := Some (insert v (members (cVotes d)))\<rparr>)
            (putVote v (d\<lparr>cLog := l\<rparr>))"
          using runs_vote[OF l, of v] r(2,3,4) by simp
        let ?v = "d\<lparr>cLog := l, cVotes := Some (insert v (members (cVotes d)))\<rparr>"
        let ?m = "[cLocalID d \<mapsto> zero_Progress\<lparr>pMatchIndex := newIndex, pNextIndex := selfNext\<rparr>]"
        have lead: "runs S c (queueEntries [entry] (?v\<lparr>cRole := RoleLeader, cPreVotes := None, cProgress := Some ?m,
            cQuorumResponses := Some {}\<rparr>))" if "runs S c ?v"
          by (rule runs_steady[OF runs_lead[OF that] steady_queueEntries])
            (use r(2) assms(5-8) fresh(1) in \<open>simp_all add: members_def\<close>)
        show ?thesis
          using Some selfNext Inr a l
          by (cases err) (auto simp: becomeLeader_def Let_def queueEntries_def core_view_def
              intro!: sound_and_then[OF sound_weaken[OF vote]] sound_steadies runs_same[OF lead] initiatePeer_steady)
      qed (use Some selfNext r in \<open>simp add: becomeLeader_def\<close>)
    qed (use Some r in \<open>simp add: becomeLeader_def\<close>)
  qed (use r in \<open>simp add: becomeLeader_def\<close>)
qed

lemma handleVoteResponse_runs:
  assumes "runs S c d" "support (RRequestVoteResponse m) (cLocalID d) (cTerm d) \<subseteq> S" "vrResponderID m \<in> voter_ids (cVoters d)"
    "cRole d = cRole c" "cTerm d = cTerm c"
  shows "sound b (runs S c) (handleVoteResponse m d)"
proof -
  have "sound b (runs S c) (putVote (vrResponderID m) d)"
    if "cRole d = RoleCandidate" "vrResponderID m \<in> S"
    using sound_mono[OF runs_vote[OF assms(1) that assms(3)]] sound_weaken by blast
  then show ?thesis
    using assms adoptHigherTerm_runs[OF assms(1)]
    by (auto simp: handleVoteResponse_def intro!: becomeLeader_runs)
qed

section \<open>Ticks\<close>

lemma stepDownTo_runs: "runs S c d \<Longrightarrow> runs S c (stepDownTo deadline exhausted d)"
  unfolding stepDownTo_def
  by (rule runs_steady[OF runs_same[OF runs_follower[where p = "cPreVotes d" and v = "cVotes d" and x = None and y = None]]
        failPendingProposals_steady]) (simp_all add: core_view_def)

lemma stepDownWithoutTermChange_runs:
  "runs S c d \<Longrightarrow> sound (yields d) (runs S c) (stepDownWithoutTermChange now d)"
  by (cases rule: sampleDeadline_cases[of now d])
    (auto simp: stepDownWithoutTermChange_def intro!: stepDownTo_runs)

lemma runs_quorum:
  assumes "runs S c d"
  shows "runs S c (d\<lparr>cQuorumResponses := Some q\<rparr>)" (is "runs S c ?e")
proof (rule runsI)
  note facts = runsD[OF assms]
  show "fixed_ok ?e" using facts(2) fixed_ok_eq[of ?e d] by simp
  show "log_ok ?e" using facts(3) log_ok_eq[of ?e d] by simp
  show "role_ok ?e" using facts(4) by (simp add: role_ok_def)
  show "counts S c ?e" using facts(7) counts_eq[of ?e d S c] by simp
  show "pending_ok ?e" using facts(5) pending_ok_eq[of ?e d] by simp
  show "unvoted ?e" using facts(12) unvoted_eq[of ?e d] by simp
  show "core_le c ?e" "reports c ?e" using facts(6,8) by (simp_all add: core_le_def reports_def)
qed (use runsD[OF assms] in simp_all)

lemma heartbeat_runs: "runs S c d \<Longrightarrow> sound b (runs S c) (for_each issueNext xs d)"
  by (erule sound_runs_steady) (intro steady.sound_each issueNext_steady)

lemma tickLeader_runs: "runs S c d \<Longrightarrow> sound (yields d) (runs S c) (tickLeader now d)"
proof -
  assume r: "runs S c d"
  have "sound (yields d) (runs S c) (stepDownWithoutTermChange now (d\<lparr>cNow := now\<rparr>))"
    using stepDownWithoutTermChange_runs[of S c "d\<lparr>cNow := now\<rparr>" now] r by simp
  moreover have "sound b (runs S c) (and_then (for_each issueNext xs e)
      (\<lambda>core. ok (core\<lparr>cHeartbeatDeadline := f core\<rparr>)))" if "runs S c e" for b xs e f
    by (rule sound_and_then[OF heartbeat_runs[OF that]]) simp_all
  moreover have "runs S c (d\<lparr>cNow := now, cQuorumResponses := Some {}, cQuorumDeadline := x\<rparr>)" for x
    by (rule runs_same[OF runs_quorum[OF r]]) (simp add: core_view_def)
  ultimately show ?thesis
    using r by (simp add: tickLeader_def Let_def)
qed

lemma Tick_runs: "runs S c d \<Longrightarrow> sound (yields d) (runs S c) (Tick now d)"
  using startPreVote_runs tickLeader_runs by (auto simp: Tick_def split: option.split)

section \<open>Following a leader\<close>

lemma adoptHigherTerm_actions:
  "cIncomingSnapshot d = None \<Longrightarrow>
     rdSnapshotActions (cPendingReady (adoptHigherTerm t d)) = rdSnapshotActions (cPendingReady d)"
  using steadyD(2,3)[OF failPendingProposals_steady[of d ErrProposalFailed]]
  by (simp add: adoptHigherTerm_def Let_def recordHardState_def cancelIncomingSnapshot_actions)

text \<open>The live transfer, if any, comes from this leader in this term.\<close>

definition same_authority :: "u16 \<Rightarrow> u64 \<Rightarrow> Core \<Rightarrow> bool" where
  "same_authority leaderID term d \<longleftrightarrow>
     (case cIncomingSnapshot d of None \<Rightarrow> True
      | Some incoming \<Rightarrow> tmTerm (inMetadata incoming) = term \<and> tmLeaderID (inMetadata incoming) = leaderID)"

definition follows :: "u16 \<Rightarrow> u64 \<Rightarrow> Core \<Rightarrow> Core \<Rightarrow> bool" where
  "follows leaderID term d e \<longleftrightarrow> cLog e = cLog d \<and> cTerm e = term
     \<and> (same_authority leaderID term d \<longrightarrow> cIncomingSnapshot e = cIncomingSnapshot d
          \<and> rdSnapshotActions (cPendingReady e) = rdSnapshotActions (cPendingReady d))"

lemma followLeader_runs:
  assumes r: "runs S c d" and t: "cTerm d \<le> t"
  shows "runs S c (followLeader leaderID t deadline exhausted d)"
    and "follows leaderID t d (followLeader leaderID t deadline exhausted d)"
proof -
  let ?d1 = "case cIncomingSnapshot d of
      Some incoming \<Rightarrow> if tmTerm (inMetadata incoming) \<noteq> t \<or> tmLeaderID (inMetadata incoming) \<noteq> leaderID
        then cancelIncomingSnapshot d else d
    | None \<Rightarrow> d"
  let ?d2 = "if t > cTerm ?d1 then adoptHigherTerm t ?d1
    else if cRole ?d1 = RoleLeader \<and> leaderID \<noteq> cLocalID ?d1 then failPendingProposals ErrProposalFailed ?d1 else ?d1"
  note fields = calmD[OF cancelIncomingSnapshot_calm[of d]]
  have d1: "runs S c ?d1" "cLog ?d1 = cLog d" "cTerm ?d1 = cTerm d"
    using r cancelIncomingSnapshot_runs[OF r] fields(3,4) by (auto split: option.splits)
  have kept: "?d1 = d" "cIncomingSnapshot d = None \<or> t \<le> cTerm d" if "same_authority leaderID t d"
    using that pending_okD(2)[OF runsD(5)[OF r]] by (auto simp: same_authority_def split: option.splits)
  note fail = failPendingProposals_steady[of ?d1 ErrProposalFailed]
  have d2: "runs S c ?d2" "cLog ?d2 = cLog d" "cTerm ?d2 = t"
    using d1 t adoptHigherTerm_runs[OF d1(1), of t] runs_steady[OF d1(1) fail] calmD(3,4)[OF steadyD(1)[OF fail]] by auto
  have "cIncomingSnapshot ?d2 = cIncomingSnapshot d"
      "rdSnapshotActions (cPendingReady ?d2) = rdSnapshotActions (cPendingReady d)" if "same_authority leaderID t d"
    using kept[OF that] adoptHigherTerm_actions[of d t] steadyD(2,3)[OF fail] by auto
  then show "follows leaderID t d (followLeader leaderID t deadline exhausted d)"
    using d2 by (simp add: follows_def followLeader_def Let_def)
  show "runs S c (followLeader leaderID t deadline exhausted d)"
    unfolding followLeader_def Let_def
    by (rule runs_same[OF runs_follower[OF d2(1), where p = None and v = None and x = None and y = None]])
      (simp add: core_view_def)
qed

lemma handleLeaderContact_runs:
  assumes r: "runs S c d" and t: "cTerm d \<le> t"
  shows "sound (yields d) (\<lambda>e. runs S c e \<and> follows leaderID t d e) (handleLeaderContact leaderID t d)"
proof (cases rule: sampleDeadline_cases[of "cNow d" d])
  case 1
  then show ?thesis using leD[OF t] by (simp add: handleLeaderContact_def)
next
  case (2 x random)
  have "runs S c (followLeader leaderID t dl ex (d\<lparr>cRandom := random\<rparr>))" 
    "follows leaderID t d (followLeader leaderID t dl ex (d\<lparr>cRandom := random\<rparr>))" for dl ex
    using followLeader_runs[of S c "d\<lparr>cRandom := random\<rparr>" t leaderID] r t
    by (simp_all add: follows_def same_authority_def)
  then show ?thesis
    using 2 leD[OF t] by (auto simp: handleLeaderContact_def)
qed

lemma commit_runs:
  assumes "runs S c d"
  shows "sound b (runs S c) (case AdvanceCommit k (cLog d) of (_, Some err) \<Rightarrow> fail d err
     | (l, None) \<Rightarrow> queueCommittedEntries prev k
         (recordHardState (d\<lparr>cLog := l, cHardState := (cHardState d)\<lparr>hsCommitIndex := k\<rparr>\<rparr>)))"
proof (cases "AdvanceCommit k (cLog d)")
  case (Pair l err)
  then show ?thesis
    using assms runs_commit[OF assms] by (cases err) (auto intro: sound_runs_steady queueCommittedEntries_steady)
qed

lemma acceptAppend_runs: "runs S c d \<Longrightarrow> sound b (runs S c) (acceptAppend m changed before d)"
proof -
  assume r: "runs S c d"
  have reply: "runs S c (queueAppendResponse m ok' k hint q e)" if "runs S c e" for ok' k hint q e
    unfolding queueAppendResponse_def by (rule runs_steady[OF that steady_queueMessage]) simp
  have queue: "runs S c (queueEntries es e)" if "runs S c e" for es e
    by (rule runs_steady[OF that steady_queueEntries])
  show ?thesis
    unfolding acceptAppend_def Let_def
    by (rule sound_and_then[where P = "runs S c"])
      (use r commit_runs[OF r] in \<open>auto intro!: reply queue\<close>)
qed

lemma NewLog_copy:
  "log_wf l \<Longrightarrow> NewLog (lSnapshotIndex l) (lSnapshotTerm l) (lCommitIndex l) (lAppliedIndex l) (lEntries l) = Inr l"
  using checkContiguous_ok[of "lSnapshotIndex l" "lEntries l" "lLastIndex l"]
  by (simp add: NewLog_def log_wf_def not_less)

definition append_valid :: "AppendEntriesRequest \<Rightarrow> bool" where
  "append_valid m \<longleftrightarrow> sorted (aqPrevLogTerm m # map eTerm (aqEntries m)) \<and> (\<forall>e \<in> set (aqEntries m). eTerm e \<le> aqTerm m)"

lemma handleAppendRequest_runs:
  assumes r: "runs S c d" and v: "append_valid m"
  shows "sound (yields d) (runs S c) (handleAppendRequest m d)"
proof (cases "aqTerm m < cTerm d")
  case True
  have "runs S c (queueAppendResponse m ok' k hint q d)" for ok' k hint q
    unfolding queueAppendResponse_def by (rule runs_steady[OF r steady_queueMessage]) simp
  then show ?thesis
    using True by (simp add: handleAppendRequest_def Let_def)
next
  case False
  have wf: "log_wf (cLog d)"
    using runsD(3)[OF r] by (simp add: log_ok_def)
  obtain l hint err where a: "Append (aqPrevLogIndex m) (aqPrevLogTerm m) (aqEntries m) (cLog d) = (l, hint, err)"
    by (metis prod_cases3)
  have contact: "sound (yields d) (\<lambda>e. runs S c e \<and> follows (aqLeaderID m) (aqTerm m) d e)
      (handleLeaderContact (aqLeaderID m) (aqTerm m) d)"
    using handleLeaderContact_runs[OF r] False by simp
  have reply: "runs S c (queueAppendResponse m ok' k hint q e)" if "runs S c e" for ok' k hint q e
    unfolding queueAppendResponse_def by (rule runs_steady[OF that steady_queueMessage]) simp
  have trial: "runs S c (e\<lparr>cLog := l\<rparr>)" if "runs S c e" "follows (aqLeaderID m) (aqTerm m) d e" for e
    by (rule runs_append[OF that(1), of "aqPrevLogIndex m" "aqPrevLogTerm m" "aqEntries m" l hint err])
      (use a that(2) v in \<open>simp_all add: follows_def append_valid_def\<close>)
  have "sound (yields d) (runs S c) (and_then (handleLeaderContact (aqLeaderID m) (aqTerm m) d) (\<lambda>core.
      if err \<noteq> None then ok (queueAppendResponse m False 0 hint \<lparr>dpHardState = q, dpEntriesThrough = 0\<rparr> core)
      else acceptAppend m q (lEntries (cLog d)) (core\<lparr>cLog := l\<rparr>)))" for q
    by (rule sound_and_then[OF contact]) (auto intro: reply acceptAppend_runs trial)
  then show ?thesis
    using False a r by (auto simp: handleAppendRequest_def Let_def NewLog_copy[OF wf] split: option.split)
qed

lemma receiveChunk_moves:
  assumes "runs S c d" "rdSnapshotActions (cPendingReady d) = []" "cTerm d = iqTerm m"
    and "lCommitIndex (cLog d) < iqLastIncludedIndex m"
  shows "moves S c (receiveChunk m d)"
proof -
  have act: "moves S c (queueSnapshotAction \<lparr>saKind = k, saRequest = m, saReset = b\<rparr> (d\<lparr>cIncomingSnapshot := Some i\<rparr>))"
    if "tmTerm (inMetadata i) \<le> cTerm d" for k b i
    using moves_action[OF assms(1,2), of "\<lparr>saKind = k, saRequest = m, saReset = b\<rparr>" "Some i"] assms(4) that by simp
  have tm: "tmTerm (snapshotTransferMetadataFor m) \<le> cTerm d"
    using assms(3) by (simp add: snapshotTransferMetadataFor_def)
  have old: "moves S c (queueSnapshotAction \<lparr>saKind = k, saRequest = m, saReset = b\<rparr> d)" for k b
    using moves_action[OF assms(1,2), of "\<lparr>saKind = k, saRequest = m, saReset = b\<rparr>" "cIncomingSnapshot d"] assms(4)
      pending_okD(2)[OF runsD(5)[OF assms(1)]] by simp
  show ?thesis
  proof (cases "cIncomingSnapshot d")
    case None
    then show ?thesis
      by (simp add: receiveChunk_def Let_def act tm old)
  next
    case (Some i)
    then show ?thesis
      using pending_okD(2)[OF runsD(5)[OF assms(1)] Some] by (simp add: receiveChunk_def Let_def act tm old)
  qed
qed

lemma handleInstallSnapshotRequest_moves:
  assumes r: "runs S c d" and none: "rdSnapshotActions (cPendingReady d) = []"
  shows "sound (yields d) (moves S c) (handleInstallSnapshotRequest m d)"
proof (cases "iqTerm m < cTerm d")
  case True
  then show ?thesis
    using runs_moves[OF runs_steady[OF r steady_queueMessage]]
    by (simp add: handleInstallSnapshotRequest_def installReply_def)
next
  case False
  have contact: "sound (yields d) (\<lambda>e. runs S c e \<and> follows (iqLeaderID m) (iqTerm m) d e)
      (handleLeaderContact (iqLeaderID m) (iqTerm m) d)"
    using handleLeaderContact_runs[OF r] False by simp
  have reply: "moves S c (queueMessage to (installReply m n b e) q (cancelIncomingSnapshot e))" if "runs S c e" for to n b e q
    by (rule runs_moves[OF runs_steady[OF cancelIncomingSnapshot_runs[OF that] steady_queueMessage]])
      (simp add: installReply_def)
  have chunk: "moves S c (receiveChunk m e)" if "runs S c e" "follows (iqLeaderID m) (iqTerm m) d e"
      "same_authority (iqLeaderID m) (iqTerm m) d" "\<not> iqLastIncludedIndex m \<le> lCommitIndex (cLog e)" for e
    using that none by (intro receiveChunk_moves) (simp_all add: follows_def)
  have "installReply m n b (cancelIncomingSnapshot e) = installReply m n b e" for n b e
    using calmD(1,3)[OF cancelIncomingSnapshot_calm[of e]] by (simp add: installReply_def)
  then show ?thesis
    unfolding handleInstallSnapshotRequest_def if_not_P[OF False] Let_def
    by (intro sound_and_then[OF contact])
      (auto simp: runs_moves reply same_authority_def split: option.splits intro!: chunk)
qed

end
