(* ===== verification/Raft_Core_Ops.thy ===== *)
theory Raft_Core_Ops
  imports Raft_Core_Runs Raft_Storage_Facts
begin

text \<open>
  The remaining operations of the core: responses to the leader, peer messages, proposals, the
  \<open>Ready\<close>/\<open>Advance\<close> cycle, snapshots of the owner and construction.
\<close>

declare advanceCommitFrom.simps [simp del] collectEntries.simps [simp del] queueCommittedFrom.simps [simp del]

section \<open>Responses to the leader\<close>

text \<open>The leader of a term between two bookkeeping steps.\<close>

definition leads :: "u16 set \<Rightarrow> Core \<Rightarrow> u64 \<Rightarrow> Core \<Rightarrow> bool" where
  "leads S c t d \<longleftrightarrow> runs S c d \<and> cRole d = RoleLeader \<and> cTerm d = t"

lemma leads_runs: "leads S c t d \<Longrightarrow> runs S c d"
  by (simp add: leads_def)

lemma leads_maps: "leads S c t d \<Longrightarrow> cProgress d \<noteq> None" "leads S c t d \<Longrightarrow> cQuorumResponses d \<noteq> None"
  using runsD(4)[of S c d] by (auto simp: leads_def role_ok_def)

lemma leads_steady: "leads S c t d \<Longrightarrow> sound True (steady d) m \<Longrightarrow> sound b (leads S c t) m"
proof -
  assume l: "leads S c t d" and m: "sound True (steady d) m"
  have "leads S c t e" if "steady d e" for e
    using l runs_steady[OF _ that] calmD(3,5)[OF steadyD(1)[OF that]] by (simp add: leads_def)
  then show ?thesis
    using sound_weaken[OF sound_mono[OF m]] by blast
qed

lemma putProgress_leads: "leads S c t d \<Longrightarrow> sound b (leads S c t) (putProgress peer x d)"
  by (rule leads_steady) (auto intro: putProgress_steady dest: leads_maps(1))

lemma putQuorumResponse_leads: "leads S c t d \<Longrightarrow> sound b (leads S c t) (putQuorumResponse peer d)"
  by (rule leads_steady) (auto intro: putQuorumResponse_steady dest: leads_maps(2))

lemma advanceCommitFrom_runs: "runs S c d \<Longrightarrow> sound b (runs S c) (advanceCommitFrom current k d)"
proof (induction current k d rule: advanceCommitFrom.induct)
  case (1 current k d)
  show ?case
  proof (cases "current < k \<and> (\<exists>t. Term (cLog d) k = Inr t)")
    case True
    then obtain t where t: "Term (cLog d) k = Inr t" by blast
    show ?thesis
      using True t 1 commit_runs[OF 1(2), where k = k and prev = current and b = b]
      by (subst advanceCommitFrom.simps) simp
  next
    case False
    then show ?thesis
      using 1(2) by (subst advanceCommitFrom.simps) (auto split: sum.split)
  qed
qed

lemma advanceLeaderCommit_runs: "runs S c d \<Longrightarrow> sound b (runs S c) (advanceLeaderCommit d)"
  by (simp add: advanceLeaderCommit_def advanceCommitFrom_runs)

lemma issueAppend_runs: "runs S c d \<Longrightarrow> sound b (runs S c) (issueAppend peer d)"
  by (erule sound_runs_steady) (rule issueAppend_steady)

lemma issueSnapshotChunk_runs: "runs S c d \<Longrightarrow> sound b (runs S c) (issueSnapshotChunk peer d)"
  by (erule sound_runs_steady) (rule issueSnapshotChunk_steady)

lemma sound_leads_then:
  "sound b (leads S c t) m \<Longrightarrow> (\<And>s. leads S c t s \<Longrightarrow> sound b (runs S c) (f s)) \<Longrightarrow> sound b (runs S c) (and_then m f)"
  by (erule sound_and_then) (auto simp: leads_runs)

lemma sound_runs_then:
  "sound b (runs S c) m \<Longrightarrow> (\<And>s. runs S c s \<Longrightarrow> sound b (runs S c) (f s)) \<Longrightarrow> sound b (runs S c) (and_then m f)"
  by (erule sound_and_then) auto

lemma putQuorumResponse_runs: "leads S c t d \<Longrightarrow> sound b (runs S c) (putQuorumResponse peer d)"
  by (rule sound_mono[OF putQuorumResponse_leads leads_runs])

text \<open>Recording a response is a progress update and a quorum response, then whatever the leader does next.\<close>

lemma response_runs:
  assumes "leads S c t d" "\<And>e. leads S c t e \<Longrightarrow> sound b (runs S c) (f e)"
  shows "sound b (runs S c) (and_then (putProgress peer x d) (\<lambda>core. and_then (putQuorumResponse peer' core) f))"
proof (rule sound_leads_then[OF putProgress_leads[OF assms(1)]])
  fix e
  assume "leads S c t e"
  then show "sound b (runs S c) (and_then (putQuorumResponse peer' e) f)"
    using assms(2) by (rule sound_leads_then[OF putQuorumResponse_leads])
qed

lemma commit_then_runs:
  "runs S c d \<Longrightarrow> (\<And>e. runs S c e \<Longrightarrow> sound b (runs S c) (f e)) \<Longrightarrow> sound b (runs S c) (and_then (advanceLeaderCommit d) f)"
  by (rule sound_runs_then[OF advanceLeaderCommit_runs])

lemma appendSucceeded_runs: "leads S c t d \<Longrightarrow> sound b (runs S c) (appendSucceeded m progress d)"
proof -
  assume l: "leads S c t d"
  have "sound b (runs S c) (and_then (putProgress peer x d) (\<lambda>core. and_then (putQuorumResponse peer' core)
      (\<lambda>core. and_then (advanceLeaderCommit core) (\<lambda>core. if q core then issueAppend peer'' core else ok core))))"
    for peer peer' peer'' x q
    by (rule response_runs[OF l], rule commit_then_runs) (simp_all add: leads_runs issueAppend_runs)
  then show ?thesis
    using leads_runs[OF l] by (simp add: appendSucceeded_def Let_def split: option.split)
qed

lemma appendRefused_runs: "leads S c t d \<Longrightarrow> sound b (runs S c) (appendRefused m progress d)"
proof -
  assume l: "leads S c t d"
  have "sound b (runs S c) (and_then (putProgress peer x d) (putQuorumResponse peer'))" for peer peer' x
    by (rule sound_leads_then[OF putProgress_leads[OF l] putQuorumResponse_runs])
  moreover have "sound b (runs S c) (and_then (putProgress peer x d) (\<lambda>core. and_then (putQuorumResponse peer' core)
      (issueAppend peer'')))" for peer peer' peer'' x
    by (rule response_runs[OF l]) (simp add: issueAppend_runs leads_runs)
  ultimately show ?thesis
    using leads_runs[OF l] by (simp add: appendRefused_def Let_def split: option.split)
qed

lemma handleAppendResponse_runs: "runs S c d \<Longrightarrow> sound b (runs S c) (handleAppendResponse m d)"
proof (cases "cRole d = RoleLeader")
  case True
  assume r: "runs S c d"
  then have l: "leads S c (cTerm d) d"
    using True by (simp add: leads_def)
  have "sound b (runs S c) (and_then (putProgress peer x d) (\<lambda>core. and_then (putQuorumResponse peer' core)
      (\<lambda>core. ok (adoptHigherTerm t core))))" if "cTerm d < t" for peer peer' x t
    by (rule response_runs[OF l]) (use that adoptHigherTerm_runs in \<open>auto simp: leads_def\<close>)
  then show ?thesis
    using r appendSucceeded_runs[OF l] appendRefused_runs[OF l]
    by (simp add: handleAppendResponse_def Let_def split: option.split)
qed (simp add: handleAppendResponse_def)

lemma snapshotInstalled_runs: "leads S c t d \<Longrightarrow> sound b (runs S c) (snapshotInstalled peer included d)"
proof -
  assume l: "leads S c t d"
  have "sound b (runs S c) (and_then (putProgress peer x e) (\<lambda>core. and_then (advanceLeaderCommit core) (issueAppend peer)))"
    if "leads S c t e" for e x
    by (rule sound_leads_then[OF putProgress_leads[OF that]], rule commit_then_runs)
      (simp_all add: leads_runs issueAppend_runs)
  then show ?thesis
    unfolding snapshotInstalled_def Let_def
    by (intro sound_leads_then[OF leads_steady[OF l clearOutgoingSnapshot_steady]])
      (simp add: leads_runs split: option.split)
qed

lemma handleInstallSnapshotResponse_runs:
  "runs S c d \<Longrightarrow> sound b (runs S c) (handleInstallSnapshotResponse m d)"
proof (cases "cRole d = RoleLeader")
  case True
  assume r: "runs S c d"
  then have l: "leads S c (cTerm d) d"
    using True by (simp add: leads_def)
  have out: "leads S c (cTerm d) (e\<lparr>cOutgoingSnapshots := x\<rparr>)" if "leads S c (cTerm d) e" for e x
    using that by (simp add: leads_def)
  have put: "sound b (runs S c) (and_then (putProgress peer x e) f)"
    if "leads S c (cTerm d) e" "\<And>e. leads S c (cTerm d) e \<Longrightarrow> sound b (runs S c) (f e)" for e x f peer
    by (rule sound_leads_then[OF putProgress_leads[OF that(1)] that(2)])
  show ?thesis
    using r adoptHigherTerm_runs[OF r] unfolding handleInstallSnapshotResponse_def Let_def
    by (auto split: option.split intro!: sound_leads_then[OF putQuorumResponse_leads[OF l]] put out
        issueSnapshotChunk_runs[OF leads_runs[of S c "cTerm d"]] snapshotInstalled_runs)
qed (simp add: handleInstallSnapshotResponse_def Let_def)

section \<open>Peer messages\<close>

lemma core_ok_moves: "core_ok c \<Longrightarrow> moves S c c"
  by (simp add: moves_def core_le_refl counts_def reports_def) blast

lemma sound_moves: "sound b (runs S c) m \<Longrightarrow> sound b (moves S c) m"
  by (erule sound_mono) (rule runs_moves)

lemma EncodeRPC_append_valid: "EncodeRPC (RAppendEntriesRequest m) limits = Inr x \<Longrightarrow> append_valid m"
proof -
  assume "EncodeRPC (RAppendEntriesRequest m) limits = Inr x"
  then obtain r where "validateAppendRequest m r = None"
    by (cases x) (auto simp: EncodeRPC_iff)
  then have v: "validateAppendEntries (clMaxCommandBytes r) (aqTerm m) (aqPrevLogIndex m) (aqPrevLogTerm m)
      (aqEntries m) = None"
    by (simp add: validateAppendRequest_def split: if_splits)
  show ?thesis
    using validateAppendEntries_index[OF v] validateAppendEntries_terms[OF v]
    by (auto simp: append_valid_def in_set_conv_nth)
qed

lemma stepAdmission_ok:
  assumes "stepAdmission sender rpc d = None" "voters_wf (cVoters d)"
  shows "rpc_actor rpc = sender" "rpc_actor rpc \<in> voter_ids (cVoters d)"
    "rpc = RAppendEntriesRequest m \<Longrightarrow> append_valid m"
  using assms EncodeRPC_append_valid
  by (auto simp: stepAdmission_def ValidateRPCSender_def Contains_iff split: if_splits option.splits sum.splits)

lemma dispatch_moves:
  assumes r: "runs S d d" "rdSnapshotActions (cPendingReady d) = []" and "support rpc (cLocalID d) (cTerm d) \<subseteq> S"
    and "rpc_actor rpc \<in> voter_ids (cVoters d)" "\<And>m. rpc = RAppendEntriesRequest m \<Longrightarrow> append_valid m"
  shows "sound (yields d) (moves S d) (dispatch rpc d)"
  using assms handleVoteRequest_moves[OF r(1)] handleInstallSnapshotRequest_moves[OF r]
  by (cases rpc) (simp_all add: sound_moves handlePreVoteRequest_runs handlePreVoteResponse_runs
      handleVoteResponse_runs handleAppendRequest_runs handleAppendResponse_runs handleInstallSnapshotResponse_runs runs_moves)

lemma Step_moves:
  assumes "core_ok d"
  shows "sound (yields d) (moves (support rpc (cLocalID d) (cTerm d)) d) (Step sender rpc d)"
proof -
  have wf: "voters_wf (cVoters d)"
    using assms by (simp add: core_ok_def fixed_ok_def)
  have "sound (yields d) (moves (support rpc (cLocalID d) (cTerm d)) d) (dispatch rpc d)"
    if "stepAdmission sender rpc d = None" "\<not> cHasPending d"
  proof -
    have i: "idle d"
      using assms that(2) by (simp add: idle_def)
    then have "rdSnapshotActions (cPendingReady d) = []"
      using idle_pending[OF i] by (simp add: empty_Ready_def)
    then show ?thesis
      using idle_runs[OF i] stepAdmission_ok[OF that(1) wf] by (intro dispatch_moves) auto
  qed
  then show ?thesis
    using core_ok_moves[OF assms] by (simp add: Step_def split: option.split)
qed

lemma Tick_moves: "core_ok d \<Longrightarrow> sound (yields d) (moves {} d) (Tick now d)"
proof (cases "cHasPending d")
  case True
  assume "core_ok d"
  then show ?thesis
    using True core_ok_moves by (simp add: Tick_def split: option.split)
next
  case False
  assume "core_ok d"
  then show ?thesis
    using False sound_moves[OF Tick_runs[OF idle_runs]] by (simp add: idle_def)
qed

section \<open>Proposals\<close>

text \<open>A call with a result next to the core.\<close>

definition settles :: "(Core \<Rightarrow> bool) \<Rightarrow> (Core \<times> 'r) option \<Rightarrow> bool" where
  "settles P m \<longleftrightarrow> (\<exists>e r. m = Some (e, r) \<and> P e)"

lemma settles_Some [simp]: "settles P (Some (e, r)) \<longleftrightarrow> P e"
  by (simp add: settles_def)

lemma settles_outcome:
  "sound True P m \<Longrightarrow> settles P (case m of None \<Rightarrow> None | Some (e, Some err) \<Rightarrow> Some (e, Inl err)
     | Some (e, None) \<Rightarrow> Some (e, Inr x))"
  by (cases m) (auto simp: sound_def split: option.split)

lemma replicate_leads:
  assumes "leads S c t d"
  shows "sound b (runs S c) (and_then (putProgress peer x d) (\<lambda>core. for_each issueAppend (peers core) (queueEntries es core)))"
proof (rule sound_leads_then[OF putProgress_leads[OF assms]])
  fix e
  assume "leads S c t e"
  then have "runs S c (queueEntries es e)"
    using runs_steady[OF leads_runs steady_queueEntries] by blast
  then show "sound b (runs S c) (for_each issueAppend (peers e) (queueEntries es e))"
    by (rule sound_runs_steady) (intro steady.sound_each issueAppend_steady)
qed

lemma proposeTracked_moves:
  assumes ok: "core_ok d"
  shows "settles (moves {} d) (proposeTracked kind command d)"
proof (cases "cHasPending d \<or> cRole d \<noteq> RoleLeader")
  case True
  then show ?thesis
    using core_ok_moves[OF ok] by (auto simp: proposeTracked_def Let_def split: option.split)
next
  case False
  then have r: "runs {} d d" and terms: "terms_ok (cTerm d) (cLog d)"
    using idle_runs[of d] ok by (simp_all add: idle_def core_ok_def log_ok_def)
  have "settles (moves {} d) (case Append (lLastIndex (cLog d)) (LastTerm (cLog d)) [entry] (cLog d) of
      (l, _, Some err) \<Rightarrow> Some (d\<lparr>cLog := l\<rparr>, Inl err)
    | (l, _, None) \<Rightarrow>
        let proposalID = cNextProposalID d + 1
        in case and_then
             (putProgress (cLocalID d) x (d\<lparr>cLog := l, cNextProposalID := proposalID,
                 cPendingProposals := (cPendingProposals d)(proposalID \<mapsto> entry),
                 cPendingProposalOrder := cPendingProposalOrder d @ [proposalID],
                 cProposalAtIndex := (cProposalAtIndex d)(eIndex entry \<mapsto> proposalID)\<rparr>))
             (\<lambda>core. for_each issueAppend (peers core) (queueEntries [entry] core)) of
             None \<Rightarrow> None
           | Some (core', Some err) \<Rightarrow> Some (core', Inl err)
           | Some (core', None) \<Rightarrow> Some (core', Inr (proposalID, entry)))"
    if e: "NewEntry newIndex (cTerm d) kind command = Inr entry" for entry newIndex x
  proof -
    obtain l h err where a: "Append (lLastIndex (cLog d)) (LastTerm (cLog d)) [entry] (cLog d) = (l, h, err)"
      by (metis prod_cases3)
    have l: "runs {} d (d\<lparr>cLog := l\<rparr>)"
      by (rule runs_append[OF r a]) (use NewEntry_ok[OF e] terms_ok_LastTerm[OF terms] in simp_all)
    have "leads {} d (cTerm d) (d\<lparr>cLog := l, cNextProposalID := x1, cPendingProposals := x2,
        cPendingProposalOrder := x3, cProposalAtIndex := x4\<rparr>)" for x1 x2 x3 x4
      using False by (auto simp: leads_def core_view_def intro!: runs_same[OF l])
    note repl = sound_moves[OF replicate_leads[OF this]]
    show ?thesis
      using a runs_moves[OF l] unfolding Let_def by (cases err) (auto intro!: settles_outcome repl)
  qed
  then show ?thesis
    using core_ok_moves[OF ok] unfolding proposeTracked_def Let_def
    by (simp split: option.split sum.split)
qed

section \<open>The Ready cycle\<close>

lemma moves_from:
  assumes "core_ok c" "core_ok e" "cLocalID e = cLocalID c" "cVoters e = cVoters c" "cHardState e = cHardState c"
    "cRole e = cRole c" "cVotes e = cVotes c" "log_step\<^sup>*\<^sup>* (cLog c) (cLog e)"
    "cElectionTimeoutMax e = cElectionTimeoutMax c" "cElectionTimeoutMin e = cElectionTimeoutMin c"
  shows "moves S c e"
  using assms unfolding moves_def core_le_def counts_def reports_def by (auto split: if_splits)

lemma ReadyOf_moves:
  assumes ok: "core_ok d"
  shows "moves {} d (fst (ReadyOf d))"
proof -
  have "core_ok (d\<lparr>cTerminalErr := x\<rparr>)" for x
    using ok core_ok_view[of "d\<lparr>cTerminalErr := x\<rparr>" d] by (simp add: core_view_def)
  moreover have "core_ok (d\<lparr>cNextToken := t, cPendingReady := (cPendingReady d)\<lparr>rdToken := t\<rparr>\<rparr>)" if "cHasPending d" for t
  proof -
    let ?e = "d\<lparr>cNextToken := t, cPendingReady := (cPendingReady d)\<lparr>rdToken := t\<rparr>\<rparr>"
    have "fixed_ok ?e" "log_ok ?e" "role_ok ?e"
      using ok by (simp_all add: core_ok_def fixed_ok_def log_ok_def role_ok_def)
    moreover have e: "cHardState ?e = cHardState d" "cLog ?e = cLog d" "cLocalID ?e = cLocalID d" "cHasPending ?e = cHasPending d"
      "rdHardState (cPendingReady ?e) = rdHardState (cPendingReady d)" "ballots ?e = ballots d"
      "cIncomingSnapshot ?e = cIncomingSnapshot d" "cSnapshotActionDone ?e = cSnapshotActionDone d"
      "rdSnapshotActions (cPendingReady ?e) = rdSnapshotActions (cPendingReady d)"
      by (simp_all add: ballots_def)
    have "pending_ok ?e"
      using ok that unfolding core_ok_def pending_ok_def e by blast
    ultimately show ?thesis by (simp add: core_ok_def)
  qed
  ultimately show ?thesis
    using ok core_ok_moves[OF ok]
    by (auto simp: ReadyOf_def Let_def intro!: moves_from[OF ok])
qed

lemma core_ok_finish:
  assumes "core_ok d"
  shows "core_ok (d\<lparr>cPendingReady := empty_Ready, cHasPending := False, cSnapshotActionDone := False\<rparr>)" (is "core_ok ?e")
proof -
  have "fixed_ok ?e" "log_ok ?e" "role_ok ?e"
    using assms by (simp_all add: core_ok_def fixed_ok_def log_ok_def role_ok_def)
  moreover have "pending_ok d"
    using assms by (simp add: core_ok_def)
  then have "pending_ok ?e"
    using pending_okD(2)[of d] by (intro pending_okI) (simp_all add: unvoted_def ballots_def empty_Ready_def)
  ultimately show ?thesis by (simp add: core_ok_def)
qed

lemma core_ok_log:
  assumes "core_ok d" "log_wf l" "lCommitIndex l = lCommitIndex (cLog d)" "terms_ok (cTerm d) l"
  shows "core_ok (d\<lparr>cLog := l\<rparr>)" (is "core_ok ?e")
proof -
  have "fixed_ok ?e" "log_ok ?e" "role_ok ?e"
    using assms by (simp_all add: core_ok_def fixed_ok_def log_ok_def role_ok_def)
  moreover have "pending_ok ?e"
    using assms pending_ok_eq[of ?e d] by (simp add: core_ok_def)
  ultimately show ?thesis by (simp add: core_ok_def)
qed

lemma AdvanceApplied_cases:
  "AdvanceApplied k l = (l', err) \<Longrightarrow> l' = l \<or> l' = l\<lparr>lAppliedIndex := k\<rparr>"
  by (auto simp: AdvanceApplied_def split: if_splits)

lemma Advance_moves:
  assumes ok: "core_ok d"
  shows "moves {} d (fst (Advance token d))"
proof -
  have wf: "log_wf (cLog d)" "terms_ok (cTerm d) (cLog d)"
    using ok by (simp_all add: core_ok_def log_ok_def)
  have finish: "moves {} d (d\<lparr>cPendingReady := empty_Ready, cHasPending := False, cSnapshotActionDone := False\<rparr>)"
    by (rule moves_from[OF ok core_ok_finish[OF ok]]) simp_all
  have applied: "moves {} d (d\<lparr>cLog := l, cPendingReady := empty_Ready, cHasPending := False, cSnapshotActionDone := False\<rparr>)"
    if a: "AdvanceApplied k (cLog d) = (l, err)" for k l err
  proof -
    have step: "log_step (cLog d) l"
      using a by (rule log_step.applied)
    have "core_ok (d\<lparr>cLog := l\<rparr>)"
      by (rule core_ok_log[OF ok]) (use AdvanceApplied_cases[OF a] log_step_preserves[OF step] wf in auto)
    then show ?thesis
      using core_ok_finish[of "d\<lparr>cLog := l\<rparr>"] step by (intro moves_from[OF ok]) auto
  qed
  show ?thesis
    using core_ok_moves[OF ok] finish applied
    by (simp add: Advance_def Let_def split: option.split prod.split)
qed

section \<open>Snapshots of the owner\<close>

lemma CompactSnapshot_moves:
  assumes ok: "core_ok d"
  shows "moves {} d (fst (CompactSnapshot metadata d))"
proof -
  have wf: "log_wf (cLog d)" "terms_ok (cTerm d) (cLog d)"
    using ok by (simp_all add: core_ok_def log_ok_def)
  have "moves {} d (d\<lparr>cLog := l\<rparr>)" "moves {} d (d\<lparr>cLog := l, cOutgoingSnapshots := x, cProgress := map_option f (cProgress d)\<rparr>)"
    if a: "Compact k t (cLog d) = (l, err)" for k t l err x f
  proof -
    have step: "log_step (cLog d) l"
      using a by (rule log_step.compact)
    have c: "core_ok (d\<lparr>cLog := l\<rparr>)"
    proof (rule core_ok_log[OF ok])
      show "lCommitIndex l = lCommitIndex (cLog d)"
        using Compact_cases[OF wf(1) a] by auto
    qed (use log_step_preserves[OF step wf(1)] Compact_terms[OF wf(1) a wf(2)] in auto)
    then show "moves {} d (d\<lparr>cLog := l\<rparr>)"
      using step by (intro moves_from[OF ok]) auto
    have "core_ok (d\<lparr>cLog := l, cOutgoingSnapshots := x, cProgress := map_option f (cProgress d)\<rparr>)" (is "core_ok ?e")
    proof -
      have "fixed_ok ?e" "log_ok ?e" "role_ok ?e"
        using c by (simp_all add: core_ok_def fixed_ok_def log_ok_def role_ok_def)
      moreover have "pending_ok ?e"
        using c pending_ok_eq[of ?e "d\<lparr>cLog := l\<rparr>"] by (simp add: core_ok_def)
      ultimately show ?thesis by (simp add: core_ok_def)
    qed
    then show "moves {} d (d\<lparr>cLog := l, cOutgoingSnapshots := x, cProgress := map_option f (cProgress d)\<rparr>)"
      using step by (intro moves_from[OF ok]) auto
  qed
  then show ?thesis
    using core_ok_moves[OF ok] by (simp add: CompactSnapshot_def Let_def split: option.split prod.split)
qed

lemma StartSnapshotTransfer_moves:
  assumes ok: "core_ok d"
  shows "sound b (moves {} d) (StartSnapshotTransfer peer snapshot transferID limit d)"
proof (cases "cHasPending d \<or> cRole d \<noteq> RoleLeader")
  case True
  then show ?thesis
    using core_ok_moves[OF ok] by (auto simp: StartSnapshotTransfer_def split: option.split)
next
  case False
  then have "leads {} d (cTerm d) (d\<lparr>cOutgoingSnapshots := x\<rparr>)" for x
    using idle_runs[of d] ok by (simp add: leads_def idle_def)
  then have "sound b (moves {} d) (and_then (putProgress peer x (d\<lparr>cOutgoingSnapshots := y\<rparr>)) (issueSnapshotChunk peer))" for x y
    by (intro sound_moves sound_leads_then[OF putProgress_leads] issueSnapshotChunk_runs) (auto simp: leads_runs)
  then show ?thesis
    using core_ok_moves[OF ok] by (simp add: StartSnapshotTransfer_def Let_def split: option.split)
qed

lemma adoptInstalled_cases:
  "adoptInstalled request st n d = (e, r) \<Longrightarrow> e = d \<or> installedStateMatches request st d \<and>
     (\<exists>l. NewLog (rsBaseIndex st) (smLastIncludedTerm (rsSnapshotBase st)) (rsCommitIndex st) (rsAppliedIndex st) (rsEntries st) = Inr l
        \<and> e = d\<lparr>cLog := l, cHardState := rsHardState st, cIncomingSnapshot := None, cSnapshotActionDone := True\<rparr>)"
  unfolding adoptInstalled_def Let_def by (auto split: if_splits sum.splits)

lemma completeStaged_cases:
  "completeStaged request incoming result d = (e, r) \<Longrightarrow> e = d
     \<or> e = d\<lparr>cIncomingSnapshot := Some (incoming\<lparr>inNextOffset := sarNextOffset result\<rparr>), cSnapshotActionDone := True\<rparr>
     \<or> sarDone result \<and> (\<exists>n. adoptInstalled request (sarState result) n d = (e, r))"
  unfolding completeStaged_def Let_def by (auto split: if_splits)

text \<open>What the completion of a snapshot action can do: nothing, close the action with an update of the
  transfer, or adopt the installed state.\<close>

lemma CompleteSnapshotAction_cases:
  assumes "CompleteSnapshotAction token result d = (e, r)"
  obtains "e = d"
  | "e = d\<lparr>cIncomingSnapshot := None, cSnapshotActionDone := True\<rparr>" "cHasPending d"
  | incoming n where "e = d\<lparr>cIncomingSnapshot := Some (incoming\<lparr>inNextOffset := n\<rparr>), cSnapshotActionDone := True\<rparr>"
      "cIncomingSnapshot d = Some incoming" "cHasPending d"
  | action l where "rdSnapshotActions (cPendingReady d) = [action]" "saKind action = SnapshotActionStage"
      "\<not> cSnapshotActionDone d" "cHasPending d" "sarDone result"
      "installedStateMatches (saRequest action) (sarState result) d"
      "NewLog (rsBaseIndex (sarState result)) (smLastIncludedTerm (rsSnapshotBase (sarState result)))
         (rsCommitIndex (sarState result)) (rsAppliedIndex (sarState result)) (rsEntries (sarState result)) = Inr l"
      "e = d\<lparr>cLog := l, cHardState := rsHardState (sarState result), cIncomingSnapshot := None, cSnapshotActionDone := True\<rparr>"
proof -
  let ?bad = "\<not> cHasPending d \<or> token = 0 \<or> token \<noteq> rdToken (cPendingReady d)
    \<or> length (rdSnapshotActions (cPendingReady d)) \<noteq> 1 \<or> cSnapshotActionDone d"
  have live: "cTerminalErr d = None \<and> \<not> ?bad" if "e \<noteq> d"
  proof (cases "cTerminalErr d")
    case None
    show ?thesis
    proof (cases ?bad)
      case True
      show ?thesis
        using assms that unfolding CompleteSnapshotAction_def Let_def None option.case if_P[OF True] by simp
    qed (simp add: None)
  qed (use assms that in \<open>simp add: CompleteSnapshotAction_def\<close>)
  consider "e = d" | action where "rdSnapshotActions (cPendingReady d) = [action]" "\<not> cSnapshotActionDone d" "cHasPending d"
    "cTerminalErr d = None" "\<not> ?bad"
    using live by (cases "e = d"; cases "rdSnapshotActions (cPendingReady d)") auto
  then show thesis
  proof cases
    case (2 action)
    let ?discard = "d\<lparr>cIncomingSnapshot := None, cSnapshotActionDone := True\<rparr>"
    have "e = d \<or> e = ?discard \<or> saKind action = SnapshotActionStage \<and>
        (\<exists>incoming. cIncomingSnapshot d = Some incoming \<and> completeStaged (saRequest action) incoming result d = (e, r))"
      using assms unfolding CompleteSnapshotAction_def Let_def 2(4) option.case if_not_P[OF 2(5)]
      by (cases "saKind action"; cases "cIncomingSnapshot d") (simp_all add: 2(1) split: if_splits)
    then consider "e = d" | "e = ?discard" | incoming where "saKind action = SnapshotActionStage"
      "cIncomingSnapshot d = Some incoming" "completeStaged (saRequest action) incoming result d = (e, r)"
      by blast
    then show thesis
    proof cases
      case (3 incoming)
      then show thesis
        using completeStaged_cases[OF 3(3)] adoptInstalled_cases that(1,3) that(4)[OF 2(1) 3(1) 2(2,3)] 2(3) by blast
    qed (use that(1,2) 2(3) in blast)+
  qed (rule that(1))
qed

lemma core_ok_closed:
  assumes "core_ok d" "cHasPending d" "\<And>i. incoming = Some i \<Longrightarrow> tmTerm (inMetadata i) \<le> cTerm d"
  shows "core_ok (d\<lparr>cIncomingSnapshot := incoming, cSnapshotActionDone := True\<rparr>)" (is "core_ok ?e")
proof -
  have "fixed_ok ?e" "log_ok ?e" "role_ok ?e"
    using assms(1) by (simp_all add: core_ok_def fixed_ok_def log_ok_def role_ok_def)
  moreover have e: "cHardState ?e = cHardState d" "cLog ?e = cLog d" "cLocalID ?e = cLocalID d" "cHasPending ?e = cHasPending d"
    "cPendingReady ?e = cPendingReady d" "ballots ?e = ballots d" "cIncomingSnapshot ?e = incoming" "cSnapshotActionDone ?e = True"
    by (simp_all add: ballots_def)
  have "pending_ok ?e"
    using assms unfolding core_ok_def pending_ok_def e by blast
  ultimately show ?thesis by (simp add: core_ok_def)
qed

text \<open>The terms of a durable state never decrease along its entries and stay within its term.\<close>

definition state_terms_ok :: "RecoveredState \<Rightarrow> bool" where
  "state_terms_ok st \<longleftrightarrow> sorted (smLastIncludedTerm (rsSnapshotBase st) # map eTerm (rsEntries st))
     \<and> (\<forall>x \<in> set (smLastIncludedTerm (rsSnapshotBase st) # map eTerm (rsEntries st)). x \<le> rsTerm st)"

lemma state_ok_terms: "state_ok sha256 limit voters st \<Longrightarrow> state_terms_ok st"
  by (auto simp: state_ok_def state_terms_ok_def)

lemma NewLog_fields:
  "NewLog si st ci ai es = Inr l \<Longrightarrow>
     lSnapshotIndex l = si \<and> lSnapshotTerm l = st \<and> lCommitIndex l = ci \<and> lAppliedIndex l = ai \<and> lEntries l = es"
  by (auto simp: NewLog_def split: if_splits sum.splits)

lemma core_ok_installed:
  assumes ok: "core_ok d" "cHasPending d" "installedStateMatches request st d" "state_terms_ok st"
    and l: "NewLog (rsBaseIndex st) (smLastIncludedTerm (rsSnapshotBase st)) (rsCommitIndex st) (rsAppliedIndex st) (rsEntries st) = Inr l"
  shows "core_ok (d\<lparr>cLog := l, cHardState := rsHardState st, cIncomingSnapshot := None, cSnapshotActionDone := True\<rparr>)" (is "core_ok ?e")
proof -
  have m: "rsTerm st = cTerm d" "hsVotedFor (rsHardState st) = cVotedFor d"
    using ok(3) by (simp_all add: installedStateMatches_def Let_def)
  have e: "cTerm ?e = cTerm d" "cVotedFor ?e = cVotedFor d" "cLocalID ?e = cLocalID d" "cHasPending ?e = cHasPending d"
    "cPendingReady ?e = cPendingReady d" "ballots ?e = ballots d" "cIncomingSnapshot ?e = None" "cSnapshotActionDone ?e = True"
    using m by (simp_all add: ballots_def)
  have "fixed_ok ?e" "role_ok ?e"
    using ok(1) m by (simp_all add: core_ok_def fixed_ok_def role_ok_def)
  moreover have "log_ok ?e"
    using NewLog_wf[OF l] NewLog_fields[OF l] ok(4) by (simp add: log_ok_def terms_ok_def state_terms_ok_def)
  moreover have "pending_ok ?e"
    using ok(1,2) unfolding core_ok_def pending_ok_def e by blast
  ultimately show ?thesis by (simp add: core_ok_def)
qed

lemma CompleteSnapshotAction_ok:
  assumes ok: "core_ok d" and c: "CompleteSnapshotAction token result d = (e, r)"
    and st: "sarDone result \<Longrightarrow> state_terms_ok (sarState result)"
  shows "core_ok e \<and> core_le d e \<and> cTerm e = cTerm d \<and> cVotedFor e = cVotedFor d \<and> cRole e = cRole d \<and> cVotes e = cVotes d
     \<and> cPendingReady e = cPendingReady d \<and> cHasPending e = cHasPending d
     \<and> cElectionTimeoutMax e = cElectionTimeoutMax d \<and> cElectionTimeoutMin e = cElectionTimeoutMin d"
  using c
proof (cases rule: CompleteSnapshotAction_cases)
  case 2
  then show ?thesis
    using core_ok_closed[OF ok, of None] by (simp add: core_le_def)
next
  case (3 incoming n)
  moreover have "pending_ok d"
    using ok by (simp add: core_ok_def)
  ultimately show ?thesis
    using core_ok_closed[OF ok, of "Some (incoming\<lparr>inNextOffset := n\<rparr>)"] pending_okD(2)[of d incoming] by (simp add: core_le_def)
next
  case (4 action l)
  note m = 4(6)[unfolded installedStateMatches_def Let_def]
  have "lCommitIndex (cLog d) < iqLastIncludedIndex (saRequest action)" "hsCommitIndex (cHardState d) = lCommitIndex (cLog d)"
    using ok 4(1-3) by (simp_all add: core_ok_def pending_ok_def log_ok_def)
  then have "hsCommitIndex (cHardState d) \<le> rsCommitIndex (sarState result)"
    using m by auto
  then show ?thesis
    using core_ok_installed[OF ok 4(4,6) st 4(7)] 4(5,8) m by (simp add: core_le_def)
qed (simp add: ok core_le_refl)

section \<open>Construction\<close>

lemma NewCore_ok:
  assumes "NewCore options = Some (Inr core)" "voters_wf (coVoters options)"
    and "\<And>l. coLog options = Some l \<Longrightarrow> sorted (lSnapshotTerm l # map eTerm (lEntries l))"
  shows "core_ok core \<and> \<not> cHasPending core \<and> cRole core = RoleFollower \<and> cHardState core = coHardState options
     \<and> cLocalID core = coLocalID options \<and> cVoters core = coVoters options"
proof -
  obtain l random x h d deadline where o: "coLog options = Some l" "coRandom options = Some random"
      "ValidateLocalID (coVoters options) (coLocalID options) = None"
      "coElectionTimeoutMin options < coElectionTimeoutMax options" "\<not> recoveryInvalid options l"
    and n: "NewLog (lSnapshotIndex l) (lSnapshotTerm l) (lCommitIndex l) (lAppliedIndex l) (lEntries l) = Inr x"
    and d: "sampleDeadline 0 (newCoreWith options h x random) = Some (d, Inr deadline)" "core = d\<lparr>cElectionDeadline := deadline\<rparr>"
    using assms(1) unfolding NewCore_def Let_def
    by (auto simp: not_le split: if_splits option.splits sum.splits prod.splits)
  obtain r where c: "core = (newCoreWith options h x random)\<lparr>cRandom := r, cElectionDeadline := deadline\<rparr>"
    using d by (cases rule: sampleDeadline_cases[of 0 "newCoreWith options h x random"]) auto
  note f = NewLog_fields[OF n]
  have sorted: "sorted (lSnapshotTerm x # map eTerm (lEntries x))"
    using assms(3)[OF o(1)] f by simp
  have "LastTerm x \<le> hsTerm (coHardState options)" "lCommitIndex x = hsCommitIndex (coHardState options)"
    using o(5) f by (auto simp: recoveryInvalid_def Let_def LastTerm_def)
  moreover have "last (lSnapshotTerm x # map eTerm (lEntries x)) = LastTerm x"
    by (cases "lEntries x = []") (simp_all add: LastTerm_def last_map last_conv_nth)
  ultimately have terms: "terms_ok (hsTerm (coHardState options)) x"
    using sorted sorted_le_last[OF sorted] unfolding terms_ok_def by (metis order_trans)
  have "coLocalID options \<in> voter_ids (coVoters options)"
    using o(3) assms(2) by (auto simp: ValidateLocalID_def Contains_iff split: if_splits)
  then show ?thesis
    using c o(4) assms(2) NewLog_wf[OF n] terms \<open>lCommitIndex x = _\<close>
    by (auto simp: newCoreWith_def core_ok_def fixed_ok_def log_ok_def role_ok_def intro!: pending_okI
        simp: unvoted_def ballots_def empty_Ready_def)
qed

end
