(* ===== verification/Raft_Core_Properties.thy ===== *)
theory Raft_Core_Properties
  imports Raft_Core_Ops
begin

text \<open>
  What the consensus core guarantees along every run of its operations, and the rules it applies when it
  votes and when it commits.
\<close>

section \<open>Runs of the core\<close>

text \<open>One call of an operation, whatever it returns.  A snapshot result that reports a completed
  installation carries a state that passed \<open>ValidateRecoveredState\<close>, as the owner checks before the call.\<close>

inductive core_step :: "Core \<Rightarrow> Core \<Rightarrow> bool" where
  tick: "Tick now c = Some (c', err) \<Longrightarrow> core_step c c'"
| message: "Step sender rpc c = Some (c', err) \<Longrightarrow> core_step c c'"
| propose: "proposeTracked kind command c = Some (c', r) \<Longrightarrow> core_step c c'"
| ready: "ReadyOf c = (c', batch) \<Longrightarrow> core_step c c'"
| advance: "Advance token c = (c', err) \<Longrightarrow> core_step c c'"
| compact: "CompactSnapshot metadata c = (c', err) \<Longrightarrow> core_step c c'"
| transfer: "StartSnapshotTransfer peer snapshot transferID limit c = Some (c', err) \<Longrightarrow> core_step c c'"
| complete: "CompleteSnapshotAction token result c = (c', r)
    \<Longrightarrow> (sarDone result \<Longrightarrow> validateRecoveredStateWithSnapshotLimit sha256 (sarState result) identity voters bound = None)
    \<Longrightarrow> core_step c c'"

lemma sound_moved: "sound b (moves S c) (Some (c', err)) \<Longrightarrow> core_ok c' \<and> core_le c c'"
  by (simp add: moves_def)

lemma core_step_ok: "core_step c c' \<Longrightarrow> core_ok c \<Longrightarrow> core_ok c' \<and> core_le c c'"
proof (induction rule: core_step.induct)
  case (tick now c c' err)
  then show ?case using Tick_moves[of c now] sound_moved by fastforce
next
  case (message sender rpc c c' err)
  then show ?case using Step_moves[of c rpc sender] sound_moved by fastforce
next
  case (propose kind command c c' r)
  then show ?case using proposeTracked_moves[of c kind command] by (simp add: moves_def)
next
  case (ready c c' batch)
  then show ?case using ReadyOf_moves[of c] by (simp add: moves_def)
next
  case (advance token c c' err)
  then show ?case using Advance_moves[of c token] by (simp add: moves_def)
next
  case (compact metadata c c' err)
  then show ?case using CompactSnapshot_moves[of c metadata] by (simp add: moves_def)
next
  case (transfer peer snapshot transferID limit c c' err)
  then show ?case using StartSnapshotTransfer_moves[of c True peer snapshot transferID limit] sound_moved by fastforce
next
  case (complete token result c c' r sha256 identity voters bound)
  have "sarDone result \<Longrightarrow> state_terms_ok (sarState result)"
    using complete(2) state_ok_terms by (auto simp: validate_iff)
  then show ?case
    using CompleteSnapshotAction_ok[OF complete(3,1)] by blast
qed

interpretation core_runs: guarded_system core_le core_step core_ok
  by unfold_locales (auto intro: core_le_refl core_le_trans dest: core_step_ok)

text \<open>A core that \<open>NewCore\<close> returns for a voter set that \<open>NewVoterSet\<close> built, and for a recovered log
  whose terms never decrease, is well-formed: its log is consistent with the hard state, no term of the log
  exceeds the current term, nothing is pending, and it starts as a follower with the recovered hard state.\<close>

theorem NewCore_wellformed:
  assumes "NewCore options = Some (Inr core)" "NewVoterSet sha256 parse configured = Inr (coVoters options)"
    and "\<forall>l. coLog options = Some l \<longrightarrow> sorted (lSnapshotTerm l # map eTerm (lEntries l))"
  shows "core_ok core \<and> \<not> cHasPending core \<and> cRole core = RoleFollower \<and> cHardState core = coHardState options"
  using NewCore_ok[OF assms(1) NewVoterSet_wf[OF assms(2)]] assms(3) by blast

text \<open>C6.  The invariant of the core holds after any sequence of calls, whatever they return.  It says that the
  log is well-formed and its commit index is the one of the hard state, that terms never decrease along the
  log nor exceed the current term, that a candidate or leader has voted for itself and holds votes of voters
  only, a leader those of a majority, that the maps a role writes are not nil, that a queued hard state is the
  current one, that every granted vote in the queued messages is the vote of the hard state, and that at most
  one snapshot action is queued.\<close>

theorem core_invariant:
  assumes "core_ok c" "core_step\<^sup>*\<^sup>* c d"
  shows "core_ok d"
  using core_runs.run_inv assms by blast

text \<open>C7.  Along any sequence of calls the term and the commit index never decrease, the vote of a term never
  changes once it is cast, and the identity and the voter set stay the same.\<close>

theorem core_never_regresses:
  assumes "core_ok c" "core_step\<^sup>*\<^sup>* c d"
  shows "cTerm c \<le> cTerm d \<and> lCommitIndex (cLog c) \<le> lCommitIndex (cLog d)
    \<and> (cTerm d = cTerm c \<and> cVotedFor c \<noteq> 0 \<longrightarrow> cVotedFor d = cVotedFor c)
    \<and> cLocalID d = cLocalID c \<and> cVoters d = cVoters c"
proof -
  have "core_ok d" "core_le c d"
    using core_runs.run_inv core_runs.run_rel assms by blast+
  then show ?thesis
    using assms(1) by (simp add: core_le_def core_ok_def log_ok_def)
qed

text \<open>C14.  On a well-formed core no operation writes to a nil map: a tick, a peer message, a proposal and the
  start of a snapshot transfer return for all arguments, as long as the random source yields a sample for the
  election interval.\<close>

theorem core_returns:
  assumes "core_ok c" "yields c"
  shows "Tick now c \<noteq> None \<and> Step sender rpc c \<noteq> None \<and> proposeTracked kind command c \<noteq> None
    \<and> StartSnapshotTransfer peer snapshot transferID limit c \<noteq> None"
  using Tick_moves[OF assms(1), of now] Step_moves[OF assms(1), of rpc sender] proposeTracked_moves[OF assms(1), of kind command]
    StartSnapshotTransfer_moves[OF assms(1), of True peer snapshot transferID limit] assms(2)
  by (auto simp: sound_def settles_def)

section \<open>Votes\<close>

lemma failProposals_messages [simp]:
  "rdMessages (cPendingReady (failProposals reason order c)) = rdMessages (cPendingReady c)"
  by (induction order arbitrary: c) (simp_all split: option.split)

lemma cancelIncomingSnapshot_messages [simp]:
  "rdMessages (cPendingReady (cancelIncomingSnapshot c)) = rdMessages (cPendingReady c)"
  by (simp add: cancelIncomingSnapshot_def queueSnapshotAction_def split: option.split)

lemma adoptHigherTerm_pending:
  "rdMessages (cPendingReady (adoptHigherTerm t d)) = rdMessages (cPendingReady d)"
  "rdHardState (cPendingReady (adoptHigherTerm t d)) = Some (cHardState (adoptHigherTerm t d))"
  "cHardState (adoptHigherTerm t d) = (cHardState d)\<lparr>hsTerm := t, hsVotedFor := 0\<rparr>"
proof -
  note fields = calmD[OF cancelIncomingSnapshot_calm] calmD[OF steadyD(1)[OF failPendingProposals_steady]]
  show "rdMessages (cPendingReady (adoptHigherTerm t d)) = rdMessages (cPendingReady d)"
    "rdHardState (cPendingReady (adoptHigherTerm t d)) = Some (cHardState (adoptHigherTerm t d))"
    "cHardState (adoptHigherTerm t d) = (cHardState d)\<lparr>hsTerm := t, hsVotedFor := 0\<rparr>"
    by (simp_all add: adoptHigherTerm_def Let_def recordHardState_def fields(3) fields(25)) (simp add: failPendingProposals_def)
qed

text \<open>Whether a request for a vote is granted: the request is not from the past, the core has not voted for
  another candidate in that term, and the candidate's log is at least as up to date.\<close>

definition vote_grantable :: "RequestVoteRequest \<Rightarrow> Core \<Rightarrow> bool" where
  "vote_grantable m d \<longleftrightarrow> cTerm d \<le> vqTerm m
     \<and> (cTerm d = vqTerm m \<longrightarrow> cVotedFor d = 0 \<or> cVotedFor d = vqCandidateID m)
     \<and> (LastTerm (cLog d) < vqLastLogTerm m
        \<or> LastTerm (cLog d) = vqLastLogTerm m \<and> lLastIndex (cLog d) \<le> vqLastLogIndex m)"

lemma candidateLogIsUpToDate_iff:
  "candidateLogIsUpToDate i t d \<longleftrightarrow> LastTerm (cLog d) < t \<or> LastTerm (cLog d) = t \<and> lLastIndex (cLog d) \<le> i"
  by (auto simp: candidateLogIsUpToDate_def Let_def)

lemma HardState_update_same:
  "h\<lparr>hsVotedFor := v\<rparr> = h \<longleftrightarrow> v = hsVotedFor h"
  "h\<lparr>hsTerm := t, hsVotedFor := v\<rparr> = h \<longleftrightarrow> t = hsTerm h \<and> v = hsVotedFor h"
  by (cases h; auto)+

lemma handleVoteRequest_reply:
  assumes "idle d" "vqCandidateID m \<noteq> 0"
  shows "\<exists>e. handleVoteRequest m d = Some (e, None)
    \<and> rdMessages (cPendingReady e) = [\<lparr>pmTo = vqCandidateID m, pmRPC = RRequestVoteResponse \<lparr>vrResponderID = cLocalID d,
        vrCandidateID = vqCandidateID m, vrTerm = max (cTerm d) (vqTerm m), vrRequestTerm = vqTerm m,
        vrGranted = vote_grantable m d\<rparr>,
      pmRequires = \<lparr>dpHardState = (cHardState e \<noteq> cHardState d), dpEntriesThrough = 0\<rparr>\<rparr>]
    \<and> cHardState e = (cHardState d)\<lparr>hsTerm := max (cTerm d) (vqTerm m), hsVotedFor :=
        if vote_grantable m d then vqCandidateID m else if cTerm d < vqTerm m then 0 else cVotedFor d\<rparr>
    \<and> rdHardState (cPendingReady e) = (if cHardState e = cHardState d then None else Some (cHardState e))"
proof -
  have none: "rdMessages (cPendingReady d) = []" "rdHardState (cPendingReady d) = None"
    using idle_pending[OF assms(1)] by (simp_all add: empty_Ready_def)
  consider "vqTerm m < cTerm d" | "vqTerm m = cTerm d" | "cTerm d < vqTerm m"
    by (meson linorder_less_linear)
  then show ?thesis
  proof cases
    case 1
    then have "\<not> cTerm d \<le> vqTerm m" "\<not> cTerm d < vqTerm m" by auto
    then show ?thesis
      using 1 by (intro exI[of _ "queueVoteResponse m False False d"] conjI)
        (simp_all add: handleVoteRequest_def queueVoteResponse_def queueMessage_def none vote_grantable_def max_def)
  next
    case 2
    show ?thesis
      by (rule exI[of _ "fst (the (handleVoteRequest m d))"], intro conjI)
        (use 2 assms(2) in \<open>auto simp: handleVoteRequest_def queueVoteResponse_def queueMessage_def none vote_grantable_def
          Let_def recordHardState_def candidateLogIsUpToDate_iff HardState_update_same\<close>)
  next
    case 3
    show ?thesis
      by (rule exI[of _ "fst (the (handleVoteRequest m d))"], intro conjI)
        (use 3 assms(2) in \<open>auto simp: handleVoteRequest_def queueVoteResponse_def queueMessage_def none vote_grantable_def
          Let_def recordHardState_def candidateLogIsUpToDate_iff HardState_update_same adoptHigherTerm_pending max_def\<close>)
  qed
qed

text \<open>C15.  A vote request that passes the admission checks is answered with exactly one response.  The vote is
  granted iff the request is not from an earlier term, the core has not voted for another candidate in the
  request's term, and the candidate's log is at least as up to date (a higher last term, or the same last term
  and at least the same last index).  The core moves to the later of the two terms with that vote, queues the
  new hard state iff it changed, and the response waits for the hard state to be durable in exactly that case.\<close>

theorem vote_decision:
  assumes "core_ok d" "\<not> cHasPending d" "cTerminalErr d = None"
    and "stepAdmission sender (RRequestVoteRequest m) d = None"
  shows "\<exists>e. Step sender (RRequestVoteRequest m) d = Some (e, None)
    \<and> rdMessages (cPendingReady e) = [\<lparr>pmTo = vqCandidateID m, pmRPC = RRequestVoteResponse \<lparr>vrResponderID = cLocalID d,
        vrCandidateID = vqCandidateID m, vrTerm = max (cTerm d) (vqTerm m), vrRequestTerm = vqTerm m,
        vrGranted = vote_grantable m d\<rparr>,
      pmRequires = \<lparr>dpHardState = (cHardState e \<noteq> cHardState d), dpEntriesThrough = 0\<rparr>\<rparr>]
    \<and> cHardState e = (cHardState d)\<lparr>hsTerm := max (cTerm d) (vqTerm m), hsVotedFor :=
        if vote_grantable m d then vqCandidateID m else if cTerm d < vqTerm m then 0 else cVotedFor d\<rparr>
    \<and> rdHardState (cPendingReady e) = (if cHardState e = cHardState d then None else Some (cHardState e))"
proof -
  have wf: "voters_wf (cVoters d)" and idle: "idle d"
    using assms(1,2) by (simp_all add: core_ok_def fixed_ok_def idle_def)
  have "vqCandidateID m \<noteq> 0"
    using stepAdmission_ok(2)[OF assms(4) wf] zero_not_voter[OF wf] by auto
  moreover have "Step sender (RRequestVoteRequest m) d = handleVoteRequest m d"
    using assms(2-4) by (simp add: Step_def)
  ultimately show ?thesis
    using handleVoteRequest_reply[OF idle, of m] by (simp only: not_False_eq_True simp_thms)
qed

section \<open>Commitment\<close>

text \<open>The retained entries after \<open>a\<close> up to \<open>b\<close>.\<close>

definition entriesBetween :: "Log \<Rightarrow> u64 \<Rightarrow> u64 \<Rightarrow> Entry list" where
  "entriesBetween l a b =
     drop (unat a - unat (lSnapshotIndex l)) (take (unat b - unat (lSnapshotIndex l)) (lEntries l))"

lemma entriesBetween_same [simp]: "entriesBetween l a a = []"
  by (simp add: entriesBetween_def)

lemma resolveCommittedProposal_keeps [simp]:
  "rdCommittedEntries (cPendingReady (resolveCommittedProposal e c)) = rdCommittedEntries (cPendingReady c)"
  "cLog (resolveCommittedProposal e c) = cLog c"
  by (simp_all add: resolveCommittedProposal_def removePendingProposalOrder_def Let_def split: option.split)

lemma entriesBetween_Cons:
  assumes "log_wf l" "lSnapshotIndex l \<le> a" "a < b" "b \<le> lLastIndex l"
  shows "\<exists>e. EntryAt l (a + 1) = Inr e \<and> entriesBetween l a b = e # entriesBetween l (a + 1) b"
proof -
  have a: "unat (a + 1) = unat a + 1" "lSnapshotIndex l < a + 1" "a + 1 \<le> b"
  proof -
    have "a \<noteq> MaxUint64"
      using assms(3) unat_lt_u64[of b] by (auto simp: word_less_nat_alt unat_MaxUint64)
    then show u: "unat (a + 1) = unat a + 1"
      by (simp add: unat_Suc_word)
    show "lSnapshotIndex l < a + 1" "a + 1 \<le> b"
      using assms(2,3) u by (simp_all add: word_less_nat_alt word_le_nat_alt)
  qed
  have p: "pos l (a + 1) = unat a - unat (lSnapshotIndex l)"
    using a(1) by (simp add: pos_def)
  have "pos l (a + 1) < length (lEntries l)"
    using pos_bound[OF assms(1) a(2)] a(3) assms(4) by simp
  moreover have "EntryAt l (a + 1) = Inr (lEntries l ! pos l (a + 1))"
    using EntryAt_ok[OF assms(1)] a assms(4) by auto
  moreover have "unat a - unat (lSnapshotIndex l) < unat b - unat (lSnapshotIndex l)"
    using assms(2,3) by (simp add: word_less_nat_alt word_le_nat_alt)
  moreover have "unat (a + 1) - unat (lSnapshotIndex l) = Suc (unat a - unat (lSnapshotIndex l))"
    using a(1) assms(2) by (simp add: word_le_nat_alt Suc_diff_le)
  ultimately show ?thesis
    by (simp add: entriesBetween_def p Cons_nth_drop_Suc[symmetric])
qed

lemma queueCommittedFrom_entries:
  assumes "log_wf (cLog d)" "lSnapshotIndex (cLog d) \<le> a" "a \<noteq> MaxUint64" "b \<le> lLastIndex (cLog d)"
  shows "\<exists>e. queueCommittedFrom (a + 1) b d = (e, None) \<and> cLog e = cLog d
     \<and> rdCommittedEntries (cPendingReady e) = rdCommittedEntries (cPendingReady d) @ (if a < b then entriesBetween (cLog d) a b else [])"
  using assms
proof (induction "unat b - unat a" arbitrary: a d rule: less_induct)
  case less
  have u: "unat (a + 1) = unat a + 1"
    using less.prems(3) by (simp add: unat_Suc_word)
  show ?case
  proof (cases "a < b")
    case False
    then have "\<not> a + 1 \<le> b"
      using u by (simp add: word_less_nat_alt word_le_nat_alt)
    then show ?thesis
      using False by (subst queueCommittedFrom.simps) simp
  next
    case True
    then have le: "a + 1 \<le> b"
      using u by (simp add: word_less_nat_alt word_le_nat_alt)
    obtain entry where entry: "EntryAt (cLog d) (a + 1) = Inr entry"
        "entriesBetween (cLog d) a b = entry # entriesBetween (cLog d) (a + 1) b"
      using entriesBetween_Cons[OF less.prems(1,2) True less.prems(4)] by blast
    let ?d1 = "d\<lparr>cPendingReady := (cPendingReady d)\<lparr>rdCommittedEntries := rdCommittedEntries (cPendingReady d) @ [entry]\<rparr>\<rparr>"
    let ?d2 = "(resolveCommittedProposal entry ?d1)\<lparr>cHasPending := True\<rparr>"
    have step: "queueCommittedFrom (a + 1) b d =
        (if a + 1 = MaxUint64 then (?d2, None) else queueCommittedFrom (a + 1 + 1) b ?d2)"
      using le entry(1) by (subst queueCommittedFrom.simps) (simp add: Let_def)
    show ?thesis
    proof (cases "a + 1 = MaxUint64")
      case True
      then have "b = a + 1"
        using le less_max_word[of "a + 1" b] by (auto simp: order.order_iff_strict)
      then have "entriesBetween (cLog d) (a + 1) b = []"
        by simp
      then show ?thesis
        using entry(2) \<open>a < b\<close> unfolding step if_P[OF True] by simp
    next
      case False
      have sn: "lSnapshotIndex (cLog ?d2) \<le> a + 1"
        using less.prems(2) u by (simp add: word_le_nat_alt)
      have "unat b - unat (a + 1) < unat b - unat a"
        using u True by (simp add: word_less_nat_alt)
      then have "\<exists>e. queueCommittedFrom (a + 1 + 1) b ?d2 = (e, None) \<and> cLog e = cLog ?d2
          \<and> rdCommittedEntries (cPendingReady e) = rdCommittedEntries (cPendingReady ?d2)
              @ (if a + 1 < b then entriesBetween (cLog ?d2) (a + 1) b else [])"
        by (rule less.hyps) (use sn False less.prems(1,4) in simp_all)
      moreover have "entriesBetween (cLog d) (a + 1) b = []" if "\<not> a + 1 < b"
        using that le by (simp add: order.order_iff_strict)
      ultimately show ?thesis
        using entry(2) True unfolding step if_not_P[OF False] by (auto split: if_splits)
    qed
  qed
qed

text \<open>An index the leader may commit: an entry of its own term that a majority holds.\<close>

definition committable :: "Core \<Rightarrow> u64 \<Rightarrow> bool" where
  "committable d k \<longleftrightarrow> Term (cLog d) k = Inr (cTerm d) \<and> Majority (cVoters d) \<le> replicas d k"

definition commit_target :: "Core \<Rightarrow> u64 \<Rightarrow> u64" where
  "commit_target d k = Max (insert (lCommitIndex (cLog d)) {j. lCommitIndex (cLog d) < j \<and> j \<le> k \<and> committable d j})"

lemma commit_target_none: "\<not> lCommitIndex (cLog d) < k \<Longrightarrow> commit_target d k = lCommitIndex (cLog d)"
  unfolding commit_target_def by (rule Max_eqI) auto

lemma commit_target_hit: "lCommitIndex (cLog d) < k \<Longrightarrow> committable d k \<Longrightarrow> commit_target d k = k"
  unfolding commit_target_def by (rule Max_eqI) auto

lemma commit_target_skip:
  assumes "lCommitIndex (cLog d) < k" "\<not> committable d k"
  shows "commit_target d k = commit_target d (k - 1)"
proof -
  have "k \<noteq> 0"
    using assms(1) by auto
  then have "j \<le> k - 1 \<longleftrightarrow> j < k" for j
    using unat_pred_word[of k] unat_gt_0[of k] by (simp add: word_le_nat_alt word_less_nat_alt) arith
  then have "j \<le> k \<and> committable d j \<longleftrightarrow> j \<le> k - 1 \<and> committable d j" for j
    using assms(2) by (auto simp: order.order_iff_strict)
  then show ?thesis
    by (simp add: commit_target_def)
qed

lemma advanceCommitFrom_rule:
  assumes "log_wf (cLog d)" "k \<le> lLastIndex (cLog d)"
  shows "\<exists>e. advanceCommitFrom (lCommitIndex (cLog d)) k d = Some (e, None)
     \<and> cLog e = (cLog d)\<lparr>lCommitIndex := commit_target d k\<rparr>
     \<and> rdCommittedEntries (cPendingReady e) = rdCommittedEntries (cPendingReady d)
         @ entriesBetween (cLog d) (lCommitIndex (cLog d)) (commit_target d k)"
  using assms(2)
proof (induction "unat k" arbitrary: k)
  case (0 k)
  then have "\<not> lCommitIndex (cLog d) < k"
    by (simp add: unat_eq_0)
  then show ?case
    by (subst advanceCommitFrom.simps) (simp add: commit_target_none)
next
  case (Suc n k)
  let ?c = "lCommitIndex (cLog d)"
  show ?case
  proof (cases "?c < k")
    case False
    then show ?thesis
      by (subst advanceCommitFrom.simps) (simp add: commit_target_none)
  next
    case True
    have n: "n = unat (k - 1)" "k - 1 \<le> k"
      using Suc.hyps(2) unat_pred_word[of k] True by (cases "k = 0"; simp add: word_le_nat_alt)+
    have trm: "\<exists>t. Term (cLog d) k = Inr t"
      using Term_ok[OF assms(1), of k] True Suc.prems assms(1) by (auto simp: log_wf_def)
    show ?thesis
    proof (cases "committable d k")
      case False
      have "advanceCommitFrom ?c k d = advanceCommitFrom ?c (k - 1) d"
        using True False trm by (subst advanceCommitFrom.simps) (auto simp: committable_def)
      then show ?thesis
        using Suc.hyps(1)[OF n(1)] n(2) Suc.prems commit_target_skip[OF True False] by simp
    next
      case committable: True
      let ?l = "(cLog d)\<lparr>lCommitIndex := k\<rparr>"
      let ?e = "recordHardState (d\<lparr>cLog := ?l, cHardState := (cHardState d)\<lparr>hsCommitIndex := k\<rparr>\<rparr>)"
      have "AdvanceCommit k (cLog d) = (?l, None)"
        using True Suc.prems by (auto simp: AdvanceCommit_def)
      then have "advanceCommitFrom ?c k d = queueCommittedEntries ?c k ?e"
        using True committable by (subst advanceCommitFrom.simps) (simp add: committable_def)
      moreover have "?c \<noteq> MaxUint64"
        using True by (rule less_max_word)
      moreover have "log_wf ?l" "lSnapshotIndex ?l \<le> ?c" "k \<le> lLastIndex ?l"
        using assms(1) True Suc.prems by (auto simp: log_wf_def)
      ultimately show ?thesis
        using queueCommittedFrom_entries[of ?e ?c k] True commit_target_hit[OF True committable]
        by (auto simp: queueCommittedEntries_def checkedNextIndex_def recordHardState_def entriesBetween_def)
    qed
  qed
qed

text \<open>C8.  The downward scan of \<open>advanceLeaderCommit\<close> agrees with its specification: the new commit index is
  the greatest index above the old one that holds an entry of the leader's current term and is replicated on a
  majority of the voters, and stays where it is if there is none.  The scan never fails, changes nothing else
  in the log, and queues for application exactly the entries it newly commits, in order.\<close>

theorem leader_commit_rule:
  assumes "core_ok d"
  shows "\<exists>e. advanceLeaderCommit d = Some (e, None)
     \<and> cLog e = (cLog d)\<lparr>lCommitIndex := commit_target d (lLastIndex (cLog d))\<rparr>
     \<and> rdCommittedEntries (cPendingReady e) = rdCommittedEntries (cPendingReady d)
         @ entriesBetween (cLog d) (lCommitIndex (cLog d)) (commit_target d (lLastIndex (cLog d)))"
  using advanceCommitFrom_rule[of d "lLastIndex (cLog d)"] assms
  by (simp add: advanceLeaderCommit_def core_ok_def log_ok_def)

section \<open>A concrete core\<close>

definition demo_options :: CoreOptions where
  "demo_options = \<lparr>coLocalID = 1, coVoters = demo_voters, coHardState = \<lparr>hsTerm = 1, hsVotedFor = 0, hsCommitIndex = 0\<rparr>,
     coLog = Some \<lparr>lSnapshotIndex = 0, lSnapshotTerm = 0, lCommitIndex = 0, lAppliedIndex = 0, lLastIndex = 0, lEntries = []\<rparr>,
     coAppliedIndex = 0, coElectionTimeoutMin = 4, coElectionTimeoutMax = 6, coHeartbeatInterval = 1,
     coMaxAppendEntries = 0, coMaxAppendBytes = 0, coRandom = Some (sconst 0)\<rparr>"

definition demo_core :: Core where
  "demo_core = (newCoreWith demo_options 1 (the (coLog demo_options)) (sconst 0))\<lparr>cElectionDeadline := 4\<rparr>"

lemma demo_sample: "Uint64n (sconst 0) 2 = Some (0, sconst 0)"
  by (simp add: Uint64n_def)

lemma demo_admits: "ValidateLocalID demo_voters 1 = None" "Contains demo_voters 2"
  by code_simp+

lemma demo_core_new: "NewCore demo_options = Some (Inr demo_core)"
proof -
  let ?probe = "RAppendEntriesRequest \<lparr>aqLeaderID = 1, aqTerm = 1, aqGeneration = 1, aqPrevLogIndex = 0,
      aqPrevLogTerm = 0, aqLeaderCommit = 0, aqEntries = []\<rparr>"
  have "resolveCodecLimits DefaultCodecLimits = Inr DefaultCodecLimits" "validateRPC ?probe DefaultCodecLimits = None"
      "length (be_bytes 2 (schemaVersionForRPC ?probe) @ body_bytes ?probe) \<le> unat (clMaxEncodedBytes DefaultCodecLimits)"
    by (simp_all add: resolveCodecLimits_def withDefaultLimits_def DefaultCodecLimits_def limit_defs Let_def
        validateAppendRequest_def validLogPosition_def)
  then have "\<exists>x. EncodeRPC ?probe DefaultCodecLimits = Inr x"
    using EncodeRPC_iff by blast
  moreover have "\<not> (4 :: u64) \<le> 1" "\<not> (6 :: u64) \<le> 4"
    by (simp_all add: word_le_nat_alt)
  ultimately show ?thesis
    by (auto simp: NewCore_def demo_options_def demo_admits appendLimitsOf_def recoveryInvalid_def Let_def LastTerm_def
        NewLog_def sampleDeadline_def newCoreWith_def demo_sample demo_core_def)
qed

lemma demo_core_ok: "core_ok demo_core" "cTerminalErr demo_core = None" "\<not> cHasPending demo_core"
  using NewCore_ok[OF demo_core_new] NewVoterSet_wf[OF demo_voters_new] by (auto simp: demo_options_def demo_core_def newCoreWith_def)

lemma demo_core_fields:
  "cNow demo_core = 0" "cRole demo_core = RoleFollower" "cHardState demo_core = \<lparr>hsTerm = 1, hsVotedFor = 0, hsCommitIndex = 0\<rparr>"
  "cElectionDeadline demo_core = 4" "cLog demo_core = the (coLog demo_options)" "cLocalID demo_core = 1" "cVoters demo_core = demo_voters"
  "cRandom demo_core = sconst 0" "cElectionTimeoutMin demo_core = 4" "cElectionTimeoutMax demo_core = 6"
  "cDeadlineExhausted demo_core = False" "cPendingReady demo_core = empty_Ready"
  by (simp_all add: demo_core_def newCoreWith_def demo_options_def)

lemma demo_yields: "yields demo_core"
  by (simp add: yields_def demo_core_fields demo_sample)

definition demo_ticked :: Core where
  "demo_ticked = fst (the (Tick 4 demo_core))"

lemma demo_tick: "core_step demo_core demo_ticked" "cRole demo_ticked = RolePreCandidate"
proof -
  have p: "peers (demo_core\<lparr>cRandom := r, cNow := n, cElectionDeadline := t, cDeadlineExhausted := b, cRole := o',
      cLeaderID := l, cRecentLeader := rl, cPreVotes := pv, cVotes := v\<rparr>) = [2, 3]" for r n t b o' l rl pv v
    by (simp add: peers_def demo_core_fields demo_voters_list)
  have "\<exists>e. Tick 4 demo_core = Some (e, None) \<and> cRole e = RolePreCandidate"
    by (simp add: Tick_def startPreVote_def sampleDeadline_def Let_def demo_core_ok demo_core_fields demo_sample
        p and_then_def queueMessage_def)
  then show "core_step demo_core demo_ticked" "cRole demo_ticked = RolePreCandidate"
    by (auto simp: demo_ticked_def intro: core_step.tick)
qed

theorem NewCore_wellformed_witness:
  "core_ok demo_core \<and> \<not> cHasPending demo_core \<and> cRole demo_core = RoleFollower \<and> cHardState demo_core = coHardState demo_options"
proof -
  have "\<forall>l. coLog demo_options = Some l \<longrightarrow> sorted (lSnapshotTerm l # map eTerm (lEntries l))"
    by (simp add: demo_options_def)
  then show ?thesis
    using NewCore_wellformed[OF demo_core_new, of "\<lambda>_. 0" Some demo_config] demo_voters_new by (simp add: demo_options_def)
qed

theorem core_invariant_witness: "core_ok demo_core \<and> core_step\<^sup>*\<^sup>* demo_core demo_ticked \<and> core_ok demo_ticked"
  using core_invariant[OF demo_core_ok(1), of demo_ticked] demo_core_ok(1) demo_tick(1) by auto

theorem core_never_regresses_witness:
  "core_step\<^sup>*\<^sup>* demo_core demo_ticked \<and> cTerm demo_core \<le> cTerm demo_ticked \<and> cVoters demo_ticked = demo_voters"
  using core_never_regresses[OF demo_core_ok(1), of demo_ticked] demo_tick(1) demo_core_fields(7) by auto

definition demo_vote_request :: RequestVoteRequest where
  "demo_vote_request = \<lparr>vqCandidateID = 2, vqTerm = 2, vqLastLogIndex = 0, vqLastLogTerm = 0\<rparr>"

theorem core_returns_witness:
  "yields demo_core \<and> Tick 4 demo_core \<noteq> None \<and> Step 2 (RRequestVoteRequest demo_vote_request) demo_core \<noteq> None"
  using demo_yields core_returns[OF demo_core_ok(1) demo_yields] by simp

lemma demo_vote_admitted: "stepAdmission 2 (RRequestVoteRequest demo_vote_request) demo_core = None"
  by (simp add: stepAdmission_def ValidateRPCSender_def demo_core_fields demo_admits demo_vote_request_def validLogPosition_def)

lemma demo_vote_grantable: "vote_grantable demo_vote_request demo_core"
  by (simp add: vote_grantable_def demo_core_fields demo_vote_request_def LastTerm_def demo_options_def)

theorem vote_decision_witness:
  "\<exists>e. Step 2 (RRequestVoteRequest demo_vote_request) demo_core = Some (e, None)
     \<and> rdMessages (cPendingReady e) \<noteq> [] \<and> cHardState e = \<lparr>hsTerm = 2, hsVotedFor = 2, hsCommitIndex = 0\<rparr>
     \<and> rdHardState (cPendingReady e) = Some \<lparr>hsTerm = 2, hsVotedFor = 2, hsCommitIndex = 0\<rparr>"
proof -
  from vote_decision[OF demo_core_ok(1,3,2) demo_vote_admitted] obtain e where
    e: "Step 2 (RRequestVoteRequest demo_vote_request) demo_core = Some (e, None)" "rdMessages (cPendingReady e) \<noteq> []"
      "cHardState e = (cHardState demo_core)\<lparr>hsTerm := max (cTerm demo_core) 2, hsVotedFor := 2\<rparr>"
      "rdHardState (cPendingReady e) = (if cHardState e = cHardState demo_core then None else Some (cHardState e))"
    using demo_vote_grantable by (auto simp: demo_vote_request_def)
  then show ?thesis
    by (intro exI[of _ e]) (simp add: demo_core_fields max_def)
qed

definition demo_leader :: Core where
  "demo_leader = demo_core\<lparr>cHardState := \<lparr>hsTerm = 2, hsVotedFor = 1, hsCommitIndex = 0\<rparr>, cRole := RoleLeader,
     cVotes := Some {1, 2}, cQuorumResponses := Some {}, cProgress := Some [1 \<mapsto> zero_Progress\<lparr>pMatchIndex := 1, pNextIndex := 2\<rparr>,
       3 \<mapsto> zero_Progress\<lparr>pMatchIndex := 1, pNextIndex := 2\<rparr>],
     cLog := \<lparr>lSnapshotIndex = 0, lSnapshotTerm = 0, lCommitIndex = 0, lAppliedIndex = 0, lLastIndex = 1,
       lEntries = [\<lparr>eIndex = 1, eTerm = 2, eKind = EntryNoOp, eCommand = []\<rparr>]\<rparr>\<rparr>"

lemma demo_leader_ok: "core_ok demo_leader"
proof -
  have "fixed_ok demo_leader" "pending_ok demo_leader"
    using demo_core_ok(1) pending_okD(2)[of demo_core]
    by (auto simp: core_ok_def fixed_ok_def demo_leader_def demo_core_fields demo_core_def newCoreWith_def
        unvoted_def ballots_def empty_Ready_def intro!: pending_okI)
  moreover have "log_ok demo_leader"
    by (simp add: log_ok_def demo_leader_def log_wf_def contiguous_def validateLogEntry_def terms_ok_def)
  moreover have "role_ok demo_leader"
    by (simp add: role_ok_def demo_leader_def demo_core_fields members_def demo_voter_ids demo_Majority)
  ultimately show ?thesis
    by (simp add: core_ok_def)
qed

lemma demo_committable: "committable demo_leader 1"
proof -
  have "length (filter (\<lambda>voter. pMatchIndex (progressOrZero demo_leader (vID voter)) \<ge> 1) (vsVoters demo_voters))
    = length (filter (\<lambda>i. pMatchIndex (progressOrZero demo_leader i) \<ge> 1) (map vID (vsVoters demo_voters)))"
    by (simp add: filter_map comp_def)
  also have "\<dots> = 2"
    by (simp add: demo_voters_list progressOrZero_def progressOf_def demo_leader_def zero_Progress_def)
  finally show ?thesis
    by (simp add: committable_def replicas_def demo_leader_def demo_core_fields demo_Majority Term_def retainedOffset_def)
qed

theorem leader_commit_rule_witness:
  "\<exists>e. advanceLeaderCommit demo_leader = Some (e, None) \<and> lCommitIndex (cLog e) = 1
     \<and> map eIndex (rdCommittedEntries (cPendingReady e)) = [1]"
  using leader_commit_rule[OF demo_leader_ok] commit_target_hit[OF _ demo_committable]
  by (auto simp: demo_leader_def entriesBetween_def demo_core_fields empty_Ready_def)

end
