(* ===== verification/Raft_Node.thy ===== *)
theory Raft_Node
  imports Raft_MemoryStore Raft_Handlers "HOL-Library.Monad_Syntax"
begin

text \<open>
  The serialized owner of one core (\<open>internal/raft/node.go\<close>, \<open>node_durability.go\<close>, \<open>leadership.go\<close>).  What the
  node owns but does not implement is a parameter: the stable store, the application, the transport and
  the source of transfer identities are records of operations over a state of their own, and the optional
  interfaces of a store, which the code finds by a type assertion, are options.  An error such a
  dependency returns is only passed on, or compared with \<open>ErrSnapshotRejected\<close>.

  A channel is the list of the values it holds; the channel a request waits on is a number, and what was
  sent on it is recorded in \<open>nReplies\<close>.  A context is read as a boolean at each place the code reads it.
  \<open>nHandoffs\<close> is a history variable: each message given to the transport, with the store as it was then.
\<close>

section \<open>Dependencies\<close>

record 's StableStore =
  ssSnapshotLimit :: "'s \<Rightarrow> u64"
  ssRecover :: "'s \<Rightarrow> 's \<times> (raft_error + RecoveredState)"
  ssPersist :: "PersistenceBatch \<Rightarrow> 's \<Rightarrow> 's \<times> raft_error option"
  ssClose :: "'s \<Rightarrow> 's \<times> raft_error option"
  ssRetained :: "('s \<Rightarrow> raft_error + u64) option"
  ssPersistSnapshot :: "(Snapshot \<Rightarrow> 's \<Rightarrow> 's \<times> raft_error option) option"
  ssStaging :: "((InstallSnapshotRequest \<Rightarrow> 's \<Rightarrow> 's \<times> (raft_error + SnapshotStageResult))
                 \<times> ('s \<Rightarrow> 's \<times> raft_error option)) option"

definition MemoryStoreOps :: "(bytes \<Rightarrow> bytes32) \<Rightarrow> MemoryStore StableStore" where
  "MemoryStoreOps sha256 = \<lparr>ssSnapshotLimit = msSnapshotLimit, ssRecover = Recover sha256,
     ssPersist = Persist sha256, ssClose = Close, ssRetained = Some RetainedWALBytes,
     ssPersistSnapshot = Some (PersistSnapshot sha256),
     ssStaging = Some (StageSnapshotChunk sha256, AbortSnapshotStage)\<rparr>"

text \<open>A frozen capture: its schema before and after encoding, and the encoding.\<close>

record SnapshotCapture =
  scSchemaVersion :: u32
  scMarshalBinary :: "raft_error + bytes"
  scSchemaAfter :: u32

record 'a StateMachine =
  smApply :: "u64 \<Rightarrow> u64 \<Rightarrow> bytes \<Rightarrow> 'a \<Rightarrow> 'a \<times> (raft_error + bytes)"
  smCapture :: "u64 \<Rightarrow> u64 \<Rightarrow> 'a \<Rightarrow> 'a \<times> (raft_error + SnapshotCapture option)"
  smRestore :: "u32 \<Rightarrow> bytes \<Rightarrow> 'a \<Rightarrow> 'a \<times> raft_error option"

type_synonym TransportHandoff = u8

definition TransportAccepted :: TransportHandoff where "TransportAccepted = 1"
definition TransportUnavailable :: TransportHandoff where "TransportUnavailable = 2"

record ('s, 'a, 't, 'i) NodeOptions =
  noLocalID :: u16
  noVoters :: VoterSet
  noIdentity :: StorageIdentity
  noStore :: "'s StableStore"
  noStateMachine :: "'a StateMachine"
  noHandoff :: "PeerMessage \<Rightarrow> 't \<Rightarrow> 't \<times> (raft_error + TransportHandoff)"
  noNextTransferID :: "u16 \<Rightarrow> 'i \<Rightarrow> 'i \<times> (raft_error + TransferID)"
  noRandom :: "source option"
  noElectionTimeoutMin :: int
  noElectionTimeoutMax :: int
  noHeartbeatInterval :: int
  noMaxAppendEntries :: u16
  noMaxAppendBytes :: u64
  noSnapshotEntryThreshold :: u64
  noSnapshotByteThreshold :: u64
  noMaxSnapshotBytes :: u64
  noMaxSnapshotChunkBytes :: u64

section \<open>State\<close>

definition MaxPendingLocalRequests :: int where "MaxPendingLocalRequests = 1024"
definition MaxNodeEventQueue :: nat where "MaxNodeEventQueue = 1024"
definition MinLeadershipSubscriptionCapacity :: int where "MinLeadershipSubscriptionCapacity = 1"
definition MaxLeadershipSubscriptionCapacity :: int where "MaxLeadershipSubscriptionCapacity = 1024"

datatype lifecycle = nodeLifecycleNew | nodeLifecycleStarting | nodeLifecycleRunning | nodeLifecycleStopped

record LeadershipEvent =
  leSequence :: u64
  leTerm :: u64
  leRole :: Role
  leLeaderID :: u16
  leLocalID :: u16

text \<open>
  A subscriber with the snapshot its subscription was given.  \<open>lsEnd\<close> is set when its channels are closed;
  its value is the terminal error.
\<close>

record leadershipSubscriber =
  lsSnapshot :: LeadershipEvent
  lsCapacity :: nat
  lsEvents :: "LeadershipEvent list"
  lsEnd :: "raft_error option option"

record ProposalResult =
  prIndex :: u64
  prEntryTerm :: u64
  prResult :: bytes

type_synonym chan = nat

record pendingLocalRequest =
  plEntry :: Entry
  plResponse :: chan

type_synonym snapshotCaptureResult = "raft_error + Snapshot"

datatype node_event =
    inboundRPCEvent u16 RPC chan
  | localRequestEvent EntryKind bytes chan
  | leadershipRequestEvent nat chan
  | leadershipCancelEvent u64 "raft_error option"
  | captureResultEvent snapshotCaptureResult

text \<open>What is sent on a response channel; \<open>ReplyContext\<close> is the error of the request's own context.\<close>

datatype reply =
    ReplyRPC "raft_error option"
  | ReplyLocal "raft_error + ProposalResult"
  | ReplyNotLeader u16
  | ReplyLeadership "raft_error + u64"
  | ReplyContext

record ('s, 'a, 't, 'i) Node =
  nOptions :: "('s, 'a, 't, 'i) NodeOptions"
  nStore :: 's
  nApp :: 'a
  nTransport :: 't
  nTransferIDs :: 'i
  nLifecycle :: lifecycle
  nStatus :: Status
  nEvents :: "node_event list"
  nCore :: Core
  nTimer :: int
  nEpoch :: int
  nDurable :: RecoveredState
  nReservations :: int
  nPendingLocal :: "ProposalID \<rightharpoonup> pendingLocalRequest"
  nSubscriptions :: "u64 \<rightharpoonup> leadershipSubscriber"
  nSubscribers :: "u64 set"
  nNextSubscriberID :: u64
  nLeadership :: "LeadershipEvent option"
  nCapture :: "(SnapshotMetadata \<times> SnapshotCapture) option"
  nReplies :: "(chan \<times> reply) list"
  nHandoffs :: "(PeerMessage \<times> 's) list"

type_synonym ('s, 'a, 't, 'i) node_outcome = "(('s, 'a, 't, 'i) Node, raft_error) outcome"

definition send :: "chan \<Rightarrow> reply \<Rightarrow> ('s, 'a, 't, 'i) Node \<Rightarrow> ('s, 'a, 't, 'i) Node" where
  "send ch response node = node\<lparr>nReplies := nReplies node @ [(ch, response)]\<rparr>"

text \<open>An operation of the core inside the node.\<close>

definition on_core ::
    "(Core \<times> raft_error option) option \<Rightarrow> ('s, 'a, 't, 'i) Node \<Rightarrow> ('s, 'a, 't, 'i) node_outcome" where
  "on_core result node = map_option (\<lambda>(core, err). (node\<lparr>nCore := core\<rparr>, err)) result"

section \<open>Construction\<close>

definition appendBounds :: "('s, 'a, 't, 'i) NodeOptions \<Rightarrow> CodecLimits" where
  "appendBounds options =
     (let limits = DefaultCodecLimits;
          limits = (if noMaxAppendEntries options \<noteq> 0
            then limits\<lparr>clMaxAppendEntries := noMaxAppendEntries options\<rparr> else limits)
      in if noMaxAppendBytes options \<noteq> 0
         then limits\<lparr>clMaxEncodedBytes := noMaxAppendBytes options\<rparr> else limits)"

text \<open>The options \<open>NewNode\<close> keeps, given the store it is handed.  Go's integer division truncates.\<close>

definition validateNodeOptions ::
    "('s, 'a, 't, 'i) NodeOptions \<Rightarrow> 's \<Rightarrow> raft_error + ('s, 'a, 't, 'i) NodeOptions" where
  "validateNodeOptions options store =
     (if ValidateLocalID (noVoters options) (noLocalID options) \<noteq> None then Inl ErrInvalidCoreState
      else if NewStorageIdentity (siFormatVersion (noIdentity options)) (siClusterID (noIdentity options))
                (noLocalID options) (noVoters options) \<noteq> Inr (noIdentity options)
        then Inl ErrInvalidStorageIdentity
      else if noRandom options = None then Inl ErrInvalidCoreState
      else if noHeartbeatInterval options \<le> 0 \<or> noElectionTimeoutMin options \<le> 0
           \<or> noElectionTimeoutMax options \<le> noElectionTimeoutMin options
           \<or> noHeartbeatInterval options \<ge> noElectionTimeoutMin options
        then Inl ErrInvalidCoreState
      else if noSnapshotEntryThreshold options = 0 \<or> noSnapshotByteThreshold options = 0
           \<or> noMaxSnapshotBytes options = 0 \<or> noMaxSnapshotBytes options > MaxRaftSnapshotBytes
        then Inl ErrInvalidCoreState
      else if ssSnapshotLimit (noStore options) store \<noteq> noMaxSnapshotBytes options
        then Inl ErrInvalidCoreState
      else
        let options = (if noMaxSnapshotChunkBytes options = 0
              then options\<lparr>noMaxSnapshotChunkBytes := MaxRaftSnapshotChunkBytes\<rparr> else options)
        in if noMaxSnapshotChunkBytes options > MaxRaftSnapshotChunkBytes then Inl ErrInvalidCoreState
           else if noElectionTimeoutMin options div noHeartbeatInterval options < 3
             then Inl ErrInvalidCoreState
           else case EncodeRPC (RAppendEntriesRequest \<lparr>aqLeaderID = noLocalID options, aqTerm = 1,
                  aqGeneration = 1, aqPrevLogIndex = 0, aqPrevLogTerm = 0, aqLeaderCommit = 0,
                  aqEntries = []\<rparr>) (appendBounds options) of
                Inl _ \<Rightarrow> Inl ErrInvalidCoreState
              | Inr _ \<Rightarrow> Inr options)"

section \<open>Checking an output batch\<close>

definition persistenceBatchForReady :: "Ready \<Rightarrow> PersistenceBatch" where
  "persistenceBatchForReady ready =
     (let batch = \<lparr>pbHardState = rdHardState ready, pbReplaceFrom = 0, pbEntries = [],
            pbSnapshotBase = None, pbSnapshot = None, pbAppliedIndex = None\<rparr>
      in if length (rdEntries ready) \<noteq> 0
         then batch\<lparr>pbReplaceFrom := eIndex (rdEntries ready ! 0), pbEntries := rdEntries ready\<rparr>
         else batch)"

definition persistenceBatchHasEffects :: "PersistenceBatch \<Rightarrow> bool" where
  "persistenceBatchHasEffects batch \<longleftrightarrow>
     pbHardState batch \<noteq> None \<or> pbReplaceFrom batch \<noteq> 0 \<or> pbSnapshotBase batch \<noteq> None
     \<or> pbAppliedIndex batch \<noteq> None"

text \<open>The loops of \<open>validateReadyStructure\<close>, in order.\<close>

fun checkUnstable :: "Entry option \<Rightarrow> Entry list \<Rightarrow> raft_error option" where
  "checkUnstable previous [] = None"
| "checkUnstable previous (entry # entries) =
     (case validateLogEntry entry of
        Some err \<Rightarrow> Some err
      | None \<Rightarrow>
          if (case previous of None \<Rightarrow> False
              | Some p \<Rightarrow> checkedNextIndex (eIndex p) \<noteq> Some (eIndex entry))
          then Some ErrLogGap
          else checkUnstable (Some entry) entries)"

fun checkMessages :: "('s, 'a, 't, 'i) NodeOptions \<Rightarrow> Ready \<Rightarrow> PeerMessage list \<Rightarrow> raft_error option" where
  "checkMessages options ready [] = None"
| "checkMessages options ready (message # messages) =
     (if \<not> Contains (noVoters options) (pmTo message) \<or> pmTo message = noLocalID options
      then Some ErrTransportInvariant
      else if dpHardState (pmRequires message) \<and> rdHardState ready = None then Some ErrInvalidCoreState
      else if dpEntriesThrough (pmRequires message) \<noteq> 0
           \<and> \<not> readyContainsEntry (rdEntries ready) (dpEntriesThrough (pmRequires message))
        then Some ErrInvalidCoreState
      else checkMessages options ready messages)"

fun checkActions :: "('s, 'a, 't, 'i) NodeOptions \<Rightarrow> SnapshotAction list \<Rightarrow> raft_error option" where
  "checkActions options [] = None"
| "checkActions options (action # actions) =
     (if iqLeaderID (saRequest action) = noLocalID options
         \<or> \<not> Contains (noVoters options) (iqLeaderID (saRequest action))
      then Some ErrInvalidCoreState
      else case validateSnapshotRequest (saRequest action)
             (DefaultCodecLimits\<lparr>clMaxSnapshotBytes := noMaxSnapshotBytes options\<rparr>) of
        Some err \<Rightarrow> Some err
      | None \<Rightarrow> checkActions options actions)"

text \<open>
  The loop over the committed entries with the index it expects next; an index past the last one is 0,
  as \<open>checkedNextIndex\<close> returns it.
\<close>

fun checkCommitted :: "u64 \<Rightarrow> u64 \<Rightarrow> Entry list \<Rightarrow> raft_error option" where
  "checkCommitted final expected [] = None"
| "checkCommitted final expected (entry # entries) =
     (case validateLogEntry entry of
        Some err \<Rightarrow> Some err
      | None \<Rightarrow>
          if eIndex entry \<noteq> expected then Some ErrLogInvariant
          else case checkedNextIndex expected of
            None \<Rightarrow> if eIndex entry \<noteq> final then Some ErrLogOverflow else checkCommitted final 0 entries
          | Some following \<Rightarrow> checkCommitted final following entries)"

definition hasWaiter :: "('s, 'a, 't, 'i) Node \<Rightarrow> ProposalID \<Rightarrow> Entry \<Rightarrow> bool" where
  "hasWaiter node proposalID entry =
     (case nPendingLocal node proposalID of
        None \<Rightarrow> False | Some pending \<Rightarrow> sameEntry (plEntry pending) entry)"

fun checkCommittedProposals ::
    "('s, 'a, 't, 'i) Node \<Rightarrow> Entry list \<Rightarrow> ProposalID set \<Rightarrow> CommittedProposal list
       \<Rightarrow> raft_error + ProposalID set" where
  "checkCommittedProposals node committed seen [] = Inr seen"
| "checkCommittedProposals node committed seen (proposal # proposals) =
     (if cpID proposal = 0 \<or> cpID proposal \<in> seen \<or> \<not> hasWaiter node (cpID proposal) (cpEntry proposal)
         \<or> \<not> list_ex (sameEntry (cpEntry proposal)) committed
      then Inl ErrInvalidCoreState
      else checkCommittedProposals node committed (insert (cpID proposal) seen) proposals)"

fun checkFailedProposals ::
    "('s, 'a, 't, 'i) Node \<Rightarrow> ProposalID set \<Rightarrow> FailedProposal list \<Rightarrow> raft_error option" where
  "checkFailedProposals node seen [] = None"
| "checkFailedProposals node seen (proposal # proposals) =
     (if fpID proposal = 0 \<or> fpID proposal \<in> seen \<or> \<not> hasWaiter node (fpID proposal) (fpEntry proposal)
      then Some ErrInvalidCoreState
      else checkFailedProposals node (insert (fpID proposal) seen) proposals)"

definition validateReadyStructure :: "Ready \<Rightarrow> ('s, 'a, 't, 'i) Node \<Rightarrow> raft_error option" where
  "validateReadyStructure ready node =
     (if rdToken ready = 0 then Some ErrAdvanceToken
      else case checkUnstable None (rdEntries ready) of Some err \<Rightarrow> Some err
      | None \<Rightarrow> case checkMessages (nOptions node) ready (rdMessages ready) of Some err \<Rightarrow> Some err
      | None \<Rightarrow>
        if length (rdSnapshotActions ready) > 1 then Some ErrInvalidCoreState
        else case checkActions (nOptions node) (rdSnapshotActions ready) of Some err \<Rightarrow> Some err
      | None \<Rightarrow>
        let expected = checkedNextIndex (stAppliedIndex (StatusOf (nCore node)))
        in if expected = None \<and> length (rdCommittedEntries ready) \<noteq> 0 then Some ErrLogOverflow
        else case checkCommitted (lastEntryIndex (rdCommittedEntries ready))
               (case expected of None \<Rightarrow> 0 | Some index \<Rightarrow> index) (rdCommittedEntries ready) of
               Some err \<Rightarrow> Some err
      | None \<Rightarrow>
        case checkCommittedProposals node (rdCommittedEntries ready) {} (rdCommittedProposals ready) of
          Inl err \<Rightarrow> Some err
        | Inr seen \<Rightarrow> checkFailedProposals node seen (rdFailedProposals ready))"

definition validateProspectiveCoreState :: "RecoveredState \<Rightarrow> Core \<Rightarrow> raft_error option" where
  "validateProspectiveCoreState prospective core =
     (if rsHardState prospective \<noteq> cHardState core then Some ErrInvalidCoreState
      else if rsBaseIndex prospective \<noteq> lSnapshotIndex (cLog core)
           \<or> smLastIncludedTerm (rsSnapshotBase prospective) \<noteq> lSnapshotTerm (cLog core)
        then Some ErrInvalidCoreState
      else if length (rsEntries prospective) \<noteq> length (lEntries (cLog core)) then Some ErrInvalidCoreState
      else if list_all2 sameEntry (rsEntries prospective) (lEntries (cLog core)) then None
      else Some ErrInvalidCoreState)"

subsection \<open>The durability a message claims\<close>

text \<open>
  The two variables \<open>requiredHardState\<close> and \<open>requiredEntriesThrough\<close> that the closures of
  \<open>validateMessageDurability\<close> update; \<open>None\<close> is their \<open>ErrInvalidCoreState\<close>.
\<close>

type_synonym needs = "(bool \<times> u64) option"

definition requireTerm :: "RecoveredState \<Rightarrow> RecoveredState \<Rightarrow> u64 \<Rightarrow> bool \<times> u64 \<Rightarrow> needs" where
  "requireTerm current prospective term = (\<lambda>(hard, through).
     if rsTerm prospective < term then None
     else Some (hard \<or> rsTerm current < term, through))"

definition requireCommit :: "RecoveredState \<Rightarrow> RecoveredState \<Rightarrow> u64 \<Rightarrow> bool \<times> u64 \<Rightarrow> needs" where
  "requireCommit current prospective commit = (\<lambda>(hard, through).
     if rsCommitIndex prospective < commit then None
     else Some (hard \<or> rsCommitIndex current < commit, through))"

definition requireVote :: "RecoveredState \<Rightarrow> RecoveredState \<Rightarrow> u64 \<Rightarrow> u16 \<Rightarrow> bool \<times> u64 \<Rightarrow> needs" where
  "requireVote current prospective term voter = (\<lambda>(hard, through).
     if rsTerm prospective \<noteq> term \<or> hsVotedFor (rsHardState prospective) \<noteq> voter then None
     else Some (hard \<or> rsTerm current \<noteq> term \<or> hsVotedFor (rsHardState current) \<noteq> voter, through))"

definition holdsEntry :: "RecoveredState \<Rightarrow> u64 \<Rightarrow> Entry \<Rightarrow> bool" where
  "holdsEntry state index entry =
     (case recoveredEntryAt state index of None \<Rightarrow> False | Some e \<Rightarrow> sameEntry e entry)"

definition requireCorePosition ::
    "Log \<Rightarrow> RecoveredState \<Rightarrow> RecoveredState \<Rightarrow> u64 \<Rightarrow> bool \<times> u64 \<Rightarrow> needs" where
  "requireCorePosition l current prospective index = (\<lambda>(hard, through).
     if index = 0 then Some (hard, through)
     else case Term l index of
       Inl _ \<Rightarrow> None
     | Inr coreTerm \<Rightarrow>
         if recoveredTermAt prospective index \<noteq> Inr coreTerm then None
         else if index = lSnapshotIndex l then Some (hard, through)
         else case EntryAt l index of
           Inl _ \<Rightarrow> None
         | Inr coreEntry \<Rightarrow>
             if \<not> holdsEntry prospective index coreEntry then None
             else if \<not> holdsEntry current index coreEntry \<and> index > through then Some (hard, index)
             else Some (hard, through))"

definition requireRPCEntry :: "RecoveredState \<Rightarrow> RecoveredState \<Rightarrow> Entry \<Rightarrow> bool \<times> u64 \<Rightarrow> needs" where
  "requireRPCEntry current prospective entry = (\<lambda>(hard, through).
     if \<not> holdsEntry prospective (eIndex entry) entry then None
     else if \<not> holdsEntry current (eIndex entry) entry \<and> eIndex entry > through
       then Some (hard, eIndex entry)
     else Some (hard, through))"

fun requireRPCEntries :: "RecoveredState \<Rightarrow> RecoveredState \<Rightarrow> Entry list \<Rightarrow> bool \<times> u64 \<Rightarrow> needs" where
  "requireRPCEntries current prospective [] needed = Some needed"
| "requireRPCEntries current prospective (entry # entries) needed =
     do { needed \<leftarrow> requireRPCEntry current prospective entry needed;
          requireRPCEntries current prospective entries needed }"

text \<open>Whether a chunk is the durable one; \<open>None\<close> is the panic of a slice whose end wrapped below its start.\<close>

definition chunkDurable :: "InstallSnapshotRequest \<Rightarrow> RecoveredState \<Rightarrow> bool option" where
  "chunkDurable rpc prospective =
     (case rsSnapshot prospective of
        None \<Rightarrow> Some False
      | Some snapshot \<Rightarrow>
          if snID snapshot \<noteq> iqSnapshotID rpc
             \<or> snMetadata snapshot \<noteq> \<lparr>smLastIncludedIndex = iqLastIncludedIndex rpc,
                  smLastIncludedTerm = iqLastIncludedTerm rpc, smSchemaVersion = iqSchemaVersion rpc\<rparr>
             \<or> snStateChecksum snapshot \<noteq> iqChecksum rpc
          then Some False
          else
            let state = snState snapshot; stop = iqOffset rpc + len64 (iqChunk rpc)
            in if iqTotalLength rpc \<noteq> len64 state \<or> stop > len64 state then Some False
               else if stop < iqOffset rpc then None
               else Some (iqChunk rpc = segment (unat (iqOffset rpc)) (unat stop) state))"

text \<open>The switch on the message, except the chunk of an \<open>InstallSnapshotRequest\<close>.\<close>

fun requireRPC :: "Core \<Rightarrow> RecoveredState \<Rightarrow> RecoveredState \<Rightarrow> RPC \<Rightarrow> bool \<times> u64 \<Rightarrow> needs" where
  "requireRPC core current prospective (RPreVoteRequest m) needed =
     requireTerm current prospective (pqCurrentTerm m) needed"
| "requireRPC core current prospective (RPreVoteResponse m) needed =
     requireTerm current prospective (prTerm m) needed"
| "requireRPC core current prospective (RRequestVoteRequest m) needed =
     requireVote current prospective (vqTerm m) (vqCandidateID m) needed"
| "requireRPC core current prospective (RRequestVoteResponse m) needed =
     do { needed \<leftarrow> requireTerm current prospective (vrTerm m) needed;
          if vrGranted m then requireVote current prospective (vrTerm m) (vrCandidateID m) needed
          else Some needed }"
| "requireRPC core current prospective (RAppendEntriesRequest m) needed =
     do { needed \<leftarrow> requireTerm current prospective (aqTerm m) needed;
          needed \<leftarrow> requireCommit current prospective (aqLeaderCommit m) needed;
          needed \<leftarrow> (if aqPrevLogIndex m = 0 then Some needed
             else if recoveredTermAt prospective (aqPrevLogIndex m) \<noteq> Inr (aqPrevLogTerm m) then None
             else if aqPrevLogIndex m > rsBaseIndex prospective
               then requireCorePosition (cLog core) current prospective (aqPrevLogIndex m) needed
             else Some needed);
          requireRPCEntries current prospective (aqEntries m) needed }"
| "requireRPC core current prospective (RAppendEntriesResponse m) needed =
     do { needed \<leftarrow> requireTerm current prospective (arTerm m) needed;
          if arSuccess m then
            do { needed \<leftarrow> requireCommit current prospective (hsCommitIndex (cHardState core)) needed;
                 requireCorePosition (cLog core) current prospective (arMatchIndex m) needed }
          else Some needed }"
| "requireRPC core current prospective (RInstallSnapshotRequest m) needed =
     requireTerm current prospective (iqTerm m) needed"
| "requireRPC core current prospective (RInstallSnapshotResponse m) needed =
     requireTerm current prospective (irTerm m) needed"
| "requireRPC core current prospective _ needed = Some needed"

definition checkRequires :: "DurabilityPrerequisite \<Rightarrow> bool \<times> u64 \<Rightarrow> raft_error option" where
  "checkRequires requires = (\<lambda>(hard, through).
     if dpHardState requires \<noteq> hard \<or> dpEntriesThrough requires \<noteq> through
     then Some ErrInvalidCoreState else None)"

text \<open>\<open>None\<close> is a panic, \<open>Some None\<close> a message that is declared as the code requires.\<close>

definition validateMessageDurability ::
    "PeerMessage \<Rightarrow> RecoveredState \<Rightarrow> RecoveredState \<Rightarrow> Core \<Rightarrow> raft_error option option" where
  "validateMessageDurability message current prospective core =
     (case requireRPC core current prospective (pmRPC message) (False, 0) of
        None \<Rightarrow> Some (Some ErrInvalidCoreState)
      | Some needed \<Rightarrow>
          case (case pmRPC message of RInstallSnapshotRequest m \<Rightarrow> chunkDurable m prospective
                | _ \<Rightarrow> Some True) of
            None \<Rightarrow> None
          | Some False \<Rightarrow> Some (Some ErrInvalidCoreState)
          | Some True \<Rightarrow> Some (checkRequires (pmRequires message) needed))"

fun checkDurability ::
    "PeerMessage list \<Rightarrow> RecoveredState \<Rightarrow> RecoveredState \<Rightarrow> Core \<Rightarrow> raft_error option option" where
  "checkDurability [] current prospective core = Some None"
| "checkDurability (message # messages) current prospective core =
     (case validateMessageDurability message current prospective core of
        None \<Rightarrow> None
      | Some (Some err) \<Rightarrow> Some (Some err)
      | Some None \<Rightarrow> checkDurability messages current prospective core)"

definition validateReadyAndDerive ::
    "(bytes \<Rightarrow> bytes32) \<Rightarrow> Ready \<Rightarrow> ('s, 'a, 't, 'i) Node
       \<Rightarrow> (raft_error + PersistenceBatch \<times> RecoveredState) option" where
  "validateReadyAndDerive sha256 ready node =
     (case validateReadyStructure ready node of
        Some err \<Rightarrow> Some (Inl err)
      | None \<Rightarrow>
          let batch = persistenceBatchForReady ready; current = nDurable node
          in case (if persistenceBatchHasEffects batch
                   then applyPersistenceBatch sha256 current batch (noIdentity (nOptions node))
                          (noVoters (nOptions node))
                   else Inr current) of
               Inl _ \<Rightarrow> Some (Inl ErrInvalidCoreState)
             | Inr prospective \<Rightarrow>
                 case validateProspectiveCoreState prospective (nCore node) of
                   Some err \<Rightarrow> Some (Inl err)
                 | None \<Rightarrow>
                     map_option (\<lambda>r. case r of Some err \<Rightarrow> Inl err | None \<Rightarrow> Inr (batch, prospective))
                       (checkDurability (rdMessages ready) current prospective (nCore node)))"

end
