(* ===== verification/Raft_Node_Loop.thy ===== *)
theory Raft_Node_Loop
  imports Raft_Node
begin

text \<open>
  The parts of the owner loop of \<open>internal/raft/node.go\<close> and \<open>leadership.go\<close>: admission of local
  requests, leadership events, the logical clock and its timer, recovery, and snapshot capture and transfer.  The
  drain of output batches and the body of \<open>Run\<close> are in \<open>Raft_Node_Run\<close>.
\<close>

section \<open>Local requests\<close>

definition lifecycleError :: "('s, 'a, 't, 'i) Node \<Rightarrow> raft_error option" where
  "lifecycleError node =
     (case nLifecycle node of
        nodeLifecycleRunning \<Rightarrow> None
      | nodeLifecycleStopped \<Rightarrow> Some ErrStopped
      | _ \<Rightarrow> Some ErrNotRunning)"

text \<open>The compare-and-swap loop of \<open>reserveLocalRequest\<close>, as the one atomic increment it amounts to.\<close>

definition reserveLocalRequest :: "('s, 'a, 't, 'i) Node \<Rightarrow> ('s, 'a, 't, 'i) Node \<times> bool" where
  "reserveLocalRequest node =
     (if nReservations node \<ge> MaxPendingLocalRequests then (node, False)
      else (node\<lparr>nReservations := nReservations node + 1\<rparr>, True))"

definition releaseLocalReservation :: "('s, 'a, 't, 'i) Node \<Rightarrow> ('s, 'a, 't, 'i) node_outcome" where
  "releaseLocalReservation node =
     (let remaining = nReservations node - 1
      in if remaining < 0 then None else ok (node\<lparr>nReservations := remaining\<rparr>))"

text \<open>\<open>ctxDone\<close> is \<open>ctx.Err() \<noteq> nil\<close> as the function reads it.\<close>

datatype api_error = ApiError raft_error | ApiContext

definition enqueuePublicEvent ::
    "bool \<Rightarrow> node_event \<Rightarrow> ('s, 'a, 't, 'i) Node \<Rightarrow> ('s, 'a, 't, 'i) Node \<times> api_error option" where
  "enqueuePublicEvent ctxDone event node =
     (case lifecycleError node of
        Some err \<Rightarrow> (node, Some (ApiError err))
      | None \<Rightarrow>
          if ctxDone then (node, Some ApiContext)
          else if length (nEvents node) < MaxNodeEventQueue
            then (node\<lparr>nEvents := nEvents node @ [event]\<rparr>, None)
          else (node, Some (ApiError ErrOverloaded)))"

text \<open>The admission halves of the public calls, up to the wait for the response.\<close>

definition submitLocal ::
    "bool \<Rightarrow> bool \<Rightarrow> EntryKind \<Rightarrow> bytes \<Rightarrow> chan \<Rightarrow> ('s, 'a, 't, 'i) Node
       \<Rightarrow> (('s, 'a, 't, 'i) Node, api_error) outcome" where
  "submitLocal ctxDone ctxDone' kind command response node =
     (case lifecycleError node of
        Some err \<Rightarrow> fail node (ApiError err)
      | None \<Rightarrow>
          if ctxDone then fail node ApiContext
          else case reserveLocalRequest node of
            (node, False) \<Rightarrow> fail node (ApiError ErrOverloaded)
          | (node, True) \<Rightarrow>
              case enqueuePublicEvent ctxDone' (localRequestEvent kind command response) node of
                (node, None) \<Rightarrow> ok node
              | (node, Some err) \<Rightarrow>
                  map_option (\<lambda>(node, _). (node, Some err)) (releaseLocalReservation node))"

definition SubscribeLeadership ::
    "bool \<Rightarrow> bool \<Rightarrow> int \<Rightarrow> chan \<Rightarrow> ('s, 'a, 't, 'i) Node \<Rightarrow> ('s, 'a, 't, 'i) Node \<times> api_error option" where
  "SubscribeLeadership ctxDone ctxDone' capacity response node =
     (case lifecycleError node of
        Some err \<Rightarrow> (node, Some (ApiError err))
      | None \<Rightarrow>
          if capacity < MinLeadershipSubscriptionCapacity \<or> capacity > MaxLeadershipSubscriptionCapacity
          then (node, Some (ApiError ErrInvalidLeadershipCapacity))
          else if ctxDone then (node, Some ApiContext)
          else enqueuePublicEvent ctxDone' (leadershipRequestEvent (nat capacity) response) node)"

definition SubmitRPC ::
    "bool \<Rightarrow> bool \<Rightarrow> u16 \<Rightarrow> RPC \<Rightarrow> chan \<Rightarrow> ('s, 'a, 't, 'i) Node \<Rightarrow> ('s, 'a, 't, 'i) Node \<times> api_error option" where
  "SubmitRPC ctxDone ctxDone' senderID rpc response node =
     (case lifecycleError node of
        Some err \<Rightarrow> (node, Some (ApiError err))
      | None \<Rightarrow>
          if ctxDone then (node, Some ApiContext)
          else enqueuePublicEvent ctxDone' (inboundRPCEvent senderID rpc response) node)"

definition localRequestError :: "raft_error \<Rightarrow> ('s, 'a, 't, 'i) Node \<Rightarrow> reply" where
  "localRequestError err node =
     (if err = ErrNotLeader then ReplyNotLeader (stLeaderID (StatusOf (nCore node)))
      else ReplyLocal (Inl err))"

text \<open>The drain of \<open>releasePendingReservations\<close>: every waiter, then every queued local request.\<close>

definition isLocalRequest :: "node_event \<Rightarrow> bool" where
  "isLocalRequest event = (case event of localRequestEvent _ _ _ \<Rightarrow> True | _ \<Rightarrow> False)"

fun releaseTimes :: "nat \<Rightarrow> ('s, 'a, 't, 'i) Node \<Rightarrow> ('s, 'a, 't, 'i) node_outcome" where
  "releaseTimes 0 node = ok node"
| "releaseTimes (Suc n) node = and_then (releaseLocalReservation node) (releaseTimes n)"

definition releasePendingReservations :: "('s, 'a, 't, 'i) Node \<Rightarrow> ('s, 'a, 't, 'i) node_outcome" where
  "releasePendingReservations node =
     and_then (releaseTimes (card (dom (nPendingLocal node))) node)
       (\<lambda>node. let queued = nEvents node; node = node\<lparr>nPendingLocal := (\<lambda>_. None), nEvents := []\<rparr>
         in releaseTimes (length (filter isLocalRequest queued)) node)"

section \<open>Leadership events\<close>

definition offerEvent :: "LeadershipEvent \<Rightarrow> leadershipSubscriber \<Rightarrow> leadershipSubscriber" where
  "offerEvent event subscriber =
     (if length (lsEvents subscriber) < lsCapacity subscriber
      then subscriber\<lparr>lsEvents := lsEvents subscriber @ [event]\<rparr>
      else subscriber\<lparr>lsEnd := Some (Some ErrLeadershipResyncRequired)\<rparr>)"

text \<open>The loop over the subscribers touches each of them independently.\<close>

definition publishEvent :: "LeadershipEvent \<Rightarrow> ('s, 'a, 't, 'i) Node \<Rightarrow> ('s, 'a, 't, 'i) Node" where
  "publishEvent event node =
     (let offered = (\<lambda>sid. if sid \<in> nSubscribers node then map_option (offerEvent event) (nSubscriptions node sid)
                           else nSubscriptions node sid)
      in node\<lparr>nSubscriptions := offered,
              nSubscribers := Set.filter (\<lambda>sid. case offered sid of None \<Rightarrow> False | Some s \<Rightarrow> lsEnd s = None)
                 (nSubscribers node)\<rparr>)"

definition publishStatus :: "('s, 'a, 't, 'i) Node \<Rightarrow> ('s, 'a, 't, 'i) Node \<times> raft_error option" where
  "publishStatus node =
     (let status = StatusOf (nCore node);
          following = \<lparr>leSequence = 1, leTerm = stTerm status, leRole = stRole status,
            leLeaderID = stLeaderID status, leLocalID = noLocalID (nOptions node)\<rparr>
      in case nLeadership node of
           None \<Rightarrow> (node\<lparr>nLeadership := Some following, nStatus := status\<rparr>, None)
         | Some current \<Rightarrow>
             if leTerm following < leTerm current then (node, Some ErrInvalidCoreState)
             else if leTerm following = leTerm current \<and> leRole following = leRole current
                  \<and> leLeaderID following = leLeaderID current
               then (node\<lparr>nStatus := status\<rparr>, None)
             else if leSequence current = MaxUint64 then (node, Some ErrLeadershipSequenceOverflow)
             else
               let event = following\<lparr>leSequence := leSequence current + 1\<rparr>
               in ((publishEvent event (node\<lparr>nLeadership := Some event\<rparr>))\<lparr>nStatus := status\<rparr>, None))"

definition zero_LeadershipEvent :: LeadershipEvent where
  "zero_LeadershipEvent = \<lparr>leSequence = 0, leTerm = 0, leRole = RoleFollower, leLeaderID = 0, leLocalID = 0\<rparr>"

definition addLeadershipSubscription ::
    "nat \<Rightarrow> ('s, 'a, 't, 'i) Node \<Rightarrow> ('s, 'a, 't, 'i) Node \<times> (raft_error + u64)" where
  "addLeadershipSubscription capacity node =
     (if nNextSubscriberID node = MaxUint64 then (node, Inl ErrLeadershipSequenceOverflow)
      else
        let sid = nNextSubscriberID node + 1;
            subscriber = \<lparr>lsSnapshot = (case nLeadership node of None \<Rightarrow> zero_LeadershipEvent | Some e \<Rightarrow> e),
              lsCapacity = capacity, lsEvents = [], lsEnd = None\<rparr>
        in (node\<lparr>nNextSubscriberID := sid, nSubscriptions := (nSubscriptions node)(sid \<mapsto> subscriber),
                 nSubscribers := insert sid (nSubscribers node)\<rparr>, Inr sid))"

definition terminateLeadershipSubscriber ::
    "u64 \<Rightarrow> raft_error option \<Rightarrow> ('s, 'a, 't, 'i) Node \<Rightarrow> ('s, 'a, 't, 'i) Node" where
  "terminateLeadershipSubscriber sid err node =
     (if sid \<notin> nSubscribers node then node
      else node\<lparr>nSubscribers := nSubscribers node - {sid},
                nSubscriptions := (nSubscriptions node)(sid :=
                  map_option (\<lambda>s. s\<lparr>lsEnd := Some err\<rparr>) (nSubscriptions node sid))\<rparr>)"

definition terminateLeadershipSubscriptions ::
    "raft_error \<Rightarrow> ('s, 'a, 't, 'i) Node \<Rightarrow> ('s, 'a, 't, 'i) Node" where
  "terminateLeadershipSubscriptions err node =
     node\<lparr>nSubscriptions := (\<lambda>sid. if sid \<in> nSubscribers node
            then map_option (\<lambda>s. s\<lparr>lsEnd := Some (Some err)\<rparr>) (nSubscriptions node sid)
            else nSubscriptions node sid),
          nSubscribers := {}\<rparr>"

text \<open>A subscriber takes the next event of its channel; a closed channel still yields what it holds.\<close>

definition receiveEvent ::
    "u64 \<Rightarrow> ('s, 'a, 't, 'i) Node \<Rightarrow> ('s, 'a, 't, 'i) Node \<times> LeadershipEvent option" where
  "receiveEvent sid node =
     (case nSubscriptions node sid of
        None \<Rightarrow> (node, None)
      | Some subscriber \<Rightarrow>
          case lsEvents subscriber of
            [] \<Rightarrow> (node, None)
          | event # events \<Rightarrow>
              (node\<lparr>nSubscriptions := (nSubscriptions node)(sid \<mapsto> subscriber\<lparr>lsEvents := events\<rparr>)\<rparr>, Some event))"

section \<open>Time\<close>

definition MaxInt64 :: int where "MaxInt64 = 9223372036854775807"

text \<open>\<open>clock\<close> is what \<open>Clock.Now\<close> returns, in nanoseconds; \<open>Sub\<close> saturates.\<close>

definition logicalNow :: "int \<Rightarrow> ('s, 'a, 't, 'i) Node \<Rightarrow> raft_error + u64" where
  "logicalNow clock node =
     (if clock < nEpoch node then Inl ErrTickRegression
      else
        let logical = word_of_int (min (clock - nEpoch node) MaxInt64)
        in if logical < cNow (nCore node) then Inl ErrTickRegression else Inr logical)"

definition nextTimerDuration :: "u64 \<Rightarrow> Core \<Rightarrow> int" where
  "nextTimerDuration now core =
     (let deadline = (if cRole core = RoleLeader
            then (if cQuorumDeadline core < cHeartbeatDeadline core
                  then cQuorumDeadline core else cHeartbeatDeadline core)
            else cElectionDeadline core)
      in if deadline \<le> now then 0
         else if uint (deadline - now) > MaxInt64 then MaxInt64
         else uint (deadline - now))"

definition resetTimer :: "u64 \<Rightarrow> ('s, 'a, 't, 'i) Node \<Rightarrow> ('s, 'a, 't, 'i) Node" where
  "resetTimer now node = node\<lparr>nTimer := nextTimerDuration now (nCore node)\<rparr>"

definition fatalCoreError :: "raft_error \<Rightarrow> bool" where
  "fatalCoreError err \<longleftrightarrow>
     err \<in> {ErrCommittedConflict, ErrLogInvariant, ErrLogOverflow, ErrTermOverflow, ErrDeadlineOverflow,
             ErrReplicationGenerationOverflow, ErrReadyTokenExhausted, ErrInvalidCoreState}"

section \<open>Recovery\<close>

fun replayRecovered ::
    "'a StateMachine \<Rightarrow> u64 \<Rightarrow> Entry list \<Rightarrow> 'a \<Rightarrow> 'a \<times> raft_error option" where
  "replayRecovered app commitIndex [] st = (st, None)"
| "replayRecovered app commitIndex (entry # entries) st =
     (if eIndex entry > commitIndex then (st, None)
      else if eKind entry = EntryNoOp then replayRecovered app commitIndex entries st
      else case smApply app (eIndex entry) (eTerm entry) (eCommand entry) st of
        (st, Inl err) \<Rightarrow> (st, Some err)
      | (st, Inr _) \<Rightarrow> replayRecovered app commitIndex entries st)"

text \<open>The validation of the state a store recovers: the state with its snapshot decoded.\<close>

definition validateRecovery ::
    "(bytes \<Rightarrow> bytes32) \<Rightarrow> RecoveredState \<Rightarrow> ('s, 'a, 't, 'i) NodeOptions \<Rightarrow> raft_error + RecoveredState" where
  "validateRecovery sha256 recovered options =
     (case validateRecoveredStateWithSnapshotLimit sha256 recovered (noIdentity options) (noVoters options)
             (noMaxSnapshotBytes options) of
        Some err \<Rightarrow> Inl err
      | None \<Rightarrow>
          case rsSnapshot recovered of
            None \<Rightarrow> if rsBaseIndex recovered \<noteq> 0 then Inl ErrSnapshotUnavailable else Inr recovered
          | Some snapshot \<Rightarrow>
              case DecodeSnapshotEnvelope sha256 (snEnvelope snapshot) (noIdentity options)
                     (noMaxSnapshotBytes options) of
                Inl _ \<Rightarrow> Inl ErrSnapshotUnavailable
              | Inr decoded \<Rightarrow>
                  if snMetadata decoded \<noteq> rsSnapshotBase recovered \<or> snID decoded \<noteq> snID snapshot
                  then Inl ErrSnapshotUnavailable
                  else Inr (recovered\<lparr>rsSnapshot := Some decoded\<rparr>))"

definition recoveredCoreOptions ::
    "RecoveredState \<Rightarrow> Log \<Rightarrow> ('s, 'a, 't, 'i) NodeOptions \<Rightarrow> CoreOptions" where
  "recoveredCoreOptions recovered l options =
     \<lparr>coLocalID = noLocalID options, coVoters = noVoters options, coHardState = rsHardState recovered,
      coLog = Some l, coAppliedIndex = rsBaseIndex recovered,
      coElectionTimeoutMin = word_of_int (noElectionTimeoutMin options),
      coElectionTimeoutMax = word_of_int (noElectionTimeoutMax options),
      coHeartbeatInterval = word_of_int (noHeartbeatInterval options),
      coMaxAppendEntries = noMaxAppendEntries options, coMaxAppendBytes = noMaxAppendBytes options,
      coRandom = noRandom options\<rparr>"

text \<open>The application half: restore the snapshot, replay the committed suffix, establish the applied index.\<close>

definition recoverApplication ::
    "RecoveredState \<Rightarrow> ('s, 'a, 't, 'i) Node \<Rightarrow> ('s, 'a, 't, 'i) Node \<times> raft_error option" where
  "recoverApplication recovered node =
     (let app = noStateMachine (nOptions node);
          (schema, state) = (case rsSnapshot recovered of None \<Rightarrow> (0, [])
             | Some snapshot \<Rightarrow> (smSchemaVersion (snMetadata snapshot), snState snapshot))
      in case smRestore app schema state (nApp node) of
           (st, Some err) \<Rightarrow> (node\<lparr>nApp := st\<rparr>, Some err)
         | (st, None) \<Rightarrow>
             case replayRecovered app (rsCommitIndex recovered) (rsEntries recovered) st of
               (st, Some err) \<Rightarrow> (node\<lparr>nApp := st\<rparr>, Some err)
             | (st, None) \<Rightarrow>
                 case AdvanceApplied (rsCommitIndex recovered) (cLog (nCore node)) of
                   (l, err) \<Rightarrow> (node\<lparr>nApp := st, nCore := (nCore node)\<lparr>cLog := l\<rparr>\<rparr>, err))"

definition recoverPreparedState ::
    "(bytes \<Rightarrow> bytes32) \<Rightarrow> ('s, 'a, 't, 'i) Node \<Rightarrow> ('s, 'a, 't, 'i) node_outcome" where
  "recoverPreparedState sha256 node =
     (case ssRecover (noStore (nOptions node)) (nStore node) of
        (store, Inl err) \<Rightarrow> fail (node\<lparr>nStore := store\<rparr>) err
      | (store, Inr recovered) \<Rightarrow>
          let node = node\<lparr>nStore := store\<rparr>
          in case validateRecovery sha256 recovered (nOptions node) of
               Inl err \<Rightarrow> fail node err
             | Inr recovered \<Rightarrow>
                 case NewLog (rsBaseIndex recovered) (smLastIncludedTerm (rsSnapshotBase recovered))
                        (rsCommitIndex recovered) (rsBaseIndex recovered) (rsEntries recovered) of
                   Inl err \<Rightarrow> fail node err
                 | Inr l \<Rightarrow>
                     case NewCore (recoveredCoreOptions recovered l (nOptions node)) of
                       None \<Rightarrow> None
                     | Some (Inl err) \<Rightarrow> fail node err
                     | Some (Inr core) \<Rightarrow>
                         and_then
                           (Some (recoverApplication recovered (node\<lparr>nCore := core, nDurable := recovered\<rparr>)))
                           (\<lambda>node. Some (publishStatus (node\<lparr>nPendingLocal := (\<lambda>_. None), nSubscribers := {}\<rparr>))))"

section \<open>Snapshots\<close>

text \<open>Whether a capture is due, and its metadata; the store reports its retained bytes if it can.\<close>

definition captureDue :: "('s, 'a, 't, 'i) Node \<Rightarrow> raft_error + bool" where
  "captureDue node =
     (let l = cLog (nCore node); options = nOptions node
      in if lAppliedIndex l < lSnapshotIndex l then Inl ErrLogInvariant
         else if lAppliedIndex l = lSnapshotIndex l then Inr False
         else
           let entryTriggered = lAppliedIndex l - lSnapshotIndex l > noSnapshotEntryThreshold options
           in case ssRetained (noStore options) of
                None \<Rightarrow> Inr entryTriggered
              | Some retainedOf \<Rightarrow>
                  case retainedOf (nStore node) of
                    Inl err \<Rightarrow> Inl err
                  | Inr retained \<Rightarrow> Inr (entryTriggered \<or> retained > noSnapshotByteThreshold options))"

definition maybeStartSnapshotCapture ::
    "('s, 'a, 't, 'i) Node \<Rightarrow> ('s, 'a, 't, 'i) Node \<times> raft_error option" where
  "maybeStartSnapshotCapture node =
     (if nCapture node \<noteq> None then (node, None)
      else case captureDue node of
        Inl err \<Rightarrow> (node, Some err)
      | Inr False \<Rightarrow> (node, None)
      | Inr True \<Rightarrow>
          let index = lAppliedIndex (cLog (nCore node))
          in case Term (cLog (nCore node)) index of
               Inl err \<Rightarrow> (node, Some err)
             | Inr term' \<Rightarrow>
                 case smCapture (noStateMachine (nOptions node)) index term' (nApp node) of
                   (st, Inl err) \<Rightarrow> (node\<lparr>nApp := st\<rparr>, Some err)
                 | (st, Inr None) \<Rightarrow> (node\<lparr>nApp := st\<rparr>, Some ErrInvalidSnapshot)
                 | (st, Inr (Some capture)) \<Rightarrow>
                     if scSchemaVersion capture = 0 then (node\<lparr>nApp := st\<rparr>, Some ErrInvalidSnapshot)
                     else (node\<lparr>nApp := st, nCapture := Some (\<lparr>smLastIncludedIndex = index,
                             smLastIncludedTerm = term', smSchemaVersion = scSchemaVersion capture\<rparr>, capture)\<rparr>,
                           None))"

text \<open>The goroutine of a capture: the result it sends to the owner.\<close>

definition encodeCapture ::
    "(bytes \<Rightarrow> bytes32) \<Rightarrow> ('s, 'a, 't, 'i) NodeOptions \<Rightarrow> SnapshotMetadata \<Rightarrow> SnapshotCapture
       \<Rightarrow> snapshotCaptureResult" where
  "encodeCapture sha256 options metadata capture =
     (case scMarshalBinary capture of
        Inl err \<Rightarrow> Inl err
      | Inr state \<Rightarrow>
          if scSchemaAfter capture \<noteq> smSchemaVersion metadata then Inl ErrInvalidSnapshot
          else NewSnapshot sha256 (noIdentity options) metadata state (noMaxSnapshotBytes options))"

definition finishSnapshotCapture ::
    "(bytes \<Rightarrow> bytes32) \<Rightarrow> snapshotCaptureResult \<Rightarrow> ('s, 'a, 't, 'i) Node
       \<Rightarrow> ('s, 'a, 't, 'i) Node \<times> raft_error option" where
  "finishSnapshotCapture sha256 result node =
     (if nCapture node = None then (node, Some ErrInvalidCoreState)
      else
        let node = node\<lparr>nCapture := None\<rparr>; options = nOptions node; l = cLog (nCore node)
        in case result of
             Inl err \<Rightarrow> (node, Some err)
           | Inr snapshot \<Rightarrow>
               let index = smLastIncludedIndex (snMetadata snapshot)
               in if index \<le> lSnapshotIndex l then (node, None)
                  else if index > lAppliedIndex l then (node, Some ErrInvalidCoreState)
                  else case compactRecoveredState sha256 (nDurable node) snapshot (noIdentity options)
                              (noVoters options) (noMaxSnapshotBytes options) of
                    Inl err \<Rightarrow> (node, Some err)
                  | Inr prospective \<Rightarrow>
                      case ssPersistSnapshot (noStore options) of
                        None \<Rightarrow> (node, Some ErrInvalidCoreState)
                      | Some persist \<Rightarrow>
                          case persist snapshot (nStore node) of
                            (store, Some err) \<Rightarrow> (node\<lparr>nStore := store\<rparr>, Some err)
                          | (store, None) \<Rightarrow>
                              case CompactSnapshot (snMetadata snapshot) (nCore node) of
                                (core, Some err) \<Rightarrow> (node\<lparr>nStore := store, nCore := core\<rparr>, Some err)
                              | (core, None) \<Rightarrow>
                                  (node\<lparr>nStore := store, nCore := core, nDurable := prospective\<rparr>, None))"

text \<open>The peers the loop of \<open>maybeStartSnapshotTransfer\<close> passes over are dropped; the first one left is served.\<close>

definition needsTransfer :: "Core \<Rightarrow> u16 \<Rightarrow> bool" where
  "needsTransfer core peer =
     (case progressOf core peer of
        None \<Rightarrow> False
      | Some progress \<Rightarrow> pSnapshotNeeded progress \<and> TransferID_IsZero (pActiveTransferID progress))"

definition exactDurableSnapshot :: "('s, 'a, 't, 'i) Node \<Rightarrow> Snapshot option" where
  "exactDurableSnapshot node =
     (case rsSnapshot (nDurable node) of
        None \<Rightarrow> None
      | Some snapshot \<Rightarrow>
          if snMetadata snapshot \<noteq> rsSnapshotBase (nDurable node)
             \<or> smLastIncludedIndex (snMetadata snapshot) \<noteq> lSnapshotIndex (cLog (nCore node))
             \<or> smLastIncludedTerm (snMetadata snapshot) \<noteq> lSnapshotTerm (cLog (nCore node))
             \<or> length (snState snapshot) > unat (noMaxSnapshotBytes (nOptions node))
          then None else Some snapshot)"

text \<open>Whether a transfer was started; a panic is \<open>None\<close>.\<close>

definition maybeStartSnapshotTransfer ::
    "('s, 'a, 't, 'i) Node \<Rightarrow> (('s, 'a, 't, 'i) Node \<times> (raft_error + bool)) option" where
  "maybeStartSnapshotTransfer node =
     (let options = nOptions node; core = nCore node
      in if cRole core \<noteq> RoleLeader then Some (node, Inr False)
         else case filter (\<lambda>peer. peer \<noteq> noLocalID options \<and> needsTransfer core peer)
                     (map vID (vsVoters (noVoters options))) of
           [] \<Rightarrow> Some (node, Inr False)
         | peer # _ \<Rightarrow>
             case exactDurableSnapshot node of
               None \<Rightarrow> Some (node, Inl ErrSnapshotUnavailable)
             | Some snapshot \<Rightarrow>
                 case noNextTransferID options peer (nTransferIDs node) of
                   (ids, Inl _) \<Rightarrow> Some (node\<lparr>nTransferIDs := ids\<rparr>, Inl ErrTransferIDExhausted)
                 | (ids, Inr transferID) \<Rightarrow>
                     let node = node\<lparr>nTransferIDs := ids\<rparr>;
                         chunkLimit = (if noMaxSnapshotChunkBytes options = 0
                           then MaxRaftSnapshotChunkBytes else noMaxSnapshotChunkBytes options)
                     in if TransferID_IsZero transferID then Some (node, Inl ErrTransferIDExhausted)
                        else map_option
                          (\<lambda>(core, err). (node\<lparr>nCore := core\<rparr>,
                             case err of Some e \<Rightarrow> Inl e | None \<Rightarrow> Inr True))
                          (StartSnapshotTransfer peer snapshot transferID chunkLimit core))"

end
