(* ===== verification/Raft_Node_Run.thy ===== *)
theory Raft_Node_Run
  imports Raft_Node_Loop
begin

text \<open>
  The drain of output batches and the body of \<open>Run\<close> (\<open>internal/raft/node.go\<close>).  \<open>drainReady\<close> is a loop the
  code does not bound, so it is a partial function: a drain that never ends is the value \<open>None\<close>, and no theorem
  claims that a drain ends.
\<close>

section \<open>The effects of one batch\<close>

text \<open>\<open>CompleteSnapshotAction\<close> on the core of a node.\<close>

definition completeAction ::
    "ReadyToken \<Rightarrow> SnapshotActionResult \<Rightarrow> ('s, 'a, 't, 'i) Node
       \<Rightarrow> ('s, 'a, 't, 'i) Node \<times> (raft_error + PeerMessage)" where
  "completeAction token result node =
     (case CompleteSnapshotAction token result (nCore node) of
        (core, response) \<Rightarrow> (node\<lparr>nCore := core\<rparr>, response))"

definition rejectedAction :: SnapshotActionResult where
  "rejectedAction = \<lparr>sarNextOffset = 0, sarDone = False, sarState = emptyState zero_StorageIdentity,
     sarRejected = True\<rparr>"

text \<open>After the store has installed a snapshot: the application is restored and the suffix replayed.\<close>

definition installStaged ::
    "(bytes \<Rightarrow> bytes32) \<Rightarrow> ReadyToken \<Rightarrow> SnapshotStageResult \<Rightarrow> ('s, 'a, 't, 'i) Node
       \<Rightarrow> ('s, 'a, 't, 'i) Node \<times> (raft_error + PeerMessage)" where
  "installStaged sha256 token staged node =
     (let options = nOptions node; app = noStateMachine options; installed = srState staged
      in case rsSnapshot installed of
           None \<Rightarrow> (node, Inl ErrInvalidCoreState)
         | Some snapshot \<Rightarrow>
             if validateRecoveredStateWithSnapshotLimit sha256 installed (noIdentity options)
                  (noVoters options) (noMaxSnapshotBytes options) \<noteq> None
             then (node, Inl ErrInvalidCoreState)
             else case smRestore app (smSchemaVersion (snMetadata snapshot)) (snState snapshot) (nApp node) of
               (st, Some err) \<Rightarrow> (node\<lparr>nApp := st\<rparr>, Inl err)
             | (st, None) \<Rightarrow>
                 case replayRecovered app (rsCommitIndex installed) (rsEntries installed) st of
                   (st, Some err) \<Rightarrow> (node\<lparr>nApp := st\<rparr>, Inl err)
                 | (st, None) \<Rightarrow>
                     completeAction token \<lparr>sarNextOffset = srNextOffset staged, sarDone = True,
                         sarState = installed\<lparr>rsAppliedIndex := rsCommitIndex installed\<rparr>, sarRejected = False\<rparr>
                       (node\<lparr>nApp := st, nDurable := installed\<rparr>))"

definition stageAction ::
    "(bytes \<Rightarrow> bytes32) \<Rightarrow> ReadyToken
       \<Rightarrow> (InstallSnapshotRequest \<Rightarrow> 's \<Rightarrow> 's \<times> (raft_error + SnapshotStageResult))
       \<Rightarrow> InstallSnapshotRequest \<Rightarrow> ('s, 'a, 't, 'i) Node
       \<Rightarrow> ('s, 'a, 't, 'i) Node \<times> (raft_error + PeerMessage)" where
  "stageAction sha256 token stage request node =
     (case stage request (nStore node) of
        (store, Inl err) \<Rightarrow>
          (if err = ErrSnapshotRejected then completeAction token rejectedAction (node\<lparr>nStore := store\<rparr>)
           else (node\<lparr>nStore := store\<rparr>, Inl err))
      | (store, Inr staged) \<Rightarrow>
          let node = node\<lparr>nStore := store\<rparr>
          in if srDone staged then installStaged sha256 token staged node
             else completeAction token \<lparr>sarNextOffset = srNextOffset staged, sarDone = False,
                    sarState = emptyState zero_StorageIdentity, sarRejected = False\<rparr> node)"

definition executeSnapshotAction ::
    "(bytes \<Rightarrow> bytes32) \<Rightarrow> ReadyToken \<Rightarrow> SnapshotAction \<Rightarrow> ('s, 'a, 't, 'i) Node
       \<Rightarrow> ('s, 'a, 't, 'i) Node \<times> (raft_error + PeerMessage)" where
  "executeSnapshotAction sha256 token action node =
     (case ssStaging (noStore (nOptions node)) of
        None \<Rightarrow> (node, Inl ErrInvalidCoreState)
      | Some (stage, abort) \<Rightarrow>
          let reset = (if saReset action then abort (nStore node) else (nStore node, None));
              node = node\<lparr>nStore := fst reset\<rparr>
          in case snd reset of
               Some err \<Rightarrow> (node, Inl err)
             | None \<Rightarrow>
                 case saKind action of
                   SnapshotActionAbort \<Rightarrow>
                     (case abort (nStore node) of
                        (store, Some err) \<Rightarrow> (node\<lparr>nStore := store\<rparr>, Inl err)
                      | (store, None) \<Rightarrow> completeAction token rejectedAction (node\<lparr>nStore := store\<rparr>))
                 | SnapshotActionStage \<Rightarrow> stageAction sha256 token stage (saRequest action) node)"

definition handoffPeerMessage ::
    "PeerMessage \<Rightarrow> ('s, 'a, 't, 'i) Node \<Rightarrow> ('s, 'a, 't, 'i) node_outcome" where
  "handoffPeerMessage message node =
     (case noHandoff (nOptions node) message (nTransport node) of
        (transport, result) \<Rightarrow>
          let node = node\<lparr>nTransport := transport, nHandoffs := nHandoffs node @ [(message, nStore node)]\<rparr>
          in case result of
               Inl err \<Rightarrow> fail node err
             | Inr handoff \<Rightarrow>
                 if handoff \<noteq> TransportAccepted \<and> handoff \<noteq> TransportUnavailable
                 then fail node ErrTransportInvariant else ok node)"

definition runAction ::
    "(bytes \<Rightarrow> bytes32) \<Rightarrow> ReadyToken \<Rightarrow> SnapshotAction \<Rightarrow> ('s, 'a, 't, 'i) Node
       \<Rightarrow> ('s, 'a, 't, 'i) node_outcome" where
  "runAction sha256 token action node =
     (case executeSnapshotAction sha256 token action node of
        (node, Inl err) \<Rightarrow> fail node err
      | (node, Inr message) \<Rightarrow> handoffPeerMessage message node)"

text \<open>The apply loop, with the results by index.\<close>

fun applyCommitted ::
    "'a StateMachine \<Rightarrow> (u64 \<rightharpoonup> ProposalResult) \<Rightarrow> Entry list \<Rightarrow> 'a
       \<Rightarrow> 'a \<times> (raft_error + (u64 \<rightharpoonup> ProposalResult))" where
  "applyCommitted app applied [] st = (st, Inr applied)"
| "applyCommitted app applied (entry # entries) st =
     (let record = (\<lambda>result. applied(eIndex entry \<mapsto>
            \<lparr>prIndex = eIndex entry, prEntryTerm = eTerm entry, prResult = result\<rparr>))
      in if eKind entry = EntryCommand then
           (case smApply app (eIndex entry) (eTerm entry) (eCommand entry) st of
              (st, Inl err) \<Rightarrow> (st, Inl err)
            | (st, Inr result) \<Rightarrow> applyCommitted app (record result) entries st)
         else applyCommitted app (record []) entries st)"

text \<open>The waiter of a proposal is answered, forgotten and its reservation released.\<close>

definition answerLocal ::
    "ProposalID \<Rightarrow> chan \<Rightarrow> reply \<Rightarrow> ('s, 'a, 't, 'i) Node \<Rightarrow> ('s, 'a, 't, 'i) node_outcome" where
  "answerLocal proposalID ch response node =
     (let node = send ch response node
      in releaseLocalReservation (node\<lparr>nPendingLocal := (nPendingLocal node)(proposalID := None)\<rparr>))"

definition resolveCommitted ::
    "(u64 \<rightharpoonup> ProposalResult) \<Rightarrow> CommittedProposal \<Rightarrow> ('s, 'a, 't, 'i) Node \<Rightarrow> ('s, 'a, 't, 'i) node_outcome" where
  "resolveCommitted applied committed node =
     (case nPendingLocal node (cpID committed) of
        None \<Rightarrow> fail node ErrInvalidCoreState
      | Some pending \<Rightarrow>
          if \<not> sameEntry (plEntry pending) (cpEntry committed) then fail node ErrInvalidCoreState
          else case applied (eIndex (cpEntry committed)) of
            None \<Rightarrow> fail node ErrInvalidCoreState
          | Some result \<Rightarrow>
              if prEntryTerm result \<noteq> eTerm (cpEntry committed) then fail node ErrInvalidCoreState
              else answerLocal (cpID committed) (plResponse pending) (ReplyLocal (Inr result)) node)"

definition resolveFailed :: "FailedProposal \<Rightarrow> ('s, 'a, 't, 'i) Node \<Rightarrow> ('s, 'a, 't, 'i) node_outcome" where
  "resolveFailed failed node =
     (case nPendingLocal node (fpID failed) of
        None \<Rightarrow> fail node ErrInvalidCoreState
      | Some pending \<Rightarrow>
          if \<not> sameEntry (plEntry pending) (fpEntry failed) then fail node ErrInvalidCoreState
          else answerLocal (fpID failed) (plResponse pending) (ReplyLocal (Inl (fpErr failed))) node)"

definition persistBatch ::
    "PersistenceBatch \<Rightarrow> RecoveredState \<Rightarrow> ('s, 'a, 't, 'i) Node \<Rightarrow> ('s, 'a, 't, 'i) node_outcome" where
  "persistBatch batch prospective node =
     (if persistenceBatchHasEffects batch then
        (case ssPersist (noStore (nOptions node)) batch (nStore node) of
           (store, Some err) \<Rightarrow> fail (node\<lparr>nStore := store\<rparr>) err
         | (store, None) \<Rightarrow> ok (node\<lparr>nStore := store, nDurable := prospective\<rparr>))
      else ok node)"

definition applyBatch :: "Ready \<Rightarrow> ('s, 'a, 't, 'i) Node \<Rightarrow> ('s, 'a, 't, 'i) node_outcome" where
  "applyBatch ready node =
     (case applyCommitted (noStateMachine (nOptions node)) (\<lambda>_. None) (rdCommittedEntries ready) (nApp node) of
        (st, Inl err) \<Rightarrow> fail (node\<lparr>nApp := st\<rparr>) err
      | (st, Inr applied) \<Rightarrow>
          and_then (for_each (resolveCommitted applied) (rdCommittedProposals ready) (node\<lparr>nApp := st\<rparr>))
            (for_each resolveFailed (rdFailedProposals ready)))"

text \<open>The loop body for one batch, up to and including \<open>Advance\<close>.\<close>

definition processReady ::
    "(bytes \<Rightarrow> bytes32) \<Rightarrow> Ready \<Rightarrow> ('s, 'a, 't, 'i) Node \<Rightarrow> ('s, 'a, 't, 'i) node_outcome" where
  "processReady sha256 ready node =
     (case validateReadyAndDerive sha256 ready node of
        None \<Rightarrow> None
      | Some (Inl err) \<Rightarrow> fail node err
      | Some (Inr (batch, prospective)) \<Rightarrow>
          and_then (persistBatch batch prospective node) (\<lambda>node.
          and_then (for_each (runAction sha256 (rdToken ready)) (rdSnapshotActions ready) node) (\<lambda>node.
          and_then (for_each handoffPeerMessage (rdMessages ready) node) (\<lambda>node.
          and_then (applyBatch ready node) (\<lambda>node.
          on_core (Some (Advance (rdToken ready) (nCore node))) node)))))"

text \<open>
  \<open>stopped token\<close> is whether the context is done when the loop reads it after the batch \<open>token\<close>; tokens
  are never reused.
\<close>

partial_function (option) drainReady ::
    "(bytes \<Rightarrow> bytes32) \<Rightarrow> (ReadyToken \<Rightarrow> bool) \<Rightarrow> ('s, 'a, 't, 'i) Node
       \<Rightarrow> (('s, 'a, 't, 'i) Node \<times> raft_error option) option" where
  "drainReady sha256 stopped node =
     (case ReadyOf (nCore node) of
        (core, None) \<Rightarrow>
          (case cTerminalErr core of
             Some err \<Rightarrow> Some (node\<lparr>nCore := core\<rparr>, Some err)
           | None \<Rightarrow>
               case maybeStartSnapshotTransfer (node\<lparr>nCore := core\<rparr>) of
                 None \<Rightarrow> None
               | Some (node, Inl err) \<Rightarrow> Some (node, Some err)
               | Some (node, Inr started) \<Rightarrow>
                   if started then drainReady sha256 stopped node
                   else Some (maybeStartSnapshotCapture node))
      | (core, Some ready) \<Rightarrow>
          (case processReady sha256 ready (node\<lparr>nCore := core\<rparr>) of
             None \<Rightarrow> None
           | Some (node, Some err) \<Rightarrow> Some (node, Some err)
           | Some (node, None) \<Rightarrow>
               if stopped (rdToken ready) then Some (node, None) else drainReady sha256 stopped node))"

section \<open>The body of \<open>Run\<close>\<close>

text \<open>
  What an iteration reads from outside: the two readings of the run's context around an event, the
  reading of the event's own context, the context during the drain, and the clock.
\<close>

record instant =
  atStopped :: bool
  atEventDone :: bool
  atStoppedLate :: bool
  atDraining :: "ReadyToken \<Rightarrow> bool"
  atClock :: int

text \<open>
  The error of an iteration: \<open>Some None\<close> when \<open>Run\<close> returns nil, \<open>Some (Some err)\<close> when it returns
  \<open>err\<close>, \<open>None\<close> when the loop goes on.
\<close>

type_synonym ('s, 'a, 't, 'i) run_outcome = "(('s, 'a, 't, 'i) Node, raft_error option) outcome"

definition escalate :: "('n, raft_error) outcome \<Rightarrow> ('n, raft_error option) outcome" where
  "escalate = map_option (\<lambda>(node, err). (node, map_option Some err))"

definition goesOn :: "'n \<Rightarrow> ('n, raft_error option) outcome" where
  "goesOn node = ok node"

definition returnsNil :: "'n \<Rightarrow> ('n, raft_error option) outcome" where
  "returnsNil node = fail node None"

text \<open>Drain, publish, and read the clock for the next timer.\<close>

definition settleEvent ::
    "(bytes \<Rightarrow> bytes32) \<Rightarrow> instant \<Rightarrow> ('s, 'a, 't, 'i) Node \<Rightarrow> ('s, 'a, 't, 'i) node_outcome" where
  "settleEvent sha256 at node =
     and_then (drainReady sha256 (atDraining at) node) (\<lambda>node.
     and_then (Some (publishStatus node)) (\<lambda>node.
       case logicalNow (atClock at) node of
         Inl err \<Rightarrow> fail node err
       | Inr now \<Rightarrow> ok (resetTimer now node)))"

definition runTimer ::
    "(bytes \<Rightarrow> bytes32) \<Rightarrow> instant \<Rightarrow> ('s, 'a, 't, 'i) Node \<Rightarrow> ('s, 'a, 't, 'i) run_outcome" where
  "runTimer sha256 at node =
     (if atStopped at then returnsNil node
      else case logicalNow (atClock at) node of
        Inl err \<Rightarrow> fail node (Some err)
      | Inr now \<Rightarrow>
          if atStoppedLate at then returnsNil node
          else escalate (
            and_then (on_core (Tick now (nCore node)) node) (\<lambda>node.
            and_then (drainReady sha256 (atDraining at) node) (\<lambda>node.
            and_then (Some (publishStatus node)) (\<lambda>node. ok (resetTimer now node))))))"

definition runInbound ::
    "(bytes \<Rightarrow> bytes32) \<Rightarrow> instant \<Rightarrow> u16 \<Rightarrow> RPC \<Rightarrow> chan \<Rightarrow> ('s, 'a, 't, 'i) Node \<Rightarrow> ('s, 'a, 't, 'i) run_outcome" where
  "runInbound sha256 at senderID rpc response node =
     (if atStopped at then returnsNil (send response (ReplyRPC (Some ErrStopped)) node)
      else if atEventDone at then goesOn (send response ReplyContext node)
      else if atStoppedLate at then returnsNil (send response (ReplyRPC (Some ErrStopped)) node)
      else case on_core (Step senderID rpc (nCore node)) node of
        None \<Rightarrow> None
      | Some (node, Some err) \<Rightarrow>
          if fatalCoreError err then fail node (Some err)
          else goesOn (send response (ReplyRPC (Some err)) node)
      | Some (node, None) \<Rightarrow>
          and_then (escalate (settleEvent sha256 at node))
            (\<lambda>node. goesOn (send response (ReplyRPC None) node)))"

definition runLocal ::
    "(bytes \<Rightarrow> bytes32) \<Rightarrow> instant \<Rightarrow> EntryKind \<Rightarrow> bytes \<Rightarrow> chan \<Rightarrow> ('s, 'a, 't, 'i) Node
       \<Rightarrow> ('s, 'a, 't, 'i) run_outcome" where
  "runLocal sha256 at kind command response node =
     (let release = (\<lambda>answer node. and_then (escalate (releaseLocalReservation node))
            (\<lambda>node. goesOn (send response answer node)));
          stop = (\<lambda>node. and_then (release (ReplyLocal (Inl ErrStopped)) node) returnsNil)
      in if atStopped at then stop node
         else if atEventDone at then release ReplyContext node
         else if atStoppedLate at then stop node
         else case proposeTracked kind command (nCore node) of
           None \<Rightarrow> None
         | Some (core, Inl err) \<Rightarrow>
             release (localRequestError err (node\<lparr>nCore := core\<rparr>)) (node\<lparr>nCore := core\<rparr>)
         | Some (core, Inr (proposalID, entry)) \<Rightarrow>
             escalate (settleEvent sha256 at (node\<lparr>nCore := core, nPendingLocal :=
               (nPendingLocal node)(proposalID \<mapsto> \<lparr>plEntry = entry, plResponse = response\<rparr>)\<rparr>)))"

definition runLeadership ::
    "instant \<Rightarrow> nat \<Rightarrow> chan \<Rightarrow> ('s, 'a, 't, 'i) Node \<Rightarrow> ('s, 'a, 't, 'i) run_outcome" where
  "runLeadership at capacity response node =
     (if atStopped at then returnsNil (send response (ReplyLeadership (Inl ErrStopped)) node)
      else if atEventDone at then goesOn (send response ReplyContext node)
      else if atStoppedLate at then returnsNil (send response (ReplyLeadership (Inl ErrStopped)) node)
      else case addLeadershipSubscription capacity node of
        (node, result) \<Rightarrow> goesOn (send response (ReplyLeadership result) node))"

definition runCapture ::
    "(bytes \<Rightarrow> bytes32) \<Rightarrow> instant \<Rightarrow> snapshotCaptureResult \<Rightarrow> ('s, 'a, 't, 'i) Node \<Rightarrow> ('s, 'a, 't, 'i) run_outcome" where
  "runCapture sha256 at result node =
     (if atStopped at then returnsNil node
      else escalate (
        and_then (Some (finishSnapshotCapture sha256 result node)) (\<lambda>node.
        and_then (drainReady sha256 (atDraining at) node) (\<lambda>node. Some (publishStatus node)))))"

text \<open>One event taken from the queue.\<close>

fun runEvent ::
    "(bytes \<Rightarrow> bytes32) \<Rightarrow> instant \<Rightarrow> node_event \<Rightarrow> ('s, 'a, 't, 'i) Node \<Rightarrow> ('s, 'a, 't, 'i) run_outcome" where
  "runEvent sha256 at (inboundRPCEvent senderID rpc response) node =
     runInbound sha256 at senderID rpc response node"
| "runEvent sha256 at (localRequestEvent kind command response) node =
     runLocal sha256 at kind command response node"
| "runEvent sha256 at (leadershipRequestEvent capacity response) node =
     runLeadership at capacity response node"
| "runEvent sha256 at (leadershipCancelEvent sid err) node =
     (if atStopped at then returnsNil node else goesOn (terminateLeadershipSubscriber sid err node))"
| "runEvent sha256 at (captureResultEvent result) node = runCapture sha256 at result node"

definition takeEvent ::
    "(bytes \<Rightarrow> bytes32) \<Rightarrow> instant \<Rightarrow> ('s, 'a, 't, 'i) Node \<Rightarrow> ('s, 'a, 't, 'i) run_outcome" where
  "takeEvent sha256 at node =
     (case nEvents node of
        [] \<Rightarrow> goesOn node
      | event # events \<Rightarrow> runEvent sha256 at event (node\<lparr>nEvents := events\<rparr>))"

text \<open>The prologue of \<open>Run\<close> after its lifecycle check, and its deferred epilogue.\<close>

definition startRun ::
    "(bytes \<Rightarrow> bytes32) \<Rightarrow> bool \<Rightarrow> int \<Rightarrow> ('s, 'a, 't, 'i) Node \<Rightarrow> ('s, 'a, 't, 'i) run_outcome" where
  "startRun sha256 ctxDone clock node =
     (if nLifecycle node \<noteq> nodeLifecycleNew then fail node (Some ErrStopped)
      else
        let node = node\<lparr>nLifecycle := nodeLifecycleStarting\<rparr>
        in if ctxDone then returnsNil node
           else and_then (escalate (recoverPreparedState sha256 node)) (\<lambda>node.
             goesOn (node\<lparr>nEpoch := clock, nTimer := nextTimerDuration 0 (nCore node),
                          nLifecycle := nodeLifecycleRunning\<rparr>)))"

definition finishRun ::
    "raft_error option \<Rightarrow> ('s, 'a, 't, 'i) Node \<Rightarrow> ('s, 'a, 't, 'i) node_outcome" where
  "finishRun runErr node =
     and_then (releasePendingReservations (node\<lparr>nLifecycle := nodeLifecycleStopped\<rparr>)) (\<lambda>node.
       let node = terminateLeadershipSubscriptions ErrStopped node
       in case ssClose (noStore (nOptions node)) (nStore node) of
            (store, closeErr) \<Rightarrow>
              Some (node\<lparr>nStore := store\<rparr>, if runErr = None then closeErr else runErr))"

text \<open>The core of a new node is nil until it has recovered; \<open>core\<close> stands in its place and is never read.\<close>

definition NewNode ::
    "('s, 'a, 't, 'i) NodeOptions \<Rightarrow> 's \<Rightarrow> 'a \<Rightarrow> 't \<Rightarrow> 'i \<Rightarrow> Core \<Rightarrow> raft_error + ('s, 'a, 't, 'i) Node" where
  "NewNode options store app transport ids core =
     (case validateNodeOptions options store of
        Inl err \<Rightarrow> Inl err
      | Inr options \<Rightarrow> Inr \<lparr>nOptions = options, nStore = store, nApp = app, nTransport = transport,
          nTransferIDs = ids, nLifecycle = nodeLifecycleNew,
          nStatus = \<lparr>stRole = RoleFollower, stTerm = 0, stLeaderID = 0, stCommitIndex = 0,
            stAppliedIndex = 0, stLastIndex = 0\<rparr>,
          nEvents = [], nCore = core, nTimer = 0, nEpoch = 0, nDurable = emptyState zero_StorageIdentity,
          nReservations = 0, nPendingLocal = (\<lambda>_. None), nSubscriptions = (\<lambda>_. None), nSubscribers = {},
          nNextSubscriberID = 0, nLeadership = None, nCapture = None, nReplies = [], nHandoffs = []\<rparr>)"

end
