(* ===== verification/Raft_Transport.thy ===== *)
theory Raft_Transport
  imports Raft_Node
begin

text \<open>
  The bounded queue of unsent messages of one peer (\<open>internal/raft/transport.go\<close>).  Every method holds the
  mutex, so it is one function of the queue; the notification channel has capacity one and is a flag.
  The consumer's loop \<open>take\<close> interleaves with producers, so it is a step relation over its control points.
\<close>

section \<open>The queue\<close>

definition PeerQueueCapacity :: nat where "PeerQueueCapacity = 64"

record peerIntentQueue =
  qItems :: "PeerMessage list"
  qCapacity :: nat
  qNotify :: bool
  qClosed :: bool

definition newPeerIntentQueue :: "nat \<Rightarrow> peerIntentQueue" where
  "newPeerIntentQueue capacity = \<lparr>qItems = [], qCapacity = capacity, qNotify = False, qClosed = False\<rparr>"

definition signalLocked :: "peerIntentQueue \<Rightarrow> peerIntentQueue" where
  "signalLocked queue = queue\<lparr>qNotify := True\<rparr>"

definition canCoalesceAppend :: "PeerMessage \<Rightarrow> PeerMessage \<Rightarrow> bool" where
  "canCoalesceAppend current replacement =
     (case (pmRPC current, pmRPC replacement) of
        (RAppendEntriesRequest left, RAppendEntriesRequest right) \<Rightarrow>
          \<not> (pmTo current \<noteq> pmTo replacement \<or> aqLeaderID left \<noteq> aqLeaderID right
             \<or> aqTerm left \<noteq> aqTerm right \<or> aqPrevLogIndex left \<noteq> aqPrevLogIndex right
             \<or> aqPrevLogTerm left \<noteq> aqPrevLogTerm right \<or> aqGeneration right \<le> aqGeneration left
             \<or> aqLeaderCommit right < aqLeaderCommit left \<or> pmRequires current \<noteq> pmRequires replacement
             \<or> length (aqEntries left) \<noteq> length (aqEntries right))
          \<and> list_all2 sameEntry (aqEntries left) (aqEntries right)
      | _ \<Rightarrow> False)"

definition offer :: "PeerMessage \<Rightarrow> peerIntentQueue \<Rightarrow> peerIntentQueue \<times> TransportHandoff" where
  "offer message queue =
     (if qClosed queue then (queue, TransportUnavailable)
      else if length (qItems queue) \<noteq> 0
           \<and> canCoalesceAppend (qItems queue ! (length (qItems queue) - 1)) message
        then (signalLocked (queue\<lparr>qItems := (qItems queue)[length (qItems queue) - 1 := message]\<rparr>),
              TransportAccepted)
      else if length (qItems queue) \<ge> qCapacity queue then (queue, TransportUnavailable)
      else (signalLocked (queue\<lparr>qItems := qItems queue @ [message]\<rparr>), TransportAccepted))"

definition takeNow :: "peerIntentQueue \<Rightarrow> peerIntentQueue \<times> PeerMessage option" where
  "takeNow queue =
     (case qItems queue of
        [] \<Rightarrow> (queue, None)
      | message # items \<Rightarrow>
          let queue = queue\<lparr>qItems := items\<rparr>
          in (if length items \<noteq> 0 then signalLocked queue else queue, Some message))"

definition closeQueue :: "peerIntentQueue \<Rightarrow> peerIntentQueue" where
  "closeQueue queue = signalLocked (queue\<lparr>qClosed := True, qItems := []\<rparr>)"

section \<open>Producers and the consumer\<close>

text \<open>
  The control points of the consumer: outside \<open>take\<close> or at the head of its loop, after a \<open>takeNow\<close> that
  found nothing, and in the select that waits for a notification.  \<open>tsAccepted\<close> and \<open>tsTaken\<close> are history
  variables: the messages the queue accepted and the messages the consumer took, in order.
\<close>

datatype consumer = Looping | FoundNothing | Waiting

record transfer =
  tsQueue :: peerIntentQueue
  tsConsumer :: consumer
  tsAccepted :: "PeerMessage list"
  tsTaken :: "PeerMessage list"

definition newTransfer :: "nat \<Rightarrow> transfer" where
  "newTransfer capacity = \<lparr>tsQueue = newPeerIntentQueue capacity, tsConsumer = Looping, tsAccepted = [], tsTaken = []\<rparr>"

inductive transfer_step :: "transfer \<Rightarrow> transfer \<Rightarrow> bool" where
  Accept: "offer message (tsQueue s) = (queue, TransportAccepted)
    \<Longrightarrow> transfer_step s (s\<lparr>tsQueue := queue, tsAccepted := tsAccepted s @ [message]\<rparr>)"
| Refuse: "offer message (tsQueue s) = (queue, TransportUnavailable)
    \<Longrightarrow> transfer_step s (s\<lparr>tsQueue := queue\<rparr>)"
| Close: "transfer_step s (s\<lparr>tsQueue := closeQueue (tsQueue s)\<rparr>)"
| Take: "tsConsumer s = Looping \<Longrightarrow> takeNow (tsQueue s) = (queue, Some message)
    \<Longrightarrow> transfer_step s (s\<lparr>tsQueue := queue, tsTaken := tsTaken s @ [message]\<rparr>)"
| TakeNothing: "tsConsumer s = Looping \<Longrightarrow> takeNow (tsQueue s) = (queue, None)
    \<Longrightarrow> transfer_step s (s\<lparr>tsQueue := queue, tsConsumer := FoundNothing\<rparr>)"
| SeesClosed: "tsConsumer s = FoundNothing \<Longrightarrow> qClosed (tsQueue s)
    \<Longrightarrow> transfer_step s (s\<lparr>tsConsumer := Looping\<rparr>)"
| SeesOpen: "tsConsumer s = FoundNothing \<Longrightarrow> \<not> qClosed (tsQueue s)
    \<Longrightarrow> transfer_step s (s\<lparr>tsConsumer := Waiting\<rparr>)"
| Notified: "tsConsumer s = Waiting \<Longrightarrow> qNotify (tsQueue s)
    \<Longrightarrow> transfer_step s (s\<lparr>tsQueue := (tsQueue s)\<lparr>qNotify := False\<rparr>, tsConsumer := Looping\<rparr>)"
| Cancelled: "tsConsumer s = Waiting \<Longrightarrow> transfer_step s (s\<lparr>tsConsumer := Looping\<rparr>)"

inductive_cases transfer_stepE: "transfer_step s t"

section \<open>What a queue promises\<close>

text \<open>
  The messages that remain of a sequence of accepted ones when a message may be superseded by the next one
  it coalesces with.
\<close>

inductive coalesced :: "PeerMessage list \<Rightarrow> PeerMessage list \<Rightarrow> bool" where
  Nothing: "coalesced [] []"
| Queued: "coalesced accepted kept \<Longrightarrow> coalesced (accepted @ [message]) (kept @ [message])"
| Superseded: "coalesced accepted (kept @ [old]) \<Longrightarrow> canCoalesceAppend old message
    \<Longrightarrow> coalesced (accepted @ [message]) (kept @ [message])"

definition queue_inv :: "transfer \<Rightarrow> bool" where
  "queue_inv s \<longleftrightarrow>
     length (qItems (tsQueue s)) \<le> qCapacity (tsQueue s)
   \<and> (qClosed (tsQueue s) \<longrightarrow> qItems (tsQueue s) = [])
   \<and> (tsConsumer s \<noteq> Looping \<and> (qItems (tsQueue s) \<noteq> [] \<or> tsConsumer s = Waiting \<and> qClosed (tsQueue s))
        \<longrightarrow> qNotify (tsQueue s))"

definition queue_sent :: "transfer \<Rightarrow> bool" where
  "queue_sent s \<longleftrightarrow>
     (\<exists>dropped. coalesced (tsAccepted s) (tsTaken s @ qItems (tsQueue s) @ dropped)
        \<and> (\<not> qClosed (tsQueue s) \<longrightarrow> dropped = []))"

lemma offer_cases:
  assumes "offer message queue = (queue', handoff)"
  obtains (accepted) "handoff = TransportAccepted" "\<not> qClosed queue" "length (qItems queue) < qCapacity queue"
      "queue' = queue\<lparr>qItems := qItems queue @ [message], qNotify := True\<rparr>"
  | (superseded) old kept where "handoff = TransportAccepted" "\<not> qClosed queue" "qItems queue = kept @ [old]"
      "canCoalesceAppend old message" "queue' = queue\<lparr>qItems := kept @ [message], qNotify := True\<rparr>"
  | (refused) "handoff = TransportUnavailable" "queue' = queue"
proof (cases "qItems queue" rule: rev_cases)
  case Nil
  then show ?thesis
    using assms that by (auto simp: offer_def signalLocked_def split: if_splits)
next
  case (snoc kept old)
  then show ?thesis
    using assms that by (auto simp: offer_def signalLocked_def nth_append list_update_append split: if_splits)
qed

lemma accepted_not_refused [simp]: "TransportAccepted \<noteq> TransportUnavailable" "TransportUnavailable \<noteq> TransportAccepted"
  by (simp_all add: TransportAccepted_def TransportUnavailable_def)

lemma takeNow_cases:
  assumes "takeNow queue = (queue', taken)"
  obtains (empty) "qItems queue = []" "taken = None" "queue' = queue"
  | (taken) message items where "qItems queue = message # items" "taken = Some message"
      "queue' = queue\<lparr>qItems := items, qNotify := qNotify queue \<or> items \<noteq> []\<rparr>"
proof (cases "qItems queue")
  case Nil
  show ?thesis by (rule empty) (use assms Nil in \<open>simp_all add: takeNow_def\<close>)
next
  case (Cons message items)
  have "queue\<lparr>qItems := items\<rparr> = queue\<lparr>qItems := items, qNotify := qNotify queue\<rparr>"
    by (cases queue) simp
  then have "takeNow queue = (queue\<lparr>qItems := items, qNotify := qNotify queue \<or> items \<noteq> []\<rparr>, Some message)"
    by (cases "items = []") (simp_all add: takeNow_def signalLocked_def Cons)
  then show ?thesis using assms by (intro taken[OF Cons]) simp_all
qed

lemma queue_inv_step:
  assumes "transfer_step s t" and "queue_inv s"
  shows "queue_inv t" and "qCapacity (tsQueue t) = qCapacity (tsQueue s)"
proof -
  from assms(1) have "queue_inv t \<and> qCapacity (tsQueue t) = qCapacity (tsQueue s)"
  proof cases
    case (Accept message queue)
    from Accept(2) assms(2) show ?thesis
      by (cases rule: offer_cases) (simp_all add: queue_inv_def Accept(1))
  next
    case (Refuse message queue)
    from Refuse(2) assms(2) show ?thesis
      by (cases rule: offer_cases) (simp_all add: queue_inv_def Refuse(1))
  next
    case Close
    then show ?thesis by (simp add: queue_inv_def closeQueue_def signalLocked_def)
  next
    case (Take queue message)
    from Take(3) assms(2) show ?thesis
      by (cases rule: takeNow_cases) (simp_all add: queue_inv_def Take(1,2))
  next
    case (TakeNothing queue)
    from TakeNothing(3) assms(2) show ?thesis
      by (cases rule: takeNow_cases) (simp_all add: queue_inv_def TakeNothing(1,2))
  qed (use assms(2) in \<open>auto simp: queue_inv_def\<close>)
  then show "queue_inv t" "qCapacity (tsQueue t) = qCapacity (tsQueue s)" by auto
qed

lemma queue_sent_step:
  assumes "transfer_step s t" and "queue_sent s"
  shows "queue_sent t"
  using assms(1)
proof cases
  case (Accept message queue)
  obtain dropped where sent: "coalesced (tsAccepted s) (tsTaken s @ qItems (tsQueue s) @ dropped)"
      and d: "\<not> qClosed (tsQueue s) \<longrightarrow> dropped = []"
    using assms(2) by (auto simp: queue_sent_def)
  from Accept(2) show ?thesis
  proof (cases rule: offer_cases)
    case accepted
    then show ?thesis
      using sent d Queued[of "tsAccepted s" "tsTaken s @ qItems (tsQueue s)" message]
      by (simp add: queue_sent_def Accept(1))
  next
    case (superseded old kept)
    then show ?thesis
      using sent d Superseded[of "tsAccepted s" "tsTaken s @ kept" old message]
      by (simp add: queue_sent_def Accept(1))
  qed simp
next
  case (Refuse message queue)
  from Refuse(2) assms(2) show ?thesis
    by (cases rule: offer_cases) (auto simp: queue_sent_def Refuse(1))
next
  case Close
  then show ?thesis
    using assms(2) by (auto simp: queue_sent_def closeQueue_def signalLocked_def)
next
  case (Take queue message)
  from Take(3) assms(2) show ?thesis
    by (cases rule: takeNow_cases) (auto simp: queue_sent_def Take(1))
next
  case (TakeNothing queue)
  from TakeNothing(3) assms(2) show ?thesis
    by (cases rule: takeNow_cases) (auto simp: queue_sent_def TakeNothing(1))
qed (use assms(2) in \<open>auto simp: queue_sent_def\<close>)

lemma queue_run:
  assumes "transfer_step\<^sup>*\<^sup>* (newTransfer capacity) s"
  shows "queue_inv s" and "queue_sent s" and "qCapacity (tsQueue s) = capacity"
proof -
  from assms have "queue_inv s \<and> queue_sent s \<and> qCapacity (tsQueue s) = capacity"
  proof induction
    case base
    then show ?case
      by (auto simp: newTransfer_def newPeerIntentQueue_def queue_inv_def queue_sent_def intro: coalesced.intros)
  next
    case (step t u)
    then show ?case using queue_inv_step[of t u] queue_sent_step by simp
  qed
  then show "queue_inv s" "queue_sent s" "qCapacity (tsQueue s) = capacity" by auto
qed

end
