(* ===== verification/Raft_Transport_Properties.thy ===== *)
theory Raft_Transport_Properties
  imports Raft_Transport "HOL-Library.Sublist"
begin

text \<open>
  What the peer queue delivers: order, no loss but by supersession, and no lost wakeup of its consumer.
\<close>

section \<open>Nothing accepted is lost or reordered\<close>

lemma canCoalesceAppendE:
  assumes "canCoalesceAppend a b"
  obtains left right where "pmRPC a = RAppendEntriesRequest left" "pmRPC b = RAppendEntriesRequest right"
    "pmTo b = pmTo a" "pmRequires b = pmRequires a" "aqLeaderID right = aqLeaderID left"
    "aqTerm right = aqTerm left" "aqPrevLogIndex right = aqPrevLogIndex left"
    "aqPrevLogTerm right = aqPrevLogTerm left" "aqGeneration left < aqGeneration right"
    "aqLeaderCommit left \<le> aqLeaderCommit right" "list_all2 sameEntry (aqEntries left) (aqEntries right)"
proof (cases "pmRPC a")
  case left: (RAppendEntriesRequest left)
  show ?thesis
  proof (cases "pmRPC b")
    case (RAppendEntriesRequest right)
    then show ?thesis
      using assms left that by (simp add: canCoalesceAppend_def not_less not_le)
  qed (use assms left in \<open>simp_all add: canCoalesceAppend_def\<close>)
qed (use assms in \<open>simp_all add: canCoalesceAppend_def\<close>)

lemma canCoalesceAppend_trans:
  assumes "canCoalesceAppend a b" and "canCoalesceAppend b c"
  shows "canCoalesceAppend a c"
proof -
  have entries: "list_all2 sameEntry xs zs" if "list_all2 sameEntry xs ys" "list_all2 sameEntry ys zs" for xs ys zs
    using list_all2_trans[OF _ that] by (simp add: sameEntry_def)
  from assms(1) show ?thesis
  proof (rule canCoalesceAppendE)
    fix l r
    assume ab: "pmRPC a = RAppendEntriesRequest l" "pmRPC b = RAppendEntriesRequest r" "pmTo b = pmTo a"
      "pmRequires b = pmRequires a" "aqLeaderID r = aqLeaderID l" "aqTerm r = aqTerm l"
      "aqPrevLogIndex r = aqPrevLogIndex l" "aqPrevLogTerm r = aqPrevLogTerm l"
      "aqGeneration l < aqGeneration r" "aqLeaderCommit l \<le> aqLeaderCommit r"
      "list_all2 sameEntry (aqEntries l) (aqEntries r)"
    from assms(2) show ?thesis
    proof (rule canCoalesceAppendE)
      fix m u
      assume bc: "pmRPC b = RAppendEntriesRequest m" "pmRPC c = RAppendEntriesRequest u" "pmTo c = pmTo b"
        "pmRequires c = pmRequires b" "aqLeaderID u = aqLeaderID m" "aqTerm u = aqTerm m"
        "aqPrevLogIndex u = aqPrevLogIndex m" "aqPrevLogTerm u = aqPrevLogTerm m"
        "aqGeneration m < aqGeneration u" "aqLeaderCommit m \<le> aqLeaderCommit u"
        "list_all2 sameEntry (aqEntries m) (aqEntries u)"
      have "m = r" using ab(2) bc(1) by simp
      have "list_all2 sameEntry (aqEntries l) (aqEntries u)"
        using entries[OF ab(11)] bc(11) \<open>m = r\<close> by simp
      moreover have "aqGeneration l < aqGeneration u" "aqLeaderCommit l \<le> aqLeaderCommit u"
        using ab(9,10) bc(9,10) \<open>m = r\<close> by auto
      ultimately show ?thesis
        using ab(1,3-8) bc(2-8) \<open>m = r\<close>
        by (simp add: canCoalesceAppend_def not_less not_le list_all2_lengthD)
    qed
  qed
qed

lemma coalesced_subseq: "coalesced accepted kept \<Longrightarrow> subseq kept accepted"
proof (induction rule: coalesced.induct)
  case (Superseded accepted kept old message)
  have "subseq kept (kept @ [old])" by (simp add: prefix_imp_subseq)
  then have "subseq kept accepted" using Superseded.IH by (rule subseq_order.order_trans)
  then show ?case by (simp add: list_emb_append_mono)
qed (simp_all add: list_emb_append_mono)

lemma coalesced_carried:
  "coalesced accepted kept \<Longrightarrow> m \<in> set accepted \<Longrightarrow> \<exists>m'\<in>set kept. m' = m \<or> canCoalesceAppend m m'"
proof (induction arbitrary: m rule: coalesced.induct)
  case (Superseded accepted kept old message)
  show ?case
  proof (cases "m = message")
    case False
    then obtain m' where "m' \<in> set (kept @ [old])" and "m' = m \<or> canCoalesceAppend m m'"
      using Superseded by auto
    then show ?thesis
      using Superseded(2) canCoalesceAppend_trans by auto
  qed simp
qed auto

section \<open>Properties\<close>

text \<open>
  C26.  Under any interleaving of producers, the consumer and a close, the messages the consumer took and
  then the ones still queued are, in this order, a subsequence of the accepted messages, and every
  accepted message is among them or is superseded by one it coalesces with, which repeats its append
  request with a later generation; only closing the queue may lose a tail.  The queue stays in its bound.
\<close>

theorem queue_delivery:
  assumes "transfer_step\<^sup>*\<^sup>* (newTransfer capacity) s"
  shows "\<exists>dropped. subseq (tsTaken s @ qItems (tsQueue s) @ dropped) (tsAccepted s)
      \<and> (\<forall>m\<in>set (tsAccepted s).
            \<exists>m'\<in>set (tsTaken s @ qItems (tsQueue s) @ dropped). m' = m \<or> canCoalesceAppend m m')
      \<and> (\<not> qClosed (tsQueue s) \<longrightarrow> dropped = [])
      \<and> length (qItems (tsQueue s)) \<le> capacity"
proof -
  obtain dropped where "coalesced (tsAccepted s) (tsTaken s @ qItems (tsQueue s) @ dropped)"
      and "\<not> qClosed (tsQueue s) \<longrightarrow> dropped = []"
    using queue_run(2)[OF assms] by (auto simp: queue_sent_def)
  moreover have "length (qItems (tsQueue s)) \<le> capacity"
    using queue_run(1,3)[OF assms] by (simp add: queue_inv_def)
  ultimately show ?thesis
    using coalesced_subseq coalesced_carried by blast
qed

text \<open>
  C27.  No wakeup is lost: when the consumer waits for a notification and there is a message to take, or
  the queue was closed, then a notification is pending, so the select of \<open>take\<close> goes on.
\<close>

theorem queue_no_lost_wakeup:
  assumes "transfer_step\<^sup>*\<^sup>* (newTransfer capacity) s" and "tsConsumer s = Waiting"
    and "qItems (tsQueue s) \<noteq> [] \<or> qClosed (tsQueue s)"
  shows "qNotify (tsQueue s)"
  using queue_run(1)[OF assms(1)] assms(2,3) by (auto simp: queue_inv_def)

definition demo_append :: "u64 \<Rightarrow> PeerMessage" where
  "demo_append generation = \<lparr>pmTo = 2, pmRPC = RAppendEntriesRequest \<lparr>aqLeaderID = 1, aqTerm = 1,
     aqGeneration = generation, aqPrevLogIndex = 0, aqPrevLogTerm = 0, aqLeaderCommit = 0, aqEntries = []\<rparr>,
     pmRequires = no_prerequisite\<rparr>"

text \<open>Two heartbeats of which the second supersedes the first, while the consumer waits.\<close>

definition demo_transfer :: transfer where
  "demo_transfer = \<lparr>tsQueue = \<lparr>qItems = [demo_append 2], qCapacity = 64, qNotify = True, qClosed = False\<rparr>,
     tsConsumer = Waiting, tsAccepted = [demo_append 1, demo_append 2], tsTaken = []\<rparr>"

lemma demo_transfer_run: "transfer_step\<^sup>*\<^sup>* (newTransfer 64) demo_transfer"
proof -
  let ?waiting = "(newTransfer 64)\<lparr>tsConsumer := FoundNothing\<rparr>\<lparr>tsConsumer := Waiting\<rparr>"
  let ?one = "?waiting\<lparr>tsQueue := \<lparr>qItems = [demo_append 1], qCapacity = 64, qNotify = True, qClosed = False\<rparr>,
     tsAccepted := [demo_append 1]\<rparr>"
  have supersedes: "canCoalesceAppend (demo_append 1) (demo_append 2)"
    by (simp add: demo_append_def canCoalesceAppend_def word_le_nat_alt)
  have "transfer_step (newTransfer 64) ((newTransfer 64)\<lparr>tsConsumer := FoundNothing\<rparr>)"
    using TakeNothing[of "newTransfer 64" "newPeerIntentQueue 64"]
    by (simp add: newTransfer_def newPeerIntentQueue_def takeNow_def)
  moreover have "transfer_step ((newTransfer 64)\<lparr>tsConsumer := FoundNothing\<rparr>) ?waiting"
    by (rule SeesOpen) (simp_all add: newTransfer_def newPeerIntentQueue_def)
  moreover have "transfer_step ?waiting ?one"
    using Accept[of "demo_append 1" ?waiting "tsQueue ?one"]
    by (simp add: newTransfer_def newPeerIntentQueue_def offer_def signalLocked_def)
  moreover have "transfer_step ?one demo_transfer"
    using Accept[of "demo_append 2" ?one "tsQueue demo_transfer"]
    by (simp add: newTransfer_def newPeerIntentQueue_def offer_def signalLocked_def demo_transfer_def
        supersedes)
  ultimately show ?thesis
    by (blast intro: converse_rtranclp_into_rtranclp)
qed

theorem queue_delivery_witness:
  "transfer_step\<^sup>*\<^sup>* (newTransfer 64) demo_transfer
   \<and> (\<exists>dropped. subseq ([demo_append 2] @ dropped) [demo_append 1, demo_append 2] \<and> dropped = [])"
  using demo_transfer_run queue_delivery[OF demo_transfer_run] by (auto simp: demo_transfer_def)

theorem queue_no_lost_wakeup_witness:
  "transfer_step\<^sup>*\<^sup>* (newTransfer 64) demo_transfer \<and> tsConsumer demo_transfer = Waiting
   \<and> qItems (tsQueue demo_transfer) \<noteq> [] \<and> qNotify (tsQueue demo_transfer)"
  using demo_transfer_run queue_no_lost_wakeup[OF demo_transfer_run] by (simp add: demo_transfer_def)

end
