(* ===== verification/Raft_Cluster.thy ===== *)
theory Raft_Cluster
  imports Raft_Node_Loop Raft_Core_Ops
begin

text \<open>
  The replicas of one cluster: each has a core in memory, or none when it is down, and its durable state on
  disk.  A replica takes the steps of the owner loop of \<open>node.go\<close> one by one (call the core, persist the
  batch, hand its messages to the network, complete a snapshot action, advance), may crash between any two
  of them, and restarts from its disk the way \<open>recoverPreparedState\<close> does.  The network holds every message
  handed over so far: it may lose, delay, reorder and duplicate them, but not forge one.
\<close>

section \<open>Replicas and the network\<close>

record replica =
  rpCore :: "Core option"
  rpDisk :: RecoveredState
  rpSaved :: bool

record cluster =
  clReplica :: "u16 \<Rightarrow> replica"
  clNet :: "(u16 \<times> PeerMessage) set"

definition put_replica :: "u16 \<Rightarrow> replica \<Rightarrow> cluster \<Rightarrow> cluster" where
  "put_replica n r s = s\<lparr>clReplica := (clReplica s)(n := r)\<rparr>"

lemma put_replica_simps [simp]:
  "clReplica (put_replica n r s) = (clReplica s)(n := r)" "clNet (put_replica n r s) = clNet s"
  by (simp_all add: put_replica_def)

text \<open>A call of the owner on the core that is not the delivery of a message.\<close>

inductive owner_call :: "Core \<Rightarrow> Core \<Rightarrow> bool" where
  tick: "Tick now c = Some (c', err) \<Longrightarrow> owner_call c c'"
| propose: "proposeTracked kind command c = Some (c', result) \<Longrightarrow> owner_call c c'"
| compact: "CompactSnapshot metadata c = (c', err) \<Longrightarrow> owner_call c c'"
| transfer: "StartSnapshotTransfer peer snapshot transferID limit c = Some (c', err) \<Longrightarrow> owner_call c c'"

text \<open>The batch the owner derives from the output of the core, applied to the disk.\<close>

definition saved_disk ::
    "(bytes \<Rightarrow> bytes32) \<Rightarrow> VoterSet \<Rightarrow> Ready \<Rightarrow> RecoveredState \<Rightarrow> raft_error + RecoveredState" where
  "saved_disk sha256 voters ready disk =
     (let batch = persistenceBatchForReady ready
      in if persistenceBatchHasEffects batch
         then applyPersistenceBatch sha256 disk batch (rsIdentity disk) voters else Inr disk)"

text \<open>
  The core of a restarted replica, with the applied index the replay establishes.  The options of a restart are
  ones that \<open>NewNode\<close> accepts: the local identity is a voter and the snapshot bound is within the protocol's.
\<close>

definition recovered_core :: "RecoveredState \<Rightarrow> Core \<Rightarrow> Core" where
  "recovered_core recovered c = c\<lparr>cLog := fst (AdvanceApplied (rsCommitIndex recovered) (cLog c))\<rparr>"

type_synonym plain_options = "(unit, unit, unit, unit) NodeOptions"

inductive cluster_step :: "(bytes \<Rightarrow> bytes32) \<Rightarrow> VoterSet \<Rightarrow> cluster \<Rightarrow> cluster \<Rightarrow> bool" for sha256 voters where
  Call: "clReplica s n = r \<Longrightarrow> rpCore r = Some c \<Longrightarrow> owner_call c c'
    \<Longrightarrow> cluster_step sha256 voters s (put_replica n (r\<lparr>rpCore := Some c'\<rparr>) s)"
| Deliver: "clReplica s n = r \<Longrightarrow> rpCore r = Some c \<Longrightarrow> (sender, m) \<in> clNet s \<Longrightarrow> pmTo m = n
    \<Longrightarrow> Step sender (pmRPC m) c = Some (c', err)
    \<Longrightarrow> cluster_step sha256 voters s (put_replica n (r\<lparr>rpCore := Some c'\<rparr>) s)"
| Save: "clReplica s n = r \<Longrightarrow> rpCore r = Some c \<Longrightarrow> \<not> rpSaved r \<Longrightarrow> ReadyOf c = (c', Some ready)
    \<Longrightarrow> saved_disk sha256 voters ready (rpDisk r) = Inr disk
    \<Longrightarrow> cluster_step sha256 voters s (put_replica n (r\<lparr>rpCore := Some c', rpDisk := disk, rpSaved := True\<rparr>) s)"
| Send: "clReplica s n = r \<Longrightarrow> rpCore r = Some c \<Longrightarrow> rpSaved r \<Longrightarrow> m \<in> set (rdMessages (cPendingReady c))
    \<Longrightarrow> cluster_step sha256 voters s (s\<lparr>clNet := insert (n, m) (clNet s)\<rparr>)"
| Install: "clReplica s n = r \<Longrightarrow> rpCore r = Some c \<Longrightarrow> rpSaved r
    \<Longrightarrow> installRecoveredSnapshot sha256 (rpDisk r) snapshot (rsIdentity (rpDisk r)) voters = Inr disk
    \<Longrightarrow> cluster_step sha256 voters s (put_replica n (r\<lparr>rpDisk := disk\<rparr>) s)"
| Complete: "clReplica s n = r \<Longrightarrow> rpCore r = Some c \<Longrightarrow> rpSaved r
    \<Longrightarrow> CompleteSnapshotAction token result c = (c', Inr m)
    \<Longrightarrow> (sarDone result \<Longrightarrow> sarState result = (rpDisk r)\<lparr>rsAppliedIndex := rsCommitIndex (rpDisk r)\<rparr>)
    \<Longrightarrow> cluster_step sha256 voters s
          ((put_replica n (r\<lparr>rpCore := Some c'\<rparr>) s)\<lparr>clNet := insert (n, m) (clNet s)\<rparr>)"
| Finish: "clReplica s n = r \<Longrightarrow> rpCore r = Some c \<Longrightarrow> rpSaved r \<Longrightarrow> Advance token c = (c', None)
    \<Longrightarrow> cluster_step sha256 voters s (put_replica n (r\<lparr>rpCore := Some c', rpSaved := False\<rparr>) s)"
| Compact: "clReplica s n = r
    \<Longrightarrow> compactRecoveredState sha256 (rpDisk r) snapshot (rsIdentity (rpDisk r)) voters MaxRaftSnapshotBytes = Inr disk
    \<Longrightarrow> cluster_step sha256 voters s (put_replica n (r\<lparr>rpDisk := disk\<rparr>) s)"
| Crash: "clReplica s n = r
    \<Longrightarrow> cluster_step sha256 voters s (put_replica n (r\<lparr>rpCore := None, rpSaved := False\<rparr>) s)"
| Restart: "clReplica s n = r \<Longrightarrow> rpCore r = None \<Longrightarrow> ValidateLocalID voters n = None
    \<Longrightarrow> noMaxSnapshotBytes (options :: plain_options) \<le> MaxRaftSnapshotBytes \<Longrightarrow> noLocalID options = n \<Longrightarrow> noVoters options = voters
    \<Longrightarrow> validateRecovery sha256 (rpDisk r) options = Inr recovered
    \<Longrightarrow> NewLog (rsBaseIndex recovered) (smLastIncludedTerm (rsSnapshotBase recovered)) (rsCommitIndex recovered)
          (rsBaseIndex recovered) (rsEntries recovered) = Inr l
    \<Longrightarrow> NewCore (recoveredCoreOptions recovered l options) = Some (Inr c)
    \<Longrightarrow> cluster_step sha256 voters s
          (put_replica n (r\<lparr>rpCore := Some (recovered_core recovered c), rpSaved := False\<rparr>) s)"

text \<open>Before the first start every disk is empty and nothing was sent.\<close>

definition new_cluster :: "bytes16 \<Rightarrow> VoterSet \<Rightarrow> cluster" where
  "new_cluster clusterID voters =
     \<lparr>clReplica = (\<lambda>n. \<lparr>rpCore = None,
        rpDisk = emptyState \<lparr>siFormatVersion = StorageFormatVersion1, siClusterID = clusterID, siLocalVoterID = n,
          siVoterFingerprint = vsFingerprint voters\<rparr>, rpSaved = False\<rparr>),
      clNet = {}\<rparr>"

text \<open>The replica \<open>n\<close> leads in term \<open>t\<close>.\<close>

definition leads_in :: "cluster \<Rightarrow> u16 \<Rightarrow> u64 \<Rightarrow> bool" where
  "leads_in s n t \<longleftrightarrow> (\<exists>c. rpCore (clReplica s n) = Some c \<and> cRole c = RoleLeader \<and> cTerm c = t)"

section \<open>Calls on a core\<close>

lemma owner_call_moves:
  assumes "owner_call c c'" "core_ok c"
  shows "moves {} c c' \<and> (cHasPending c \<longrightarrow> c' = c)"
  using assms(1)
proof cases
  case (tick now err)
  then show ?thesis
    using Tick_moves[OF assms(2), of now] by (auto simp: sound_def Tick_def split: option.splits)
next
  case (propose kind command result)
  then show ?thesis
    using proposeTracked_moves[OF assms(2), of kind command]
    by (auto simp: settles_def proposeTracked_def Let_def split: option.splits)
next
  case (compact metadata err)
  then show ?thesis
    using CompactSnapshot_moves[OF assms(2), of metadata] by (auto simp: CompactSnapshot_def split: option.splits)
next
  case (transfer peer snapshot transferID limit err)
  then show ?thesis
    using StartSnapshotTransfer_moves[OF assms(2), of True peer snapshot transferID limit]
    by (auto simp: sound_def StartSnapshotTransfer_def split: option.splits)
qed

lemma Step_call:
  assumes "Step sender rpc c = Some (c', err)" "core_ok c"
  shows "moves (support rpc (cLocalID c) (cTerm c)) c c' \<and> (cHasPending c \<longrightarrow> c' = c)"
  using Step_moves[OF assms(2), of rpc sender] assms(1) by (auto simp: sound_def Step_def split: option.splits)

lemma saved_disk_facts:
  assumes "saved_disk sha256 voters ready disk = Inr disk'" "state_ok sha256 MaxRaftSnapshotBytes voters disk"
  shows "state_ok sha256 MaxRaftSnapshotBytes voters disk'" "durable_le disk disk'"
    "rsHardState disk' = (case rdHardState ready of None \<Rightarrow> rsHardState disk | Some hs \<Rightarrow> hs)"
proof -
  let ?batch = "persistenceBatchForReady ready"
  have hs: "pbHardState ?batch = rdHardState ready"
    by (simp add: persistenceBatchForReady_def Let_def)
  have "state_ok sha256 MaxRaftSnapshotBytes voters disk' \<and> durable_le disk disk'
      \<and> rsHardState disk' = (case rdHardState ready of None \<Rightarrow> rsHardState disk | Some hs \<Rightarrow> hs)"
  proof (cases "persistenceBatchHasEffects ?batch")
    case True
    then have v: "applyValidatedPersistenceBatch sha256 disk ?batch (rsIdentity disk) voters = Inr disk'"
      using assms(1) by (simp add: saved_disk_def applyPersistenceBatch_def Let_def split: option.splits)
    from v obtain based advanced replaced where ok: "state_ok sha256 MaxRaftSnapshotBytes voters disk'"
        and b: "applySnapshotBase disk ?batch = Inr (based, advanced)"
        and r: "applyReplacement advanced ?batch based = Inr replaced" and i: "applyIndices ?batch replaced = Inr disk'"
      by (rule applyValidated_cases)
    have "rsHardState replaced = rsHardState disk"
      using applySnapshotBase_frame(2)[OF b] by (subst applyReplacement_frame[OF r]) simp
    then show ?thesis
      using ok applyValidated_le[OF v] applyIndices_frame(4)[OF i] hs by (simp split: option.split)
  next
    case False
    then show ?thesis
      using assms hs by (simp add: saved_disk_def persistenceBatchHasEffects_def Let_def durable.R_refl)
  qed
  then show "state_ok sha256 MaxRaftSnapshotBytes voters disk'" "durable_le disk disk'"
    "rsHardState disk' = (case rdHardState ready of None \<Rightarrow> rsHardState disk | Some hs \<Rightarrow> hs)"
    by auto
qed

end
