(* ===== verification/Raft_Election.thy ===== *)
theory Raft_Election
  imports Raft_Cluster
begin

text \<open>
  Election safety of the cluster.  The proof carries the votes that were ever made durable: for each voter
  and term at most one candidate, never changed, which is what the store and the core guarantee together.
\<close>

section \<open>Durable votes\<close>

type_synonym votes = "u16 \<Rightarrow> u64 \<Rightarrow> u16 option"

definition votes_le :: "votes \<Rightarrow> votes \<Rightarrow> bool" where
  "votes_le cast cast' \<longleftrightarrow> (\<forall>v t x. cast v t = Some x \<longrightarrow> cast' v t = Some x)"

interpretation votes: step_preorder votes_le
  by unfold_locales (auto simp: votes_le_def)

text \<open>The disk of a voter records its last durable vote.\<close>

definition disk_votes :: "votes \<Rightarrow> u16 \<Rightarrow> RecoveredState \<Rightarrow> bool" where
  "disk_votes cast n d \<longleftrightarrow>
     (hsVotedFor (rsHardState d) \<noteq> 0 \<longrightarrow> cast n (rsTerm d) = Some (hsVotedFor (rsHardState d)))
   \<and> (\<forall>t x. cast n t = Some x \<longrightarrow> x \<noteq> 0 \<and> t \<le> rsTerm d \<and> (t = rsTerm d \<longrightarrow> hsVotedFor (rsHardState d) = x))"

definition record_vote :: "votes \<Rightarrow> u16 \<Rightarrow> RecoveredState \<Rightarrow> votes" where
  "record_vote cast n d =
     (if hsVotedFor (rsHardState d) = 0 then cast
      else cast(n := (cast n)(rsTerm d := Some (hsVotedFor (rsHardState d)))))"

lemma record_vote_other [simp]: "m \<noteq> n \<Longrightarrow> record_vote cast n d m = cast m"
  by (simp add: record_vote_def)

lemma record_vote:
  assumes "disk_votes cast n d" "durable_le d d'"
  shows "votes_le cast (record_vote cast n d')" "disk_votes (record_vote cast n d') n d'"
proof -
  let ?v = "hsVotedFor (rsHardState d)" and ?v' = "hsVotedFor (rsHardState d')"
  have le: "rsTerm d \<le> rsTerm d'" "rsTerm d' = rsTerm d \<Longrightarrow> ?v \<noteq> 0 \<Longrightarrow> ?v' = ?v"
    using assms(2) by (auto simp: durable_le_def)
  have cast: "x \<noteq> 0 \<and> t \<le> rsTerm d' \<and> (t = rsTerm d' \<longrightarrow> ?v' = x)" if "cast n t = Some x" for t x
  proof -
    have c: "x \<noteq> 0" "t \<le> rsTerm d" "t = rsTerm d \<longrightarrow> ?v = x"
      using assms(1) that by (auto simp: disk_votes_def)
    moreover have "rsTerm d = rsTerm d'" "t = rsTerm d" if "t = rsTerm d'"
      using c(2) le(1) that by auto
    ultimately show ?thesis
      using le by auto
  qed
  then show "votes_le cast (record_vote cast n d')"
    by (auto simp: votes_le_def record_vote_def)
  show "disk_votes (record_vote cast n d') n d'"
    using cast by (auto simp: disk_votes_def record_vote_def)
qed

lemma disk_votes_same:
  "disk_votes cast n d \<Longrightarrow> rsTerm d' = rsTerm d \<Longrightarrow> hsVotedFor (rsHardState d') = hsVotedFor (rsHardState d)
   \<Longrightarrow> disk_votes cast n d'"
  by (simp add: disk_votes_def)

section \<open>The invariant\<close>

text \<open>Term and vote in memory are on disk, unless a batch that carries them waits to be saved.\<close>

definition in_sync :: "replica \<Rightarrow> Core \<Rightarrow> bool" where
  "in_sync r c \<longleftrightarrow> (rpSaved r \<longrightarrow> cHasPending c)
     \<and> (rpSaved r \<or> rdHardState (cPendingReady c) = None \<longrightarrow>
          cTerm c = rsTerm (rpDisk r) \<and> cVotedFor c = hsVotedFor (rsHardState (rpDisk r)))"

text \<open>The votes a candidate counts are durable, its own one at the latest when it leads.\<close>

definition counts_durable :: "votes \<Rightarrow> Core \<Rightarrow> bool" where
  "counts_durable cast c \<longleftrightarrow>
     (stands c \<longrightarrow> (\<forall>v \<in> members (cVotes c). v = cLocalID c \<or> cast v (cTerm c) = Some (cLocalID c)))
   \<and> (cRole c = RoleLeader \<longrightarrow> cast (cLocalID c) (cTerm c) = Some (cLocalID c))"

definition replica_ok :: "(bytes \<Rightarrow> bytes32) \<Rightarrow> VoterSet \<Rightarrow> votes \<Rightarrow> u16 \<Rightarrow> replica \<Rightarrow> bool" where
  "replica_ok sha256 voters cast n r \<longleftrightarrow>
     disk_votes cast n (rpDisk r)
   \<and> (\<forall>c. rpCore r = Some c \<longrightarrow> core_ok c \<and> cLocalID c = n \<and> cVoters c = voters \<and> in_sync r c
        \<and> counts_durable cast c \<and> state_ok sha256 MaxRaftSnapshotBytes voters (rpDisk r))"

definition net_ok :: "votes \<Rightarrow> (u16 \<times> PeerMessage) set \<Rightarrow> bool" where
  "net_ok cast net \<longleftrightarrow>
     (\<forall>(sender, m) \<in> net. \<forall>(v, t, x) \<in> ballot_of (pmRPC m). x \<noteq> 0 \<longrightarrow> cast v t = Some x)"

definition cluster_ok :: "(bytes \<Rightarrow> bytes32) \<Rightarrow> VoterSet \<Rightarrow> votes \<Rightarrow> cluster \<Rightarrow> bool" where
  "cluster_ok sha256 voters cast s \<longleftrightarrow>
     (\<forall>n. replica_ok sha256 voters cast n (clReplica s n)) \<and> net_ok cast (clNet s)"

lemma counts_durable_mono: "counts_durable cast c \<Longrightarrow> votes_le cast cast' \<Longrightarrow> counts_durable cast' c"
  unfolding counts_durable_def votes_le_def by blast

lemma net_ok_mono: "net_ok cast net \<Longrightarrow> votes_le cast cast' \<Longrightarrow> net_ok cast' net"
  unfolding net_ok_def votes_le_def by blast

lemma net_ok_insert:
  "net_ok cast (insert (n, m) net) \<longleftrightarrow>
     (\<forall>(v, t, x) \<in> ballot_of (pmRPC m). x \<noteq> 0 \<longrightarrow> cast v t = Some x) \<and> net_ok cast net"
  by (simp add: net_ok_def)

text \<open>Replacing one replica, with votes that only its disk adds.\<close>

lemma cluster_ok_put:
  assumes "cluster_ok sha256 voters cast s" "votes_le cast cast'" "\<And>m. m \<noteq> n \<Longrightarrow> cast' m = cast m"
    and "replica_ok sha256 voters cast' n r"
  shows "cluster_ok sha256 voters cast' (put_replica n r s)"
proof -
  have "replica_ok sha256 voters cast' m (clReplica s m)" if "m \<noteq> n" for m
  proof -
    have "replica_ok sha256 voters cast m (clReplica s m)"
      using assms(1) by (simp add: cluster_ok_def)
    then show ?thesis
      using counts_durable_mono[OF _ assms(2)] assms(3)[OF that] by (simp add: replica_ok_def disk_votes_def)
  qed
  then show ?thesis
    using assms(1,4) net_ok_mono[OF _ assms(2)] by (auto simp: cluster_ok_def)
qed

lemma cluster_ok_put_same:
  "cluster_ok sha256 voters cast s \<Longrightarrow> replica_ok sha256 voters cast n r \<Longrightarrow> cluster_ok sha256 voters cast (put_replica n r s)"
  by (rule cluster_ok_put) (auto simp: votes.R_refl)

lemma replica_okD:
  assumes "cluster_ok sha256 voters cast s" "clReplica s n = r" "rpCore r = Some c"
  shows "disk_votes cast n (rpDisk r)" "core_ok c" "cLocalID c = n" "cVoters c = voters" "in_sync r c"
    "counts_durable cast c" "state_ok sha256 MaxRaftSnapshotBytes voters (rpDisk r)"
  using assms by (auto simp: cluster_ok_def replica_ok_def)

section \<open>Steps\<close>

lemma stands_vote: "core_ok c \<Longrightarrow> stands c \<Longrightarrow> cVotedFor c = cLocalID c"
  by (auto simp: core_ok_def role_ok_def)

lemma local_nonzero: "core_ok c \<Longrightarrow> cLocalID c \<noteq> 0"
  by (auto simp: core_ok_def fixed_ok_def voters_wf_def voter_ids_def)

text \<open>A call on an idle core whose term and vote are on disk.\<close>

lemma counts_durable_call:
  assumes "moves S c c'" "core_ok c" "counts_durable cast c" "disk_votes cast (cLocalID c) d"
    and "cTerm c = rsTerm d" "cVotedFor c = hsVotedFor (rsHardState d)"
    and "\<And>v. v \<in> S \<Longrightarrow> cast v (cTerm c) = Some (cLocalID c)" "stands c' \<Longrightarrow> cTerm c' \<noteq> cTerm c \<Longrightarrow> S = {}"
  shows "counts_durable cast c'"
proof -
  have m: "counts S c c'" "cLocalID c' = cLocalID c"
    using assms(1) by (simp_all add: moves_def core_le_def)
  have "v = cLocalID c \<or> cast v (cTerm c') = Some (cLocalID c)" if "stands c'" "v \<in> members (cVotes c')" for v
  proof (cases "cTerm c' = cTerm c")
    case True
    have "v \<in> (if stands c then members (cVotes c) else {}) \<union> {cLocalID c} \<union> S"
      using m that True by (auto simp: counts_def)
    then show ?thesis
      using assms(3,7) True by (auto simp: counts_durable_def split: if_splits)
  next
    case False
    then show ?thesis
      using m that assms(8) by (auto simp: counts_def)
  qed
  moreover have "cast (cLocalID c) (cTerm c') = Some (cLocalID c)" if "cRole c' = RoleLeader"
  proof -
    have "stands c" "cTerm c' = cTerm c"
      using m(1) that by (auto simp: counts_def)
    then show ?thesis
      using stands_vote[OF assms(2)] local_nonzero[OF assms(2)] assms(4-6) by (simp add: disk_votes_def)
  qed
  ultimately show ?thesis
    using m(2) by (simp add: counts_durable_def)
qed

text \<open>Counting a vote leaves the hard state alone.\<close>

lemma becomeLeader_hard: "sound False (\<lambda>e. cHardState e = cHardState d) (becomeLeader v d)"
proof -
  let ?P = "\<lambda>e :: Core. cHardState e = cHardState d \<and> cProgress e \<noteq> None"
  have loop: "sound False (\<lambda>e. cHardState e = cHardState d) (for_each (initiatePeer i) ps e)" if "?P e" for i ps e
  proof (rule sound_mono[where P = ?P])
    show "sound False ?P (for_each (initiatePeer i) ps e)"
    proof (rule sound_for_each[where P = ?P, OF that])
      fix peer u
      assume u: "?P u"
      have keeps: "?P w" if "steady u w" for w
        using u calmD(3,15)[OF steadyD(1)[OF that]] by simp
      have "sound False (steady u) (initiatePeer i peer u)"
        by (rule sound_weaken[OF initiatePeer_steady]) (use u in simp)
      then show "sound False ?P (initiatePeer i peer u)"
        by (rule sound_mono) (rule keeps)
    qed
  qed simp
  show ?thesis
    unfolding becomeLeader_def Let_def
    by (auto simp: putVote_def queueEntries_def split: option.splits sum.splits prod.splits intro!: loop)
qed

lemma support_term:
  assumes "Step sender rpc c = Some (c', err)" "support rpc (cLocalID c) (cTerm c) \<noteq> {}"
  shows "cTerm c' = cTerm c"
proof -
  obtain m where m: "rpc = RRequestVoteResponse m" "vrTerm m = cTerm c"
    using assms(2) by (cases rpc) (auto split: if_splits)
  have "sound False (\<lambda>e. cTerm e = cTerm c) (handleVoteResponse m c)"
    using m(2) sound_mono[OF becomeLeader_hard[of c "vrResponderID m"]]
    by (auto simp: handleVoteResponse_def putVote_def split: option.splits)
  then show ?thesis
    using assms(1) unfolding m(1) Step_def
    by (auto simp: sound_def ensures_def split: option.splits if_splits)
qed

lemma ballot_support:
  assumes "net_ok cast net" "(sender, m) \<in> net" "core_ok c" "v \<in> support (pmRPC m) (cLocalID c) (cTerm c)"
  shows "cast v (cTerm c) = Some (cLocalID c)"
proof -
  have "(v, cTerm c, cLocalID c) \<in> ballot_of (pmRPC m)"
    using assms(4) by (cases "pmRPC m") (auto split: if_splits)
  then show ?thesis
    using assms(1,2) local_nonzero[OF assms(3)] by (fastforce simp: net_ok_def)
qed

text \<open>A call of the owner or the delivery of a message.\<close>

lemma call_ok:
  assumes ok: "cluster_ok sha256 voters cast s" and r: "clReplica s n = r" "rpCore r = Some c"
    and m: "moves S c c'" "cHasPending c \<longrightarrow> c' = c"
    and S: "\<And>v. v \<in> S \<Longrightarrow> cast v (cTerm c) = Some (cLocalID c)" "S \<noteq> {} \<Longrightarrow> cTerm c' = cTerm c"
  shows "cluster_ok sha256 voters cast (put_replica n (r\<lparr>rpCore := Some c'\<rparr>) s)"
proof (cases "cHasPending c")
  case True
  then have "clReplica s n = r\<lparr>rpCore := Some c'\<rparr>"
    using m(2) r by (cases r) simp
  then have "put_replica n (r\<lparr>rpCore := Some c'\<rparr>) s = s"
    by (cases s) (auto simp: put_replica_def)
  then show ?thesis using ok by simp
next
  case False
  note R = replica_okD[OF ok r]
  have unsaved: "\<not> rpSaved r" "rdHardState (cPendingReady c) = None"
    using R(5) False idle_pending[of c] R(2) by (auto simp: in_sync_def idle_def empty_Ready_def)
  then have sync: "cTerm c = rsTerm (rpDisk r)" "cVotedFor c = hsVotedFor (rsHardState (rpDisk r))"
    using R(5) by (simp_all add: in_sync_def)
  have c': "core_ok c'" "cLocalID c' = n" "cVoters c' = voters" "reports c c'"
    using m(1) R(3,4) by (simp_all add: moves_def core_le_def)
  have "in_sync (r\<lparr>rpCore := Some c'\<rparr>) c'"
    using c'(4) sync unsaved by (simp add: in_sync_def reports_def)
  moreover have "counts_durable cast c'"
    by (rule counts_durable_call[OF m(1) R(2,6) _ sync]) (use R(1,3) S in auto)
  ultimately show ?thesis
    using ok R(1,7) c' by (intro cluster_ok_put_same) (simp_all add: replica_ok_def)
qed

text \<open>Saving a batch makes its vote durable.\<close>

lemma ReadyOf_fields:
  assumes "ReadyOf c = (c', Some ready)"
  shows "cHasPending c'" "cPendingReady c' = ready" "rdHardState ready = rdHardState (cPendingReady c)"
    "cHardState c' = cHardState c" "cRole c' = cRole c" "cVotes c' = cVotes c" "cLocalID c' = cLocalID c" "cVoters c' = cVoters c"
  using assms by (auto simp: ReadyOf_def Let_def split: if_splits)

lemma save_ok:
  assumes ok: "cluster_ok sha256 voters cast s" and r: "clReplica s n = r" "rpCore r = Some c" "\<not> rpSaved r"
    and c': "ReadyOf c = (c', Some ready)" and d: "saved_disk sha256 voters ready (rpDisk r) = Inr disk"
  shows "cluster_ok sha256 voters (record_vote cast n disk)
           (put_replica n (r\<lparr>rpCore := Some c', rpDisk := disk, rpSaved := True\<rparr>) s)"
proof -
  note R = replica_okD[OF ok r(1,2)] and D = saved_disk_facts[OF d] and F = ReadyOf_fields[OF c']
  have "core_ok c'"
    using ReadyOf_moves[OF R(2)] c' by (simp add: moves_def)
  then have hs: "hsTerm hs = cTerm c' \<and> hsVotedFor hs = cVotedFor c'" if "rdHardState ready = Some hs" for hs
    using that F(2) by (simp add: core_ok_def pending_ok_def)
  have "in_sync (r\<lparr>rpCore := Some c', rpDisk := disk, rpSaved := True\<rparr>) c'"
  proof (cases "rdHardState ready")
    case None
    then show ?thesis
      using R(5) F D(3)[OF R(7)] r(3) by (simp add: in_sync_def)
  next
    case (Some h)
    then show ?thesis
      using hs[OF Some] F(1) D(3)[OF R(7)] by (simp add: in_sync_def)
  qed
  moreover have "counts_durable (record_vote cast n disk) c'"
    using counts_durable_mono[OF R(6) record_vote(1)[OF R(1) D(2)[OF R(7)]]] F(4-7)
    by (simp add: counts_durable_def)
  ultimately have "replica_ok sha256 voters (record_vote cast n disk) n
      (r\<lparr>rpCore := Some c', rpDisk := disk, rpSaved := True\<rparr>)"
    using \<open>core_ok c'\<close> R(3,4) F(7,8) D(1)[OF R(7)] record_vote(2)[OF R(1) D(2)[OF R(7)]]
    by (simp add: replica_ok_def)
  then show ?thesis
    using record_vote(1)[OF R(1) D(2)[OF R(7)]] by (intro cluster_ok_put[OF ok]) simp_all
qed

lemma send_ok:
  assumes ok: "cluster_ok sha256 voters cast s" and r: "clReplica s n = r" "rpCore r = Some c" "rpSaved r"
    and m: "m \<in> set (rdMessages (cPendingReady c))"
  shows "cluster_ok sha256 voters cast (s\<lparr>clNet := insert (n, m) (clNet s)\<rparr>)"
proof -
  note R = replica_okD[OF ok r(1,2)]
  have "ballot_of (pmRPC m) \<subseteq> ballots c"
    using m by (auto simp: ballots_def)
  also have "\<dots> \<subseteq> {(n, cTerm c, cVotedFor c)}"
    using R(2,3) by (simp add: core_ok_def pending_ok_def)
  finally have "\<forall>(v, t, x) \<in> ballot_of (pmRPC m). x \<noteq> 0 \<longrightarrow> cast v t = Some x"
    using R(1,5) r(3) by (auto simp: in_sync_def disk_votes_def)
  then show ?thesis
    using ok by (simp add: cluster_ok_def net_ok_insert)
qed

text \<open>Installing or compacting a snapshot keeps term and vote of the disk.\<close>

lemma disk_ok:
  assumes ok: "cluster_ok sha256 voters cast s" and r: "clReplica s n = r"
    and d: "rsTerm disk = rsTerm (rpDisk r)" "hsVotedFor (rsHardState disk) = hsVotedFor (rsHardState (rpDisk r))"
    and st: "state_ok sha256 MaxRaftSnapshotBytes voters (rpDisk r) \<Longrightarrow> state_ok sha256 MaxRaftSnapshotBytes voters disk"
  shows "cluster_ok sha256 voters cast (put_replica n (r\<lparr>rpDisk := disk\<rparr>) s)"
proof (rule cluster_ok_put_same[OF ok])
  have "replica_ok sha256 voters cast n r"
    using ok r by (auto simp: cluster_ok_def)
  then show "replica_ok sha256 voters cast n (r\<lparr>rpDisk := disk\<rparr>)"
    using d st by (simp add: replica_ok_def disk_votes_def in_sync_def)
qed

lemma CompleteSnapshotAction_ballot: "CompleteSnapshotAction token result c = (c', Inr m) \<Longrightarrow> ballot_of (pmRPC m) = {}"
  by (auto simp: CompleteSnapshotAction_def completeStaged_def adoptInstalled_def snapshotResponse_def Let_def
      split: option.splits if_splits sum.splits)

lemma finish_ok:
  assumes ok: "cluster_ok sha256 voters cast s" and r: "clReplica s n = r" "rpCore r = Some c" "rpSaved r"
    and c': "Advance token c = (c', None)"
  shows "cluster_ok sha256 voters cast (put_replica n (r\<lparr>rpCore := Some c', rpSaved := False\<rparr>) s)"
proof (rule cluster_ok_put_same[OF ok])
  note R = replica_okD[OF ok r(1,2)]
  have c: "core_ok c'" "cHardState c' = cHardState c" "cRole c' = cRole c" "cVotes c' = cVotes c"
      "cLocalID c' = cLocalID c" "cVoters c' = cVoters c"
    using Advance_moves[OF R(2), of token] c'
    by (auto simp: moves_def Advance_def Let_def split: option.splits if_splits prod.splits)
  then show "replica_ok sha256 voters cast n (r\<lparr>rpCore := Some c', rpSaved := False\<rparr>)"
    using R r(3) by (simp add: replica_ok_def in_sync_def counts_durable_def)
qed

lemma complete_ok:
  assumes ok: "cluster_ok sha256 voters cast s" and r: "clReplica s n = r" "rpCore r = Some c" "rpSaved r"
    and c': "CompleteSnapshotAction token result c = (c', Inr m)"
    and st: "sarDone result \<Longrightarrow> sarState result = (rpDisk r)\<lparr>rsAppliedIndex := rsCommitIndex (rpDisk r)\<rparr>"
  shows "cluster_ok sha256 voters cast
           ((put_replica n (r\<lparr>rpCore := Some c'\<rparr>) s)\<lparr>clNet := insert (n, m) (clNet s)\<rparr>)"
proof -
  note R = replica_okD[OF ok r(1,2)]
  have "state_terms_ok (sarState result)" if "sarDone result"
    using state_ok_terms[OF R(7)] st[OF that] by (simp add: state_terms_ok_def)
  then have c: "core_ok c'" "core_le c c'" "cTerm c' = cTerm c" "cVotedFor c' = cVotedFor c" "cRole c' = cRole c"
      "cVotes c' = cVotes c" "cHasPending c' = cHasPending c" "cPendingReady c' = cPendingReady c"
    using CompleteSnapshotAction_ok[OF R(2) c'] by auto
  have "replica_ok sha256 voters cast n (r\<lparr>rpCore := Some c'\<rparr>)"
    using R c r(3) by (simp add: replica_ok_def in_sync_def counts_durable_def core_le_def)
  then have "cluster_ok sha256 voters cast (put_replica n (r\<lparr>rpCore := Some c'\<rparr>) s)"
    by (rule cluster_ok_put_same[OF ok])
  then show ?thesis
    using CompleteSnapshotAction_ballot[OF c'] by (simp add: cluster_ok_def net_ok_insert)
qed

lemma validateRecovery_fields:
  assumes "validateRecovery sha256 d options = Inr recovered"
  shows "state_ok sha256 (noMaxSnapshotBytes options) (noVoters options) d"
    "rsHardState recovered = rsHardState d" "rsSnapshotBase recovered = rsSnapshotBase d" "rsEntries recovered = rsEntries d"
  using assms by (auto simp: validateRecovery_def validate_iff split: option.splits sum.splits if_splits)

lemma recovered_core_ok:
  assumes "NewCore (recoveredCoreOptions recovered l options) = Some (Inr c)" "voters_wf (noVoters options)"
    and "validateRecovery sha256 d options = Inr recovered"
    and "NewLog (rsBaseIndex recovered) (smLastIncludedTerm (rsSnapshotBase recovered)) (rsCommitIndex recovered)
          (rsBaseIndex recovered) (rsEntries recovered) = Inr l"
  shows "core_ok (recovered_core recovered c)" "cHardState (recovered_core recovered c) = rsHardState d"
    "cRole (recovered_core recovered c) = RoleFollower" "cLocalID (recovered_core recovered c) = noLocalID options"
    "cVoters (recovered_core recovered c) = noVoters options" "\<not> cHasPending (recovered_core recovered c)"
proof -
  note V = validateRecovery_fields[OF assms(3)]
  have "sorted (lSnapshotTerm l # map eTerm (lEntries l))"
    using state_ok_terms[OF V(1)] NewLog_fields[OF assms(4)] V(3,4) by (simp add: state_terms_ok_def)
  then have c: "core_ok c" "\<not> cHasPending c" "cRole c = RoleFollower" "cHardState c = rsHardState d"
      "cLocalID c = noLocalID options" "cVoters c = noVoters options"
    using NewCore_ok[OF assms(1)] assms(2) V(2) by (simp_all add: recoveredCoreOptions_def)
  obtain l' err where a: "AdvanceApplied (rsCommitIndex recovered) (cLog c) = (l', err)"
    by fastforce
  have "core_ok (c\<lparr>cLog := l'\<rparr>)"
    by (rule core_ok_log[OF c(1)])
      (use c(1) AdvanceApplied_cases[OF a] log_step_preserves[OF log_step.applied[OF a]] in \<open>auto simp: core_ok_def log_ok_def\<close>)
  then show "core_ok (recovered_core recovered c)" "cHardState (recovered_core recovered c) = rsHardState d"
    "cRole (recovered_core recovered c) = RoleFollower" "cLocalID (recovered_core recovered c) = noLocalID options"
    "cVoters (recovered_core recovered c) = noVoters options" "\<not> cHasPending (recovered_core recovered c)"
    using c a by (simp_all add: recovered_core_def)
qed

lemma restart_ok:
  assumes ok: "cluster_ok sha256 voters cast s" "voters_wf voters" and r: "clReplica s n = r"
    and o: "noLocalID options = n" "noVoters options = voters" "noMaxSnapshotBytes options \<le> MaxRaftSnapshotBytes"
    and v: "validateRecovery sha256 (rpDisk r) options = Inr recovered"
    and l: "NewLog (rsBaseIndex recovered) (smLastIncludedTerm (rsSnapshotBase recovered)) (rsCommitIndex recovered)
          (rsBaseIndex recovered) (rsEntries recovered) = Inr l"
    and c: "NewCore (recoveredCoreOptions recovered l options) = Some (Inr c)"
  shows "cluster_ok sha256 voters cast (put_replica n (r\<lparr>rpCore := Some (recovered_core recovered c), rpSaved := False\<rparr>) s)"
proof (rule cluster_ok_put_same[OF ok(1)])
  note C = recovered_core_ok[OF c _ v l]
  have "disk_votes cast n (rpDisk r)"
    using ok(1) r by (auto simp: cluster_ok_def replica_ok_def)
  moreover have "state_ok sha256 MaxRaftSnapshotBytes voters (rpDisk r)"
    using validateRecovery_fields(1)[OF v] o(2,3) state_ok_limit_mono by blast
  ultimately show "replica_ok sha256 voters cast n (r\<lparr>rpCore := Some (recovered_core recovered c), rpSaved := False\<rparr>)"
    using C ok(2) o(1,2) by (simp add: replica_ok_def in_sync_def counts_durable_def)
qed

section \<open>Every run\<close>

lemma new_cluster_ok: "cluster_ok sha256 voters (\<lambda>_ _. None) (new_cluster clusterID voters)"
  by (simp add: cluster_ok_def replica_ok_def net_ok_def new_cluster_def disk_votes_def emptyState_def zero_HardState_def)

lemma cluster_step_ok:
  assumes "cluster_step sha256 voters s s'" "cluster_ok sha256 voters cast s" "voters_wf voters"
  shows "\<exists>cast'. votes_le cast cast' \<and> cluster_ok sha256 voters cast' s'"
proof -
  have keep: ?thesis if "cluster_ok sha256 voters cast s'"
    using that votes.R_refl by blast
  from assms(1) show ?thesis
  proof cases
    case (Call n r c c')
    note m = owner_call_moves[OF Call(4) replica_okD(2)[OF assms(2) Call(2,3)]]
    show ?thesis
      by (rule keep, unfold Call(1), rule call_ok[OF assms(2) Call(2,3), of "{}"]) (use m in auto)
  next
    case (Deliver n r c sender m c' err)
    note ok = replica_okD(2)[OF assms(2) Deliver(2,3)]
    have "cluster_ok sha256 voters cast s'"
      unfolding Deliver(1)
    proof (rule call_ok[OF assms(2) Deliver(2,3)])
      show "moves (support (pmRPC m) (cLocalID c) (cTerm c)) c c'" "cHasPending c \<longrightarrow> c' = c"
        using Step_call[OF Deliver(6) ok] by auto
      show "cast v (cTerm c) = Some (cLocalID c)" if "v \<in> support (pmRPC m) (cLocalID c) (cTerm c)" for v
        using ballot_support[OF _ Deliver(4) ok that] assms(2) by (simp add: cluster_ok_def)
      show "cTerm c' = cTerm c" if "support (pmRPC m) (cLocalID c) (cTerm c) \<noteq> {}"
        using support_term[OF Deliver(6) that] .
    qed
    then show ?thesis by (rule keep)
  next
    case (Save n r c c' ready disk)
    note R = replica_okD[OF assms(2) Save(2,3)]
    show ?thesis
      unfolding Save(1)
      by (intro exI conjI, rule record_vote(1)[OF R(1) saved_disk_facts(2)[OF Save(6) R(7)]], rule save_ok[OF assms(2) Save(2-6)])
  next
    case (Send n r c m)
    show ?thesis by (rule keep, unfold Send(1), rule send_ok[OF assms(2) Send(2-5)])
  next
    case (Install n r c snapshot disk)
    from Install(5) have "rsTerm disk = rsTerm (rpDisk r)" "hsVotedFor (rsHardState disk) = hsVotedFor (rsHardState (rpDisk r))"
        "state_ok sha256 MaxRaftSnapshotBytes voters disk"
      by (auto elim!: installRecoveredSnapshot_cases)
    then have "cluster_ok sha256 voters cast s'"
      unfolding Install(1) by (intro disk_ok[OF assms(2) Install(2)])
    then show ?thesis by (rule keep)
  next
    case (Complete n r c token result c' m)
    show ?thesis by (rule keep, unfold Complete(1), rule complete_ok[OF assms(2) Complete(2-6)])
  next
    case (Finish n r c token c')
    show ?thesis by (rule keep, unfold Finish(1), rule finish_ok[OF assms(2) Finish(2-5)])
  next
    case (Compact n r snapshot disk)
    have "rsTerm disk = rsTerm (rpDisk r)" "hsVotedFor (rsHardState disk) = hsVotedFor (rsHardState (rpDisk r))"
        "state_ok sha256 MaxRaftSnapshotBytes voters (rpDisk r) \<Longrightarrow> state_ok sha256 MaxRaftSnapshotBytes voters disk"
      using Compact(3) by (auto elim!: compactRecoveredState_cases)
    then have "cluster_ok sha256 voters cast s'"
      unfolding Compact(1) by (rule disk_ok[OF assms(2) Compact(2)])
    then show ?thesis by (rule keep)
  next
    case (Crash n r)
    have "cluster_ok sha256 voters cast s'"
      unfolding Crash(1)
      by (rule cluster_ok_put_same[OF assms(2)]) (use assms(2) Crash(2) in \<open>auto simp: cluster_ok_def replica_ok_def\<close>)
    then show ?thesis by (rule keep)
  next
    case (Restart n r options recovered l c)
    show ?thesis by (rule keep, unfold Restart(1), rule restart_ok[OF assms(2,3) Restart(2,6,7,5,8-10)])
  qed
qed

lemma cluster_run_ok:
  assumes "(cluster_step sha256 voters)\<^sup>*\<^sup>* s s'" "cluster_ok sha256 voters cast s" "voters_wf voters"
  shows "\<exists>cast'. votes_le cast cast' \<and> cluster_ok sha256 voters cast' s'"
  using assms(1)
proof induction
  case base
  then show ?case using assms(2) votes.R_refl by blast
next
  case (step t u)
  then show ?case using cluster_step_ok[OF step(2) _ assms(3)] votes.R_trans by blast
qed

text \<open>A leader holds the durable votes of a majority.\<close>

lemma leader_quorum:
  assumes "cluster_ok sha256 voters cast s" "leads_in s n t"
  shows "\<exists>Q \<subseteq> voter_ids voters. Majority voters \<le> card Q \<and> (\<forall>v \<in> Q. cast v t = Some n)"
proof -
  obtain c where c: "rpCore (clReplica s n) = Some c" "cRole c = RoleLeader" "cTerm c = t"
    using assms(2) by (auto simp: leads_in_def)
  note R = replica_okD[OF assms(1) refl c(1)]
  have "members (cVotes c) \<subseteq> voter_ids voters" "Majority voters \<le> card (members (cVotes c))"
    using R(2,4) c(2) by (auto simp: core_ok_def role_ok_def)
  moreover have "\<forall>v \<in> members (cVotes c). cast v t = Some n"
    using R(3,6) c(2,3) by (auto simp: counts_durable_def)
  ultimately show ?thesis by blast
qed

end
