(* ===== verification/Raft_Election_Properties.thy ===== *)
theory Raft_Election_Properties
  imports Raft_Election
begin

text \<open>
  Election safety as properties of every run of a cluster, and a run of three replicas in which one of
  them is elected, computed with the handlers of the core.
\<close>

section \<open>A run that elects a leader\<close>

definition demo_log :: Log where
  "demo_log = \<lparr>lSnapshotIndex = 0, lSnapshotTerm = 0, lCommitIndex = 0, lAppliedIndex = 0, lLastIndex = 0, lEntries = []\<rparr>"

definition demo_node :: "u16 \<Rightarrow> plain_options" where
  "demo_node n = \<lparr>noLocalID = n, noVoters = demo_voters,
     noIdentity = \<lparr>siFormatVersion = StorageFormatVersion1, siClusterID = 7, siLocalVoterID = n,
       siVoterFingerprint = vsFingerprint demo_voters\<rparr>,
     noStore = \<lparr>ssSnapshotLimit = (\<lambda>_. 1), ssRecover = (\<lambda>s. (s, Inl ErrStoreClosed)), ssPersist = (\<lambda>_ s. (s, None)),
       ssClose = (\<lambda>s. (s, None)), ssRetained = None, ssPersistSnapshot = None, ssStaging = None\<rparr>,
     noStateMachine = \<lparr>smApply = (\<lambda>_ _ _ st. (st, Inr [])), smCapture = (\<lambda>_ _ st. (st, Inr None)),
       smRestore = (\<lambda>_ _ st. (st, None))\<rparr>,
     noHandoff = (\<lambda>_ t. (t, Inr TransportAccepted)), noNextTransferID = (\<lambda>_ i. (i, Inr 1)),
     noRandom = Some (sconst 0), noElectionTimeoutMin = 4, noElectionTimeoutMax = 6, noHeartbeatInterval = 1,
     noMaxAppendEntries = 0, noMaxAppendBytes = 0, noSnapshotEntryThreshold = 1, noSnapshotByteThreshold = 1,
     noMaxSnapshotBytes = 1, noMaxSnapshotChunkBytes = 1\<rparr>"

abbreviation demo_disk :: "u16 \<Rightarrow> RecoveredState" where
  "demo_disk n \<equiv> emptyState (noIdentity (demo_node n))"

definition demo_start :: "u16 \<Rightarrow> Core" where
  "demo_start n = (newCoreWith (recoveredCoreOptions (demo_disk n) demo_log (demo_node n)) 1 demo_log (sconst 0))
     \<lparr>cElectionDeadline := 4\<rparr>"

lemma demo_voter: "ValidateLocalID demo_voters 1 = None" "ValidateLocalID demo_voters 2 = None" "Contains demo_voters 1" "Contains demo_voters 2"
  by code_simp+

lemma demo_restart_core:
  assumes "n = 1 \<or> n = 2"
  shows "NewCore (recoveredCoreOptions (demo_disk n) demo_log (demo_node n)) = Some (Inr (demo_start n))"
    "recovered_core (demo_disk n) (demo_start n) = demo_start n"
proof -
  let ?probe = "RAppendEntriesRequest \<lparr>aqLeaderID = n, aqTerm = 1, aqGeneration = 1, aqPrevLogIndex = 0,
      aqPrevLogTerm = 0, aqLeaderCommit = 0, aqEntries = []\<rparr>"
  have "resolveCodecLimits DefaultCodecLimits = Inr DefaultCodecLimits" "validateRPC ?probe DefaultCodecLimits = None"
      "length (be_bytes 2 (schemaVersionForRPC ?probe) @ body_bytes ?probe) \<le> unat (clMaxEncodedBytes DefaultCodecLimits)"
    using assms by (auto simp: resolveCodecLimits_def withDefaultLimits_def DefaultCodecLimits_def limit_defs Let_def
        validateAppendRequest_def validLogPosition_def)
  then have "\<exists>x. EncodeRPC ?probe DefaultCodecLimits = Inr x"
    using EncodeRPC_iff by blast
  moreover have "\<not> (4 :: u64) \<le> 1" "\<not> (6 :: u64) \<le> 4"
    by (simp_all add: word_le_nat_alt)
  moreover have "Uint64n (sconst 0) 2 = Some (0, sconst 0)"
    by (simp add: Uint64n_def)
  moreover have "ValidateLocalID demo_voters n = None"
    using assms demo_voter by auto
  ultimately show "NewCore (recoveredCoreOptions (demo_disk n) demo_log (demo_node n)) = Some (Inr (demo_start n))"
    by (auto simp: NewCore_def recoveredCoreOptions_def demo_node_def appendLimitsOf_def recoveryInvalid_def Let_def
        LastTerm_def NewLog_def sampleDeadline_def newCoreWith_def demo_start_def demo_log_def emptyState_def
        zero_HardState_def zero_SnapshotMetadata_def)
  show "recovered_core (demo_disk n) (demo_start n) = demo_start n"
    by (simp add: recovered_core_def AdvanceApplied_def demo_start_def newCoreWith_def demo_log_def emptyState_def
        zero_HardState_def Let_def)
qed

text \<open>Save a batch, send one of its messages and advance.\<close>

definition flushed :: "Core \<Rightarrow> Core" where
  "flushed c = c\<lparr>cNextToken := cNextToken c + 1, cPendingReady := empty_Ready, cHasPending := False, cSnapshotActionDone := False\<rparr>"

abbreviation up :: "Core \<Rightarrow> RecoveredState \<Rightarrow> replica" where
  "up c d \<equiv> \<lparr>rpCore = Some c, rpDisk = d, rpSaved = False\<rparr>"

lemma persistenceBatchForReady_token: "persistenceBatchForReady (r\<lparr>rdToken := k\<rparr>) = persistenceBatchForReady r"
  by (simp add: persistenceBatchForReady_def Let_def)

lemma flush_run:
  assumes "clReplica s n = up c d" "cHasPending c" "rdToken (cPendingReady c) = 0" "cNextToken c < 100" "cTerminalErr c = None"
    "rdSnapshotActions (cPendingReady c) = []" "rdCommittedEntries (cPendingReady c) = []"
    "saved_disk sha256 voters (cPendingReady c) d = Inr d'" "m \<in> set (rdMessages (cPendingReady c))"
  shows "(cluster_step sha256 voters)\<^sup>*\<^sup>* s ((put_replica n (up (flushed c) d') s)\<lparr>clNet := insert (n, m) (clNet s)\<rparr>)"
proof -
  let ?k = "cNextToken c + 1" and ?r = "\<lambda>c d b. \<lparr>rpCore = Some c, rpDisk = d, rpSaved = b\<rparr>"
  let ?c = "c\<lparr>cNextToken := ?k, cPendingReady := (cPendingReady c)\<lparr>rdToken := ?k\<rparr>\<rparr>"
  let ?s = "put_replica n (?r ?c d' True) s"
  let ?t = "?s\<lparr>clNet := insert (n, m) (clNet ?s)\<rparr>"
  have "cNextToken c \<noteq> MaxUint64"
    using assms(4) by (auto simp: word_less_nat_alt unat_MaxUint64)
  then have k: "cNextToken c \<noteq> MaxUint64" "?k \<noteq> 0"
    using unat_Suc_word[of "cNextToken c"] by auto
  have "ReadyOf c = (?c, Some (cPendingReady ?c))"
    using assms(2,3) k(1) by (simp add: ReadyOf_def Let_def)
  moreover have "saved_disk sha256 voters (cPendingReady ?c) d = Inr d'"
    using assms(8) by (simp add: saved_disk_def persistenceBatchForReady_token)
  ultimately have 1: "cluster_step sha256 voters s ?s"
    using Save[of s n "?r c d False" c ?c "cPendingReady ?c" sha256 voters d'] assms(1) by simp
  have 2: "cluster_step sha256 voters ?s ?t"
    by (rule Send[of _ _ "?r ?c d' True" ?c]) (use assms(9) in simp_all)
  have "Advance ?k ?c = (flushed c, None)"
    using assms(2,5-7) k(2) by (simp add: Advance_def flushed_def)
  then have "cluster_step sha256 voters ?t (put_replica n (up (flushed c) d') ?t)"
    using Finish[of ?t n "?r ?c d' True" ?c ?k "flushed c" sha256 voters] by simp
  also have "put_replica n (up (flushed c) d') ?t = (put_replica n (up (flushed c) d') s)\<lparr>clNet := insert (n, m) (clNet s)\<rparr>"
    by (simp add: put_replica_def)
  finally have 3: "cluster_step sha256 voters ?t ((put_replica n (up (flushed c) d') s)\<lparr>clNet := insert (n, m) (clNet s)\<rparr>)" .
  show ?thesis
    by (rule converse_rtranclp_into_rtranclp[where r = "cluster_step sha256 voters", OF 1],
        rule converse_rtranclp_into_rtranclp[where r = "cluster_step sha256 voters", OF 2], rule r_into_rtranclp, rule 3)
qed

text \<open>The cores of replicas 1 and 2, message by message.\<close>

definition demo_pre_request :: PreVoteRequest where
  "demo_pre_request = \<lparr>pqCandidateID = 1, pqCurrentTerm = 0, pqProspectiveTerm = 1, pqLastLogIndex = 0, pqLastLogTerm = 0\<rparr>"

definition demo_pre_response :: PreVoteResponse where
  "demo_pre_response = \<lparr>prResponderID = 2, prCandidateID = 1, prTerm = 0, prRequestCurrentTerm = 0, prProspectiveTerm = 1,
     prGranted = True\<rparr>"

definition demo_request :: RequestVoteRequest where
  "demo_request = \<lparr>vqCandidateID = 1, vqTerm = 1, vqLastLogIndex = 0, vqLastLogTerm = 0\<rparr>"

definition demo_response :: RequestVoteResponse where
  "demo_response = \<lparr>vrResponderID = 2, vrCandidateID = 1, vrTerm = 1, vrRequestTerm = 1, vrGranted = True\<rparr>"

abbreviation message :: "u16 \<Rightarrow> RPC \<Rightarrow> bool \<Rightarrow> PeerMessage" where
  "message to rpc hard \<equiv> \<lparr>pmTo = to, pmRPC = rpc, pmRequires = \<lparr>dpHardState = hard, dpEntriesThrough = 0\<rparr>\<rparr>"

abbreviation voted :: HardState where
  "voted \<equiv> \<lparr>hsTerm = 1, hsVotedFor = 1, hsCommitIndex = 0\<rparr>"

definition demo_precandidate :: Core where
  "demo_precandidate = (demo_start 1)\<lparr>cNow := 4, cElectionDeadline := 8, cRole := RolePreCandidate, cPreVotes := Some {1},
     cPendingReady := empty_Ready\<lparr>rdMessages := [message 2 (RPreVoteRequest demo_pre_request) False,
       message 3 (RPreVoteRequest demo_pre_request) False]\<rparr>, cHasPending := True\<rparr>"

definition demo_prevoter :: Core where
  "demo_prevoter = (demo_start 2)\<lparr>cPendingReady := empty_Ready\<lparr>rdMessages :=
     [message 1 (RPreVoteResponse demo_pre_response) False]\<rparr>, cHasPending := True\<rparr>"

definition demo_candidate :: Core where
  "demo_candidate = (flushed demo_precandidate)\<lparr>cHardState := voted, cRole := RoleCandidate, cPreVotes := None,
     cVotes := Some {1}, cPendingReady := empty_Ready\<lparr>rdHardState := Some voted,
       rdMessages := [message 2 (RRequestVoteRequest demo_request) True, message 3 (RRequestVoteRequest demo_request) True]\<rparr>,
     cHasPending := True\<rparr>"

definition demo_voter_core :: Core where
  "demo_voter_core = (flushed demo_prevoter)\<lparr>cHardState := voted,
     cPendingReady := empty_Ready\<lparr>rdHardState := Some voted,
       rdMessages := [message 1 (RRequestVoteResponse demo_response) True]\<rparr>, cHasPending := True\<rparr>"

lemmas demo_core_defs = demo_start_def newCoreWith_def recoveredCoreOptions_def demo_node_def demo_log_def
  emptyState_def zero_HardState_def zero_SnapshotMetadata_def empty_Ready_def

lemma demo_sampling: "Uint64n (sconst 0) 2 = Some (0, sconst 0)"
  by (simp add: Uint64n_def)

lemma election_tick: "Tick 4 (demo_start 1) = Some (demo_precandidate, None)"
  by (simp add: Tick_def startPreVote_def sampleDeadline_def Let_def demo_sampling demo_voters_list peers_def
      queueMessage_def no_prerequisite_def demo_precandidate_def demo_pre_request_def LastTerm_def demo_core_defs
      word_le_nat_alt word_less_nat_alt)

lemma demo_prevote: "Step 1 (RPreVoteRequest demo_pre_request) (demo_start 2) = Some (demo_prevoter, None)"
  by (simp add: Step_def stepAdmission_def ValidateRPCSender_def demo_voter validLogPosition_def isNextTerm_def
      handlePreVoteRequest_def candidateLogIsUpToDate_def queueMessage_def no_prerequisite_def Let_def LastTerm_def
      demo_prevoter_def demo_pre_request_def demo_pre_response_def demo_core_defs)

lemma demo_elect: "Step 2 (RPreVoteResponse demo_pre_response) (flushed demo_precandidate) = Some (demo_candidate, None)"
  by (simp add: Step_def stepAdmission_def ValidateRPCSender_def demo_voter isNextTerm_def validDistinctIDs_def
      handlePreVoteResponse_def startElection_def sampleDeadline_def demo_sampling putPreVote_def members_def demo_Majority
      cancelIncomingSnapshot_def recordHardState_def queueMessage_def peers_def demo_voters_list Let_def LastTerm_def
      flushed_def demo_precandidate_def demo_candidate_def demo_pre_response_def demo_request_def demo_core_defs
      word_le_nat_alt word_less_nat_alt)

lemma election_vote: "Step 1 (RRequestVoteRequest demo_request) (flushed demo_prevoter) = Some (demo_voter_core, None)"
  by (simp add: Step_def stepAdmission_def ValidateRPCSender_def demo_voter validLogPosition_def handleVoteRequest_def
      adoptHigherTerm_def failPendingProposals_def cancelIncomingSnapshot_def recordHardState_def queueVoteResponse_def
      queueMessage_def candidateLogIsUpToDate_def Let_def LastTerm_def flushed_def demo_prevoter_def demo_voter_core_def
      demo_request_def demo_response_def demo_core_defs word_le_nat_alt word_less_nat_alt)

lemma demo_lead:
  "\<exists>c err. Step 2 (RRequestVoteResponse demo_response) (flushed demo_candidate) = Some (c, err) \<and> cRole c = RoleLeader \<and> cTerm c = 1"
proof -
  let ?d = "flushed demo_candidate"
  have d: "cTerminalErr ?d = None" "\<not> cHasPending ?d" "cVoters ?d = demo_voters" "cRole ?d = RoleCandidate" "cTerm ?d = 1"
      "cVotes ?d = Some {1}" "cLocalID ?d = 1" "cLog ?d = demo_log"
    by (simp_all add: flushed_def demo_candidate_def demo_precandidate_def demo_core_defs)
  let ?entry = "\<lparr>eIndex = 1, eTerm = 1, eKind = EntryNoOp, eCommand = []\<rparr>"
  have "snd (snd (Append 0 0 [?entry] demo_log)) = None"
    by code_simp
  then obtain l h where a: "Append 0 0 [?entry] demo_log = (l, h, None)"
    by (cases "Append 0 0 [?entry] demo_log") auto
  have "sound True (\<lambda>e. cRole e = RoleLeader \<and> cTerm e = 1 \<and> cProgress e \<noteq> None) (for_each (initiatePeer 1) ps e)"
    if "cRole e = RoleLeader" "cTerm e = 1" "cProgress e \<noteq> None" for ps e
  proof (rule sound_for_each)
    fix peer and u :: Core
    assume u: "cRole u = RoleLeader \<and> cTerm u = 1 \<and> cProgress u \<noteq> None"
    then have "sound True (steady u) (initiatePeer 1 peer u)"
      by (intro initiatePeer_steady) simp
    then show "sound True (\<lambda>e. cRole e = RoleLeader \<and> cTerm e = 1 \<and> cProgress e \<noteq> None) (initiatePeer 1 peer u)"
      by (rule sound_mono) (use u calmD[OF steadyD(1)] in auto)
  qed (use that in simp)
  then have "sound True (\<lambda>e. cRole e = RoleLeader \<and> cTerm e = 1 \<and> cProgress e \<noteq> None) (becomeLeader 2 ?d)"
    using a d by (auto simp: becomeLeader_def NewEntry_def checkedNextIndex_def putVote_def queueEntries_def LastTerm_def demo_log_def Let_def)
  then have "sound True (\<lambda>e. cRole e = RoleLeader \<and> cTerm e = 1 \<and> cProgress e \<noteq> None)
      (Step 2 (RRequestVoteResponse demo_response) ?d)"
    using d by (simp add: Step_def stepAdmission_def ValidateRPCSender_def demo_voter validDistinctIDs_def
        handleVoteResponse_def members_def demo_Majority demo_response_def)
  then show ?thesis
    by (auto simp: sound_def ensures_def)
qed

text \<open>The disks: a batch without hard state and entries leaves them alone, the vote of term 1 is stored.\<close>

abbreviation demo_voted :: "u16 \<Rightarrow> RecoveredState" where
  "demo_voted n \<equiv> (demo_disk n)\<lparr>rsHardState := voted\<rparr>"

lemma saved_nothing: "rdHardState ready = None \<Longrightarrow> rdEntries ready = [] \<Longrightarrow> saved_disk sha256 voters ready d = Inr d"
  by (simp add: saved_disk_def persistenceBatchForReady_def persistenceBatchHasEffects_def Let_def)

lemma saved_vote:
  assumes "rdHardState ready = Some voted" "rdEntries ready = []" "n = 1 \<or> n = 2"
  shows "saved_disk (\<lambda>_. 0) demo_voters ready (demo_disk n) = Inr (demo_voted n)"
proof -
  let ?batch = "\<lparr>pbHardState = Some voted, pbReplaceFrom = 0, pbEntries = [], pbSnapshotBase = None, pbSnapshot = None, pbAppliedIndex = None\<rparr>"
  have "validatePersistenceBatchBounds ?batch = None"
    by (simp add: validatePersistenceBatchBounds_def addRecord_def checkedBoundedAdd_def walRecordHeaderBytes_def
        walRecordChecksumBytes_def boundaryPayloadBytes_def hardStatePayloadBytes_def MaxWALTransactionBytes_def
        MaxRPCPayloadBytes_def Let_def word_less_nat_alt)
  then have "applyPersistenceBatch (\<lambda>_. 0) (demo_disk n) ?batch (rsIdentity (demo_disk n)) demo_voters = Inr (demo_voted n)"
    using assms(3) demo_voter
    by (auto simp: applyPersistenceBatch_def applyValidatedPersistenceBatch_def checkNextHardState_def applySnapshotBase_def
        applyReplacement_def applyIndices_def ValidateRecoveredState_def validateRecoveredStateWithSnapshotLimit_def
        validateRecoveredSnapshot_def demo_node_def emptyState_def zero_HardState_def zero_SnapshotMetadata_def Let_def)
  then show ?thesis
    using assms(1,2) by (simp add: saved_disk_def persistenceBatchForReady_def persistenceBatchHasEffects_def Let_def)
qed

lemma demo_boot:
  assumes "n = 1 \<or> n = 2" "clReplica s n = \<lparr>rpCore = None, rpDisk = demo_disk n, rpSaved = False\<rparr>"
  shows "cluster_step (\<lambda>_. 0) demo_voters s (put_replica n (up (demo_start n) (demo_disk n)) s)"
proof -
  have "validateRecovery (\<lambda>_. 0) (demo_disk n) (demo_node n) = Inr (demo_disk n)"
    using assms(1) demo_voter
    by (auto simp: validateRecovery_def validateRecoveredStateWithSnapshotLimit_def
        validateRecoveredSnapshot_def demo_node_def emptyState_def zero_HardState_def zero_SnapshotMetadata_def Let_def)
  moreover have "NewLog (rsBaseIndex (demo_disk n)) (smLastIncludedTerm (rsSnapshotBase (demo_disk n)))
      (rsCommitIndex (demo_disk n)) (rsBaseIndex (demo_disk n)) (rsEntries (demo_disk n)) = Inr demo_log"
    by (simp add: NewLog_def demo_log_def emptyState_def zero_HardState_def zero_SnapshotMetadata_def)
  moreover have "ValidateLocalID demo_voters n = None" "noMaxSnapshotBytes (demo_node n) \<le> MaxRaftSnapshotBytes"
    using assms(1) demo_voter by (auto simp: demo_node_def MaxRaftSnapshotBytes_def)
  ultimately have "cluster_step (\<lambda>_. 0) demo_voters s (put_replica n
      (\<lparr>rpCore = None, rpDisk = demo_disk n, rpSaved = False\<rparr>
         \<lparr>rpCore := Some (recovered_core (demo_disk n) (demo_start n)), rpSaved := False\<rparr>) s)"
    using assms demo_restart_core(1)[OF assms(1)] by (intro Restart[where l = demo_log]) (simp_all add: demo_node_def)
  then show ?thesis
    using demo_restart_core(2)[OF assms(1)] by simp
qed

text \<open>The cluster with replicas 1 and 2 in given states.\<close>

definition world :: "replica \<Rightarrow> replica \<Rightarrow> (u16 \<times> PeerMessage) set \<Rightarrow> cluster" where
  "world a b net = \<lparr>clReplica = (clReplica (new_cluster 7 demo_voters))(1 := a, 2 := b), clNet = net\<rparr>"

lemma world_simps [simp]:
  "clReplica (world a b net) 1 = a" "clReplica (world a b net) 2 = b" "clNet (world a b net) = net"
  "put_replica 1 r (world a b net) = world r b net" "put_replica 2 r (world a b net) = world a r net"
  "(world a b net)\<lparr>clNet := net'\<rparr> = world a b net'"
  by (simp_all add: world_def put_replica_def fun_upd_twist)

abbreviation demo_step :: "cluster \<Rightarrow> cluster \<Rightarrow> bool" where
  "demo_step \<equiv> cluster_step (\<lambda>_. 0) demo_voters"

lemma demo_booted: "demo_step\<^sup>*\<^sup>* (new_cluster 7 demo_voters) (world (up (demo_start 1) (demo_disk 1)) (up (demo_start 2) (demo_disk 2)) {})"
proof -
  let ?down = "\<lambda>n. \<lparr>rpCore = None, rpDisk = demo_disk n, rpSaved = False\<rparr>"
  have new: "new_cluster 7 demo_voters = world (?down 1) (?down 2) {}"
    by (simp add: world_def new_cluster_def demo_node_def fun_eq_iff)
  have "demo_step (world (?down 1) (?down 2) {}) (world (up (demo_start 1) (demo_disk 1)) (?down 2) {})"
    using demo_boot[of 1 "world (?down 1) (?down 2) {}"] by simp
  moreover have "demo_step (world (up (demo_start 1) (demo_disk 1)) (?down 2) {})
      (world (up (demo_start 1) (demo_disk 1)) (up (demo_start 2) (demo_disk 2)) {})"
    using demo_boot[of 2 "world (up (demo_start 1) (demo_disk 1)) (?down 2) {}"] by simp
  ultimately show ?thesis
    unfolding new by (rule converse_rtranclp_into_rtranclp[OF _ r_into_rtranclp])
qed

lemma flush_1:
  assumes "cHasPending c" "rdToken (cPendingReady c) = 0" "cNextToken c < 100" "cTerminalErr c = None"
    "rdSnapshotActions (cPendingReady c) = []" "rdCommittedEntries (cPendingReady c) = []"
    "saved_disk (\<lambda>_. 0) demo_voters (cPendingReady c) d = Inr d'" "m \<in> set (rdMessages (cPendingReady c))"
  shows "demo_step\<^sup>*\<^sup>* (world (up c d) b net) (world (up (flushed c) d') b (insert (1, m) net))"
    "demo_step\<^sup>*\<^sup>* (world a (up c d) net) (world a (up (flushed c) d') (insert (2, m) net))"
  using flush_run[of "world (up c d) b net" 1 c d "\<lambda>_. 0" demo_voters d' m]
    flush_run[of "world a (up c d) net" 2 c d "\<lambda>_. 0" demo_voters d' m] assms by simp_all

lemma deliver_1:
  assumes "Step sender rpc c = Some (c', err)" "(sender, m) \<in> net" "pmRPC m = rpc"
  shows "pmTo m = 1 \<Longrightarrow> demo_step (world (up c d) b net) (world (up c' d) b net)"
    "pmTo m = 2 \<Longrightarrow> demo_step (world a (up c d) net) (world a (up c' d) net)"
  using Deliver[of "world (up c d) b net" 1 "up c d" c sender m c' err "\<lambda>_. 0" demo_voters]
    Deliver[of "world a (up c d) net" 2 "up c d" c sender m c' err "\<lambda>_. 0" demo_voters] assms by simp_all

lemma demo_flushable:
  assumes "c = demo_precandidate \<or> c = demo_prevoter \<or> c = demo_candidate \<or> c = demo_voter_core"
  shows "cHasPending c" "rdToken (cPendingReady c) = 0" "cNextToken c < 100" "cTerminalErr c = None"
    "rdSnapshotActions (cPendingReady c) = []" "rdCommittedEntries (cPendingReady c) = []"
  using assms
  by (auto simp: demo_precandidate_def demo_prevoter_def demo_candidate_def demo_voter_core_def flushed_def demo_core_defs
      word_less_nat_alt)

lemma demo_sends:
  "message 2 (RPreVoteRequest demo_pre_request) False \<in> set (rdMessages (cPendingReady demo_precandidate))"
  "message 1 (RPreVoteResponse demo_pre_response) False \<in> set (rdMessages (cPendingReady demo_prevoter))"
  "message 2 (RRequestVoteRequest demo_request) True \<in> set (rdMessages (cPendingReady demo_candidate))"
  "message 1 (RRequestVoteResponse demo_response) True \<in> set (rdMessages (cPendingReady demo_voter_core))"
  by (simp_all add: demo_precandidate_def demo_prevoter_def demo_candidate_def demo_voter_core_def)

lemma demo_saves:
  "saved_disk (\<lambda>_. 0) demo_voters (cPendingReady demo_precandidate) d = Inr d"
  "saved_disk (\<lambda>_. 0) demo_voters (cPendingReady demo_prevoter) d = Inr d"
  "saved_disk (\<lambda>_. 0) demo_voters (cPendingReady demo_candidate) (demo_disk 1) = Inr (demo_voted 1)"
  "saved_disk (\<lambda>_. 0) demo_voters (cPendingReady demo_voter_core) (demo_disk 2) = Inr (demo_voted 2)"
  by (rule saved_nothing saved_vote;
      simp add: demo_precandidate_def demo_prevoter_def demo_candidate_def demo_voter_core_def empty_Ready_def)+

lemma demo_flush:
  "demo_step\<^sup>*\<^sup>* (world (up demo_precandidate d) b net)
     (world (up (flushed demo_precandidate) d) b (insert (1, message 2 (RPreVoteRequest demo_pre_request) False) net))"
  "demo_step\<^sup>*\<^sup>* (world a (up demo_prevoter d) net)
     (world a (up (flushed demo_prevoter) d) (insert (2, message 1 (RPreVoteResponse demo_pre_response) False) net))"
  "demo_step\<^sup>*\<^sup>* (world (up demo_candidate (demo_disk 1)) b net)
     (world (up (flushed demo_candidate) (demo_voted 1)) b (insert (1, message 2 (RRequestVoteRequest demo_request) True) net))"
  "demo_step\<^sup>*\<^sup>* (world a (up demo_voter_core (demo_disk 2)) net)
     (world a (up (flushed demo_voter_core) (demo_voted 2)) (insert (2, message 1 (RRequestVoteResponse demo_response) True) net))"
  by (rule flush_1(1)[OF demo_flushable demo_saves(1) demo_sends(1)] flush_1(2)[OF demo_flushable demo_saves(2) demo_sends(2)]
        flush_1(1)[OF demo_flushable demo_saves(3) demo_sends(3)] flush_1(2)[OF demo_flushable demo_saves(4) demo_sends(4)];
      blast)+

lemma demo_deliver:
  "(1, message 2 (RPreVoteRequest demo_pre_request) False) \<in> net
    \<Longrightarrow> demo_step\<^sup>*\<^sup>* (world a (up (demo_start 2) d) net) (world a (up demo_prevoter d) net)"
  "(2, message 1 (RPreVoteResponse demo_pre_response) False) \<in> net
    \<Longrightarrow> demo_step\<^sup>*\<^sup>* (world (up (flushed demo_precandidate) d) b net) (world (up demo_candidate d) b net)"
  "(1, message 2 (RRequestVoteRequest demo_request) True) \<in> net
    \<Longrightarrow> demo_step\<^sup>*\<^sup>* (world a (up (flushed demo_prevoter) d) net) (world a (up demo_voter_core d) net)"
  using deliver_1(2)[OF demo_prevote] deliver_1(1)[OF demo_elect] deliver_1(2)[OF election_vote] by auto

lemma demo_ticked: "demo_step\<^sup>*\<^sup>* (world (up (demo_start 1) d) b net) (world (up demo_precandidate d) b net)"
  using Call[of "world (up (demo_start 1) d) b net" 1 "up (demo_start 1) d" "demo_start 1" demo_precandidate "\<lambda>_. 0" demo_voters]
    owner_call.tick[OF election_tick] by auto

abbreviation demo_net :: "(u16 \<times> PeerMessage) set" where
  "demo_net \<equiv> {(2, message 1 (RRequestVoteResponse demo_response) True), (1, message 2 (RRequestVoteRequest demo_request) True),
     (2, message 1 (RPreVoteResponse demo_pre_response) False), (1, message 2 (RPreVoteRequest demo_pre_request) False)}"

lemma demo_run:
  "demo_step\<^sup>*\<^sup>* (new_cluster 7 demo_voters)
     (world (up (flushed demo_candidate) (demo_voted 1)) (up (flushed demo_voter_core) (demo_voted 2)) demo_net)"
proof -
  note step = rtranclp_trans[where r = demo_step]
  note run = step[OF step[OF step[OF demo_booted demo_ticked] demo_flush(1)] demo_deliver(1)[OF insertI1]]
  note run = step[OF step[OF run demo_flush(2)] demo_deliver(2)[OF insertI1]]
  show ?thesis
    by (rule step[OF step[OF step[OF run demo_flush(3)] demo_deliver(3)[OF insertI1]] demo_flush(4)])
qed

lemma demo_granted:
  "\<exists>s. demo_step\<^sup>*\<^sup>* (new_cluster 7 demo_voters) s \<and> (2, message 1 (RRequestVoteResponse demo_response) True) \<in> clNet s"
  by (intro exI conjI, rule demo_run) simp

lemma demo_election: "\<exists>s. demo_step\<^sup>*\<^sup>* (new_cluster 7 demo_voters) s \<and> leads_in s 1 1"
proof -
  let ?m4 = "message 1 (RRequestVoteResponse demo_response) True"
  obtain c err where c: "Step 2 (RRequestVoteResponse demo_response) (flushed demo_candidate) = Some (c, err)"
      "cRole c = RoleLeader" "cTerm c = 1"
    using demo_lead by blast
  have "demo_step (world (up (flushed demo_candidate) (demo_voted 1)) (up (flushed demo_voter_core) (demo_voted 2)) demo_net)
      (world (up c (demo_voted 1)) (up (flushed demo_voter_core) (demo_voted 2)) demo_net)"
    by (rule deliver_1(1)[OF c(1), of ?m4]) simp_all
  moreover have "leads_in (world (up c (demo_voted 1)) b net) 1 1" for b net
    using c(2,3) by (simp add: leads_in_def)
  ultimately show ?thesis
    using rtranclp.rtrancl_into_rtrancl[OF demo_run] by blast
qed

section \<open>Properties\<close>

text \<open>
  C1.  Election safety.  Along every run of a cluster that starts with empty disks, over a network that may
  lose, delay, reorder and duplicate messages, with replicas that crash and restart at any moment between
  persisting, sending and advancing, at most one replica ever leads in a term: a replica that leads term
  \<open>t\<close> at some moment and one that leads term \<open>t\<close> then or later are the same.
\<close>

theorem election_safety:
  assumes "NewVoterSet hash parse configured = Inr voters"
    and "(cluster_step sha256 voters)\<^sup>*\<^sup>* (new_cluster clusterID voters) s" "(cluster_step sha256 voters)\<^sup>*\<^sup>* s s'"
    and "leads_in s n t" "leads_in s' m t"
  shows "n = m"
proof -
  have wf: "voters_wf voters"
    using assms(1) by (rule NewVoterSet_wf)
  obtain cast where c: "cluster_ok sha256 voters cast s"
    using cluster_run_ok[OF assms(2) new_cluster_ok wf] by blast
  then obtain cast' where c': "votes_le cast cast'" "cluster_ok sha256 voters cast' s'"
    using cluster_run_ok[OF assms(3) _ wf] by blast
  obtain A where A: "A \<subseteq> voter_ids voters" "Majority voters \<le> card A" "\<forall>v \<in> A. cast v t = Some n"
    using leader_quorum[OF c assms(4)] by blast
  obtain B where B: "B \<subseteq> voter_ids voters" "Majority voters \<le> card B" "\<forall>v \<in> B. cast' v t = Some m"
    using leader_quorum[OF c'(2) assms(5)] by blast
  obtain v where "v \<in> A" "v \<in> B"
    using voter_quorums.quorums_meet[OF A(1) B(1) A(2) B(2)] by blast
  then have "cast' v t = Some n" "cast' v t = Some m"
    using A(3) B(3) c'(1) by (auto simp: votes_le_def)
  then show ?thesis by simp
qed

text \<open>
  C5.  A voter grants its vote once per term: any two responses ever handed to the network that grant the
  vote of the same voter in the same term grant it to the same candidate, also when the voter crashed and
  recovered in between.
\<close>

theorem granted_once:
  assumes "NewVoterSet hash parse configured = Inr voters"
    and "(cluster_step sha256 voters)\<^sup>*\<^sup>* (new_cluster clusterID voters) s"
    and "(x, m) \<in> clNet s" "(x', m') \<in> clNet s"
    and "pmRPC m = RRequestVoteResponse r" "pmRPC m' = RRequestVoteResponse r'" "vrGranted r" "vrGranted r'"
    and "vrResponderID r' = vrResponderID r" "vrTerm r' = vrTerm r" "vrCandidateID r \<noteq> 0" "vrCandidateID r' \<noteq> 0"
  shows "vrCandidateID r' = vrCandidateID r"
proof -
  obtain cast where "cluster_ok sha256 voters cast s"
    using cluster_run_ok[OF assms(2) new_cluster_ok NewVoterSet_wf[OF assms(1)]] by blast
  then have net: "net_ok cast (clNet s)"
    by (simp add: cluster_ok_def)
  have "cast (vrResponderID r) (vrTerm r) = Some (vrCandidateID r)"
    using net assms(3,5,7,11) by (fastforce simp: net_ok_def)
  moreover have "cast (vrResponderID r') (vrTerm r') = Some (vrCandidateID r')"
    using net assms(4,6,8,12) by (fastforce simp: net_ok_def)
  ultimately show ?thesis
    using assms(9,10) by simp
qed

theorem election_safety_witness:
  "\<exists>s. (cluster_step (\<lambda>_. 0) demo_voters)\<^sup>*\<^sup>* (new_cluster 7 demo_voters) s \<and> leads_in s 1 1 \<and> (\<forall>n. leads_in s n 1 \<longleftrightarrow> n = 1)"
proof -
  obtain s where s: "demo_step\<^sup>*\<^sup>* (new_cluster 7 demo_voters) s" "leads_in s 1 1"
    using demo_election by blast
  have "n = 1" if "leads_in s n 1" for n
    using election_safety[OF demo_voters_new s(1) rtranclp.rtrancl_refl that s(2)] .
  then show ?thesis
    using s by blast
qed

theorem granted_once_witness:
  "\<exists>s x m. (cluster_step (\<lambda>_. 0) demo_voters)\<^sup>*\<^sup>* (new_cluster 7 demo_voters) s \<and> (x, m) \<in> clNet s
     \<and> pmRPC m = RRequestVoteResponse demo_response
     \<and> (\<forall>x' m' r'. (x', m') \<in> clNet s \<and> pmRPC m' = RRequestVoteResponse r' \<and> vrGranted r' \<and> vrResponderID r' = 2
          \<and> vrTerm r' = 1 \<and> vrCandidateID r' \<noteq> 0 \<longrightarrow> vrCandidateID r' = 1)"
proof -
  obtain s where s: "demo_step\<^sup>*\<^sup>* (new_cluster 7 demo_voters) s"
      "(2, message 1 (RRequestVoteResponse demo_response) True) \<in> clNet s"
    using demo_granted by blast
  have "vrCandidateID r' = 1" if "(x', m') \<in> clNet s" "pmRPC m' = RRequestVoteResponse r'" "vrGranted r'"
      "vrResponderID r' = 2" "vrTerm r' = 1" "vrCandidateID r' \<noteq> 0" for x' m' r'
    using granted_once[OF demo_voters_new s that(1) _ that(2) _ that(3), of demo_response] that(4-6)
    by (simp add: demo_response_def)
  then show ?thesis
    using s by (intro exI[of _ s] exI[of _ 2] exI[of _ "message 1 (RRequestVoteResponse demo_response) True"]) auto
qed

end
