(* ===== verification/Sha256.thy ===== *)
theory Sha256
  imports Crane_Prelude
begin

text \<open>
  SHA-256 and HMAC-SHA256 (FIPS 180-4, FIPS 198-1), the two functions of the Go standard
  library that \<open>internal/wire/auth.go\<close> uses through \<open>crypto/sha256\<close> and \<open>crypto/hmac\<close>.  They are
  executable.  What the frames rely on is only that a tag has 32 bytes.
\<close>

section \<open>The compression function\<close>

definition rotr :: "nat \<Rightarrow> u32 \<Rightarrow> u32" where
  "rotr n x = drop_bit n x OR push_bit (32 - n) x"

definition bigSigma0 :: "u32 \<Rightarrow> u32" where
  "bigSigma0 x = rotr 2 x XOR rotr 13 x XOR rotr 22 x"

definition bigSigma1 :: "u32 \<Rightarrow> u32" where
  "bigSigma1 x = rotr 6 x XOR rotr 11 x XOR rotr 25 x"

definition smallSigma0 :: "u32 \<Rightarrow> u32" where
  "smallSigma0 x = rotr 7 x XOR rotr 18 x XOR drop_bit 3 x"

definition smallSigma1 :: "u32 \<Rightarrow> u32" where
  "smallSigma1 x = rotr 17 x XOR rotr 19 x XOR drop_bit 10 x"

definition choice :: "u32 \<Rightarrow> u32 \<Rightarrow> u32 \<Rightarrow> u32" where
  "choice x y z = (x AND y) XOR (NOT x AND z)"

definition majority :: "u32 \<Rightarrow> u32 \<Rightarrow> u32 \<Rightarrow> u32" where
  "majority x y z = (x AND y) XOR (x AND z) XOR (y AND z)"

definition sha256_k :: "u32 list" where
  "sha256_k =
    [0x428a2f98, 0x71374491, 0xb5c0fbcf, 0xe9b5dba5, 0x3956c25b, 0x59f111f1, 0x923f82a4, 0xab1c5ed5,
     0xd807aa98, 0x12835b01, 0x243185be, 0x550c7dc3, 0x72be5d74, 0x80deb1fe, 0x9bdc06a7, 0xc19bf174,
     0xe49b69c1, 0xefbe4786, 0x0fc19dc6, 0x240ca1cc, 0x2de92c6f, 0x4a7484aa, 0x5cb0a9dc, 0x76f988da,
     0x983e5152, 0xa831c66d, 0xb00327c8, 0xbf597fc7, 0xc6e00bf3, 0xd5a79147, 0x06ca6351, 0x14292967,
     0x27b70a85, 0x2e1b2138, 0x4d2c6dfc, 0x53380d13, 0x650a7354, 0x766a0abb, 0x81c2c92e, 0x92722c85,
     0xa2bfe8a1, 0xa81a664b, 0xc24b8b70, 0xc76c51a3, 0xd192e819, 0xd6990624, 0xf40e3585, 0x106aa070,
     0x19a4c116, 0x1e376c08, 0x2748774c, 0x34b0bcb5, 0x391c0cb3, 0x4ed8aa4a, 0x5b9cca4f, 0x682e6ff3,
     0x748f82ee, 0x78a5636f, 0x84c87814, 0x8cc70208, 0x90befffa, 0xa4506ceb, 0xbef9a3f7, 0xc67178f2]"

record sha_state =
  shA :: u32
  shB :: u32
  shC :: u32
  shD :: u32
  shE :: u32
  shF :: u32
  shG :: u32
  shH :: u32

definition sha256_initial :: sha_state where
  "sha256_initial = \<lparr>shA = 0x6a09e667, shB = 0xbb67ae85, shC = 0x3c6ef372, shD = 0xa54ff53a,
     shE = 0x510e527f, shF = 0x9b05688c, shG = 0x1f83d9ab, shH = 0x5be0cd19\<rparr>"

text \<open>The message schedule, newest word first, and the rounds that consume it oldest first.\<close>

fun schedule :: "nat \<Rightarrow> u32 list \<Rightarrow> u32 list" where
  "schedule 0 w = w"
| "schedule (Suc n) w =
     schedule n ((smallSigma1 (w ! 1) + w ! 6 + smallSigma0 (w ! 14) + w ! 15) # w)"

definition sha256_round :: "sha_state \<Rightarrow> u32 \<times> u32 \<Rightarrow> sha_state" where
  "sha256_round s kw =
     (let t1 = shH s + bigSigma1 (shE s) + choice (shE s) (shF s) (shG s) + fst kw + snd kw;
          t2 = bigSigma0 (shA s) + majority (shA s) (shB s) (shC s)
      in \<lparr>shA = t1 + t2, shB = shA s, shC = shB s, shD = shC s,
          shE = shD s + t1, shF = shE s, shG = shF s, shH = shG s\<rparr>)"

definition sha256_block :: "sha_state \<Rightarrow> u32 list \<Rightarrow> sha_state" where
  "sha256_block s block =
     (let t = foldl sha256_round s (zip sha256_k (rev (schedule 48 (rev block))))
      in \<lparr>shA = shA s + shA t, shB = shB s + shB t, shC = shC s + shC t, shD = shD s + shD t,
          shE = shE s + shE t, shF = shF s + shF t, shG = shG s + shG t, shH = shH s + shH t\<rparr>)"

section \<open>Padding, digest and HMAC\<close>

definition sha256_pad :: "bytes \<Rightarrow> bytes" where
  "sha256_pad m =
     m @ 0x80 # replicate ((119 - length m mod 64) mod 64) 0 @ be_bytes 8 (8 * len64 m)"

fun chunks :: "nat \<Rightarrow> nat \<Rightarrow> 'a list \<Rightarrow> 'a list list" where
  "chunks 0 k xs = []"
| "chunks (Suc n) k xs = take k xs # chunks n k (drop k xs)"

definition block_words :: "bytes \<Rightarrow> u32 list" where
  "block_words block = map be_word (chunks 16 4 block)"

definition sha256_bytes :: "sha_state \<Rightarrow> bytes" where
  "sha256_bytes s = be_bytes 4 (shA s) @ be_bytes 4 (shB s) @ be_bytes 4 (shC s) @ be_bytes 4 (shD s)
     @ be_bytes 4 (shE s) @ be_bytes 4 (shF s) @ be_bytes 4 (shG s) @ be_bytes 4 (shH s)"

definition sha256 :: "bytes \<Rightarrow> bytes" where
  "sha256 m =
     (let padded = sha256_pad m
      in sha256_bytes (foldl sha256_block sha256_initial
           (map block_words (chunks (length padded div 64) 64 padded))))"

definition hmac_sha256 :: "bytes \<Rightarrow> bytes \<Rightarrow> bytes" where
  "hmac_sha256 key m =
     (let k = (if 64 < length key then sha256 key else key);
          block = k @ replicate (64 - length k) 0
      in sha256 (map (\<lambda>b. b XOR 0x5c) block @ sha256 (map (\<lambda>b. b XOR 0x36) block @ m)))"

lemma length_sha256 [simp]: "length (sha256 m) = 32"
  by (simp add: sha256_def sha256_bytes_def Let_def)

lemma length_hmac_sha256 [simp]: "length (hmac_sha256 key m) = 32"
  by (simp add: hmac_sha256_def Let_def)

text \<open>Padding fills whole blocks, so no byte of the message is dropped.\<close>

lemma length_sha256_pad: "length (sha256_pad m) mod 64 = 0"
proof -
  define r where "r = length m mod 64"
  have "r < 64" by (simp add: r_def)
  have "length (sha256_pad m) = length m + ((119 - r) mod 64 + 9)"
    by (simp add: sha256_pad_def r_def)
  also have "\<dots> mod 64 = (r + ((119 - r) mod 64 + 9)) mod 64"
    unfolding r_def by (rule mod_add_left_eq[symmetric])
  also have "\<dots> = (r + (119 - r) + 9) mod 64"
    by (metis (no_types) add.assoc mod_add_left_eq mod_add_right_eq)
  also have "\<dots> = 0" using \<open>r < 64\<close> by simp
  finally show ?thesis .
qed

end
