(* ===== verification/Wire_Frame.thy ===== *)
theory Wire_Frame
  imports Sha256
begin

text \<open>
  The authenticated frames of \<open>internal/wire\<close>: the header, the message numbers and the size
  limits of \<open>types.go\<close>, the HMAC authenticator of \<open>auth.go\<close>, and \<open>Encode\<close> and \<open>Decode\<close> of
  \<open>frame.go\<close> with every check in the order the code makes it.  A Go \<open>int\<close> is an \<open>int\<close>; the
  conversions to \<open>uint32\<close> and \<open>uint64\<close> are written out.  \<open>TimestampMillis\<close> is an \<open>int64\<close> kept as
  its 64-bit pattern.  A nil authenticator is \<open>None\<close>.
\<close>

section \<open>Types and constants\<close>

datatype wire_error =
    ErrMalformed | ErrTooLarge | ErrUnsupportedVersion | ErrUnsupportedCodec
  | ErrUnsupportedMessage | ErrAuthentication
  | ErrReplay | ErrTimestamp | ErrReplayCacheFull | ErrReplayConfiguration
  | ErrNilConnection | ErrEOF | ErrShortWrite | ErrNoProgress | ErrIO

definition Version1 :: u16 where "Version1 = 1"

definition FixedHeaderSize :: nat where "FixedHeaderSize = 55"

definition MACSize :: nat where "MACSize = 32"

definition MaxCraneDatagramBytesV1 :: int where "MaxCraneDatagramBytesV1 = 1200"

type_synonym MessageType = u16

definition MessageSWIMPing :: MessageType where "MessageSWIMPing = 1"

definition MessageSWIMAck :: MessageType where "MessageSWIMAck = 2"

definition MessageSWIMPingReq :: MessageType where "MessageSWIMPingReq = 3"

definition MessageSWIMIndirectAck :: MessageType where "MessageSWIMIndirectAck = 4"

definition MessageSWIMGossip :: MessageType where "MessageSWIMGossip = 5"

definition MessageSWIMDigest :: MessageType where "MessageSWIMDigest = 6"

definition MessageCraneWorkerHandshake :: MessageType where "MessageCraneWorkerHandshake = 200"

definition MessageCraneWorkerError :: MessageType where "MessageCraneWorkerError = 218"

definition MessageCraneSubmitRequest :: MessageType where "MessageCraneSubmitRequest = 240"

definition MessageCraneJobListResponse :: MessageType where "MessageCraneJobListResponse = 251"

definition MessageCraneTupleDelivery :: MessageType where "MessageCraneTupleDelivery = 280"

definition MessageCraneTupleDeliveryAck :: MessageType where "MessageCraneTupleDeliveryAck = 281"

definition MessageCraneTupleDeliveryNack :: MessageType where "MessageCraneTupleDeliveryNack = 282"

type_synonym Codec = u8

definition CodecGob :: Codec where "CodecGob = 1"

definition CodecBinary :: Codec where "CodecBinary = 2"

type_synonym RequestID = bytes16

record Header =
  hVersion :: u16
  hMessage :: MessageType
  hClusterID :: bytes16
  hSenderID :: u16
  hRequestID :: RequestID
  hTimestampMillis :: u64
  hCodec :: Codec

record Frame =
  fHeader :: Header
  fPayload :: bytes

record Limits =
  lMaxFrameSize :: int
  lMaxSWIMDatagramSize :: int
  lMaxCraneDatagramSize :: int
  lExpectedClusterID :: "bytes16 option"

definition DefaultLimits :: Limits where
  "DefaultLimits = \<lparr>lMaxFrameSize = 8 * 2 ^ 20, lMaxSWIMDatagramSize = 1200,
     lMaxCraneDatagramSize = MaxCraneDatagramBytesV1, lExpectedClusterID = None\<rparr>"

record Authenticator =
  aSign :: "bytes \<Rightarrow> bytes"
  aVerify :: "bytes \<Rightarrow> bytes \<Rightarrow> bool"

definition NewHMACAuthenticator :: "bytes \<Rightarrow> Authenticator" where
  "NewHMACAuthenticator key =
     \<lparr>aSign = hmac_sha256 key, aVerify = (\<lambda>message mac. hmac_sha256 key message = mac)\<rparr>"

section \<open>Limits and message classes\<close>

text \<open>The conversion \<open>uint64(i)\<close> of a Go \<open>int\<close>, which lies between \<open>-2^63\<close> and \<open>2^63 - 1\<close>.\<close>

definition uint64_of :: "int \<Rightarrow> int" where
  "uint64_of i = (if i < 0 then i + 2 ^ 64 else i)"

definition validateLimitDomain :: "int \<Rightarrow> wire_error option" where
  "validateLimitDomain limit = (if uint64_of limit > 2 ^ 32 - 1 then Some ErrTooLarge else None)"

definition fillLimits :: "Limits \<Rightarrow> Limits" where
  "fillLimits limits0 =
     (let limits1 = (if lMaxFrameSize limits0 = 0
                     then limits0\<lparr>lMaxFrameSize := lMaxFrameSize DefaultLimits\<rparr> else limits0);
          limits2 = (if lMaxSWIMDatagramSize limits1 = 0
                     then limits1\<lparr>lMaxSWIMDatagramSize := lMaxSWIMDatagramSize DefaultLimits\<rparr> else limits1)
      in if lMaxCraneDatagramSize limits2 = 0
         then limits2\<lparr>lMaxCraneDatagramSize := lMaxCraneDatagramSize DefaultLimits\<rparr> else limits2)"

definition resolveLimits :: "Limits \<Rightarrow> wire_error + Limits" where
  "resolveLimits limits0 =
     (let limits = fillLimits limits0;
          minimum = int (FixedHeaderSize + MACSize)
      in if lMaxCraneDatagramSize limits > MaxCraneDatagramBytesV1 then Inl ErrTooLarge
         else if lMaxFrameSize limits < minimum \<or> lMaxSWIMDatagramSize limits < minimum
                 \<or> lMaxCraneDatagramSize limits < minimum then Inl ErrTooLarge
         else case validateLimitDomain (lMaxFrameSize limits) of
           Some e \<Rightarrow> Inl e
         | None \<Rightarrow> (case validateLimitDomain (lMaxSWIMDatagramSize limits) of
             Some e \<Rightarrow> Inl e
           | None \<Rightarrow> (case validateLimitDomain (lMaxCraneDatagramSize limits) of
               Some e \<Rightarrow> Inl e
             | None \<Rightarrow> Inr limits)))"

definition isSWIMDatagramMessage :: "MessageType \<Rightarrow> bool" where
  "isSWIMDatagramMessage message \<longleftrightarrow>
     message = MessageSWIMPing \<or> message = MessageSWIMAck \<or> message = MessageSWIMPingReq \<or>
     message = MessageSWIMIndirectAck \<or> message = MessageSWIMGossip \<or> message = MessageSWIMDigest"

definition isCraneDatagramMessage :: "MessageType \<Rightarrow> bool" where
  "isCraneDatagramMessage message \<longleftrightarrow>
     message = MessageCraneTupleDelivery \<or> message = MessageCraneTupleDeliveryAck \<or>
     message = MessageCraneTupleDeliveryNack"

definition isActiveCraneMessage :: "MessageType \<Rightarrow> bool" where
  "isActiveCraneMessage message \<longleftrightarrow>
     message \<ge> MessageCraneWorkerHandshake \<and> message \<le> MessageCraneWorkerError \<or>
     message \<ge> MessageCraneSubmitRequest \<and> message \<le> MessageCraneJobListResponse \<or>
     isCraneDatagramMessage message"

definition isReservedCraneMessage :: "MessageType \<Rightarrow> bool" where
  "isReservedCraneMessage message \<longleftrightarrow>
     message \<ge> MessageCraneWorkerHandshake \<and> message \<le> 299 \<and> \<not> isActiveCraneMessage message"

definition effectiveResolvedLimit :: "MessageType \<Rightarrow> Limits \<Rightarrow> int" where
  "effectiveResolvedLimit message limits =
     (let limit0 = lMaxFrameSize limits;
          limit1 = (if isSWIMDatagramMessage message \<and> lMaxSWIMDatagramSize limits < limit0
                    then lMaxSWIMDatagramSize limits else limit0)
      in if isCraneDatagramMessage message \<and> lMaxCraneDatagramSize limits < limit1
         then lMaxCraneDatagramSize limits else limit1)"

definition EffectiveLimit :: "MessageType \<Rightarrow> Limits \<Rightarrow> wire_error + int" where
  "EffectiveLimit message limits =
     (case resolveLimits limits of
        Inl e \<Rightarrow> Inl e
      | Inr resolved \<Rightarrow>
          if isReservedCraneMessage message then Inl ErrUnsupportedMessage
          else Inr (effectiveResolvedLimit message resolved))"

definition validateHeader :: "Header \<Rightarrow> Limits \<Rightarrow> wire_error option" where
  "validateHeader header limits =
     (if hVersion header \<noteq> Version1 then Some ErrUnsupportedVersion
      else if isReservedCraneMessage (hMessage header) then Some ErrUnsupportedMessage
      else if hCodec header \<noteq> CodecGob \<and> hCodec header \<noteq> CodecBinary then Some ErrUnsupportedCodec
      else if isActiveCraneMessage (hMessage header) \<and> hCodec header \<noteq> CodecBinary
        then Some ErrUnsupportedCodec
      else case lExpectedClusterID limits of
        None \<Rightarrow> None
      | Some expected \<Rightarrow> if hClusterID header \<noteq> expected then Some ErrAuthentication else None)"

section \<open>Encoding and decoding\<close>

definition frameMagic :: bytes where
  "frameMagic = [0x43, 0x53, 0x34, 0x32]"

definition encodeHeader :: "Header \<Rightarrow> u32 \<Rightarrow> bytes" where
  "encodeHeader header payloadLength =
     frameMagic @ be_bytes 2 (hVersion header) @ be_bytes 2 (hMessage header) @
     be_bytes 16 (hClusterID header) @ be_bytes 2 (hSenderID header) @
     be_bytes 16 (hRequestID header) @ be_bytes 8 (hTimestampMillis header) @
     hCodec header # be_bytes 4 payloadLength"

definition decodeHeader :: "bytes \<Rightarrow> Header" where
  "decodeHeader source =
     \<lparr>hVersion = be_word (segment 4 6 source),
      hMessage = be_word (segment 6 8 source),
      hClusterID = be_word (segment 8 24 source),
      hSenderID = be_word (segment 24 26 source),
      hRequestID = be_word (segment 26 42 source),
      hTimestampMillis = be_word (segment 42 50 source),
      hCodec = source ! 50\<rparr>"

definition Encode :: "Header \<Rightarrow> bytes \<Rightarrow> Authenticator option \<Rightarrow> Limits \<Rightarrow> wire_error + bytes" where
  "Encode header payload auth limits =
     (case resolveLimits limits of
        Inl e \<Rightarrow> Inl e
      | Inr resolved \<Rightarrow>
          (case validateHeader header resolved of
             Some e \<Rightarrow> Inl e
           | None \<Rightarrow>
               (case auth of
                  None \<Rightarrow> Inl ErrAuthentication
                | Some a \<Rightarrow>
                    let limit = effectiveResolvedLimit (hMessage header) resolved;
                        overhead = int (FixedHeaderSize + MACSize)
                    in if int (length payload) > limit - overhead then Inl ErrTooLarge
                       else let signed = encodeHeader header (word_of_nat (length payload)) @ payload;
                                mac = aSign a signed
                            in if length mac \<noteq> MACSize then Inl ErrAuthentication
                               else Inr (signed @ mac))))"

definition Decode :: "bytes \<Rightarrow> Authenticator option \<Rightarrow> Limits \<Rightarrow> wire_error + Frame" where
  "Decode encoded auth limits =
     (case resolveLimits limits of
        Inl e \<Rightarrow> Inl e
      | Inr resolved \<Rightarrow>
          if int (length encoded) > lMaxFrameSize resolved then Inl ErrTooLarge
          else if length encoded < FixedHeaderSize + MACSize then Inl ErrMalformed
          else if segment 0 4 encoded \<noteq> frameMagic then Inl ErrMalformed
          else let header = decodeHeader (take FixedHeaderSize encoded) in
            (case validateHeader header resolved of
               Some e \<Rightarrow> Inl e
             | None \<Rightarrow>
                 let payloadLength = be_word (segment 51 FixedHeaderSize encoded) :: u32;
                     declaredLength = int FixedHeaderSize + uint payloadLength + int MACSize;
                     limit = effectiveResolvedLimit (hMessage header) resolved
                 in if declaredLength > uint64_of limit then Inl ErrTooLarge
                    else if declaredLength \<noteq> int (length encoded) then Inl ErrMalformed
                    else (case auth of
                        None \<Rightarrow> Inl ErrAuthentication
                      | Some a \<Rightarrow>
                          let signedLength = FixedHeaderSize + unat payloadLength
                          in if \<not> aVerify a (take signedLength encoded) (drop signedLength encoded)
                             then Inl ErrAuthentication
                             else Inr \<lparr>fHeader = header,
                                       fPayload = segment FixedHeaderSize signedLength encoded\<rparr>)))"

section \<open>The header layout\<close>

lemma length_frameMagic [simp]: "length frameMagic = 4"
  by (simp add: frameMagic_def)

lemma length_encodeHeader [simp]: "length (encodeHeader header n) = FixedHeaderSize"
  by (simp add: encodeHeader_def FixedHeaderSize_def)

text \<open>A slice that starts behind a prefix, and one that is a whole field.\<close>

lemma segment_skip: "length xs \<le> a \<Longrightarrow> segment a b (xs @ ys) = segment (a - length xs) (b - length xs) ys"
  by (simp add: segment_def)

lemma segment_field: "length xs = b \<Longrightarrow> segment 0 b (xs @ ys) = xs"
  by (simp add: segment_def)

lemma segment_whole: "length xs = b \<Longrightarrow> segment 0 b xs = xs"
  by (simp add: segment_def)

lemma segment_byte: "segment (Suc 0) b (x # xs) = segment 0 (b - 1) xs"
  by (simp add: segment_def)

lemmas header_layout =
  encodeHeader_def decodeHeader_def segment_skip segment_byte segment_field segment_whole FixedHeaderSize_def

lemma decodeHeader_encodeHeader [simp]: "decodeHeader (encodeHeader header n) = header"
  by (simp add: header_layout nth_append)

lemma encodeHeader_magic [simp]: "segment 0 4 (encodeHeader header n @ ys) = frameMagic"
  by (simp add: header_layout)

lemma encodeHeader_length_field [simp]: "be_word (segment 51 FixedHeaderSize (encodeHeader header n @ ys)) = n"
  by (simp add: header_layout)

lemma encodeHeader_decodeHeader:
  assumes "length source = FixedHeaderSize" "segment 0 4 source = frameMagic"
  shows "encodeHeader (decodeHeader source) (be_word (segment 51 FixedHeaderSize source)) = source"
proof -
  have len: "length source = 55" using assms(1) by (simp add: FixedHeaderSize_def)
  have codec: "[source ! 50] = segment 50 51 source"
    using len by (simp add: segment_def take_Suc_conv_app_nth hd_drop_conv_nth take_Suc)
  have "encodeHeader (decodeHeader source) (be_word (segment 51 FixedHeaderSize source)) =
      segment 0 4 source @ segment 4 6 source @ segment 6 8 source @ segment 8 24 source @
      segment 24 26 source @ segment 26 42 source @ segment 42 50 source @ [source ! 50] @ segment 51 55 source"
    using assms(2) len by (simp add: encodeHeader_def decodeHeader_def be_bytes_be_word FixedHeaderSize_def)
  also have "\<dots> = segment 0 55 source"
    unfolding codec by (simp add: append_segments)
  finally show ?thesis using len by (simp add: segment_def)
qed

section \<open>Limits\<close>

lemma resolveLimits_Inr:
  "resolveLimits limits = Inr r \<longleftrightarrow>
     r = fillLimits limits \<and> lMaxCraneDatagramSize r \<le> MaxCraneDatagramBytesV1 \<and>
     int (FixedHeaderSize + MACSize) \<le> lMaxFrameSize r \<and>
     int (FixedHeaderSize + MACSize) \<le> lMaxSWIMDatagramSize r \<and>
     int (FixedHeaderSize + MACSize) \<le> lMaxCraneDatagramSize r \<and>
     validateLimitDomain (lMaxFrameSize r) = None \<and> validateLimitDomain (lMaxSWIMDatagramSize r) = None \<and>
     validateLimitDomain (lMaxCraneDatagramSize r) = None"
  unfolding resolveLimits_def Let_def by (auto split: option.splits)

lemma fillLimits_idem:
  assumes "resolveLimits limits = Inr r"
  shows "fillLimits r = r"
proof -
  have "lMaxFrameSize r \<noteq> 0" "lMaxSWIMDatagramSize r \<noteq> 0" "lMaxCraneDatagramSize r \<noteq> 0"
    using assms unfolding resolveLimits_Inr FixedHeaderSize_def MACSize_def by auto
  then show ?thesis by (simp add: fillLimits_def Let_def)
qed

lemma resolveLimits_idem:
  assumes "resolveLimits limits = Inr r"
  shows "resolveLimits r = Inr r"
  using assms unfolding resolveLimits_Inr fillLimits_idem[OF assms] by (elim conjE, intro conjI) simp_all

lemma effectiveResolvedLimit_cases:
  "effectiveResolvedLimit m r \<in> {lMaxFrameSize r, lMaxSWIMDatagramSize r, lMaxCraneDatagramSize r}"
  "effectiveResolvedLimit m r \<le> lMaxFrameSize r"
  "isCraneDatagramMessage m \<Longrightarrow> effectiveResolvedLimit m r \<le> lMaxCraneDatagramSize r"
  by (simp_all add: effectiveResolvedLimit_def Let_def)

lemma resolveLimits_bounds:
  assumes "resolveLimits limits = Inr r"
  shows "lMaxFrameSize r < 2 ^ 32"
    "int (FixedHeaderSize + MACSize) \<le> effectiveResolvedLimit m r"
    "effectiveResolvedLimit m r \<le> lMaxFrameSize r"
    "uint64_of (effectiveResolvedLimit m r) = effectiveResolvedLimit m r"
    "uint64_of (lMaxFrameSize r) = lMaxFrameSize r"
proof -
  note r = assms[unfolded resolveLimits_Inr, THEN conjunct2]
  show "lMaxFrameSize r < 2 ^ 32"
    using r by (simp add: validateLimitDomain_def uint64_of_def split: if_splits)
  show low: "int (FixedHeaderSize + MACSize) \<le> effectiveResolvedLimit m r"
    using r effectiveResolvedLimit_cases(1)[of m r] by auto
  show "effectiveResolvedLimit m r \<le> lMaxFrameSize r"
    by (rule effectiveResolvedLimit_cases)
  show "uint64_of (effectiveResolvedLimit m r) = effectiveResolvedLimit m r"
    "uint64_of (lMaxFrameSize r) = lMaxFrameSize r"
    using low r by (simp_all add: uint64_of_def)
qed

section \<open>Frames\<close>

text \<open>
  What the frames ask of an authenticator: tags of the declared size, and a verification that
  accepts exactly the tag the signer computes.
\<close>

locale authenticator =
  fixes a :: Authenticator
  assumes length_aSign: "length (aSign a m) = MACSize"
    and aVerify_iff: "aVerify a m mac \<longleftrightarrow> aSign a m = mac"
begin

lemma Encode_Inr:
  "Encode h p (Some a) l = Inr b \<longleftrightarrow>
     (\<exists>r. resolveLimits l = Inr r \<and> validateHeader h r = None \<and>
       int (FixedHeaderSize + MACSize + length p) \<le> effectiveResolvedLimit (hMessage h) r \<and>
       b = encodeHeader h (word_of_nat (length p)) @ p @
           aSign a (encodeHeader h (word_of_nat (length p)) @ p))"
  by (auto simp: Encode_def Let_def length_aSign split: sum.splits option.splits)

lemma Decode_Encode:
  assumes "Encode h p (Some a) l = Inr b"
  shows "Decode b (Some a) l = Inr \<lparr>fHeader = h, fPayload = p\<rparr>"
proof -
  obtain r where r: "resolveLimits l = Inr r" "validateHeader h r = None"
      "int (FixedHeaderSize + MACSize + length p) \<le> effectiveResolvedLimit (hMessage h) r"
    and b: "b = encodeHeader h (word_of_nat (length p)) @ p @ aSign a (encodeHeader h (word_of_nat (length p)) @ p)"
    using assms by (auto simp: Encode_Inr)
  note bounds = resolveLimits_bounds(1)[OF r(1)] resolveLimits_bounds(2-4)[OF r(1), of "hMessage h"]
  have "int (length p) < 2 ^ 32" using r(3) bounds by simp
  then have p: "unat (word_of_nat (length p) :: u32) = length p"
    by (simp add: unat_of_nat take_bit_nat_eq_self)
  then have u: "uint (word_of_nat (length p) :: u32) = int (length p)"
    by (simp add: uint_nat)
  show ?thesis
    using r bounds p u unfolding b
    by (simp add: Decode_def Let_def length_aSign aVerify_iff segment_skip segment_field)
qed

lemma Encode_Decode:
  assumes "Decode b (Some a) l = Inr f"
  shows "Encode (fHeader f) (fPayload f) (Some a) l = Inr b"
proof -
  define n where "n = (be_word (segment 51 FixedHeaderSize b) :: u32)"
  obtain r where r1: "resolveLimits l = Inr r"
    using assms by (cases "resolveLimits l") (simp_all add: Decode_def)
  define h where "h = decodeHeader (take FixedHeaderSize b)"
  define p where "p = segment FixedHeaderSize (FixedHeaderSize + unat n) b"
  have "length b \<ge> FixedHeaderSize + MACSize \<and> segment 0 4 b = frameMagic \<and> validateHeader h r = None \<and>
      int FixedHeaderSize + uint n + int MACSize \<le> uint64_of (effectiveResolvedLimit (hMessage h) r) \<and>
      int FixedHeaderSize + uint n + int MACSize = int (length b) \<and>
      aSign a (take (FixedHeaderSize + unat n) b) = drop (FixedHeaderSize + unat n) b \<and>
      f = \<lparr>fHeader = h, fPayload = p\<rparr>"
    using assms unfolding Decode_def r1 Let_def n_def[symmetric] h_def[symmetric] p_def[symmetric]
    by (simp add: aVerify_iff split: if_split_asm option.split_asm)
  then have r: "length b \<ge> FixedHeaderSize + MACSize" "segment 0 4 b = frameMagic" "validateHeader h r = None"
      "int FixedHeaderSize + uint n + int MACSize \<le> uint64_of (effectiveResolvedLimit (hMessage h) r)"
      "int FixedHeaderSize + uint n + int MACSize = int (length b)"
      "aSign a (take (FixedHeaderSize + unat n) b) = drop (FixedHeaderSize + unat n) b"
      "f = \<lparr>fHeader = h, fPayload = p\<rparr>"
    by blast+
  have "int (length b) = int (FixedHeaderSize + unat n + MACSize)"
    unfolding r(5)[symmetric] by simp
  then have len: "length b = FixedHeaderSize + unat n + MACSize" by (simp only: of_nat_eq_iff)
  then have lp: "length p = unat n" by (simp add: p_def)
  have "segment 51 FixedHeaderSize (take FixedHeaderSize b) = segment 51 FixedHeaderSize b"
    "segment 0 4 (take FixedHeaderSize b) = frameMagic"
    using r(2) by (simp_all add: segment_def FixedHeaderSize_def drop_take)
  then have "encodeHeader h n = take FixedHeaderSize b"
    using encodeHeader_decodeHeader[of "take FixedHeaderSize b"] r(1) by (simp add: n_def h_def)
  then have signed: "encodeHeader h n @ p = take (FixedHeaderSize + unat n) b"
    by (simp add: p_def segment_def take_add)
  have n: "word_of_nat (length p) = n" by (simp add: lp)
  have "b = encodeHeader h n @ p @ aSign a (encodeHeader h n @ p)"
    unfolding append_assoc[symmetric] signed r(6) by simp
  moreover have "int (FixedHeaderSize + MACSize + length p) \<le> effectiveResolvedLimit (hMessage h) r"
    using r(4) unfolding resolveLimits_bounds(4)[OF r1] lp by simp
  ultimately show ?thesis
    unfolding Encode_Inr r(7) Frame.simps n using r1 r(3) by blast
qed

lemma Decode_iff_Encode:
  "Decode b (Some a) l = Inr f \<longleftrightarrow> Encode (fHeader f) (fPayload f) (Some a) l = Inr b"
  using Decode_Encode[of "fHeader f" "fPayload f" l b] Encode_Decode by auto

end

interpretation hmac: authenticator "NewHMACAuthenticator key" for key
  by unfold_locales (auto simp: NewHMACAuthenticator_def MACSize_def)

end
