(* ===== verification/Wire_Stream.thy ===== *)
theory Wire_Stream
  imports Wire_Frame
begin

text \<open>
  Frames on a TCP connection (\<open>internal/wire/stream.go\<close>).  The reading side of a connection is the
  list of bytes it will still deliver before it fails; the writing side is a function that gives
  the result of the k-th \<open>Write\<close> call, so that short writes and failures at any point are
  covered.  The deadline calls are represented by their results: what setting the deadline
  returns, and what clearing it returns.  Wrapping an error in the context's is the identity.
\<close>

section \<open>Operations\<close>

text \<open>\<open>io.ReadFull\<close>: all of the bytes or an error, with the bytes it did consume gone.\<close>

definition ReadFull :: "nat \<Rightarrow> bytes \<Rightarrow> bytes \<times> bytes option" where
  "ReadFull n conn = (if length conn < n then ([], None) else (drop n conn, Some (take n conn)))"

definition readBody :: "bytes \<Rightarrow> u32 \<Rightarrow> Authenticator option \<Rightarrow> Limits \<Rightarrow> bytes \<times> (wire_error + Frame)" where
  "readBody conn bodyLength auth resolved =
     (case ReadFull FixedHeaderSize conn of
        (conn, None) \<Rightarrow> (conn, Inl ErrEOF)
      | (conn, Some fixedHeader) \<Rightarrow>
          if segment 0 4 fixedHeader \<noteq> frameMagic then (conn, Inl ErrMalformed)
          else let header = decodeHeader fixedHeader in
            (case validateHeader header resolved of
               Some e \<Rightarrow> (conn, Inl e)
             | None \<Rightarrow>
                 let payloadLength = be_word (segment 51 FixedHeaderSize fixedHeader) :: u32;
                     declaredLength = int FixedHeaderSize + uint payloadLength + int MACSize;
                     limit = effectiveResolvedLimit (hMessage header) resolved
                 in if declaredLength > uint64_of limit then (conn, Inl ErrTooLarge)
                    else if declaredLength \<noteq> uint bodyLength then (conn, Inl ErrMalformed)
                    else (case ReadFull (unat bodyLength - FixedHeaderSize) conn of
                        (conn, None) \<Rightarrow> (conn, Inl ErrEOF)
                      | (conn, Some rest) \<Rightarrow> (conn, Decode (fixedHeader @ rest) auth resolved))))"

definition readPrefixed :: "bytes \<Rightarrow> Authenticator option \<Rightarrow> Limits \<Rightarrow> bytes \<times> (wire_error + Frame)" where
  "readPrefixed conn auth resolved =
     (case ReadFull 4 conn of
        (conn, None) \<Rightarrow> (conn, Inl ErrEOF)
      | (conn, Some prefix) \<Rightarrow>
          let bodyLength = be_word prefix :: u32 in
          if bodyLength < word_of_nat (FixedHeaderSize + MACSize) then (conn, Inl ErrMalformed)
          else if uint bodyLength > uint64_of (lMaxFrameSize resolved) then (conn, Inl ErrTooLarge)
          else readBody conn bodyLength auth resolved)"

text \<open>
  The results of \<open>ReadTCPFrame\<close>: the connection it leaves, the frame of a completed read, and
  the joined errors.  A failure to clear the deadline is reported beside a frame that was read.
\<close>

definition ReadTCPFrame :: "bytes option \<Rightarrow> wire_error option \<Rightarrow> wire_error option \<Rightarrow> Authenticator option \<Rightarrow> Limits
    \<Rightarrow> bytes option \<times> Frame option \<times> wire_error list" where
  "ReadTCPFrame conn setDeadline clearDeadline auth limits =
     (case conn of
        None \<Rightarrow> (None, None, [ErrNilConnection])
      | Some input \<Rightarrow>
          (case resolveLimits limits of
             Inl e \<Rightarrow> (conn, None, [e])
           | Inr resolved \<Rightarrow>
               (case setDeadline of
                  Some e \<Rightarrow> (conn, None, [e])
                | None \<Rightarrow>
                    let cleared = (case clearDeadline of None \<Rightarrow> [] | Some e \<Rightarrow> [e])
                    in (case readPrefixed input auth resolved of
                          (rest, Inl e) \<Rightarrow> (Some rest, None, e # cleared)
                        | (rest, Inr frame) \<Rightarrow> (Some rest, Some frame, cleared)))))"

type_synonym writer = "nat \<Rightarrow> bytes \<Rightarrow> int \<times> wire_error option"

text \<open>
  \<open>writeAll\<close>, from the k-th call of the connection's \<open>Write\<close>: what the peer receives, the calls made
  so far and the error.
\<close>

function writeAll :: "writer \<Rightarrow> nat \<Rightarrow> bytes \<Rightarrow> bytes \<times> nat \<times> wire_error option" where
  "writeAll w k payload =
     (if payload = [] then ([], k, None)
      else case w k payload of (written, err) \<Rightarrow>
        if written < 0 \<or> written > int (length payload)
        then (take (nat written) payload, Suc k, Some ErrShortWrite)
        else case err of
            Some e \<Rightarrow> (take (nat written) payload, Suc k, Some e)
          | None \<Rightarrow>
              if written = 0 then ([], Suc k, Some ErrNoProgress)
              else (case writeAll w (Suc k) (drop (nat written) payload) of
                      (out, r) \<Rightarrow> (take (nat written) payload @ out, r)))"
  by pat_completeness auto

termination
  by (relation "measure (\<lambda>(w, k, payload). length payload)") auto

declare writeAll.simps [simp del]

definition WriteTCPFrame :: "writer option \<Rightarrow> nat \<Rightarrow> wire_error option \<Rightarrow> wire_error option \<Rightarrow> Frame
    \<Rightarrow> Authenticator option \<Rightarrow> Limits \<Rightarrow> bytes \<times> nat \<times> wire_error list" where
  "WriteTCPFrame conn k setDeadline clearDeadline frame auth limits =
     (case conn of
        None \<Rightarrow> ([], k, [ErrNilConnection])
      | Some w \<Rightarrow>
          (case Encode (fHeader frame) (fPayload frame) auth limits of
             Inl e \<Rightarrow> ([], k, [e])
           | Inr body \<Rightarrow>
               if length body > 2 ^ 32 - 1 then ([], k, [ErrTooLarge])
               else (case setDeadline of
                  Some e \<Rightarrow> ([], k, [e])
                | None \<Rightarrow>
                    let cleared = (case clearDeadline of None \<Rightarrow> [] | Some e \<Rightarrow> [e])
                    in (case writeAll w k (be_bytes 4 (word_of_nat (length body) :: u32)) of
                          (out, k, Some e) \<Rightarrow> (out, k, e # cleared)
                        | (out, k, None) \<Rightarrow>
                            (case writeAll w k body of
                               (out', k, Some e) \<Rightarrow> (out @ out', k, e # cleared)
                             | (out', k, None) \<Rightarrow> (out @ out', k, cleared))))))"

text \<open>
  A \<open>TCPFrameStream\<close> serializes its writers and its readers: a sequence of \<open>WriteFrame\<close> calls up to
  the first that fails, and a sequence of \<open>ReadFrame\<close> calls up to the first that fails.
\<close>

fun WriteFrames :: "writer \<Rightarrow> nat \<Rightarrow> Authenticator option \<Rightarrow> Limits \<Rightarrow> Frame list \<Rightarrow> bytes \<times> nat \<times> wire_error list" where
  "WriteFrames w k auth limits [] = ([], k, [])"
| "WriteFrames w k auth limits (frame # frames) =
     (case WriteTCPFrame (Some w) k None None frame auth limits of
        (out, k, []) \<Rightarrow> (case WriteFrames w k auth limits frames of (out', r) \<Rightarrow> (out @ out', r))
      | (out, k, errs) \<Rightarrow> (out, k, errs))"

fun ReadFrames :: "nat \<Rightarrow> Authenticator option \<Rightarrow> Limits \<Rightarrow> bytes \<Rightarrow> Frame list \<times> wire_error list" where
  "ReadFrames 0 auth limits input = ([], [])"
| "ReadFrames (Suc n) auth limits input =
     (case ReadTCPFrame (Some input) None None auth limits of
        (Some rest, Some frame, []) \<Rightarrow>
          (case ReadFrames n auth limits rest of (frames, errs) \<Rightarrow> (frame # frames, errs))
      | (conn, frame, errs) \<Rightarrow> ([], errs))"

section \<open>Writing\<close>

text \<open>A write emits a prefix of its payload, and all of it when it reports no error.\<close>

lemma writeAll_prefix:
  "writeAll w k payload = (out, k', err) \<Longrightarrow>
     out = take (length out) payload \<and> (err = None \<longrightarrow> out = payload)"
proof (induction w k payload arbitrary: out k' err rule: writeAll.induct)
  case (1 w k payload)
  obtain n e where w: "w k payload = (n, e)" by (cases "w k payload")
  show ?case
  proof (cases "payload \<noteq> [] \<and> e = None \<and> 0 < n \<and> n \<le> int (length payload)")
    case True
    then obtain out' where rec: "writeAll w (Suc k) (drop (nat n) payload) = (out', k', err)"
      and out: "out = take (nat n) payload @ out'"
      using 1(2) w by (auto simp: writeAll.simps[of w k] split: prod.splits)
    have ih: "out' = take (length out') (drop (nat n) payload)" "err = None \<Longrightarrow> out' = drop (nat n) payload"
      using 1(1)[OF _ w[symmetric] _ _ _ rec] True by auto
    have "length (take (nat n) payload) = nat n" using True by (simp add: min_absorb2 nat_le_iff)
    then have "take (length out) payload = take (nat n) payload @ take (length out') (drop (nat n) payload)"
      unfolding out by (simp add: take_add)
    with ih out show ?thesis by auto
  next
    case False
    with 1(2) w show ?thesis
      by (auto simp: writeAll.simps[of w k] min_def nat_le_iff split: if_splits option.splits)
  qed
qed

text \<open>What one frame puts on the wire when its write succeeds.\<close>

definition wire_image :: "bytes \<Rightarrow> bytes" where
  "wire_image body = be_bytes 4 (word_of_nat (length body) :: u32) @ body"

lemma WriteTCPFrame_image:
  assumes "WriteTCPFrame (Some w) k None None frame auth limits = (out, k', errs)"
    and "Encode (fHeader frame) (fPayload frame) auth limits = Inr body"
  shows "out = take (length out) (wire_image body) \<and> (errs = [] \<longrightarrow> out = wire_image body)"
proof (cases "length body > 2 ^ 32 - 1")
  case True
  then show ?thesis using assms by (auto simp: WriteTCPFrame_def)
next
  case False
  obtain o1 k1 e1 where w1: "writeAll w k (be_bytes 4 (word_of_nat (length body) :: u32)) = (o1, k1, e1)"
    by (cases "writeAll w k (be_bytes 4 (word_of_nat (length body) :: u32))")
  obtain o2 k2 e2 where w2: "writeAll w k1 body = (o2, k2, e2)"
    by (cases "writeAll w k1 body")
  note p = writeAll_prefix[OF w1] writeAll_prefix[OF w2]
  show ?thesis
  proof (cases e1)
    case None
    then have "out = o1 @ o2 \<and> (errs = [] \<longrightarrow> e2 = None)" using assms False w1 w2
      by (auto simp: WriteTCPFrame_def split: option.splits)
    with p None show ?thesis by (auto simp: wire_image_def)
  next
    case (Some e)
    then have out: "out = o1" "errs \<noteq> []" using assms False w1
      by (auto simp: WriteTCPFrame_def)
    have "length o1 \<le> 4" using p(1) by (metis length_be_bytes length_take min.cobounded1 min.commute)
    with p(1) out show ?thesis by (simp add: wire_image_def)
  qed
qed

text \<open>A sequence of writes: its first frame is cut short and the sequence ends there, or is complete.\<close>

lemma WriteFrames_Cons:
  assumes "WriteFrames w k auth l (f # fs) = (out, k', errs)"
    and "Encode (fHeader f) (fPayload f) auth l = Inr body"
  obtains (short) "length out < length (wire_image body)" "out = take (length out) (wire_image body)" "errs \<noteq> []"
  | (failed) "out = wire_image body" "errs \<noteq> []"
  | (full) k1 out' where "out = wire_image body @ out'" "WriteFrames w k1 auth l fs = (out', k', errs)"
proof -
  obtain o1 k1 e1 where w1: "WriteTCPFrame (Some w) k None None f auth l = (o1, k1, e1)"
    by (cases "WriteTCPFrame (Some w) k None None f auth l")
  note img = WriteTCPFrame_image[OF w1 assms(2)]
  show thesis
  proof (cases e1)
    case Nil
    then show thesis using assms(1) w1 img full by (auto split: prod.splits)
  next
    case (Cons e es)
    then have out: "out = o1" "errs \<noteq> []" using assms(1) w1 by auto
    then show thesis
      using img short failed by (cases "length out < length (wire_image body)") (auto simp: not_less)
  qed
qed

section \<open>Reading back\<close>

lemma ReadFull_append: "length xs = n \<Longrightarrow> ReadFull n (xs @ ys) = (ys, Some xs)"
  by (simp add: ReadFull_def)

lemma ReadFull_take:
  "n \<le> m \<Longrightarrow> length xs = n \<Longrightarrow> ReadFull n (take m (xs @ ys)) = (take (m - n) ys, Some xs)"
  by (simp add: ReadFull_def)

lemma ReadFull_short: "length xs < n \<Longrightarrow> ReadFull n xs = ([], None)"
  by (simp add: ReadFull_def)

context authenticator
begin

text \<open>The parts of an encoded body that \<open>readBody\<close> inspects.\<close>

lemma Encode_parts:
  assumes "Encode h p (Some a) l = Inr body" "resolveLimits l = Inr r"
  obtains rest where "body = encodeHeader h (word_of_nat (length p)) @ rest"
    "length body = FixedHeaderSize + length p + MACSize" "validateHeader h r = None"
    "int (length body) \<le> effectiveResolvedLimit (hMessage h) r"
    "uint (word_of_nat (length p) :: u32) = int (length p)"
    "uint (word_of_nat (length body) :: u32) = int (length body)"
    "Decode body (Some a) r = Inr \<lparr>fHeader = h, fPayload = p\<rparr>"
proof -
  have r: "validateHeader h r = None"
      "int (FixedHeaderSize + MACSize + length p) \<le> effectiveResolvedLimit (hMessage h) r"
      "body = encodeHeader h (word_of_nat (length p)) @ p @ aSign a (encodeHeader h (word_of_nat (length p)) @ p)"
    using assms by (auto simp: Encode_Inr)
  have len: "length body = FixedHeaderSize + length p + MACSize"
    unfolding r(3) by (simp add: length_aSign)
  have lim: "int (length body) \<le> effectiveResolvedLimit (hMessage h) r"
    using r(2) unfolding len by (simp add: algebra_simps)
  then have "int (length body) < 2 ^ 32"
    using resolveLimits_bounds(1,3)[OF assms(2)] by (meson le_less_trans order_trans)
  then have u: "uint (word_of_nat n :: u32) = int n" if "n \<le> length body" for n
    using that by (simp add: unsigned_of_nat take_bit_nat_eq_self)
  have "Encode h p (Some a) r = Inr body"
    using r resolveLimits_idem[OF assms(2)] by (auto simp: Encode_Inr)
  from Decode_Encode[OF this] show thesis
    using that[OF r(3) len r(1) lim u[of "length p"] u[of "length body"]] len by simp
qed

lemma readPrefixed_image:
  assumes "Encode h p (Some a) l = Inr body" "resolveLimits l = Inr r" "4 \<le> m"
  shows "readPrefixed (take m (wire_image body @ tail)) (Some a) r =
    readBody (take (m - 4) (body @ tail)) (word_of_nat (length body)) (Some a) r"
proof -
  obtain rest where b: "length body = FixedHeaderSize + length p + MACSize"
      "int (length body) \<le> effectiveResolvedLimit (hMessage h) r"
      "uint (word_of_nat (length body) :: u32) = int (length body)"
    using Encode_parts[OF assms(1,2)] by metis
  have "\<not> (word_of_nat (length body) :: u32) < word_of_nat (FixedHeaderSize + MACSize)"
    unfolding word_less_def b(3) by (simp add: b(1) FixedHeaderSize_def MACSize_def)
  moreover have "\<not> uint (word_of_nat (length body) :: u32) > uint64_of (lMaxFrameSize r)"
    unfolding b(3) resolveLimits_bounds(5)[OF assms(2)]
    using b(2) resolveLimits_bounds(3)[OF assms(2), of "hMessage h"] by linarith
  ultimately show ?thesis
    using assms(3) unfolding wire_image_def readPrefixed_def append_assoc
    by (simp add: ReadFull_take del: take_append)
qed

lemma readBody_image:
  assumes "Encode h p (Some a) l = Inr body" "resolveLimits l = Inr r"
  shows "readBody (body @ tail) (word_of_nat (length body)) (Some a) r = (tail, Inr \<lparr>fHeader = h, fPayload = p\<rparr>)"
    and "m < length body \<Longrightarrow> readBody (take m body) (word_of_nat (length body)) (Some a) r = ([], Inl ErrEOF)"
proof -
  obtain rest where b: "body = encodeHeader h (word_of_nat (length p)) @ rest"
      "length body = FixedHeaderSize + length p + MACSize" "validateHeader h r = None"
      "int (length body) \<le> effectiveResolvedLimit (hMessage h) r"
      "uint (word_of_nat (length p) :: u32) = int (length p)"
      "uint (word_of_nat (length body) :: u32) = int (length body)"
      "Decode body (Some a) r = Inr \<lparr>fHeader = h, fPayload = p\<rparr>"
    using Encode_parts[OF assms] .
  have fields: "segment 0 4 (encodeHeader h n) = frameMagic" "be_word (segment 51 FixedHeaderSize (encodeHeader h n)) = n" for n
    using encodeHeader_magic[of h n "[]"] encodeHeader_length_field[of h n "[]"] by simp_all
  have un: "unat (word_of_nat (length body) :: u32) = length body"
    using b(6) by (simp add: unat_eq_nat_uint)
  have lrest: "length body - FixedHeaderSize = length rest" unfolding b(1) by simp
  have checks: "\<not> int FixedHeaderSize + uint (word_of_nat (length p) :: u32) + int MACSize > uint64_of (effectiveResolvedLimit (hMessage h) r)"
      "int FixedHeaderSize + uint (word_of_nat (length p) :: u32) + int MACSize = uint (word_of_nat (length body) :: u32)"
    using b(2,4) unfolding resolveLimits_bounds(4)[OF assms(2)] b(5,6) by simp_all
  have step: "readBody (encodeHeader h (word_of_nat (length p)) @ conn) (word_of_nat (length body)) (Some a) r =
      (case ReadFull (length rest) conn of (conn, None) \<Rightarrow> (conn, Inl ErrEOF)
       | (conn, Some rest') \<Rightarrow> (conn, Decode (encodeHeader h (word_of_nat (length p)) @ rest') (Some a) r))" for conn
    unfolding readBody_def Let_def using b(3) checks
    by (simp add: ReadFull_append fields un lrest)
  show "readBody (body @ tail) (word_of_nat (length body)) (Some a) r = (tail, Inr \<lparr>fHeader = h, fPayload = p\<rparr>)"
    using step[of "rest @ tail"] b(7) by (simp add: b(1)[symmetric] ReadFull_append)
      (simp add: b(1) ReadFull_append)
  assume m: "m < length body"
  show "readBody (take m body) (word_of_nat (length body)) (Some a) r = ([], Inl ErrEOF)"
  proof (cases "m < FixedHeaderSize")
    case True
    then show ?thesis by (simp add: readBody_def ReadFull_short)
  next
    case False
    have "take m body = encodeHeader h (word_of_nat (length p)) @ take (m - FixedHeaderSize) rest"
      using False by (subst b(1)) simp
    moreover have "length (take (m - FixedHeaderSize) rest) < length rest"
      using m False lrest by simp
    ultimately show ?thesis using step by (simp add: ReadFull_short)
  qed
qed

lemma ReadTCPFrame_image:
  assumes "Encode h p (Some a) l = Inr body"
  shows "ReadTCPFrame (Some (wire_image body @ tail)) None None (Some a) l = (Some tail, Some \<lparr>fHeader = h, fPayload = p\<rparr>, [])"
    and "m < length (wire_image body) \<Longrightarrow>
      ReadTCPFrame (Some (take m (wire_image body))) None None (Some a) l = (Some [], None, [ErrEOF])"
proof -
  obtain r where r: "resolveLimits l = Inr r" using assms by (auto simp: Encode_Inr)
  have len: "length (wire_image body) = 4 + length body" by (simp add: wire_image_def)
  show "ReadTCPFrame (Some (wire_image body @ tail)) None None (Some a) l = (Some tail, Some \<lparr>fHeader = h, fPayload = p\<rparr>, [])"
    using readPrefixed_image[OF assms r, of "length (wire_image body @ tail)" tail] readBody_image(1)[OF assms r, of tail] r
    by (simp add: ReadTCPFrame_def len)
  assume m: "m < length (wire_image body)"
  have "readPrefixed (take m (wire_image body)) (Some a) r = ([], Inl ErrEOF)"
  proof (cases "m < 4")
    case True
    then show ?thesis by (simp add: readPrefixed_def ReadFull_short)
  next
    case False
    then show ?thesis
      using readPrefixed_image[OF assms r, of m "[]"] readBody_image(2)[OF assms r, of "m - 4"] m len by simp
  qed
  then show "ReadTCPFrame (Some (take m (wire_image body))) None None (Some a) l = (Some [], None, [ErrEOF])"
    using r by (simp add: ReadTCPFrame_def)
qed

lemma ReadFrames_empty:
  assumes "resolveLimits l = Inr r"
  shows "ReadFrames n (Some a) l [] = ([], if n = 0 then [] else [ErrEOF])"
  using assms by (cases n) (simp_all add: ReadTCPFrame_def readPrefixed_def ReadFull_short)

lemma ReadFrames_written:
  assumes "WriteFrames w k (Some a) l fs = (out, k', errs)" "resolveLimits l = Inr r"
  shows "(\<exists>j. fst (ReadFrames n (Some a) l (take m out)) = take j fs) \<and>
    set (snd (ReadFrames n (Some a) l (take m out))) \<subseteq> {ErrEOF} \<and>
    (errs = [] \<and> length out \<le> m \<longrightarrow> fst (ReadFrames n (Some a) l (take m out)) = take n fs)"
  using assms(1)
proof (induction fs arbitrary: k n m out)
  case Nil
  then show ?case using ReadFrames_empty[OF assms(2)] by auto
next
  case (Cons f fs)
  show ?case
  proof (cases "Encode (fHeader f) (fPayload f) (Some a) l")
    case (Inl e)
    then have "out = [] \<and> errs \<noteq> []" using Cons.prems by (auto simp: WriteTCPFrame_def)
    then show ?thesis using ReadFrames_empty[OF assms(2)] by (auto intro: exI[of _ 0])
  next
    case (Inr body)
    let ?img = "wire_image body" and ?read = "\<lambda>n input. ReadFrames n (Some a) l input"
    have cut: ?thesis if "length out < length ?img \<or> m < length ?img" "take m out = take (min m (length out)) ?img"
        "errs = [] \<longrightarrow> length ?img \<le> length out"
    proof -
      have "ReadTCPFrame (Some (take m out)) None None (Some a) l = (Some [], None, [ErrEOF])"
        unfolding that(2) using that(1) by (intro ReadTCPFrame_image(2)[OF Inr]) auto
      with that show ?thesis by (cases n) (auto intro: exI[of _ 0])
    qed
    have read: "?read (Suc n) (take m (?img @ rest)) =
        (f # fst (?read n (take (m - length ?img) rest)), snd (?read n (take (m - length ?img) rest)))"
      if "length ?img \<le> m" for n rest
      using that ReadTCPFrame_image(1)[OF Inr, of "take (m - length ?img) rest"] by (simp split: prod.splits)
    from Cons.prems Inr show ?thesis
    proof (cases rule: WriteFrames_Cons)
      case short
      have "take m out = take (min m (length out)) ?img"
        using arg_cong[OF short(2), of "take m"] by simp
      with short show ?thesis by (intro cut) auto
    next
      case failed
      show ?thesis
      proof (cases "m < length ?img")
        case True
        with failed show ?thesis by (intro cut) auto
      next
        case False
        with failed read[of _ "[]"] show ?thesis
          by (cases n) (auto simp: ReadFrames_empty[OF assms(2)] intro: exI[of _ 0] exI[of _ 1])
      qed
    next
      case (full k1 out')
      show ?thesis
      proof (cases "m < length ?img")
        case True
        with full show ?thesis by (intro cut) auto
      next
        case False
        show ?thesis
        proof (cases n)
          case (Suc n')
          obtain j where "fst (?read n' (take (m - length ?img) out')) = take j fs"
            using Cons.IH[OF full(2)] by blast
          then have *: "fst (?read n (take m out)) = take (Suc j) (f # fs)"
            using read[of n' out'] False full(1) Suc by simp
          have **: "?read n (take m out) = (f # fst (?read n' (take (m - length ?img) out')), snd (?read n' (take (m - length ?img) out')))"
            using read[of n' out'] False full(1) Suc by simp
          have "length out \<le> m \<longleftrightarrow> length out' \<le> m - length ?img" using False full(1) by auto
          then have "errs = [] \<and> length out \<le> m \<longrightarrow> fst (?read n (take m out)) = take n (f # fs)"
            unfolding ** fst_conv using Cons.IH[OF full(2), of n' "m - length ?img"] Suc by simp
          moreover have "set (snd (?read n (take m out))) \<subseteq> {ErrEOF}"
            unfolding ** snd_conv using Cons.IH[OF full(2), of n' "m - length ?img"] by blast
          ultimately show ?thesis using * by blast
        qed (auto intro: exI[of _ 0])
      qed
    qed
  qed
qed

end

end
