(* ===== verification/Go_Library.thy ===== *)
theory Go_Library
  imports Crane_Prelude "HOL-Library.Multiset" "HOL-Library.AList"
begin

text \<open>
  The parts of the Go standard library and runtime that the SWIM and wire packages use and
  whose algorithm matters to them: instants and durations of \<open>time\<close>, the binary heap of
  \<open>container/heap\<close> with its sifting loops, and maps as association lists with distinct keys
  (\<open>len\<close> is their length; the iteration order of a Go map is left open by the language, and
  the code that ranges over one sorts or counts what it collects).
\<close>

section \<open>Time\<close>

text \<open>
  An instant is the number of nanoseconds since the first of January of year 1.  \<open>Time.Add\<close> adds
  seconds and nanoseconds separately and saturates the seconds at the ends of \<open>int64\<close>.
\<close>

type_synonym time = int

type_synonym duration = int

definition timeAdd :: "time \<Rightarrow> duration \<Rightarrow> time" where
  "timeAdd t d =
     (let sec = (t + d) div 10 ^ 9; nsec = (t + d) mod 10 ^ 9
      in if sec > 2 ^ 63 - 1 then (2 ^ 63 - 1) * 10 ^ 9 + nsec
         else if sec < - (2 ^ 63) then - (2 ^ 63 - 1) * 10 ^ 9 + nsec
         else t + d)"

section \<open>Heaps\<close>

definition swap :: "nat \<Rightarrow> nat \<Rightarrow> 'a list \<Rightarrow> 'a list" where
  "swap i j h = h[i := h ! j, j := h ! i]"

lemma length_swap [simp]: "length (swap i j h) = length h"
  by (simp add: swap_def)

lemma mset_swap_list: "i < length h \<Longrightarrow> j < length h \<Longrightarrow> mset (swap i j h) = mset h"
  unfolding swap_def by (rule mset_swap)

lemma nth_swap:
  "i < length h \<Longrightarrow> j < length h \<Longrightarrow> k < length h \<Longrightarrow>
     swap i j h ! k = (if k = i then h ! j else if k = j then h ! i else h ! k)"
  by (simp add: swap_def nth_list_update)

function heap_up :: "('a \<Rightarrow> 'k::linorder) \<Rightarrow> nat \<Rightarrow> 'a list \<Rightarrow> 'a list" where
  "heap_up key j h =
     (let i = (j - 1) div 2
      in if i = j \<or> \<not> key (h ! j) < key (h ! i) then h else heap_up key i (swap i j h))"
  by pat_completeness auto

termination
  by (relation "measure (\<lambda>(key, j, h). j)") auto

function heap_down :: "('a \<Rightarrow> 'k::linorder) \<Rightarrow> nat \<Rightarrow> nat \<Rightarrow> 'a list \<Rightarrow> 'a list" where
  "heap_down key i n h =
     (let j1 = 2 * i + 1
      in if j1 \<ge> n then h
         else let j = (if j1 + 1 < n \<and> key (h ! (j1 + 1)) < key (h ! j1) then j1 + 1 else j1)
              in if \<not> key (h ! j) < key (h ! i) then h else heap_down key j n (swap i j h))"
  by pat_completeness auto

termination
  by (relation "measure (\<lambda>(key, i, n, h). n - i)") (auto split: if_splits)

declare heap_up.simps [simp del] heap_down.simps [simp del]

definition heap_push :: "('a \<Rightarrow> 'k::linorder) \<Rightarrow> 'a \<Rightarrow> 'a list \<Rightarrow> 'a list" where
  "heap_push key x h = heap_up key (length h) (h @ [x])"

definition heap_pop :: "('a \<Rightarrow> 'k::linorder) \<Rightarrow> 'a list \<Rightarrow> 'a \<times> 'a list" where
  "heap_pop key h =
     (let n = length h - 1; h' = heap_down key 0 n (swap 0 n h) in (h' ! n, take n h'))"

subsection \<open>The heap order\<close>

definition is_heap :: "('a \<Rightarrow> 'k::linorder) \<Rightarrow> nat \<Rightarrow> 'a list \<Rightarrow> bool" where
  "is_heap key n h \<longleftrightarrow> (\<forall>k<n. 0 < k \<longrightarrow> key (h ! ((k - 1) div 2)) \<le> key (h ! k))"

lemma is_heap_root:
  assumes "is_heap key n h" "k < n"
  shows "key (h ! 0) \<le> key (h ! k)"
  using assms(2)
proof (induction k rule: less_induct)
  case (less k)
  show ?case
  proof (cases "k = 0")
    case False
    then have "(k - 1) div 2 < k" by simp
    then have "key (h ! 0) \<le> key (h ! ((k - 1) div 2))" using less by simp
    also have "\<dots> \<le> key (h ! k)" using assms(1) less.prems False by (simp add: is_heap_def)
    finally show ?thesis .
  qed simp
qed

text \<open>
  The loop invariants: before an iteration of \<open>up\<close> only the pair of \<open>j\<close> and its parent may be out of
  order, and before one of \<open>down\<close> only the pairs of \<open>i\<close> and its children; in both cases the children of
  the moving element are in order with its parent.
\<close>

definition up_inv :: "('a \<Rightarrow> 'k::linorder) \<Rightarrow> nat \<Rightarrow> 'a list \<Rightarrow> bool" where
  "up_inv key j h \<longleftrightarrow> j < length h \<and>
     (\<forall>k<length h. 0 < k \<longrightarrow> k \<noteq> j \<longrightarrow> key (h ! ((k - 1) div 2)) \<le> key (h ! k)) \<and>
     (\<forall>k<length h. 0 < k \<longrightarrow> (k - 1) div 2 = j \<longrightarrow> 0 < j \<longrightarrow> key (h ! ((j - 1) div 2)) \<le> key (h ! k))"

definition down_inv :: "('a \<Rightarrow> 'k::linorder) \<Rightarrow> nat \<Rightarrow> nat \<Rightarrow> 'a list \<Rightarrow> bool" where
  "down_inv key i n h \<longleftrightarrow> n \<le> length h \<and>
     (\<forall>k<n. 0 < k \<longrightarrow> (k - 1) div 2 \<noteq> i \<longrightarrow> key (h ! ((k - 1) div 2)) \<le> key (h ! k)) \<and>
     (\<forall>k<n. 0 < k \<longrightarrow> (k - 1) div 2 = i \<longrightarrow> 0 < i \<longrightarrow> key (h ! ((i - 1) div 2)) \<le> key (h ! k))"

lemma up_inv_swap:
  assumes "up_inv key j h" "0 < j" "key (h ! j) < key (h ! ((j - 1) div 2))"
  shows "up_inv key ((j - 1) div 2) (swap ((j - 1) div 2) j h)"
proof -
  define p where "p = (j - 1) div 2"
  have p: "p < j" using assms(2) by (simp add: p_def)
  have j: "j < length h" using assms(1) by (simp add: up_inv_def)
  have ord: "key (h ! ((k - 1) div 2)) \<le> key (h ! k)" if "k < length h" "0 < k" "k \<noteq> j" for k
    using assms(1) that by (simp add: up_inv_def)
  have kids: "key (h ! p) \<le> key (h ! k)" if "k < length h" "0 < k" "(k - 1) div 2 = j" for k
    using assms(1,2) that by (simp add: up_inv_def p_def)
  have lt: "key (h ! j) < key (h ! p)" using assms(3) by (simp add: p_def)
  have nth: "swap p j h ! k = (if k = p then h ! j else if k = j then h ! p else h ! k)" if "k < length h" for k
    using nth_swap[of p h j k] p j that by simp
  have "key (swap p j h ! ((k - 1) div 2)) \<le> key (swap p j h ! k)"
    if k: "k < length h" "0 < k" "k \<noteq> p" for k
  proof -
    have par: "(k - 1) div 2 < length h" using k by simp
    show ?thesis
    proof (cases "k = j")
      case True
      then show ?thesis using lt p nth[OF k(1)] nth[OF par] by (simp add: p_def)
    next
      case False
      show ?thesis
        using ord[OF k(1,2) False] kids[OF k(1,2)] lt False k(3) nth[OF k(1)] nth[OF par]
        by (auto intro: order_trans less_imp_le)
    qed
  qed
  moreover have "key (swap p j h ! ((p - 1) div 2)) \<le> key (swap p j h ! k)"
    if k: "k < length h" "0 < k" "(k - 1) div 2 = p" "0 < p" for k
  proof -
    have pp: "(p - 1) div 2 < length h" "(p - 1) div 2 < p" using p j k(4) by simp_all
    have "key (h ! ((p - 1) div 2)) \<le> key (h ! p)" using ord[of p] p j k(4) by simp
    moreover have "key (h ! p) \<le> key (h ! k)" if "k \<noteq> j" using ord[OF k(1,2) that] k(3) by simp
    ultimately show ?thesis
      using pp p nth[OF k(1)] nth[OF pp(1)] k(2,3) by (auto intro: order_trans)
  qed
  ultimately show ?thesis using p j unfolding p_def[symmetric] by (simp add: up_inv_def)
qed

lemma heap_up_correct:
  "up_inv key j h \<Longrightarrow> is_heap key (length h) (heap_up key j h) \<and> mset (heap_up key j h) = mset h"
proof (induction key j h rule: heap_up.induct)
  case (1 key j h)
  let ?p = "(j - 1) div 2"
  show ?case
  proof (cases "?p = j \<or> \<not> key (h ! j) < key (h ! ?p)")
    case True
    have "j = 0 \<or> key (h ! ?p) \<le> key (h ! j)" using True by fastforce
    then have "is_heap key (length h) h" using "1.prems" by (auto simp: is_heap_def up_inv_def)
    with True show ?thesis by (simp add: heap_up.simps[of key j h])
  next
    case False
    then have "0 < j" by (cases j) auto
    then have "up_inv key ?p (swap ?p j h)" using up_inv_swap "1.prems" False by blast
    moreover have "mset (swap ?p j h) = mset h"
      using "1.prems" by (intro mset_swap_list) (auto simp: up_inv_def)
    ultimately show ?thesis
      using "1.IH"[OF refl False] False by (simp add: heap_up.simps[of key j h] Let_def)
  qed
qed

lemma heap_push_correct:
  assumes "is_heap key (length h) h"
  shows "is_heap key (length (heap_push key x h)) (heap_push key x h)"
    and "mset (heap_push key x h) = add_mset x (mset h)"
proof -
  have "up_inv key (length h) (h @ [x])"
    using assms unfolding up_inv_def is_heap_def by (auto simp: nth_append)
  from heap_up_correct[OF this]
  have *: "is_heap key (length h + 1) (heap_push key x h)" "mset (heap_push key x h) = mset (h @ [x])"
    by (simp_all add: heap_push_def)
  then show "mset (heap_push key x h) = add_mset x (mset h)" by simp
  moreover have "length (heap_push key x h) = length h + 1"
    using arg_cong[OF *(2), of size] by simp
  ultimately show "is_heap key (length (heap_push key x h)) (heap_push key x h)" using * by simp
qed

lemma parent_iff: "0 < k \<Longrightarrow> (k - 1) div 2 = i \<longleftrightarrow> k = 2 * i + 1 \<or> k = 2 * i + (2 :: nat)"
  by presburger

lemma down_inv_swap:
  assumes "down_inv key i n h" "j < n" "0 < j" "(j - 1) div 2 = i" "key (h ! j) < key (h ! i)"
    and least: "\<And>k. k < n \<Longrightarrow> 0 < k \<Longrightarrow> (k - 1) div 2 = i \<Longrightarrow> key (h ! j) \<le> key (h ! k)"
  shows "down_inv key j n (swap i j h)"
proof -
  have n: "n \<le> length h" and ij: "i < j" using assms(1,3,4) by (auto simp: down_inv_def)
  have nth: "swap i j h ! k = (if k = i then h ! j else if k = j then h ! i else h ! k)" if "k < n" for k
    using nth_swap[of i h j k] ij assms(2) n that by simp
  have ord: "key (h ! ((k - 1) div 2)) \<le> key (h ! k)" if "k < n" "0 < k" "(k - 1) div 2 \<noteq> i" for k
    using assms(1) that by (simp add: down_inv_def)
  have kids: "key (h ! ((i - 1) div 2)) \<le> key (h ! k)" if "k < n" "0 < k" "(k - 1) div 2 = i" "0 < i" for k
    using assms(1) that by (simp add: down_inv_def)
  have "key (swap i j h ! ((k - 1) div 2)) \<le> key (swap i j h ! k)"
    if k: "k < n" "0 < k" "(k - 1) div 2 \<noteq> j" for k
  proof -
    have par: "(k - 1) div 2 < n" using k by simp
    consider "(k - 1) div 2 = i" | "(k - 1) div 2 \<noteq> i" "k = i" | "(k - 1) div 2 \<noteq> i" "k \<noteq> i" by blast
    then show ?thesis
    proof cases
      case 1
      then show ?thesis
        using least[OF k(1,2)] assms(5) nth[OF k(1)] nth[OF par] k(2) ij by (auto intro: less_imp_le)
    next
      case 2
      then show ?thesis using kids[OF assms(2,3,4)] k nth[OF k(1)] nth[OF par] by simp
    next
      case 3
      then have "k \<noteq> j" using assms(4) by auto
      then show ?thesis using 3 ord[OF k(1,2)] k nth[OF k(1)] nth[OF par] by simp
    qed
  qed
  moreover have "key (swap i j h ! ((j - 1) div 2)) \<le> key (swap i j h ! k)"
    if k: "k < n" "0 < k" "(k - 1) div 2 = j" for k
  proof -
    have "j < k" using k by auto
    then show ?thesis using ord[OF k(1,2)] k(3) ij nth[OF k(1)] nth[of i] assms(2,4) by simp
  qed
  ultimately show ?thesis using n by (simp add: down_inv_def)
qed

lemma heap_down_correct:
  "down_inv key i n h \<Longrightarrow> i < n \<or> n = 0 \<Longrightarrow>
     is_heap key n (heap_down key i n h) \<and> mset (heap_down key i n h) = mset h \<and>
     length (heap_down key i n h) = length h \<and> (\<forall>k\<ge>n. heap_down key i n h ! k = h ! k)"
proof (induction key i n h rule: heap_down.induct)
  case (1 key i n h)
  let ?j1 = "2 * i + 1"
  define j where "j = (if ?j1 + 1 < n \<and> key (h ! (?j1 + 1)) < key (h ! ?j1) then ?j1 + 1 else ?j1)"
  have unf: "heap_down key i n h =
      (if ?j1 \<ge> n then h else if \<not> key (h ! j) < key (h ! i) then h else heap_down key j n (swap i j h))"
    unfolding heap_down.simps[of key i n h] Let_def j_def by (rule refl)
  have ord: "key (h ! ((k - 1) div 2)) \<le> key (h ! k)" if "k < n" "0 < k" "(k - 1) div 2 \<noteq> i" for k
    using "1.prems"(1) that by (simp add: down_inv_def)
  have least: "key (h ! j) \<le> key (h ! k)" if "k < n" "0 < k" "(k - 1) div 2 = i" for k
    using that parent_iff[of k i] by (auto simp: j_def)
  show ?case
  proof (cases "?j1 \<ge> n \<or> \<not> key (h ! j) < key (h ! i)")
    case True
    have "key (h ! i) \<le> key (h ! k)" if "k < n" "0 < k" "(k - 1) div 2 = i" for k
      using True least[OF that] that parent_iff[of k i] by (auto simp: not_less intro: order_trans)
    then have "is_heap key n h" unfolding is_heap_def using ord by metis
    with True show ?thesis by (auto simp: unf)
  next
    case False
    have j: "j < n" "0 < j" "(j - 1) div 2 = i" using False by (auto simp: j_def)
    have inv: "down_inv key j n (swap i j h)"
      using down_inv_swap[OF "1.prems"(1) j _ least] False by blast
    have ij: "i < length h" "j < length h" using j "1.prems"(1) by (auto simp: down_inv_def)
    have "swap i j h ! k = h ! k" if "n \<le> k" for k
      using that j by (auto simp: swap_def)
    then show ?thesis
      using "1.IH"[OF refl _ j_def] False inv j mset_swap_list[OF ij] by (simp add: unf)
  qed
qed

lemma heap_pop_correct:
  assumes "is_heap key (length h) h" "h \<noteq> []"
  shows "fst (heap_pop key h) = h ! 0"
    and "is_heap key (length (snd (heap_pop key h))) (snd (heap_pop key h))"
    and "mset h = add_mset (h ! 0) (mset (snd (heap_pop key h)))"
proof -
  define n where "n = length h - 1"
  define h' where "h' = heap_down key 0 n (swap 0 n h)"
  have n: "n < length h" "length h = Suc n" using assms(2) by (simp_all add: n_def)
  have nth: "swap 0 n h ! k = (if k = 0 then h ! n else if k = n then h ! 0 else h ! k)" if "k < length h" for k
    using nth_swap[of 0 h n k] n that by simp
  have "key (swap 0 n h ! ((k - 1) div 2)) \<le> key (swap 0 n h ! k)" if "k < n" "0 < k" "(k - 1) div 2 \<noteq> 0" for k
    using assms(1) that n nth[of k] nth[of "(k - 1) div 2"] by (auto simp: is_heap_def)
  then have "down_inv key 0 n (swap 0 n h)" using n by (simp add: down_inv_def)
  from heap_down_correct[OF this]
  have down: "is_heap key n h'" "mset h' = mset (swap 0 n h)" "length h' = length h" "h' ! n = swap 0 n h ! n"
    by (auto simp: h'_def)
  have pop: "heap_pop key h = (h' ! n, take n h')"
    by (simp add: heap_pop_def n_def h'_def Let_def)
  have last: "h' ! n = h ! 0" using down(4) nth[of n] n by (cases "n = 0") auto
  show "fst (heap_pop key h) = h ! 0" using pop last by simp
  show "is_heap key (length (snd (heap_pop key h))) (snd (heap_pop key h))"
    using down(1,3) n by (auto simp: pop is_heap_def)
  have "h' = take n h' @ [h' ! n]"
    using down(3) n by (metis lessI take_Suc_conv_app_nth take_all_iff order_refl)
  then have "mset h' = add_mset (h ! 0) (mset (take n h'))"
    using last by (metis mset_append mset_single_iff_right union_mset_add_mset_right add.right_neutral mset.simps)
  moreover have "mset h' = mset h"
    using down(2) mset_swap_list[of 0 h n] n by simp
  ultimately show "mset h = add_mset (h ! 0) (mset (snd (heap_pop key h)))" using pop by simp
qed

end
