(* ===== verification/Wire_Replay.thy ===== *)
theory Wire_Replay
  imports Go_Library Wire_Frame
begin

text \<open>
  The replay guard of \<open>internal/wire/replay.go\<close>.  Each cache is a map from sender and request
  identity to the instant its entry expires, beside a heap of the same entries; the clock is
  read once per call and its reading is the argument \<open>now\<close>.  A guard without a clock answers
  every call with a configuration error, as a nil guard does.
\<close>

section \<open>Operations\<close>

datatype replayKey = ReplayKey (rkSenderID: u16) (rkRequestID: RequestID)

type_synonym replayExpiry = "replayKey \<times> time"

type_synonym replayCache = "(replayKey \<times> time) list \<times> replayExpiry list"

record ReplayGuard =
  rgClock :: bool
  rgWindow :: duration
  rgMaxFutureSkew :: duration
  rgMaxEntries :: int
  rgSeen :: replayCache
  rgInvalid :: replayCache

definition NewReplayGuard :: "bool \<Rightarrow> duration \<Rightarrow> duration \<Rightarrow> int \<Rightarrow> ReplayGuard" where
  "NewReplayGuard source window maxFutureSkew maxEntries =
     \<lparr>rgClock = source, rgWindow = window, rgMaxFutureSkew = maxFutureSkew, rgMaxEntries = maxEntries,
      rgSeen = ([], []), rgInvalid = ([], [])\<rparr>"

text \<open>The body of the purge and eviction loops: pop the root and forget its key if the entry is current.\<close>

definition dropRoot :: "replayCache \<Rightarrow> replayCache" where
  "dropRoot cache =
     (let (expired, heap) = heap_pop snd (snd cache)
      in (if map_of (fst cache) (fst expired) = Some (snd expired)
          then AList.delete (fst expired) (fst cache) else fst cache, heap))"

text \<open>\<open>purgeExpired\<close> and \<open>purgeInvalidExpired\<close>, which differ only in the cache they work on.\<close>

lemma length_heap_down [simp]: "length (heap_down key i n h) = length h"
  by (induction key i n h rule: heap_down.induct) (subst heap_down.simps, auto simp: Let_def)

lemma length_dropRoot: "snd cache \<noteq> [] \<Longrightarrow> length (snd (dropRoot cache)) < length (snd cache)"
  by (simp add: dropRoot_def heap_pop_def Let_def)

function purge :: "time \<Rightarrow> replayCache \<Rightarrow> replayCache" where
  "purge now cache =
     (if snd cache \<noteq> [] \<and> \<not> snd (snd cache ! 0) > now then purge now (dropRoot cache) else cache)"
  by pat_completeness auto

termination
  by (relation "measure (\<lambda>(now, cache). length (snd cache))") (auto simp: length_dropRoot)

declare purge.simps [simp del]

definition purgeExpired :: "time \<Rightarrow> ReplayGuard \<Rightarrow> ReplayGuard" where
  "purgeExpired now g = g\<lparr>rgSeen := purge now (rgSeen g)\<rparr>"

definition purgeInvalidExpired :: "time \<Rightarrow> ReplayGuard \<Rightarrow> ReplayGuard" where
  "purgeInvalidExpired now g = g\<lparr>rgInvalid := purge now (rgInvalid g)\<rparr>"

definition outsideWindow :: "ReplayGuard \<Rightarrow> time \<Rightarrow> time \<Rightarrow> bool" where
  "outsideWindow g timestamp now \<longleftrightarrow>
     timestamp > timeAdd now (rgMaxFutureSkew g) \<or> \<not> timeAdd timestamp (rgWindow g) > now"

definition preflightLocked :: "u16 \<Rightarrow> RequestID \<Rightarrow> time \<Rightarrow> time \<Rightarrow> ReplayGuard \<Rightarrow> ReplayGuard \<times> wire_error option" where
  "preflightLocked senderID requestID timestamp now g =
     (if outsideWindow g timestamp now then (g, Some ErrTimestamp)
      else let g = purgeInvalidExpired now (purgeExpired now g); key = ReplayKey senderID requestID
           in if map_of (fst (rgSeen g)) key \<noteq> None then (g, Some ErrReplay)
              else if map_of (fst (rgInvalid g)) key \<noteq> None then (g, Some ErrReplay)
              else if int (length (fst (rgSeen g))) \<ge> rgMaxEntries g then (g, Some ErrReplayCacheFull)
              else (g, None))"

definition preflightInvalidLocked :: "u16 \<Rightarrow> RequestID \<Rightarrow> time \<Rightarrow> time \<Rightarrow> ReplayGuard \<Rightarrow> ReplayGuard \<times> wire_error option" where
  "preflightInvalidLocked senderID requestID timestamp now g =
     (if outsideWindow g timestamp now then (g, Some ErrTimestamp)
      else let g = purgeInvalidExpired now (purgeExpired now g); key = ReplayKey senderID requestID
           in if map_of (fst (rgSeen g)) key \<noteq> None then (g, Some ErrReplay)
              else if map_of (fst (rgInvalid g)) key \<noteq> None then (g, Some ErrReplay)
              else if int (length (fst (rgInvalid g))) \<ge> rgMaxEntries g then (g, Some ErrReplayCacheFull)
              else (g, None))"

definition Preflight :: "u16 \<Rightarrow> RequestID \<Rightarrow> time \<Rightarrow> time \<Rightarrow> ReplayGuard \<Rightarrow> ReplayGuard \<times> wire_error option" where
  "Preflight senderID requestID timestamp now g =
     (if \<not> rgClock g then (g, Some ErrReplayConfiguration)
      else preflightLocked senderID requestID timestamp now g)"

definition PreflightInvalid :: "u16 \<Rightarrow> RequestID \<Rightarrow> time \<Rightarrow> time \<Rightarrow> ReplayGuard \<Rightarrow> ReplayGuard \<times> wire_error option" where
  "PreflightInvalid senderID requestID timestamp now g =
     (if \<not> rgClock g then (g, Some ErrReplayConfiguration)
      else preflightInvalidLocked senderID requestID timestamp now g)"

definition recordKey :: "replayKey \<Rightarrow> time \<Rightarrow> replayCache \<Rightarrow> replayCache" where
  "recordKey key expiresAt cache =
     (AList.update key expiresAt (fst cache), heap_push snd (key, expiresAt) (snd cache))"

definition Commit :: "u16 \<Rightarrow> RequestID \<Rightarrow> time \<Rightarrow> time \<Rightarrow> ReplayGuard \<Rightarrow> ReplayGuard \<times> wire_error option" where
  "Commit senderID requestID timestamp now g =
     (if \<not> rgClock g then (g, Some ErrReplayConfiguration)
      else case preflightLocked senderID requestID timestamp now g of
        (g, Some e) \<Rightarrow> (g, Some e)
      | (g, None) \<Rightarrow>
          (g\<lparr>rgSeen := recordKey (ReplayKey senderID requestID) (timeAdd timestamp (rgWindow g)) (rgSeen g)\<rparr>, None))"

definition CommitInvalid :: "u16 \<Rightarrow> RequestID \<Rightarrow> time \<Rightarrow> time \<Rightarrow> ReplayGuard \<Rightarrow> ReplayGuard \<times> wire_error option" where
  "CommitInvalid senderID requestID timestamp now g =
     (if \<not> rgClock g then (g, Some ErrReplayConfiguration)
      else case preflightInvalidLocked senderID requestID timestamp now g of
        (g, Some e) \<Rightarrow> (g, Some e)
      | (g, None) \<Rightarrow>
          (g\<lparr>rgInvalid := recordKey (ReplayKey senderID requestID) (timeAdd timestamp (rgWindow g)) (rgInvalid g)\<rparr>, None))"

definition Accept :: "u16 \<Rightarrow> RequestID \<Rightarrow> time \<Rightarrow> time \<Rightarrow> ReplayGuard \<Rightarrow> ReplayGuard \<times> wire_error option" where
  "Accept senderID requestID timestamp now g = Commit senderID requestID timestamp now g"

function evict :: "int \<Rightarrow> replayCache \<Rightarrow> replayCache" where
  "evict maxEntries cache =
     (if int (length (fst cache)) \<ge> maxEntries \<and> snd cache \<noteq> [] then evict maxEntries (dropRoot cache) else cache)"
  by pat_completeness auto

termination
  by (relation "measure (\<lambda>(maxEntries, cache). length (snd cache))") (auto simp: length_dropRoot)

declare evict.simps [simp del]

definition RecordInvalid :: "u16 \<Rightarrow> RequestID \<Rightarrow> time \<Rightarrow> time \<Rightarrow> ReplayGuard \<Rightarrow> ReplayGuard" where
  "RecordInvalid senderID requestID timestamp now g =
     (if \<not> rgClock g \<or> rgMaxEntries g \<le> 0 then g
      else if outsideWindow g timestamp now then g
      else let g = purgeInvalidExpired now (purgeExpired now g); key = ReplayKey senderID requestID
           in if map_of (fst (rgSeen g)) key \<noteq> None then g
              else if map_of (fst (rgInvalid g)) key \<noteq> None then g
              else let g = g\<lparr>rgInvalid := evict (rgMaxEntries g) (rgInvalid g)\<rparr>
                   in if int (length (fst (rgInvalid g))) \<ge> rgMaxEntries g then g
                      else g\<lparr>rgInvalid := recordKey key (timeAdd timestamp (rgWindow g)) (rgInvalid g)\<rparr>)"

definition ValidateTimestamp :: "time \<Rightarrow> time \<Rightarrow> ReplayGuard \<Rightarrow> wire_error option" where
  "ValidateTimestamp timestamp now g =
     (if \<not> rgClock g then Some ErrReplayConfiguration
      else if outsideWindow g timestamp now then Some ErrTimestamp else None)"

section \<open>Runs\<close>

text \<open>A call of one of the guard's methods, with the clock reading it sees.\<close>

datatype replay_call =
    CallPreflight u16 RequestID time time
  | CallPreflightInvalid u16 RequestID time time
  | CallCommit u16 RequestID time time
  | CallCommitInvalid u16 RequestID time time
  | CallRecordInvalid u16 RequestID time time

fun call_now :: "replay_call \<Rightarrow> time" where
  "call_now (CallPreflight s r t now) = now"
| "call_now (CallPreflightInvalid s r t now) = now"
| "call_now (CallCommit s r t now) = now"
| "call_now (CallCommitInvalid s r t now) = now"
| "call_now (CallRecordInvalid s r t now) = now"

fun call_step :: "replay_call \<Rightarrow> ReplayGuard \<Rightarrow> ReplayGuard" where
  "call_step (CallPreflight s r t now) g = fst (Preflight s r t now g)"
| "call_step (CallPreflightInvalid s r t now) g = fst (PreflightInvalid s r t now g)"
| "call_step (CallCommit s r t now) g = fst (Commit s r t now g)"
| "call_step (CallCommitInvalid s r t now) g = fst (CommitInvalid s r t now g)"
| "call_step (CallRecordInvalid s r t now) g = RecordInvalid s r t now g"

lemmas replay_defs =
  Preflight_def PreflightInvalid_def Commit_def CommitInvalid_def RecordInvalid_def
  preflightLocked_def preflightInvalidLocked_def purgeExpired_def purgeInvalidExpired_def

section \<open>The caches\<close>

definition cache_ok :: "replayCache \<Rightarrow> bool" where
  "cache_ok c \<longleftrightarrow> distinct (map fst (fst c)) \<and> is_heap snd (length (snd c)) (snd c) \<and> mset (snd c) = mset (fst c)"

lemma mset_delete:
  "distinct (map fst xs) \<Longrightarrow> map_of xs k = Some e \<Longrightarrow> mset xs = add_mset (k, e) (mset (AList.delete k xs))"
proof (induction xs)
  case (Cons x xs)
  then show ?case
  proof (cases "fst x = k")
    case True
    have "AList.delete k xs = xs" using Cons.prems True by (auto simp: AList.delete_eq filter_id_conv image_iff)
    with Cons.prems True show ?thesis by (cases x) (simp add: AList.delete_eq)
  next
    case False
    with Cons show ?thesis by (cases x) (simp add: AList.delete_eq)
  qed
qed simp

lemma cache_ok_lookup: "cache_ok c \<Longrightarrow> map_of (fst c) k = Some e \<longleftrightarrow> (k, e) \<in> set (snd c)"
  unfolding cache_ok_def by (metis map_of_eq_Some_iff set_mset_mset)

lemma dropRoot_ok:
  assumes "cache_ok c" "snd c \<noteq> []"
  obtains k e where "snd c ! 0 = (k, e)" "map_of (fst c) k = Some e"
    "cache_ok (dropRoot c)" "fst (dropRoot c) = AList.delete k (fst c)"
proof -
  obtain k e where root: "snd c ! 0 = (k, e)" by (cases "snd c ! 0")
  have heap: "is_heap snd (length (snd c)) (snd c)" and dist: "distinct (map fst (fst c))"
    and bag: "mset (snd c) = mset (fst c)"
    using assms(1) by (auto simp: cache_ok_def)
  note pop = heap_pop_correct[OF heap assms(2)]
  have look: "map_of (fst c) k = Some e"
    unfolding cache_ok_lookup[OF assms(1)] using root assms(2) by (metis length_greater_0_conv nth_mem)
  have drop: "dropRoot c = (AList.delete k (fst c), snd (heap_pop snd (snd c)))"
    using pop(1) root look by (cases "heap_pop snd (snd c)") (simp add: dropRoot_def)
  have "add_mset (k, e) (mset (snd (heap_pop snd (snd c)))) = add_mset (k, e) (mset (AList.delete k (fst c)))"
    using pop(3) mset_delete[OF dist look] root bag by simp
  then have "cache_ok (dropRoot c)"
    using pop(2) dist by (simp add: cache_ok_def drop distinct_delete)
  then show thesis using that root look drop by simp
qed

lemma purge_ok:
  "cache_ok c \<Longrightarrow> cache_ok (purge now c) \<and> length (fst (purge now c)) \<le> length (fst c) \<and>
     (\<forall>k e. map_of (fst (purge now c)) k = Some e \<longleftrightarrow> map_of (fst c) k = Some e \<and> now < e)"
proof (induction now c rule: purge.induct)
  case (1 now c)
  show ?case
  proof (cases "snd c \<noteq> [] \<and> \<not> snd (snd c ! 0) > now")
    case True
    from dropRoot_ok[OF "1.prems"] True obtain k e where d: "snd c ! 0 = (k, e)" "map_of (fst c) k = Some e"
      "cache_ok (dropRoot c)" "fst (dropRoot c) = AList.delete k (fst c)" by blast
    have "length (AList.delete k (fst c)) \<le> length (fst c)" by (simp add: AList.delete_eq)
    then show ?thesis
      using "1.IH"[OF True d(3)] True d by (auto simp: purge.simps[of now c] delete_conv' split: if_splits)
  next
    case False
    have "now < e" if "map_of (fst c) k = Some e" for k e
    proof -
      have "(k, e) \<in> set (snd c)" using that cache_ok_lookup[OF "1.prems"] by simp
      then obtain i where i: "i < length (snd c)" "snd c ! i = (k, e)" by (meson in_set_conv_nth)
      then have "snd (snd c ! 0) \<le> e"
        using is_heap_root[of snd "length (snd c)" "snd c" i] "1.prems" by (simp add: cache_ok_def)
      moreover have "snd c \<noteq> []" using i by auto
      ultimately show ?thesis using False by auto
    qed
    with False "1.prems" show ?thesis by (auto simp: purge.simps[of now c])
  qed
qed

lemma evict_ok:
  "cache_ok c \<Longrightarrow> cache_ok (evict m c) \<and> length (fst (evict m c)) \<le> length (fst c) \<and>
     map_of (fst (evict m c)) \<subseteq>\<^sub>m map_of (fst c)"
proof (induction m c rule: evict.induct)
  case (1 m c)
  show ?case
  proof (cases "int (length (fst c)) \<ge> m \<and> snd c \<noteq> []")
    case True
    from dropRoot_ok[OF "1.prems"] True obtain k e where d: "cache_ok (dropRoot c)"
      "fst (dropRoot c) = AList.delete k (fst c)" by blast
    have "length (fst (dropRoot c)) \<le> length (fst c)" by (simp add: d(2) AList.delete_eq)
    moreover have "map_of (fst (dropRoot c)) \<subseteq>\<^sub>m map_of (fst c)"
      by (simp add: d(2) delete_conv' upd_None_map_le)
    moreover have "evict m c = evict m (dropRoot c)" using True by (simp add: evict.simps[of m c])
    ultimately show ?thesis using "1.IH"[OF True d(1)] by (auto intro: map_le_trans)
  next
    case False
    then have "evict m c = c" by (simp only: evict.simps[of m c] if_False)
    with "1.prems" show ?thesis by simp
  qed
qed

lemma length_update_new: "map_of xs k = None \<Longrightarrow> AList.update k v xs = xs @ [(k, v)]"
  by (induction xs) (auto split: if_splits)

lemma recordKey_ok:
  assumes "cache_ok c" "map_of (fst c) key = None"
  shows "cache_ok (recordKey key e c)" "length (fst (recordKey key e c)) = Suc (length (fst c))"
    "map_of (fst (recordKey key e c)) = (map_of (fst c))(key \<mapsto> e)"
proof -
  have new: "fst (recordKey key e c) = fst c @ [(key, e)]"
    using assms(2) by (simp add: recordKey_def length_update_new)
  have "key \<notin> fst ` set (fst c)" using assms(2) by (simp add: map_of_eq_None_iff)
  then show "cache_ok (recordKey key e c)"
    using assms(1) heap_push_correct[of snd "snd c" "(key, e)"] unfolding cache_ok_def new
    by (simp add: recordKey_def)
  show "length (fst (recordKey key e c)) = Suc (length (fst c))" by (simp add: new)
  show "map_of (fst (recordKey key e c)) = (map_of (fst c))(key \<mapsto> e)"
    by (simp add: recordKey_def update_conv')
qed

section \<open>The guard\<close>

text \<open>
  Both caches are consistent with their heaps, within capacity and disjoint.  Under it a call
  never drops an unexpired accepted entry.
\<close>

definition guard_ok :: "ReplayGuard \<Rightarrow> bool" where
  "guard_ok g \<longleftrightarrow> cache_ok (rgSeen g) \<and> cache_ok (rgInvalid g) \<and>
     int (length (fst (rgSeen g))) \<le> max 0 (rgMaxEntries g) \<and>
     int (length (fst (rgInvalid g))) \<le> max 0 (rgMaxEntries g) \<and>
     (\<forall>k. map_of (fst (rgSeen g)) k = None \<or> map_of (fst (rgInvalid g)) k = None)"

definition guard_step :: "time \<Rightarrow> ReplayGuard \<Rightarrow> ReplayGuard \<Rightarrow> bool" where
  "guard_step now g g' \<longleftrightarrow> guard_ok g' \<and> rgWindow g' = rgWindow g \<and> rgMaxEntries g' = rgMaxEntries g \<and> rgClock g' = rgClock g \<and>
     (\<forall>k e. map_of (fst (rgSeen g)) k = Some e \<longrightarrow> now < e \<longrightarrow> map_of (fst (rgSeen g')) k = Some e)"

definition purged :: "time \<Rightarrow> ReplayGuard \<Rightarrow> ReplayGuard" where
  "purged now g = purgeInvalidExpired now (purgeExpired now g)"

lemma purged_step:
  assumes "guard_ok g"
  shows "guard_step now g (purged now g)"
    and "map_of (fst (rgSeen (purged now g))) k = Some e \<longleftrightarrow> map_of (fst (rgSeen g)) k = Some e \<and> now < e"
    and "map_of (fst (rgInvalid (purged now g))) k = Some e \<longleftrightarrow> map_of (fst (rgInvalid g)) k = Some e \<and> now < e"
proof -
  note s = purge_ok[of "rgSeen g" now] and i = purge_ok[of "rgInvalid g" now]
  show "map_of (fst (rgSeen (purged now g))) k = Some e \<longleftrightarrow> map_of (fst (rgSeen g)) k = Some e \<and> now < e"
    using s assms by (simp add: purged_def purgeExpired_def purgeInvalidExpired_def guard_ok_def)
  show "map_of (fst (rgInvalid (purged now g))) k = Some e \<longleftrightarrow> map_of (fst (rgInvalid g)) k = Some e \<and> now < e"
    using i assms by (simp add: purged_def purgeExpired_def purgeInvalidExpired_def guard_ok_def)
  have "map_of (fst (purge now (rgSeen g))) k = None \<or> map_of (fst (purge now (rgInvalid g))) k = None" for k
    using s i assms unfolding guard_ok_def by (metis option.exhaust)
  then show "guard_step now g (purged now g)"
    using s i assms
    by (auto simp: guard_step_def guard_ok_def purged_def purgeExpired_def purgeInvalidExpired_def)
qed

text \<open>A cache is in use at an instant when a capacity's worth of distinct identities in it is unexpired then.\<close>

definition in_use :: "int \<Rightarrow> time \<Rightarrow> replayCache \<Rightarrow> bool" where
  "in_use capacity now cache \<longleftrightarrow> (\<exists>keys. distinct keys \<and> capacity \<le> int (length keys) \<and>
     (\<forall>key\<in>set keys. \<exists>e>now. map_of (fst cache) key = Some e))"

lemma in_useI:
  assumes "cache_ok c'" "capacity \<le> int (length (fst c'))"
    and "\<And>k e. map_of (fst c') k = Some e \<Longrightarrow> map_of (fst c) k = Some e \<and> now < e"
  shows "in_use capacity now c"
proof -
  have "\<exists>e>now. map_of (fst c) key = Some e" if "key \<in> set (map fst (fst c'))" for key
    using that assms(3)[of key] by (cases "map_of (fst c') key") (auto simp: map_of_eq_None_iff)
  then show ?thesis
    using assms(1,2) unfolding in_use_def cache_ok_def by (intro exI[of _ "map fst (fst c')"]) simp
qed

lemma preflight_full:
  assumes "guard_ok g"
  shows "snd (preflightLocked s r t now g) = Some ErrReplayCacheFull \<Longrightarrow> in_use (rgMaxEntries g) now (rgSeen g)"
    and "snd (preflightInvalidLocked s r t now g) = Some ErrReplayCacheFull \<Longrightarrow> in_use (rgMaxEntries g) now (rgInvalid g)"
proof -
  have p: "cache_ok (rgSeen (purged now g))" "cache_ok (rgInvalid (purged now g))" "rgMaxEntries (purged now g) = rgMaxEntries g"
    using purged_step(1)[OF assms, of now] by (simp_all add: guard_step_def guard_ok_def)
  show "in_use (rgMaxEntries g) now (rgSeen g)" if "snd (preflightLocked s r t now g) = Some ErrReplayCacheFull"
    using that p(3) unfolding preflightLocked_def Let_def purged_def[symmetric]
    by (intro in_useI[OF p(1)]) (auto simp: purged_step(2)[OF assms] split: if_splits)
  show "in_use (rgMaxEntries g) now (rgInvalid g)" if "snd (preflightInvalidLocked s r t now g) = Some ErrReplayCacheFull"
    using that p(3) unfolding preflightInvalidLocked_def Let_def purged_def[symmetric]
    by (intro in_useI[OF p(2)]) (auto simp: purged_step(3)[OF assms] split: if_splits)
qed

lemma guard_step_refl: "guard_ok g \<Longrightarrow> guard_step now g g"
  by (simp add: guard_step_def)

text \<open>The two ways of recording a key that is in neither cache.\<close>

lemma record_seen_step:
  assumes "guard_step now g h" "map_of (fst (rgSeen h)) key = None" "map_of (fst (rgInvalid h)) key = None"
    and "int (length (fst (rgSeen h))) < rgMaxEntries h"
  shows "guard_step now g (h\<lparr>rgSeen := recordKey key e (rgSeen h)\<rparr>)"
proof -
  have h: "guard_ok h" using assms(1) by (simp add: guard_step_def)
  then have "cache_ok (rgSeen h)" by (simp add: guard_ok_def)
  note r = recordKey_ok[OF this assms(2), of e]
  have "guard_ok (h\<lparr>rgSeen := recordKey key e (rgSeen h)\<rparr>)"
    using h r assms(3,4) by (auto simp: guard_ok_def)
  then show ?thesis using assms(1,2) r(3) by (auto simp: guard_step_def)
qed

lemma shrink_invalid_step:
  assumes "guard_step now g h" "cache_ok c" "length (fst c) \<le> length (fst (rgInvalid h))"
    "map_of (fst c) \<subseteq>\<^sub>m map_of (fst (rgInvalid h))"
  shows "guard_step now g (h\<lparr>rgInvalid := c\<rparr>)"
proof -
  have "map_of (fst c) k = None" if "map_of (fst (rgInvalid h)) k = None" for k
    using assms(4) that by (metis domIff map_le_def)
  then have "guard_ok (h\<lparr>rgInvalid := c\<rparr>)"
    using assms(1-3) unfolding guard_step_def guard_ok_def by fastforce
  then show ?thesis using assms(1) by (simp add: guard_step_def)
qed

lemma record_invalid_step:
  assumes "guard_step now g h" "cache_ok c" "map_of (fst c) \<subseteq>\<^sub>m map_of (fst (rgInvalid h))"
    and "map_of (fst (rgSeen h)) key = None" "map_of (fst (rgInvalid h)) key = None"
    and "int (length (fst c)) < rgMaxEntries h"
  shows "guard_step now g (h\<lparr>rgInvalid := recordKey key e c\<rparr>)"
proof -
  have h: "guard_ok h" using assms(1) by (simp add: guard_step_def)
  have none: "map_of (fst c) k = None" if "map_of (fst (rgInvalid h)) k = None" for k
    using assms(3) that by (metis domIff map_le_def)
  note r = recordKey_ok[OF assms(2) none[OF assms(5)], of e]
  have "map_of (fst (rgSeen h)) k = None \<or> ((map_of (fst c))(key \<mapsto> e)) k = None" for k
    using h none assms(4) by (auto simp: guard_ok_def)
  then have "guard_ok (h\<lparr>rgInvalid := recordKey key e c\<rparr>)"
    using h r assms(6) by (auto simp: guard_ok_def)
  then show ?thesis using assms(1) by (simp add: guard_step_def)
qed

lemma preflightLocked_step:
  assumes "guard_ok g" "preflightLocked s r t now g = (h, err)"
  shows "guard_step now g h"
    and "err = None \<Longrightarrow> \<not> outsideWindow g t now \<and> h = purged now g \<and> map_of (fst (rgSeen h)) (ReplayKey s r) = None
      \<and> map_of (fst (rgInvalid h)) (ReplayKey s r) = None \<and> int (length (fst (rgSeen h))) < rgMaxEntries h"
  using assms(2) purged_step(1)[OF assms(1)] guard_step_refl[OF assms(1)]
  unfolding preflightLocked_def Let_def purged_def[symmetric]
  by (auto split: if_splits)

lemma preflightInvalidLocked_step:
  assumes "guard_ok g" "preflightInvalidLocked s r t now g = (h, err)"
  shows "guard_step now g h"
    and "err = None \<Longrightarrow> \<not> outsideWindow g t now \<and> h = purged now g \<and> map_of (fst (rgSeen h)) (ReplayKey s r) = None
      \<and> map_of (fst (rgInvalid h)) (ReplayKey s r) = None \<and> int (length (fst (rgInvalid h))) < rgMaxEntries h"
  using assms(2) purged_step(1)[OF assms(1)] guard_step_refl[OF assms(1)]
  unfolding preflightInvalidLocked_def Let_def purged_def[symmetric]
  by (auto split: if_splits)

lemma Commit_step:
  assumes "guard_ok g"
  shows "guard_step now g (fst (Commit s r t now g))"
proof (cases "preflightLocked s r t now g")
  case (Pair h err)
  note p = preflightLocked_step[OF assms Pair]
  show ?thesis
    using p guard_step_refl[OF assms] Pair
    by (cases err) (auto simp: Commit_def intro!: record_seen_step)
qed

lemma CommitInvalid_step:
  assumes "guard_ok g"
  shows "guard_step now g (fst (CommitInvalid s r t now g))"
proof (cases "preflightInvalidLocked s r t now g")
  case (Pair h err)
  note p = preflightInvalidLocked_step[OF assms Pair]
  have "cache_ok (rgInvalid h)" using p(1) by (simp add: guard_step_def guard_ok_def)
  then show ?thesis
    using p guard_step_refl[OF assms] Pair
    by (cases err) (auto simp: CommitInvalid_def intro!: record_invalid_step)
qed

lemma RecordInvalid_step:
  assumes "guard_ok g"
  shows "guard_step now g (RecordInvalid s r t now g)"
proof -
  note p = purged_step(1)[OF assms, of now]
  have "cache_ok (rgInvalid (purged now g))" using p by (simp add: guard_step_def guard_ok_def)
  note ev = evict_ok[OF this, of "rgMaxEntries (purged now g)"]
  have "guard_step now g ((purged now g)\<lparr>rgInvalid := evict (rgMaxEntries (purged now g)) (rgInvalid (purged now g))\<rparr>)"
    using p ev by (intro shrink_invalid_step) auto
  then show ?thesis
    using p ev guard_step_refl[OF assms]
    unfolding RecordInvalid_def Let_def purged_def[symmetric]
    by (auto intro!: record_invalid_step)
qed

lemma call_step_ok: "guard_ok g \<Longrightarrow> guard_step (call_now c) g (call_step c g)"
  by (cases c)
    (auto simp: Preflight_def PreflightInvalid_def Commit_step CommitInvalid_step RecordInvalid_step guard_step_refl
      intro: preflightLocked_step(1)[OF _ surjective_pairing] preflightInvalidLocked_step(1)[OF _ surjective_pairing])

lemma NewReplayGuard_ok: "guard_ok (NewReplayGuard c w k m)"
  by (simp add: guard_ok_def NewReplayGuard_def cache_ok_def is_heap_def)

lemma calls_ok:
  assumes "guard_ok g"
  shows "guard_ok (fold call_step calls g) \<and> rgWindow (fold call_step calls g) = rgWindow g \<and>
    rgMaxEntries (fold call_step calls g) = rgMaxEntries g \<and> rgClock (fold call_step calls g) = rgClock g"
  using assms
proof (induction calls arbitrary: g)
  case (Cons c calls)
  from call_step_ok[OF Cons.prems, of c] Cons.IH[of "call_step c g"] show ?case
    by (simp add: guard_step_def)
qed simp

text \<open>An accepted entry stays in the cache until the clock reaches its expiry.\<close>

lemma calls_keep:
  assumes "guard_ok g" "map_of (fst (rgSeen g)) key = Some e" "\<forall>c\<in>set calls. call_now c < e"
  shows "map_of (fst (rgSeen (fold call_step calls g))) key = Some e"
  using assms
proof (induction calls arbitrary: g)
  case (Cons c calls)
  from call_step_ok[OF Cons.prems(1), of c] Cons.prems Cons.IH[of "call_step c g"] show ?case
    by (simp add: guard_step_def)
qed simp

end
