(* ===== verification/Wire_Properties.thy ===== *)
theory Wire_Properties
  imports Wire_Stream Wire_Replay
begin

text \<open>
  The properties of the wire package: frames are canonical, a TCP stream of frames delivers a
  prefix of what was written, and the replay guard accepts a request once and never keeps more
  than its capacity.
\<close>

section \<open>Frames\<close>

text \<open>C20.  Under the HMAC authenticator \<open>Decode\<close> accepts exactly the byte strings that \<open>Encode\<close>
  produces for the header and payload it returns, under the same limits: the two are inverse to
  each other on accepted frames, so every accepted frame is canonical and authentic.\<close>

theorem frame_canonical:
  "Decode encoded (Some (NewHMACAuthenticator key)) limits = Inr frame \<longleftrightarrow>
   Encode (fHeader frame) (fPayload frame) (Some (NewHMACAuthenticator key)) limits = Inr encoded"
  by (rule hmac.Decode_iff_Encode)

text \<open>C21.  If a sequence of frames is written to a TCP stream, with writes that may be short or fail at
  any point, then a reader of any prefix of what reached the wire obtains a prefix of the sequence
  and then at most an end-of-file error; it obtains every frame it asks for when all writes
  succeeded and all bytes arrived.\<close>

theorem stream_prefix:
  assumes "WriteFrames w k (Some (NewHMACAuthenticator key)) limits frames = (out, k', errs)"
    and "resolveLimits limits = Inr resolved"
  shows "(\<exists>j. fst (ReadFrames n (Some (NewHMACAuthenticator key)) limits (take m out)) = take j frames) \<and>
    set (snd (ReadFrames n (Some (NewHMACAuthenticator key)) limits (take m out))) \<subseteq> {ErrEOF} \<and>
    (errs = [] \<and> length out \<le> m \<longrightarrow>
      fst (ReadFrames n (Some (NewHMACAuthenticator key)) limits (take m out)) = take n frames)"
  using hmac.ReadFrames_written[OF assms] .

definition sample_frame :: Frame where
  "sample_frame = \<lparr>fHeader = \<lparr>hVersion = 1, hMessage = 100, hClusterID = 7, hSenderID = 2, hRequestID = 9,
     hTimestampMillis = 1000, hCodec = 2\<rparr>, fPayload = [1, 2, 3]\<rparr>"

definition whole_writes :: writer where
  "whole_writes k payload = (int (length payload), None)"

lemma default_limits: "resolveLimits DefaultLimits = Inr DefaultLimits"
  by (simp add: resolveLimits_Inr fillLimits_def DefaultLimits_def MaxCraneDatagramBytesV1_def
      FixedHeaderSize_def MACSize_def validateLimitDomain_def uint64_of_def)

lemma sample_encodes:
  "\<exists>body. Encode (fHeader sample_frame) (fPayload sample_frame) (Some (NewHMACAuthenticator [])) DefaultLimits = Inr body
     \<and> length body = 90"
proof -
  have "validateHeader (fHeader sample_frame) DefaultLimits = None"
    by (simp add: sample_frame_def validateHeader_def Version1_def isReservedCraneMessage_def isActiveCraneMessage_def
        MessageCraneWorkerHandshake_def MessageCraneSubmitRequest_def isCraneDatagramMessage_def MessageCraneTupleDelivery_def
        MessageCraneTupleDeliveryAck_def MessageCraneTupleDeliveryNack_def CodecGob_def CodecBinary_def DefaultLimits_def)
  moreover have "effectiveResolvedLimit (hMessage (fHeader sample_frame)) DefaultLimits = 8 * 2 ^ 20"
    by (simp add: sample_frame_def effectiveResolvedLimit_def isSWIMDatagramMessage_def isCraneDatagramMessage_def
        MessageSWIMPing_def MessageSWIMAck_def MessageSWIMPingReq_def MessageSWIMIndirectAck_def MessageSWIMGossip_def
        MessageSWIMDigest_def MessageCraneTupleDelivery_def MessageCraneTupleDeliveryAck_def
        MessageCraneTupleDeliveryNack_def DefaultLimits_def)
  ultimately show ?thesis
    using default_limits unfolding hmac.Encode_Inr
    by (auto simp: sample_frame_def FixedHeaderSize_def MACSize_def hmac.length_aSign)
qed

lemma whole_write: "writeAll whole_writes k payload = (payload, if payload = [] then k else Suc k, None)"
  by (simp add: writeAll.simps[of whole_writes] whole_writes_def)

theorem stream_prefix_witness:
  "\<exists>out. WriteFrames whole_writes 0 (Some (NewHMACAuthenticator [])) DefaultLimits [sample_frame] = (out, 2, [])
     \<and> fst (ReadFrames 1 (Some (NewHMACAuthenticator [])) DefaultLimits (take (length out) out)) = [sample_frame]"
proof -
  obtain body where body: "Encode (fHeader sample_frame) (fPayload sample_frame) (Some (NewHMACAuthenticator [])) DefaultLimits = Inr body"
    "length body = 90" using sample_encodes by blast
  then have "body \<noteq> []" by auto
  with body have w: "WriteFrames whole_writes 0 (Some (NewHMACAuthenticator [])) DefaultLimits [sample_frame] =
      (be_bytes 4 (90 :: u32) @ body, 2, [])"
    by (simp add: WriteTCPFrame_def whole_write del: be_bytes.simps) (simp add: numeral_eq_Suc)
  show ?thesis
    using stream_prefix[OF w default_limits, of 1 "length (be_bytes 4 (90 :: u32) @ body)"] w by auto
qed

section \<open>Replay protection\<close>

text \<open>C19.  Along every run of a replay guard under a clock that does not go back, a request identity that
  was accepted is accepted again, as valid or as invalid, only after the window of the first
  acceptance has passed, and then with another timestamp: one authenticated message is accepted
  at most once, ever.\<close>

theorem replay_accepts_once:
  assumes "g = fold call_step before (NewReplayGuard clock window skew maxEntries)"
    and "Commit sender request timestamp now g = (g1, None)"
    and "sorted (now # map call_now after @ [now'])"
    and "snd (Commit sender request timestamp' now' (fold call_step after g1)) = None
       \<or> snd (CommitInvalid sender request timestamp' now' (fold call_step after g1)) = None"
  shows "timeAdd timestamp window \<le> now' \<and> timestamp' \<noteq> timestamp"
proof -
  let ?key = "ReplayKey sender request" and ?e = "timeAdd timestamp window" and ?g = "fold call_step after g1"
  have g: "guard_ok g" "rgWindow g = window"
    using calls_ok[OF NewReplayGuard_ok] assms(1) by (simp_all add: NewReplayGuard_def)
  have g1: "guard_ok g1" "rgWindow g1 = window"
    using Commit_step[OF g(1), of now sender request timestamp] assms(2) g(2) by (simp_all add: guard_step_def)
  then have g2: "guard_ok ?g" "rgWindow ?g = window" using calls_ok[OF g1(1)] by simp_all
  have seen: "map_of (fst (rgSeen g1)) ?key = Some ?e"
    using assms(2) g preflightLocked_step[OF g(1)]
    by (auto simp: Commit_def purged_step guard_step_def recordKey_def update_conv' split: if_splits option.splits prod.splits)
  obtain h where h: "\<not> outsideWindow ?g timestamp' now'" "h = purged now' ?g" "map_of (fst (rgSeen h)) ?key = None"
    using assms(4) preflightLocked_step(2)[OF g2(1)] preflightInvalidLocked_step(2)[OF g2(1)]
    by (auto simp: Commit_def CommitInvalid_def split: if_splits option.splits prod.splits)
  have late: "?e \<le> now'"
  proof (rule ccontr)
    assume "\<not> ?e \<le> now'"
    then have "\<forall>c\<in>set after. call_now c < ?e" using assms(3) by (auto simp: sorted_append)
    then have "map_of (fst (rgSeen ?g)) ?key = Some ?e" using calls_keep[OF g1(1) seen] by blast
    then have "map_of (fst (rgSeen h)) ?key = Some ?e"
      unfolding h(2) purged_step(2)[OF g2(1)] using \<open>\<not> ?e \<le> now'\<close> by simp
    with h(3) show False by simp
  qed
  moreover have "now' < timeAdd timestamp' window" using h(1) g2(2) by (simp add: outsideWindow_def)
  ultimately show ?thesis by auto
qed

theorem replay_accepts_once_witness:
  "(let g1 = fst (Commit 1 2 100 100 (NewReplayGuard True 50 5 4)) in
     snd (Commit 1 2 100 100 (NewReplayGuard True 50 5 4)) = None \<and>
     snd (Commit 1 2 100 120 g1) = Some ErrReplay \<and> snd (Commit 1 2 200 200 g1) = None \<and> timeAdd 100 50 \<le> 200)"
proof -
  let ?new = "NewReplayGuard True 50 5 4"
  have eval: "snd (Commit 1 2 100 100 ?new) = None"
    "snd (Commit 1 2 100 120 (fst (Commit 1 2 100 100 ?new))) = Some ErrReplay"
    "snd (Commit 1 2 200 200 (fst (Commit 1 2 100 100 ?new))) = None"
    by code_simp+
  have first: "Commit 1 2 100 100 ?new = (fst (Commit 1 2 100 100 ?new), None)"
    using eval(1) by (rule prod_eqI[OF fst_conv[symmetric] trans[OF _ snd_conv[symmetric]]])
  have "timeAdd 100 50 \<le> 200 \<and> (200 :: time) \<noteq> 100"
    by (rule replay_accepts_once[of ?new "[]" True 50 5 4 1 2 100 100 _ "[]" 200 200, OF _ first])
      (use eval in simp_all)
  with eval show ?thesis unfolding Let_def by blast
qed

text \<open>C32.  In every run of a replay guard each cache holds at most its capacity of identities, its heap has
  exactly the entries of its map, no identity is in both caches, and a full cache is reported only when
  that cache is in use: \<open>Preflight\<close> and \<open>Commit\<close> report it only when a capacity's worth of distinct
  accepted identities is still unexpired, \<open>PreflightInvalid\<close> and \<open>CommitInvalid\<close> only when a capacity's
  worth of distinct identities recorded as invalid is.\<close>

theorem replay_bounded:
  assumes "g = fold call_step calls (NewReplayGuard clock window skew maxEntries)"
  shows "int (length (fst (rgSeen g))) \<le> max 0 maxEntries \<and> int (length (fst (rgInvalid g))) \<le> max 0 maxEntries \<and>
    mset (snd (rgSeen g)) = mset (fst (rgSeen g)) \<and> mset (snd (rgInvalid g)) = mset (fst (rgInvalid g)) \<and>
    (\<forall>key. map_of (fst (rgSeen g)) key = None \<or> map_of (fst (rgInvalid g)) key = None) \<and>
    (snd (Preflight sender request timestamp now g) = Some ErrReplayCacheFull
       \<or> snd (Commit sender request timestamp now g) = Some ErrReplayCacheFull \<longrightarrow>
      (\<exists>keys. distinct keys \<and> maxEntries \<le> int (length keys) \<and>
        (\<forall>key\<in>set keys. \<exists>e>now. map_of (fst (rgSeen g)) key = Some e))) \<and>
    (snd (PreflightInvalid sender request timestamp now g) = Some ErrReplayCacheFull
       \<or> snd (CommitInvalid sender request timestamp now g) = Some ErrReplayCacheFull \<longrightarrow>
      (\<exists>keys. distinct keys \<and> maxEntries \<le> int (length keys) \<and>
        (\<forall>key\<in>set keys. \<exists>e>now. map_of (fst (rgInvalid g)) key = Some e)))"
proof -
  have g: "guard_ok g" "rgMaxEntries g = maxEntries"
    using calls_ok[OF NewReplayGuard_ok] assms by (simp_all add: NewReplayGuard_def)
  have "in_use maxEntries now (rgSeen g)"
    if "snd (Preflight sender request timestamp now g) = Some ErrReplayCacheFull
      \<or> snd (Commit sender request timestamp now g) = Some ErrReplayCacheFull"
    using that preflight_full(1)[OF g(1), of sender request timestamp now] g(2)
    by (auto simp: Preflight_def Commit_def split: if_splits prod.splits option.splits)
  moreover have "in_use maxEntries now (rgInvalid g)"
    if "snd (PreflightInvalid sender request timestamp now g) = Some ErrReplayCacheFull
      \<or> snd (CommitInvalid sender request timestamp now g) = Some ErrReplayCacheFull"
    using that preflight_full(2)[OF g(1), of sender request timestamp now] g(2)
    by (auto simp: PreflightInvalid_def CommitInvalid_def split: if_splits prod.splits option.splits)
  ultimately show ?thesis using g unfolding guard_ok_def cache_ok_def in_use_def by simp
qed

theorem replay_bounded_witness:
  "(let g = fold call_step [CallCommit 1 2 100 100, CallCommitInvalid 1 3 100 100] (NewReplayGuard True 50 5 1) in
     snd (Commit 1 4 100 100 g) = Some ErrReplayCacheFull \<and> length (fst (rgSeen g)) = 1 \<and>
     snd (CommitInvalid 1 4 100 100 g) = Some ErrReplayCacheFull \<and>
     (\<exists>keys. distinct keys \<and> 1 \<le> int (length keys) \<and>
        (\<forall>key\<in>set keys. \<exists>e>100. map_of (fst (rgSeen g)) key = Some e)) \<and>
     (\<exists>keys. distinct keys \<and> 1 \<le> int (length keys) \<and>
        (\<forall>key\<in>set keys. \<exists>e>100. map_of (fst (rgInvalid g)) key = Some e)))"
proof -
  let ?g = "fold call_step [CallCommit 1 2 100 100, CallCommitInvalid 1 3 100 100] (NewReplayGuard True 50 5 1)"
  have "snd (Commit 1 4 100 100 ?g) = Some ErrReplayCacheFull" "length (fst (rgSeen ?g)) = 1"
      "snd (CommitInvalid 1 4 100 100 ?g) = Some ErrReplayCacheFull"
    by code_simp+
  then show ?thesis
    using replay_bounded[OF refl, of "[CallCommit 1 2 100 100, CallCommitInvalid 1 3 100 100]" True 50 5 1 1 4 100 100]
    by (simp add: Let_def)
qed

end
