(* ===== verification/Config_Endpoint.thy ===== *)
theory Config_Endpoint
  imports Go_Library
begin

text \<open>
  Service ports and endpoint derivation of \<open>internal/config\<close> (\<open>service.go\<close>, \<open>endpoint.go\<close>, the host
  checks of \<open>config.go\<close>).  The address parsers of \<open>net\<close> and \<open>net/netip\<close> are parameters: what the
  code asks of them is whether a host is an IP literal, its canonical spelling after unmapping,
  and whether it is the unspecified address.
\<close>

record NetLibrary =
  nlParseIP :: "string \<Rightarrow> bool option" \<comment> \<open>\<open>net.ParseIP\<close>, with \<open>IsUnspecified\<close>\<close>
  nlParseAddr :: "string \<Rightarrow> (string \<times> bool) option" \<comment> \<open>\<open>netip.ParseAddr\<close>: \<open>Unmap().String()\<close>, \<open>IsUnspecified\<close>\<close>

datatype config_error =
    HostEmpty | HostTooLong | HostLabelLength | HostLabelEdge | HostLabelByte
  | HostWildcard | PortZero | PortOverflow | UnknownService | NotCanonical | BadRegistry | PortBelowOffset

section \<open>Services\<close>

type_synonym Service = u8

definition ServiceSWIMPing :: Service where "ServiceSWIMPing = 0"

definition ServiceSWIMACK :: Service where "ServiceSWIMACK = 1"

definition ServiceSWIMSnapshot :: Service where "ServiceSWIMSnapshot = 2"

definition ServiceCraneWorker :: Service where "ServiceCraneWorker = 3"

definition ServiceTopologyControl :: Service where "ServiceTopologyControl = 4"

definition ServiceCraneTupleACK :: Service where "ServiceCraneTupleACK = 5"

definition ServiceRaftRPC :: Service where "ServiceRaftRPC = 6"

datatype Transport = TransportUDP | TransportTCP

record ServiceSpec =
  svService :: Service
  svName :: string
  svOffset :: u16
  svTransport :: Transport

definition serviceSpecs :: "ServiceSpec list" where
  "serviceSpecs =
    [\<lparr>svService = ServiceSWIMPing, svName = ''swim-ping'', svOffset = 0, svTransport = TransportUDP\<rparr>,
     \<lparr>svService = ServiceSWIMACK, svName = ''swim-ack'', svOffset = 1, svTransport = TransportUDP\<rparr>,
     \<lparr>svService = ServiceSWIMSnapshot, svName = ''swim-snapshot'', svOffset = 2, svTransport = TransportTCP\<rparr>,
     \<lparr>svService = ServiceCraneWorker, svName = ''crane-worker'', svOffset = 3, svTransport = TransportTCP\<rparr>,
     \<lparr>svService = ServiceTopologyControl, svName = ''topology-control'', svOffset = 4, svTransport = TransportTCP\<rparr>,
     \<lparr>svService = ServiceCraneTupleACK, svName = ''crane-tuple-ack'', svOffset = 5, svTransport = TransportUDP\<rparr>,
     \<lparr>svService = ServiceRaftRPC, svName = ''raft-rpc'', svOffset = 6, svTransport = TransportTCP\<rparr>]"

definition LookupService :: "Service \<Rightarrow> ServiceSpec option" where
  "LookupService service =
     (if unat service \<ge> length serviceSpecs then None
      else let spec = serviceSpecs ! unat service
           in if svService spec = service then Some spec else None)"

section \<open>Hosts\<close>

definition isASCIIAlphaNumeric :: "char \<Rightarrow> bool" where
  "isASCIIAlphaNumeric value \<longleftrightarrow>
     (let v = of_char value :: nat in 97 \<le> v \<and> v \<le> 122 \<or> 65 \<le> v \<and> v \<le> 90 \<or> 48 \<le> v \<and> v \<le> 57)"

text \<open>\<open>strings.Split(s, ".")\<close>\<close>

fun splitDots :: "string \<Rightarrow> string list" where
  "splitDots [] = [[]]"
| "splitDots (c # cs) =
     (if c = CHR ''.'' then [] # splitDots cs
      else (case splitDots cs of [] \<Rightarrow> [[c]] | l # ls \<Rightarrow> (c # l) # ls))"

definition validateLabel :: "string \<Rightarrow> config_error option" where
  "validateLabel label =
     (if length label = 0 \<or> length label > 63 then Some HostLabelLength
      else if \<not> isASCIIAlphaNumeric (label ! 0) \<or> \<not> isASCIIAlphaNumeric (label ! (length label - 1))
      then Some HostLabelEdge
      else if list_ex (\<lambda>c. c \<noteq> CHR ''-'' \<and> \<not> isASCIIAlphaNumeric c) (segment 1 (length label - 1) label)
      then Some HostLabelByte else None)"

fun firstError :: "('a \<Rightarrow> 'e option) \<Rightarrow> 'a list \<Rightarrow> 'e option" where
  "firstError f [] = None"
| "firstError f (x # xs) = (case f x of Some e \<Rightarrow> Some e | None \<Rightarrow> firstError f xs)"

definition trimDot :: "string \<Rightarrow> string" where
  "trimDot host = (if host \<noteq> [] \<and> last host = CHR ''.'' then butlast host else host)"

definition validateHost :: "NetLibrary \<Rightarrow> string \<Rightarrow> config_error option" where
  "validateHost net host =
     (if host = [] then Some HostEmpty
      else if nlParseIP net host \<noteq> None then None
      else if length host > 253 then Some HostTooLong
      else if trimDot host = [] then Some HostLabelLength
      else firstError validateLabel (splitDots (trimDot host)))"

definition validateAdvertiseHost :: "NetLibrary \<Rightarrow> string \<Rightarrow> config_error option" where
  "validateAdvertiseHost net host =
     (case validateHost net host of
        Some e \<Rightarrow> Some e
      | None \<Rightarrow> if nlParseIP net host = Some True then Some HostWildcard else None)"

definition validateBindHost :: "NetLibrary \<Rightarrow> string \<Rightarrow> config_error option" where
  "validateBindHost net host = validateHost net host"

section \<open>Endpoints\<close>

record Endpoint =
  epHost :: string
  epPort :: u16

definition lower :: "char \<Rightarrow> char" where
  "lower c = (let v = of_char c :: nat in if 65 \<le> v \<and> v \<le> 90 then char_of (v + 32) else c)"

definition CanonicalEndpoint :: "NetLibrary \<Rightarrow> Endpoint \<Rightarrow> config_error + Endpoint" where
  "CanonicalEndpoint net endpoint =
     (if epPort endpoint = 0 then Inl PortZero
      else case validateHost net (epHost endpoint) of
        Some e \<Rightarrow> Inl e
      | None \<Rightarrow>
          Inr \<lparr>epHost = (case nlParseAddr net (epHost endpoint) of
                           Some (text, _) \<Rightarrow> text
                         | None \<Rightarrow> map lower (trimDot (epHost endpoint))),
               epPort = epPort endpoint\<rparr>)"

definition SameEndpoint :: "NetLibrary \<Rightarrow> Endpoint \<Rightarrow> Endpoint \<Rightarrow> bool" where
  "SameEndpoint net left right =
     (case (CanonicalEndpoint net left, CanonicalEndpoint net right) of
        (Inr l, Inr r) \<Rightarrow> l = r
      | _ \<Rightarrow> False)"

definition deriveEndpoint :: "NetLibrary \<Rightarrow> string \<Rightarrow> u16 \<Rightarrow> Service \<Rightarrow> config_error + Endpoint" where
  "deriveEndpoint net host basePort service =
     (if host = [] then Inl HostEmpty
      else case LookupService service of
        None \<Rightarrow> Inl UnknownService
      | Some spec \<Rightarrow>
          let port = ucast basePort + ucast (svOffset spec) :: u32
          in if port > 65535 then Inl PortOverflow
             else if port = 0 then Inl PortZero
             else CanonicalEndpoint net \<lparr>epHost = host, epPort = ucast port\<rparr>)"

definition BindEndpoint :: "NetLibrary \<Rightarrow> string \<Rightarrow> u16 \<Rightarrow> Service \<Rightarrow> config_error + Endpoint" where
  "BindEndpoint net bindHost basePort service =
     (case validateBindHost net bindHost of
        Some e \<Rightarrow> Inl e
      | None \<Rightarrow> deriveEndpoint net bindHost basePort service)"

definition AdvertiseEndpoint :: "NetLibrary \<Rightarrow> string \<Rightarrow> u16 \<Rightarrow> Service \<Rightarrow> config_error + Endpoint" where
  "AdvertiseEndpoint net advertiseHost basePort service =
     (case validateAdvertiseHost net advertiseHost of
        Some e \<Rightarrow> Inl e
      | None \<Rightarrow> deriveEndpoint net advertiseHost basePort service)"

definition validateRoutableEndpoint :: "NetLibrary \<Rightarrow> Endpoint \<Rightarrow> config_error option" where
  "validateRoutableEndpoint net endpoint =
     (case CanonicalEndpoint net endpoint of
        Inl e \<Rightarrow> Some e
      | Inr canonical \<Rightarrow>
          (case nlParseAddr net (epHost canonical) of
             Some (_, True) \<Rightarrow> Some HostWildcard
           | _ \<Rightarrow> None))"

definition CraneControlEndpointFromRaft :: "NetLibrary \<Rightarrow> Endpoint \<Rightarrow> config_error + Endpoint" where
  "CraneControlEndpointFromRaft net raft =
     (case CanonicalEndpoint net raft of
        Inl e \<Rightarrow> Inl e
      | Inr canonical \<Rightarrow>
          if canonical \<noteq> raft then Inl NotCanonical
          else case validateRoutableEndpoint net canonical of
            Some e \<Rightarrow> Inl e
          | None \<Rightarrow>
              (case (LookupService ServiceRaftRPC, LookupService ServiceTopologyControl) of
                 (Some raftSpec, Some controlSpec) \<Rightarrow>
                   if svOffset raftSpec \<le> svOffset controlSpec then Inl BadRegistry
                   else if epPort canonical < svOffset raftSpec then Inl PortBelowOffset
                   else Inr \<lparr>epHost = epHost canonical,
                             epPort = epPort canonical - (svOffset raftSpec - svOffset controlSpec)\<rparr>
               | _ \<Rightarrow> Inl BadRegistry))"

section \<open>Ports\<close>

lemma LookupService_offset:
  "LookupService service = Some spec \<Longrightarrow> svOffset spec = ucast service \<and> svOffset spec < 7"
  by (auto simp: LookupService_def Let_def serviceSpecs_def nth_Cons' ServiceSWIMPing_def ServiceSWIMACK_def
      ServiceSWIMSnapshot_def ServiceCraneWorker_def ServiceTopologyControl_def ServiceCraneTupleACK_def
      ServiceRaftRPC_def split: if_splits)

section \<open>Wildcards\<close>

text \<open>
  The wildcard check of an advertised host looks at the spelling before it is made canonical.  A root
  dot hides an IP literal from both parsers, the labels pass as a DNS name, and the canonical form
  drops the dot: the advertised endpoint is the wildcard address.
\<close>

lemma advertise_wildcard_alias:
  assumes "nlParseIP net ''0.0.0.0.'' = None" "nlParseAddr net ''0.0.0.0.'' = None" "nlParseAddr net ''0.0.0.0'' = Some (''0.0.0.0'', True)"
    and "nlParseIP net ''0.0.0.0'' = Some True"
  shows "AdvertiseEndpoint net ''0.0.0.0.'' 9000 ServiceRaftRPC = Inr \<lparr>epHost = ''0.0.0.0'', epPort = 9006\<rparr>"
    "validateRoutableEndpoint net \<lparr>epHost = ''0.0.0.0'', epPort = 9006\<rparr> = Some HostWildcard"
proof -
  have t: "trimDot ''0.0.0.0.'' = ''0.0.0.0''" "firstError validateLabel (splitDots ''0.0.0.0'') = None"
    "map lower ''0.0.0.0'' = ''0.0.0.0''" "LookupService ServiceRaftRPC = Some (serviceSpecs ! 6)" "svOffset (serviceSpecs ! 6) = 6"
    by code_simp+
  show "AdvertiseEndpoint net ''0.0.0.0.'' 9000 ServiceRaftRPC = Inr \<lparr>epHost = ''0.0.0.0'', epPort = 9006\<rparr>"
    unfolding AdvertiseEndpoint_def validateAdvertiseHost_def deriveEndpoint_def CanonicalEndpoint_def validateHost_def
    using t assms by (simp add: Let_def)
  show "validateRoutableEndpoint net \<lparr>epHost = ''0.0.0.0'', epPort = 9006\<rparr> = Some HostWildcard"
    using assms by (simp add: validateRoutableEndpoint_def CanonicalEndpoint_def validateHost_def)
qed

end
