(* ===== verification/Swim_Types.thy ===== *)
theory Swim_Types
  imports Wire_Frame Config_Endpoint
begin

text \<open>
  The values of the SWIM package: members and their status (\<open>member.go\<close>), protocol messages, timer
  requests and the effects an engine call asks of its caller (\<open>messages.go\<close>).  \<open>Status\<close> is a
  \<open>uint8\<close>, so a decoded value need not be one of the four constants.  The dynamic type of an
  outbound message is a constructor of \<open>Outgoing\<close>.
\<close>

section \<open>Members\<close>

type_synonym Status = u8

definition Alive :: Status where "Alive = 0"

definition Suspect :: Status where "Suspect = 1"

definition Dead :: Status where "Dead = 2"

definition Left :: Status where "Left = 3"

lemmas status_defs = Alive_def Suspect_def Dead_def Left_def

definition status_valid :: "Status \<Rightarrow> bool" where
  "status_valid s \<longleftrightarrow> s \<le> Left"

record Member =
  mNodeID :: u16
  mHost :: string
  mBasePort :: u16
  mIncarnation :: u64
  mStatus :: Status

definition zeroMember :: Member where
  "zeroMember = \<lparr>mNodeID = 0, mHost = [], mBasePort = 0, mIncarnation = 0, mStatus = 0\<rparr>"

record Update =
  uMember :: Member
  uReporterID :: u16

datatype EventCause = EventMemberChanged | EventResyncRequired

record MembershipEvent =
  evPrevious :: Member
  evCurrent :: Member
  evCause :: EventCause
  evReporterID :: u16

definition zeroEvent :: MembershipEvent where
  "zeroEvent = \<lparr>evPrevious = zeroMember, evCurrent = zeroMember, evCause = EventMemberChanged, evReporterID = 0\<rparr>"

definition resyncEvent :: MembershipEvent where
  "resyncEvent = zeroEvent\<lparr>evCause := EventResyncRequired\<rparr>"

definition terminal :: "Status \<Rightarrow> bool" where
  "terminal s \<longleftrightarrow> s = Dead \<or> s = Left"

definition validUpdate :: "Update \<Rightarrow> bool" where
  "validUpdate update \<longleftrightarrow> mNodeID (uMember update) \<noteq> 0 \<and> mIncarnation (uMember update) \<noteq> 0 \<and>
     uReporterID update \<noteq> 0 \<and> status_valid (mStatus (uMember update))"

section \<open>Messages\<close>

record ProbeID =
  piSequence :: u64
  piRequestID :: RequestID

record Ping =
  pgOriginID :: u16
  pgSequence :: u64
  pgRequestID :: RequestID

record Ack =
  akOriginID :: u16
  akSequence :: u64
  akRequestID :: RequestID

definition Ack_ID :: "Ack \<Rightarrow> ProbeID" where
  "Ack_ID a = \<lparr>piSequence = akSequence a, piRequestID = akRequestID a\<rparr>"

record PingReq =
  prOriginID :: u16
  prTarget :: Member
  prSequence :: u64
  prRequestID :: RequestID

definition PingReq_ID :: "PingReq \<Rightarrow> ProbeID" where
  "PingReq_ID p = \<lparr>piSequence = prSequence p, piRequestID = prRequestID p\<rparr>"

record IndirectAck =
  iaOriginID :: u16
  iaTarget :: Member
  iaSequence :: u64
  iaRequestID :: RequestID

datatype Outgoing =
    OPing Ping | OAck Ack | OPingReq PingReq | OIndirectAck IndirectAck | OGossip | ODigest

record Outbound =
  obTo :: Member
  obMessage :: Outgoing

datatype TimerKind =
  TimerDirectProbe | TimerIndirectProbe | TimerRelayProbe | TimerSuspicion | TimerTombstone | TimerLeaveDeadline

record TimerRequest =
  trKind :: TimerKind
  trOriginID :: u16
  trNodeID :: u16
  trSequence :: u64
  trRequestID :: RequestID
  trIncarnation :: u64
  trStatus :: Status
  trDeadline :: time

definition zeroTimer :: "TimerKind \<Rightarrow> time \<Rightarrow> TimerRequest" where
  "zeroTimer kind deadline = \<lparr>trKind = kind, trOriginID = 0, trNodeID = 0, trSequence = 0, trRequestID = 0,
     trIncarnation = 0, trStatus = 0, trDeadline = deadline\<rparr>"

record Effects =
  fxOutbound :: "Outbound list"
  fxTimers :: "TimerRequest list"
  fxEvents :: "MembershipEvent list"
  fxPersistIncarnation :: "u64 option"
  fxSnapshotRequired :: bool

definition noEffects :: Effects where
  "noEffects = \<lparr>fxOutbound = [], fxTimers = [], fxEvents = [], fxPersistIncarnation = None, fxSnapshotRequired = False\<rparr>"

section \<open>Versions\<close>

text \<open>
  A record's version is its incarnation and, at equal incarnations, its status, in the numeric
  order of the constants.
\<close>

definition compareMemberVersion :: "Member \<Rightarrow> Member \<Rightarrow> int" where
  "compareMemberVersion left right =
     (if mIncarnation left < mIncarnation right then - 1
      else if mIncarnation left > mIncarnation right then 1
      else if mStatus left < mStatus right then - 1
      else if mStatus left > mStatus right then 1
      else 0)"

definition member_version :: "Member \<Rightarrow> nat" where
  "member_version m = unat (mIncarnation m) * 256 + unat (mStatus m)"

lemma unat_status: "unat (s :: u8) < 256"
  using unsigned_less[of s] by simp

lemma version_less_iff:
  "member_version a < member_version b \<longleftrightarrow>
     mIncarnation a < mIncarnation b \<or> mIncarnation a = mIncarnation b \<and> mStatus a < mStatus b"
proof -
  have "unat (mStatus a) < 256" "unat (mStatus b) < 256" by (rule unat_status)+
  then have "member_version a < member_version b \<longleftrightarrow>
      unat (mIncarnation a) < unat (mIncarnation b) \<or>
      unat (mIncarnation a) = unat (mIncarnation b) \<and> unat (mStatus a) < unat (mStatus b)"
    unfolding member_version_def by auto
  then show ?thesis by (simp add: word_less_nat_alt word_unat_eq_iff)
qed

lemma version_eq_iff:
  "member_version a = member_version b \<longleftrightarrow> mIncarnation a = mIncarnation b \<and> mStatus a = mStatus b"
  using version_less_iff[of a b] version_less_iff[of b a]
  by (cases "mIncarnation a" "mIncarnation b" rule: linorder_cases; cases "mStatus a" "mStatus b" rule: linorder_cases) auto

lemma compare_version:
  "compareMemberVersion a b > 0 \<longleftrightarrow> member_version b < member_version a"
  "compareMemberVersion a b \<ge> 0 \<longleftrightarrow> member_version b \<le> member_version a"
  "compareMemberVersion a b \<le> 0 \<longleftrightarrow> member_version a \<le> member_version b"
  by (auto simp: compareMemberVersion_def version_less_iff not_less[symmetric])

end
