(* ===== verification/Swim_Table.thy ===== *)
theory Swim_Table
  imports Swim_Types
begin

text \<open>
  The membership table of \<open>internal/swim/table.go\<close>: the visible members and the terminal
  generations (floors) retained after a member's record expired.  Both maps are association
  lists with distinct keys.
\<close>

text \<open>A lookup in an association list stays a lookup in the proofs.\<close>

declare map_of_eq_Some_iff [simp del]

section \<open>Operations\<close>

record Table =
  tMembers :: "(u16 \<times> Member) list"
  tFloors :: "(u16 \<times> Member) list"

definition NewTable :: Table where
  "NewTable = \<lparr>tMembers = [], tFloors = []\<rparr>"

definition Table_Get :: "u16 \<Rightarrow> Table \<Rightarrow> Member option" where
  "Table_Get nodeID t = map_of (tMembers t) nodeID"

definition MustGet :: "u16 \<Rightarrow> Table \<Rightarrow> Member option" where
  "MustGet nodeID t = Table_Get nodeID t" \<comment> \<open>\<open>None\<close>: it panics\<close>

definition IncarnationFloor :: "u16 \<Rightarrow> Table \<Rightarrow> Member option" where
  "IncarnationFloor nodeID t = map_of (tFloors t) nodeID"

definition retainIncarnationFloor :: "Member \<Rightarrow> Table \<Rightarrow> Table" where
  "retainIncarnationFloor member t =
     (if mStatus member \<noteq> Dead \<and> mStatus member \<noteq> Left then t
      else case map_of (tFloors t) (mNodeID member) of
        None \<Rightarrow> t\<lparr>tFloors := AList.update (mNodeID member) member (tFloors t)\<rparr>
      | Some retained \<Rightarrow>
          if compareMemberVersion member retained > 0
          then let canonical = (if mIncarnation member = mIncarnation retained
                                then retained\<lparr>mStatus := mStatus member\<rparr> else member)
               in t\<lparr>tFloors := AList.update (mNodeID canonical) canonical (tFloors t)\<rparr>
          else t)"

text \<open>The record an update is compared with: the visible one, or the floor when that is newer or alone.\<close>

definition mergeReference :: "u16 \<Rightarrow> Table \<Rightarrow> Member option" where
  "mergeReference nodeID t =
     (case (map_of (tFloors t) nodeID, map_of (tMembers t) nodeID) of
        (None, previous) \<Rightarrow> previous
      | (Some floor, None) \<Rightarrow> Some floor
      | (Some floor, Some previous) \<Rightarrow>
          if compareMemberVersion floor previous > 0 then Some floor else Some previous)"

definition Merge :: "Update \<Rightarrow> Table \<Rightarrow> Table \<times> bool \<times> MembershipEvent" where
  "Merge update t =
     (let incoming = uMember update;
          previous = (case map_of (tMembers t) (mNodeID incoming) of None \<Rightarrow> zeroMember | Some m \<Rightarrow> m);
          accept = (\<lambda>incoming.
            (retainIncarnationFloor incoming
               (t\<lparr>tMembers := AList.update (mNodeID incoming) incoming (tMembers t)\<rparr>),
             True,
             \<lparr>evPrevious = previous, evCurrent = incoming, evCause = EventMemberChanged,
              evReporterID = uReporterID update\<rparr>))
      in if mNodeID incoming = 0 \<or> uReporterID update = 0 \<or> \<not> status_valid (mStatus incoming)
         then (t, False, zeroEvent)
         else case mergeReference (mNodeID incoming) t of
           None \<Rightarrow> accept incoming
         | Some reference \<Rightarrow>
             if mIncarnation incoming < mIncarnation reference then (t, False, zeroEvent)
             else if mIncarnation incoming = mIncarnation reference
             then if mStatus incoming \<le> mStatus reference then (t, False, zeroEvent)
                  else accept (reference\<lparr>mStatus := mStatus (uMember update)\<rparr>)
             else accept incoming)"

definition MergeIncarnationFloor :: "Member \<Rightarrow> u16 \<Rightarrow> Table \<Rightarrow> Table \<times> bool \<times> MembershipEvent" where
  "MergeIncarnationFloor floor0 reporterID t =
     (if mNodeID floor0 = 0 \<or> mIncarnation floor0 = 0 \<or> reporterID = 0
         \<or> mStatus floor0 \<noteq> Dead \<and> mStatus floor0 \<noteq> Left
      then (t, False, zeroEvent)
      else
        case (case map_of (tFloors t) (mNodeID floor0) of
                None \<Rightarrow> Some floor0
              | Some retained \<Rightarrow>
                  if compareMemberVersion floor0 retained \<le> 0 then None
                  else if mIncarnation floor0 = mIncarnation retained
                  then Some (retained\<lparr>mStatus := mStatus floor0\<rparr>) else Some floor0) of
          None \<Rightarrow> (t, False, zeroEvent)
        | Some floor \<Rightarrow>
            (case map_of (tMembers t) (mNodeID floor) of
               Some current \<Rightarrow>
                 if compareMemberVersion floor current > 0
                 then Merge \<lparr>uMember = (if mIncarnation floor = mIncarnation current
                                        then current\<lparr>mStatus := mStatus floor\<rparr> else floor),
                             uReporterID = reporterID\<rparr> t
                 else (t\<lparr>tFloors := AList.update (mNodeID floor) floor (tFloors t)\<rparr>, True, zeroEvent)
             | None \<Rightarrow> (t\<lparr>tFloors := AList.update (mNodeID floor) floor (tFloors t)\<rparr>, True, zeroEvent)))"

definition ExpireTerminal :: "Member \<Rightarrow> Table \<Rightarrow> Table \<times> bool" where
  "ExpireTerminal member t =
     (if mStatus member \<noteq> Dead \<and> mStatus member \<noteq> Left then (t, False)
      else case map_of (tMembers t) (mNodeID member) of
        None \<Rightarrow> (t, False)
      | Some current \<Rightarrow>
          if current \<noteq> member then (t, False)
          else let t = retainIncarnationFloor current t
               in (t\<lparr>tMembers := AList.delete (mNodeID member) (tMembers t)\<rparr>, True))"

definition IncarnationFloors :: "Table \<Rightarrow> Member list" where
  "IncarnationFloors t =
     sort_key mNodeID (map snd (filter (\<lambda>(nodeID, floor).
       case map_of (tMembers t) nodeID of
         None \<Rightarrow> True
       | Some current \<Rightarrow> \<not> compareMemberVersion current floor \<ge> 0) (tFloors t)))"

definition Table_Snapshot :: "Table \<Rightarrow> Member list" where
  "Table_Snapshot t = sort_key mNodeID (map snd (tMembers t))"

section \<open>The invariant\<close>

definition table_ok :: "Table \<Rightarrow> bool" where
  "table_ok t \<longleftrightarrow> distinct (map fst (tMembers t)) \<and> distinct (map fst (tFloors t)) \<and>
     (\<forall>k m. map_of (tMembers t) k = Some m \<longrightarrow> mNodeID m = k \<and> k \<noteq> 0 \<and> status_valid (mStatus m)) \<and>
     (\<forall>k f. map_of (tFloors t) k = Some f \<longrightarrow> mNodeID f = k \<and> terminal (mStatus f)) \<and>
     (\<forall>k m f. map_of (tMembers t) k = Some m \<longrightarrow> map_of (tFloors t) k = Some f \<longrightarrow> member_version f \<le> member_version m)"

text \<open>What a table knows of a node: the version of its visible record or of its floor, 0 for nothing.\<close>

definition rank :: "Member option \<Rightarrow> nat" where
  "rank r = (case r of None \<Rightarrow> 0 | Some m \<Rightarrow> Suc (member_version m))"

definition known :: "Table \<Rightarrow> u16 \<Rightarrow> nat" where
  "known t k = max (rank (map_of (tMembers t) k)) (rank (map_of (tFloors t) k))"

lemma rank_simps [simp]: "rank None = 0" "rank (Some m) = Suc (member_version m)"
  by (simp_all add: rank_def)

lemma member_version_simps [simp]:
  "member_version (m\<lparr>mStatus := mStatus n\<rparr>) = member_version n \<longleftrightarrow> mIncarnation m = mIncarnation n"
  by (simp add: version_eq_iff)

lemma table_ok_known:
  assumes "table_ok t" "map_of (tMembers t) k = Some m"
  shows "known t k = Suc (member_version m)"
proof (cases "map_of (tFloors t) k")
  case None
  then show ?thesis using assms by (simp add: known_def)
next
  case (Some f)
  then have "member_version f \<le> member_version m" using assms by (simp add: table_ok_def)
  then show ?thesis using Some assms(2) by (simp add: known_def max_def)
qed

lemma mergeReference_rank:
  "rank (mergeReference k t) = known t k"
  by (simp add: mergeReference_def known_def compare_version max_def split: option.splits)

lemma NewTable_ok: "table_ok NewTable"
  by (simp add: NewTable_def table_ok_def)

lemma terminal_iff: "\<not> (s \<noteq> Dead \<and> s \<noteq> Left) \<longleftrightarrow> terminal s"
  by (auto simp: terminal_def)

subsection \<open>Retaining a floor\<close>

lemma retain_fields [simp]: "tMembers (retainIncarnationFloor m t) = tMembers t"
  by (auto simp: retainIncarnationFloor_def Let_def split: option.splits)

lemma retain_floors:
  assumes "\<forall>k f. map_of (tFloors t) k = Some f \<longrightarrow> mNodeID f = k \<and> terminal (mStatus f)" "distinct (map fst (tFloors t))"
  shows "distinct (map fst (tFloors (retainIncarnationFloor m t)))"
    "map_of (tFloors (retainIncarnationFloor m t)) k = Some f \<Longrightarrow> mNodeID f = k \<and> terminal (mStatus f)"
    "k \<noteq> mNodeID m \<Longrightarrow> map_of (tFloors (retainIncarnationFloor m t)) k = map_of (tFloors t) k"
    "rank (map_of (tFloors (retainIncarnationFloor m t)) (mNodeID m)) =
       (if terminal (mStatus m) then max (rank (map_of (tFloors t) (mNodeID m))) (Suc (member_version m))
        else rank (map_of (tFloors t) (mNodeID m)))"
proof -
  let ?fl = "tFloors (retainIncarnationFloor m t)"
  consider (keep) "?fl = tFloors t"
      "\<not> terminal (mStatus m) \<or> Suc (member_version m) \<le> rank (map_of (tFloors t) (mNodeID m))"
    | (put) c where "?fl = AList.update (mNodeID m) c (tFloors t)" "mNodeID c = mNodeID m" "terminal (mStatus m)"
      "mStatus c = mStatus m" "member_version c = member_version m" "rank (map_of (tFloors t) (mNodeID m)) < Suc (member_version m)"
  proof (cases "terminal (mStatus m)")
    case False
    then show ?thesis using keep by (auto simp: retainIncarnationFloor_def terminal_def)
  next
    case True
    show ?thesis
    proof (cases "map_of (tFloors t) (mNodeID m)")
      case None
      then show ?thesis using True put[of m] by (auto simp: retainIncarnationFloor_def terminal_def)
    next
      case (Some r)
      have r: "mNodeID r = mNodeID m" using assms(1) Some by blast
      define c where "c = (if mIncarnation m = mIncarnation r then r\<lparr>mStatus := mStatus m\<rparr> else m)"
      show ?thesis
      proof (cases "member_version r < member_version m")
        case True
        have "?fl = AList.update (mNodeID c) c (tFloors t)"
          using True \<open>terminal (mStatus m)\<close> Some
          by (auto simp: retainIncarnationFloor_def terminal_def compare_version c_def Let_def)
        then show ?thesis
          using put[of c] True \<open>terminal (mStatus m)\<close> Some r by (simp add: c_def split: if_splits)
      next
        case False
        then show ?thesis
          using keep Some \<open>terminal (mStatus m)\<close> by (auto simp: retainIncarnationFloor_def terminal_def compare_version)
      qed
    qed
  qed
  note cases = this
  show "distinct (map fst ?fl)"
    by (cases rule: cases) (use assms(2) in \<open>auto simp: distinct_update\<close>)
  show "k \<noteq> mNodeID m \<Longrightarrow> map_of ?fl k = map_of (tFloors t) k"
    by (cases rule: cases) (auto simp: update_conv')
  show "mNodeID f = k \<and> terminal (mStatus f)" if "map_of ?fl k = Some f"
    by (cases rule: cases) (use assms(1) that in \<open>auto simp: update_conv' split: if_splits\<close>)
  show "rank (map_of ?fl (mNodeID m)) =
       (if terminal (mStatus m) then max (rank (map_of (tFloors t) (mNodeID m))) (Suc (member_version m))
        else rank (map_of (tFloors t) (mNodeID m)))"
    by (cases rule: cases) (auto simp: update_conv' max_def)
qed

subsection \<open>Merging\<close>

definition put_member :: "Member \<Rightarrow> Table \<Rightarrow> Table" where
  "put_member m t = retainIncarnationFloor m (t\<lparr>tMembers := AList.update (mNodeID m) m (tMembers t)\<rparr>)"

lemma put_member_members: "map_of (tMembers (put_member m t)) = (map_of (tMembers t))(mNodeID m \<mapsto> m)"
  by (simp add: put_member_def update_conv')

lemma put_member_ok:
  assumes "table_ok t" "mNodeID m \<noteq> 0" "status_valid (mStatus m)" "known t (mNodeID m) < Suc (member_version m)"
  shows "table_ok (put_member m t)"
    and "known (put_member m t) k = (if k = mNodeID m then Suc (member_version m) else known t k)"
proof -
  let ?t = "t\<lparr>tMembers := AList.update (mNodeID m) m (tMembers t)\<rparr>"
  have fl: "\<forall>k f. map_of (tFloors ?t) k = Some f \<longrightarrow> mNodeID f = k \<and> terminal (mStatus f)" "distinct (map fst (tFloors ?t))"
    using assms(1) by (auto simp: table_ok_def)
  note r = retain_floors[OF fl, where m = m, folded put_member_def, simplified]
  have le: "rank (map_of (tFloors (put_member m t)) (mNodeID m)) \<le> Suc (member_version m)"
    using r(4) assms(4) by (auto simp: known_def split: if_splits)
  show known: "known (put_member m t) k = (if k = mNodeID m then Suc (member_version m) else known t k)" for k
    using le r(3)[of k] by (auto simp: known_def put_member_members)
  have "member_version f \<le> member_version n"
    if "map_of (tMembers (put_member m t)) k = Some n" "map_of (tFloors (put_member m t)) k = Some f" for k n f
    using that le r(3)[of k] assms(1) by (auto simp: put_member_members table_ok_def split: if_splits)
  moreover have "distinct (map fst (tMembers (put_member m t)))"
    using assms(1) by (simp add: put_member_def distinct_update table_ok_def)
  ultimately show "table_ok (put_member m t)"
    using assms(1-3) r(1,2) by (auto simp: table_ok_def put_member_members split: if_splits)
qed

text \<open>A merge is accepted exactly when the update is well formed and newer than what the table knows.\<close>

lemma Merge_rejects:
  assumes "mNodeID (uMember u) = 0 \<or> uReporterID u = 0 \<or> \<not> status_valid (mStatus (uMember u))
    \<or> Suc (member_version (uMember u)) \<le> known t (mNodeID (uMember u))"
  shows "Merge u t = (t, False, zeroEvent)"
proof (cases "mergeReference (mNodeID (uMember u)) t")
  case None
  then show ?thesis using assms mergeReference_rank[of "mNodeID (uMember u)" t] by (auto simp: Merge_def Let_def)
next
  case (Some r)
  have "mNodeID (uMember u) = 0 \<or> uReporterID u = 0 \<or> \<not> status_valid (mStatus (uMember u))
      \<or> \<not> member_version r < member_version (uMember u)"
    using assms mergeReference_rank[of "mNodeID (uMember u)" t] Some by auto
  then show ?thesis
    using Some unfolding version_less_iff by (auto simp: Merge_def Let_def)
qed

lemma Merge_accepts:
  assumes "table_ok t" "mNodeID (uMember u) \<noteq> 0" "uReporterID u \<noteq> 0" "status_valid (mStatus (uMember u))"
    and "known t (mNodeID (uMember u)) < Suc (member_version (uMember u))"
  obtains m where "mNodeID m = mNodeID (uMember u)" "mIncarnation m = mIncarnation (uMember u)"
    "mStatus m = mStatus (uMember u)" "m = uMember u \<or> (\<exists>r. mergeReference (mNodeID m) t = Some r
       \<and> mIncarnation r = mIncarnation m \<and> m = r\<lparr>mStatus := mStatus m\<rparr>)"
    "Merge u t = (put_member m t, True,
       \<lparr>evPrevious = (case map_of (tMembers t) (mNodeID m) of None \<Rightarrow> zeroMember | Some p \<Rightarrow> p),
        evCurrent = m, evCause = EventMemberChanged, evReporterID = uReporterID u\<rparr>)"
proof (cases "mergeReference (mNodeID (uMember u)) t")
  case None
  then show ?thesis using that[of "uMember u"] assms by (simp add: Merge_def Let_def put_member_def)
next
  case (Some r)
  have id: "mNodeID r = mNodeID (uMember u)"
    using Some assms(1) by (auto simp: mergeReference_def table_ok_def split: option.splits if_splits)
  have lt: "member_version r < member_version (uMember u)"
    using assms(5) mergeReference_rank[of "mNodeID (uMember u)" t] Some by simp
  show ?thesis
  proof (cases "mIncarnation (uMember u) = mIncarnation r")
    case True
    then show ?thesis
      using that[of "r\<lparr>mStatus := mStatus (uMember u)\<rparr>"] assms Some id lt
      by (auto simp: Merge_def Let_def put_member_def version_less_iff)
  next
    case False
    then have "\<not> mIncarnation (uMember u) < mIncarnation r" using lt by (auto simp: version_less_iff)
    then show ?thesis using that[of "uMember u"] assms False Some by (simp add: Merge_def Let_def put_member_def)
  qed
qed

lemma Merge_cases:
  assumes "table_ok t"
  obtains (rejected) "Merge u t = (t, False, zeroEvent)"
      "mNodeID (uMember u) = 0 \<or> uReporterID u = 0 \<or> \<not> status_valid (mStatus (uMember u))
        \<or> Suc (member_version (uMember u)) \<le> known t (mNodeID (uMember u))"
  | (accepted) m where "mNodeID m = mNodeID (uMember u)" "mNodeID m \<noteq> 0" "uReporterID u \<noteq> 0" "status_valid (mStatus m)"
      "mIncarnation m = mIncarnation (uMember u)" "mStatus m = mStatus (uMember u)" "known t (mNodeID m) < Suc (member_version m)"
      "m = uMember u \<or> (\<exists>r. mergeReference (mNodeID m) t = Some r
       \<and> mIncarnation r = mIncarnation m \<and> m = r\<lparr>mStatus := mStatus m\<rparr>)"
      "Merge u t = (put_member m t, True,
         \<lparr>evPrevious = (case map_of (tMembers t) (mNodeID m) of None \<Rightarrow> zeroMember | Some p \<Rightarrow> p),
          evCurrent = m, evCause = EventMemberChanged, evReporterID = uReporterID u\<rparr>)"
proof (cases "mNodeID (uMember u) = 0 \<or> uReporterID u = 0 \<or> \<not> status_valid (mStatus (uMember u))
    \<or> Suc (member_version (uMember u)) \<le> known t (mNodeID (uMember u))")
  case True
  then show ?thesis using rejected Merge_rejects by blast
next
  case False
  then have "known t (mNodeID (uMember u)) < Suc (member_version (uMember u))" by simp
  with False obtain m where m: "mNodeID m = mNodeID (uMember u)" "mIncarnation m = mIncarnation (uMember u)"
    "mStatus m = mStatus (uMember u)" "m = uMember u \<or> (\<exists>r. mergeReference (mNodeID m) t = Some r
       \<and> mIncarnation r = mIncarnation m \<and> m = r\<lparr>mStatus := mStatus m\<rparr>)"
    "Merge u t = (put_member m t, True,
       \<lparr>evPrevious = (case map_of (tMembers t) (mNodeID m) of None \<Rightarrow> zeroMember | Some p \<Rightarrow> p),
        evCurrent = m, evCause = EventMemberChanged, evReporterID = uReporterID u\<rparr>)"
    using Merge_accepts[OF assms] by metis
  have "member_version m = member_version (uMember u)" using m by (simp add: version_eq_iff)
  with False m show ?thesis by (intro accepted[of m]) auto
qed

text \<open>
  The preorder of the table's operations: knowledge of a node is never lost.
\<close>

definition table_le :: "Table \<Rightarrow> Table \<Rightarrow> bool" where
  "table_le t t' \<longleftrightarrow> (\<forall>k. known t k \<le> known t' k)"

interpretation knowledge: step_preorder table_le
  by unfold_locales (auto simp: table_le_def intro: order_trans)

lemma Merge_step:
  assumes "table_ok t"
  shows "table_ok (fst (Merge u t)) \<and> table_le t (fst (Merge u t))"
  by (cases rule: Merge_cases[OF assms, of u])
    (auto simp: assms knowledge.R_refl put_member_ok table_le_def)

lemma put_floor_step:
  assumes "table_ok t" "terminal (mStatus f)" "rank (map_of (tFloors t) (mNodeID f)) \<le> Suc (member_version f)"
    "\<And>m. map_of (tMembers t) (mNodeID f) = Some m \<Longrightarrow> member_version f \<le> member_version m"
  shows "table_ok (t\<lparr>tFloors := AList.update (mNodeID f) f (tFloors t)\<rparr>)"
    "table_le t (t\<lparr>tFloors := AList.update (mNodeID f) f (tFloors t)\<rparr>)"
  using assms by (auto simp: table_ok_def distinct_update update_conv' table_le_def known_def max_def split: if_splits)

lemma MergeIncarnationFloor_step:
  assumes "table_ok t"
  shows "table_ok (fst (MergeIncarnationFloor f r t)) \<and> table_le t (fst (MergeIncarnationFloor f r t))"
proof -
  let ?ok = "\<lambda>t'. table_ok t' \<and> table_le t t'"
  have same: "?ok t" using assms knowledge.R_refl by blast
  have floor: "?ok (fst (case map_of (tMembers t) (mNodeID g) of
               Some current \<Rightarrow>
                 if compareMemberVersion g current > 0
                 then Merge \<lparr>uMember = (if mIncarnation g = mIncarnation current
                                        then current\<lparr>mStatus := mStatus g\<rparr> else g),
                             uReporterID = r\<rparr> t
                 else (t\<lparr>tFloors := AList.update (mNodeID g) g (tFloors t)\<rparr>, True, zeroEvent)
             | None \<Rightarrow> (t\<lparr>tFloors := AList.update (mNodeID g) g (tFloors t)\<rparr>, True, zeroEvent)))"
    if "terminal (mStatus g)" "rank (map_of (tFloors t) (mNodeID g)) \<le> Suc (member_version g)" for g
    using that put_floor_step[OF assms that] Merge_step[OF assms]
    by (auto simp: compare_version split: option.splits)
  show ?thesis
  proof (cases "terminal (mStatus f) \<and> mNodeID f \<noteq> 0 \<and> mIncarnation f \<noteq> 0 \<and> r \<noteq> 0")
    case False
    then show ?thesis using same by (auto simp: MergeIncarnationFloor_def terminal_def)
  next
    case True
    then have guard: "\<not> (mNodeID f = 0 \<or> mIncarnation f = 0 \<or> r = 0 \<or> mStatus f \<noteq> Dead \<and> mStatus f \<noteq> Left)"
      by (auto simp: terminal_def)
    show ?thesis
    proof (cases "map_of (tFloors t) (mNodeID f)")
      case None
      then show ?thesis unfolding MergeIncarnationFloor_def if_not_P[OF guard] using floor[of f] True by simp
    next
      case (Some c)
      have c: "mNodeID c = mNodeID f" using Some assms by (auto simp: table_ok_def)
      show ?thesis
      proof (cases "compareMemberVersion f c \<le> 0")
        case True
        then show ?thesis unfolding MergeIncarnationFloor_def if_not_P[OF guard] using Some same by simp
      next
        case False
        then have "member_version c < member_version f" by (simp add: compare_version)
        then show ?thesis
          unfolding MergeIncarnationFloor_def if_not_P[OF guard]
          using floor[of f] floor[of "c\<lparr>mStatus := mStatus f\<rparr>"] True False Some c
          by (cases "mIncarnation f = mIncarnation c") (simp_all add: version_less_iff member_version_def)
      qed
    qed
  qed
qed

lemma ExpireTerminal_step:
  assumes "table_ok t"
  shows "table_ok (fst (ExpireTerminal m t)) \<and> table_le t (fst (ExpireTerminal m t))"
proof (cases "terminal (mStatus m) \<and> map_of (tMembers t) (mNodeID m) = Some m")
  case False
  then have "fst (ExpireTerminal m t) = t"
    by (auto simp: ExpireTerminal_def terminal_def split: option.splits)
  then show ?thesis using assms knowledge.R_refl by simp
next
  case True
  let ?t = "retainIncarnationFloor m t"
  have res: "fst (ExpireTerminal m t) = ?t\<lparr>tMembers := AList.delete (mNodeID m) (tMembers t)\<rparr>"
    using True by (auto simp: ExpireTerminal_def terminal_def)
  have fl: "\<forall>k f. map_of (tFloors t) k = Some f \<longrightarrow> mNodeID f = k \<and> terminal (mStatus f)" "distinct (map fst (tFloors t))"
    using assms by (auto simp: table_ok_def)
  note r = retain_floors[OF fl, where m = m]
  have mem: "map_of (AList.delete (mNodeID m) (tMembers t)) k = Some n \<longleftrightarrow> k \<noteq> mNodeID m \<and> map_of (tMembers t) k = Some n" for k n
    by (simp add: delete_conv')
  have "member_version f \<le> member_version n" if "k \<noteq> mNodeID m" "map_of (tMembers t) k = Some n" "map_of (tFloors ?t) k = Some f" for k n f
    using that r(3)[OF that(1)] assms unfolding table_ok_def by metis
  then have "table_ok (?t\<lparr>tMembers := AList.delete (mNodeID m) (tMembers t)\<rparr>)"
    using assms r(1,2) unfolding table_ok_def by (auto simp: mem distinct_delete)
  moreover have "known t k \<le> known (?t\<lparr>tMembers := AList.delete (mNodeID m) (tMembers t)\<rparr>) k" for k
    using r(3)[of k] r(4) True table_ok_known[OF assms, of "mNodeID m" m]
    by (cases "k = mNodeID m") (auto simp: known_def delete_conv')
  ultimately show ?thesis unfolding res table_le_def by blast
qed

section \<open>Merging sequences of updates\<close>

definition merge_all :: "Update list \<Rightarrow> Table \<Rightarrow> Table" where
  "merge_all us t = fold (\<lambda>u t. fst (Merge u t)) us t"

text \<open>Records that agree on a node's address whenever they agree on its incarnation.\<close>

definition consistent :: "Member set \<Rightarrow> bool" where
  "consistent S \<longleftrightarrow> (\<forall>a\<in>S. \<forall>b\<in>S. mNodeID a = mNodeID b \<longrightarrow> mIncarnation a = mIncarnation b \<longrightarrow>
     mHost a = mHost b \<and> mBasePort a = mBasePort b)"

definition records :: "Table \<Rightarrow> Member set" where
  "records t = ran (map_of (tMembers t)) \<union> ran (map_of (tFloors t))"

lemma consistent_same:
  assumes "consistent S" "a \<in> S" "b \<in> S" "mNodeID a = mNodeID b" "member_version a = member_version b"
  shows "a = b"
proof -
  have "mHost a = mHost b \<and> mBasePort a = mBasePort b \<and> mIncarnation a = mIncarnation b \<and> mStatus a = mStatus b"
    using assms unfolding consistent_def version_eq_iff by blast
  with assms(4) show ?thesis by (cases a, cases b) simp
qed

lemma consistent_restatus:
  assumes "consistent S" "r \<in> S" "m \<in> S" "mNodeID r = mNodeID m" "mIncarnation r = mIncarnation m"
  shows "r\<lparr>mStatus := mStatus m\<rparr> = m"
proof -
  have "mHost r = mHost m \<and> mBasePort r = mBasePort m" using assms unfolding consistent_def by blast
  with assms(4,5) show ?thesis by (cases r, cases m) simp
qed

lemma consistent_subset: "consistent S \<Longrightarrow> T \<subseteq> S \<Longrightarrow> consistent T"
  unfolding consistent_def by blast

lemma mergeReference_records: "mergeReference k t = Some r \<Longrightarrow> r \<in> records t"
  by (auto simp: mergeReference_def records_def ran_def split: option.splits if_splits)

lemma put_member_records:
  assumes "table_ok t" "consistent (insert m (records t))"
  shows "records (put_member m t) \<subseteq> insert m (records t)"
proof -
  have floors: "ran (map_of (tFloors (put_member m t))) \<subseteq> insert m (ran (map_of (tFloors t)))"
  proof
    fix f
    assume "f \<in> ran (map_of (tFloors (put_member m t)))"
    then obtain k where k: "map_of (tFloors (put_member m t)) k = Some f" by (auto simp: ran_def)
    show "f \<in> insert m (ran (map_of (tFloors t)))"
    proof (cases "map_of (tFloors t) (mNodeID m)")
      case None
      with k show ?thesis
        by (auto simp: put_member_def retainIncarnationFloor_def update_conv' ran_def split: if_splits)
    next
      case (Some r)
      have "r \<in> insert m (records t)" "mNodeID r = mNodeID m"
        using Some assms(1) by (auto simp: records_def ran_def table_ok_def)
      then have "mIncarnation m = mIncarnation r \<Longrightarrow> r\<lparr>mStatus := mStatus m\<rparr> = m"
        using consistent_restatus[OF assms(2)] by simp
      with k Some \<open>mNodeID r = mNodeID m\<close> show ?thesis
        by (auto simp: put_member_def retainIncarnationFloor_def Let_def update_conv' ran_def split: if_splits)
    qed
  qed
  have "ran (map_of (tMembers (put_member m t))) \<subseteq> insert m (ran (map_of (tMembers t)))"
    by (auto simp: put_member_members ran_def split: if_splits)
  with floors show ?thesis by (auto simp: records_def)
qed

text \<open>Under consistency an accepted merge stores the update's own record.\<close>

lemma Merge_consistent:
  assumes "table_ok t" "consistent (insert (uMember u) (records t))"
  obtains (rejected) "fst (Merge u t) = t"
      "mNodeID (uMember u) = 0 \<or> uReporterID u = 0 \<or> \<not> status_valid (mStatus (uMember u))
        \<or> Suc (member_version (uMember u)) \<le> known t (mNodeID (uMember u))"
  | (accepted) "fst (Merge u t) = put_member (uMember u) t" "mNodeID (uMember u) \<noteq> 0" "uReporterID u \<noteq> 0"
      "status_valid (mStatus (uMember u))" "known t (mNodeID (uMember u)) < Suc (member_version (uMember u))"
proof (cases rule: Merge_cases[OF assms(1), of u])
  case 1
  then show ?thesis using rejected by simp
next
  case (2 m)
  have "m = uMember u"
  proof (cases "m = uMember u")
    case False
    then obtain r where r: "mergeReference (mNodeID m) t = Some r" "mIncarnation r = mIncarnation m" "m = r\<lparr>mStatus := mStatus m\<rparr>"
      using 2(8) by blast
    have "mNodeID r = mNodeID m" using arg_cong[OF r(3), of mNodeID] by simp
    then show ?thesis
      using consistent_restatus[OF assms(2), of r "uMember u"] mergeReference_records[OF r(1)] r 2(1,5,6) by simp
  qed
  then show ?thesis using accepted 2 by simp
qed

definition offers :: "Update list \<Rightarrow> Table \<Rightarrow> u16 \<Rightarrow> Member set" where
  "offers us t k = {m. \<exists>u\<in>set us. m = uMember u \<and> mNodeID m = k \<and> k \<noteq> 0 \<and> uReporterID u \<noteq> 0 \<and>
     status_valid (mStatus m) \<and> known t k < Suc (member_version m)}"

definition winner :: "Member set \<Rightarrow> Member option \<Rightarrow> Member option \<Rightarrow> bool" where
  "winner C old new \<longleftrightarrow> (C = {} \<longrightarrow> new = old) \<and>
     (C \<noteq> {} \<longrightarrow> (\<exists>m\<in>C. new = Some m \<and> (\<forall>c\<in>C. member_version c \<le> member_version m)))"

lemma merge_all_winner:
  assumes "table_ok t" "consistent (uMember ` set us \<union> records t)"
  shows "winner (offers us t k) (map_of (tMembers t) k) (map_of (tMembers (merge_all us t)) k)"
  using assms
proof (induction us arbitrary: t)
  case Nil
  then show ?case by (simp add: merge_all_def winner_def offers_def)
next
  case (Cons u us)
  have con: "consistent (insert (uMember u) (records t))"
    using Cons.prems(2) by (rule consistent_subset) auto
  have fold: "merge_all (u # us) t = merge_all us (fst (Merge u t))" by (simp add: merge_all_def)
  from Cons.prems(1) con show ?case
  proof (cases rule: Merge_consistent)
    case rejected
    then have "offers (u # us) t k = offers us t k" by (auto simp: offers_def)
    moreover have "winner (offers us t k) (map_of (tMembers t) k) (map_of (tMembers (merge_all us t)) k)"
      using Cons.IH[OF Cons.prems(1)] Cons.prems(2) by (rule meta_mp) (erule consistent_subset, auto)
    ultimately show ?thesis unfolding fold rejected(1) by simp
  next
    case accepted
    let ?m = "uMember u" and ?t = "put_member (uMember u) t"
    note ok = put_member_ok[OF Cons.prems(1) accepted(2,4,5)]
    have "consistent (uMember ` set us \<union> records ?t)"
      using Cons.prems(2) put_member_records[OF Cons.prems(1) con] by (elim consistent_subset) auto
    note ih = Cons.IH[OF ok(1) this]
    show ?thesis
    proof (cases "k = mNodeID ?m")
      case False
      then have "offers (u # us) t k = offers us ?t k" by (auto simp: offers_def ok(2))
      then show ?thesis unfolding fold accepted(1) using ih False by (simp add: put_member_members)
    next
      case True
      have mem: "?m \<in> offers (u # us) t k" using True accepted by (auto simp: offers_def)
      have sub: "offers us ?t k \<subseteq> offers (u # us) t k" using True accepted(5) by (auto simp: offers_def ok(2))
      have rest: "member_version c \<le> member_version ?m" if "c \<in> offers (u # us) t k" "c \<notin> offers us ?t k" for c
        using that True by (auto simp: offers_def ok(2))
      have up: "member_version ?m < member_version c" if "c \<in> offers us ?t k" for c
        using that True by (auto simp: offers_def ok(2))
      show ?thesis
      proof (cases "offers us ?t k = {}")
        case empty: True
        then have "map_of (tMembers (merge_all us ?t)) k = Some ?m"
          using ih True by (simp add: winner_def put_member_members)
        then show ?thesis unfolding fold accepted(1) winner_def using mem rest empty by blast
      next
        case False
        then obtain m where m: "m \<in> offers us ?t k" "map_of (tMembers (merge_all us ?t)) k = Some m"
          "\<forall>c\<in>offers us ?t k. member_version c \<le> member_version m"
          using ih by (auto simp: winner_def)
        have "member_version c \<le> member_version m" if "c \<in> offers (u # us) t k" for c
          using rest[OF that] up[OF m(1)] m(3) by (cases "c \<in> offers us ?t k") auto
        then show ?thesis unfolding fold accepted(1) winner_def using m sub mem by blast
      qed
    qed
  qed
qed

lemma merge_all_order_irrelevant:
  assumes "table_ok t" "consistent (uMember ` set us \<union> records t)" "set us = set vs"
  shows "map_of (tMembers (merge_all us t)) = map_of (tMembers (merge_all vs t))"
proof
  fix k
  have C: "offers vs t k = offers us t k" using assms(3) by (simp add: offers_def)
  have "winner (offers us t k) (map_of (tMembers t) k) (map_of (tMembers (merge_all us t)) k)"
    "winner (offers us t k) (map_of (tMembers t) k) (map_of (tMembers (merge_all vs t)) k)"
    using merge_all_winner[OF assms(1,2), of k] merge_all_winner[OF assms(1), of vs k] assms(2,3) C by simp_all
  moreover have "a = b" if "a \<in> offers us t k" "b \<in> offers us t k" "member_version a = member_version b" for a b
    using that by (intro consistent_same[OF assms(2)]) (auto simp: offers_def)
  ultimately show "map_of (tMembers (merge_all us t)) k = map_of (tMembers (merge_all vs t)) k"
    unfolding winner_def by (metis le_antisym)
qed

end
