(* ===== verification/Swim_Dissemination.thy ===== *)
theory Swim_Dissemination
  imports Swim_Table
begin

text \<open>
  The bounded retransmission queue of \<open>internal/swim/dissemination.go\<close>.  Items are keyed by node;
  the pointer the code keeps to an item while it reserves a batch is the item's key.  The batch
  encoder is an argument, \<open>None\<close> for a nil function.  Counters that the code never makes negative
  are kept as \<open>int\<close>, as in the source.
\<close>

section \<open>Operations\<close>

datatype 'e dissemination_error = ErrInvalidByteBudget | ErrNilBatchEncoder | EncodeError 'e

record disseminationItem =
  diUpdate :: Update
  diSequence :: u64
  diTransmissions :: int
  diInFlight :: int

record Disseminator =
  dsDigestRequired :: bool
  dsMaxItems :: int
  dsRetransmitMultiplier :: int
  dsNextSequence :: u64
  dsDigestGeneration :: u64
  dsItems :: "(u16 \<times> disseminationItem) list"

record DisseminationBatch =
  dbUpdates :: "Update list"
  dbTokens :: "(u16 \<times> u64) list"
  dbBudget :: int
  dbReserved :: bool

definition emptyBatch :: DisseminationBatch where
  "emptyBatch = \<lparr>dbUpdates = [], dbTokens = [], dbBudget = 0, dbReserved = False\<rparr>"

definition NewDisseminator :: "int \<Rightarrow> int \<Rightarrow> Disseminator" where
  "NewDisseminator maxItems retransmitMultiplier =
     \<lparr>dsDigestRequired = False, dsMaxItems = maxItems, dsRetransmitMultiplier = retransmitMultiplier,
      dsNextSequence = 1, dsDigestGeneration = 0, dsItems = []\<rparr>"

definition MaxInt :: int where
  "MaxInt = 2 ^ 63 - 1"

text \<open>\<open>bits.Len\<close>\<close>

fun bitsLen :: "nat \<Rightarrow> nat" where
  "bitsLen n = (if n = 0 then 0 else Suc (bitsLen (n div 2)))"

declare bitsLen.simps [simp del]

definition RetransmitBudget :: "int \<Rightarrow> int \<Rightarrow> int" where
  "RetransmitBudget multiplier aliveMembers =
     (if multiplier \<le> 0 \<or> aliveMembers \<le> 0 then 0
      else let levels = int (bitsLen (nat aliveMembers))
           in if multiplier > MaxInt div levels then MaxInt else multiplier * levels)"

definition mergePendingUpdate :: "Update \<Rightarrow> Update \<Rightarrow> Update option" where
  "mergePendingUpdate current incoming =
     (let c = uMember current; i = uMember incoming
      in if mIncarnation i < mIncarnation c then None
         else if mIncarnation i > mIncarnation c then Some incoming
         else if mStatus i \<le> mStatus c then None
         else Some (incoming\<lparr>uMember := c\<lparr>mStatus := mStatus i\<rparr>\<rparr>))"

definition Disseminator_takeSequence :: "Disseminator \<Rightarrow> u64 \<times> Disseminator" where
  "Disseminator_takeSequence d =
     (dsNextSequence d,
      if dsNextSequence d < MaxUint64 then d\<lparr>dsNextSequence := dsNextSequence d + 1\<rparr> else d)"

definition requireDigest :: "Disseminator \<Rightarrow> Disseminator" where
  "requireDigest d =
     d\<lparr>dsDigestRequired := True,
       dsDigestGeneration := (if dsDigestGeneration d + 1 = 0 then 1 else dsDigestGeneration d + 1)\<rparr>"

definition markDigestRepaired :: "u64 \<Rightarrow> Disseminator \<Rightarrow> Disseminator \<times> bool" where
  "markDigestRepaired generation d =
     (if \<not> dsDigestRequired d \<or> generation = 0 \<or> generation \<noteq> dsDigestGeneration d then (d, False)
      else (d\<lparr>dsDigestRequired := False\<rparr>, True))"

definition admit :: "Update \<Rightarrow> int \<Rightarrow> Disseminator \<Rightarrow> Disseminator" where
  "admit update aliveMembers d =
     (let nodeID = mNodeID (uMember update);
          budget = RetransmitBudget (dsRetransmitMultiplier d) aliveMembers
      in if dsMaxItems d \<le> 0 \<or> budget \<le> 0
         then requireDigest (d\<lparr>dsItems := AList.delete nodeID (dsItems d)\<rparr>)
         else if map_of (dsItems d) nodeID = None \<and> int (length (dsItems d)) \<ge> dsMaxItems d
         then requireDigest d
         else let (sequence, d) = Disseminator_takeSequence d
              in d\<lparr>dsItems := AList.update nodeID
                     \<lparr>diUpdate = update, diSequence = sequence, diTransmissions = 0, diInFlight = 0\<rparr> (dsItems d)\<rparr>)"

definition Enqueue :: "Update \<Rightarrow> int \<Rightarrow> Disseminator \<Rightarrow> Disseminator" where
  "Enqueue update aliveMembers d =
     (if \<not> validUpdate update then d
      else case map_of (dsItems d) (mNodeID (uMember update)) of
        None \<Rightarrow> admit update aliveMembers d
      | Some current \<Rightarrow>
          (case mergePendingUpdate (diUpdate current) update of
             None \<Rightarrow> d
           | Some merged \<Rightarrow> admit merged aliveMembers d))"

fun selectPrefix :: "int \<Rightarrow> (Update list \<Rightarrow> 'e + bytes) \<Rightarrow> Update list \<Rightarrow> disseminationItem list \<Rightarrow> 'e + Update list" where
  "selectPrefix maxBytes encode selected [] = Inr selected"
| "selectPrefix maxBytes encode selected (item # items) =
     (case encode (selected @ [diUpdate item]) of
        Inl e \<Rightarrow> Inl e
      | Inr encoded \<Rightarrow>
          if int (length encoded) > maxBytes then Inr selected
          else selectPrefix maxBytes encode (selected @ [diUpdate item]) items)"

text \<open>
  Priority: more severe status first, then older sequence, then smaller node; three stable sorts,
  the last one by the most significant key.
\<close>

definition byPriority :: "disseminationItem list \<Rightarrow> disseminationItem list" where
  "byPriority items =
     sort_key (\<lambda>i. 255 - unat (mStatus (uMember (diUpdate i))))
       (sort_key diSequence (sort_key (\<lambda>i. mNodeID (uMember (diUpdate i))) items))"

definition Peek :: "int \<Rightarrow> int \<Rightarrow> (Update list \<Rightarrow> 'e + bytes) option \<Rightarrow> Disseminator
    \<Rightarrow> Disseminator \<times> ('e dissemination_error + DisseminationBatch)" where
  "Peek maxBytes aliveMembers encoder d =
     (if maxBytes < 0 then (d, Inl ErrInvalidByteBudget)
      else case encoder of
        None \<Rightarrow> (d, Inl ErrNilBatchEncoder)
      | Some encode \<Rightarrow>
          if dsItems d = [] then (d, Inr emptyBatch)
          else
            let currentBudget = RetransmitBudget (dsRetransmitMultiplier d) aliveMembers;
                d = d\<lparr>dsItems := filter (\<lambda>(_, item). \<not> diTransmissions item \<ge> currentBudget) (dsItems d)\<rparr>;
                candidates = filter (\<lambda>item. \<not> diTransmissions item + diInFlight item \<ge> currentBudget)
                  (map snd (dsItems d))
            in if maxBytes = 0 \<or> candidates = [] then (d, Inr (emptyBatch\<lparr>dbBudget := currentBudget\<rparr>))
               else (case selectPrefix maxBytes encode [] (byPriority candidates) of
                  Inl e \<Rightarrow> (d, Inl (EncodeError e))
                | Inr selected \<Rightarrow>
                    (d, Inr \<lparr>dbUpdates = selected,
                             dbTokens = map (\<lambda>update. (mNodeID (uMember update),
                               case map_of (dsItems d) (mNodeID (uMember update)) of
                                 Some item \<Rightarrow> diSequence item | None \<Rightarrow> 0)) selected,
                             dbBudget = currentBudget, dbReserved = False\<rparr>)))"

definition addInFlight :: "int \<Rightarrow> u16 \<Rightarrow> (u16 \<times> disseminationItem) list \<Rightarrow> (u16 \<times> disseminationItem) list" where
  "addInFlight n nodeID items =
     (case map_of items nodeID of
        None \<Rightarrow> items
      | Some item \<Rightarrow> AList.update nodeID (item\<lparr>diInFlight := diInFlight item + n\<rparr>) items)"

fun reserveTokens :: "int \<Rightarrow> (u16 \<times> u64) list \<Rightarrow> u16 list \<Rightarrow> (u16 \<times> disseminationItem) list
    \<Rightarrow> (u16 \<times> disseminationItem) list \<times> bool" where
  "reserveTokens budget [] reserved items = (items, True)"
| "reserveTokens budget ((nodeID, sequence) # tokens) reserved items =
     (case map_of items nodeID of
        None \<Rightarrow> (fold (addInFlight (- 1)) reserved items, False)
      | Some item \<Rightarrow>
          if diSequence item \<noteq> sequence \<or> diTransmissions item + diInFlight item \<ge> budget
          then (fold (addInFlight (- 1)) reserved items, False)
          else reserveTokens budget tokens (reserved @ [nodeID]) (addInFlight 1 nodeID items))"

definition Reserve :: "DisseminationBatch \<Rightarrow> Disseminator \<Rightarrow> Disseminator \<times> DisseminationBatch \<times> bool" where
  "Reserve batch d =
     (if dbTokens batch = [] then (d, batch, True)
      else if dbBudget batch \<le> 0 then (d, batch, False)
      else case reserveTokens (dbBudget batch) (dbTokens batch) [] (dsItems d) of
        (items, False) \<Rightarrow> (d\<lparr>dsItems := items\<rparr>, batch, False)
      | (items, True) \<Rightarrow> (d\<lparr>dsItems := items\<rparr>, batch\<lparr>dbReserved := True\<rparr>, True))"

definition releaseToken :: "u16 \<times> u64 \<Rightarrow> (u16 \<times> disseminationItem) list \<Rightarrow> (u16 \<times> disseminationItem) list" where
  "releaseToken token items =
     (case map_of items (fst token) of
        None \<Rightarrow> items
      | Some item \<Rightarrow>
          if diSequence item = snd token \<and> diInFlight item > 0 then addInFlight (- 1) (fst token) items else items)"

definition Release :: "DisseminationBatch \<Rightarrow> Disseminator \<Rightarrow> Disseminator" where
  "Release batch d =
     (if \<not> dbReserved batch then d else d\<lparr>dsItems := fold releaseToken (dbTokens batch) (dsItems d)\<rparr>)"

definition commitToken :: "bool \<Rightarrow> int \<Rightarrow> u16 \<times> u64 \<Rightarrow> (u16 \<times> disseminationItem) list \<Rightarrow> (u16 \<times> disseminationItem) list" where
  "commitToken reserved budget token items =
     (case map_of items (fst token) of
        None \<Rightarrow> items
      | Some item \<Rightarrow>
          if diSequence item \<noteq> snd token then items
          else if reserved \<and> diInFlight item = 0 then items
          else let item = (if reserved then item\<lparr>diInFlight := diInFlight item - 1\<rparr> else item);
                   item = item\<lparr>diTransmissions := diTransmissions item + 1\<rparr>
               in if diTransmissions item \<ge> budget then AList.delete (fst token) items
                  else AList.update (fst token) item items)"

definition Disseminator_Commit :: "DisseminationBatch \<Rightarrow> Disseminator \<Rightarrow> Disseminator" where
  "Disseminator_Commit batch d =
     (if dbBudget batch \<le> 0 then d
      else d\<lparr>dsItems := fold (commitToken (dbReserved batch) (dbBudget batch)) (dbTokens batch) (dsItems d)\<rparr>)"

definition Take :: "int \<Rightarrow> int \<Rightarrow> (Update list \<Rightarrow> 'e + bytes) option \<Rightarrow> Disseminator
    \<Rightarrow> Disseminator \<times> ('e dissemination_error + Update list)" where
  "Take maxBytes aliveMembers encoder d =
     (case Peek maxBytes aliveMembers encoder d of
        (d, Inl e) \<Rightarrow> (d, Inl e)
      | (d, Inr batch) \<Rightarrow> (Disseminator_Commit batch d, Inr (dbUpdates batch)))"

section \<open>Budgets\<close>

lemma bitsLen_0 [simp]: "bitsLen 0 = 0"
  by (simp add: bitsLen.simps)

lemma bitsLen_pos: "0 < n \<Longrightarrow> 0 < bitsLen n"
  by (subst bitsLen.simps) simp

lemma bitsLen_mono: "m \<le> n \<Longrightarrow> bitsLen m \<le> bitsLen n"
proof (induction n arbitrary: m rule: less_induct)
  case (less n)
  show ?case
  proof (cases "m = 0")
    case False
    with less have "bitsLen (m div 2) \<le> bitsLen (n div 2)" by (intro less.IH) (auto simp: div_le_mono)
    then show ?thesis using False less.prems by (subst (1 2) bitsLen.simps) simp
  qed simp
qed

text \<open>\<open>bits.Len(n)\<close> is the least number of bits: \<open>ceil(log2(n+1))\<close>.\<close>

lemma bitsLen_bounds: "0 < n \<Longrightarrow> 2 ^ (bitsLen n - 1) \<le> n \<and> n < 2 ^ bitsLen n"
proof (induction n rule: less_induct)
  case (less n)
  show ?case
  proof (cases "n div 2 = 0")
    case True
    then have "n = 1" using less.prems by linarith
    then show ?thesis by (simp add: bitsLen.simps[of "Suc 0"])
  next
    case False
    with less have ih: "2 ^ (bitsLen (n div 2) - 1) \<le> n div 2" "n div 2 < 2 ^ bitsLen (n div 2)" by auto
    obtain k where k: "bitsLen (n div 2) = Suc k" using False bitsLen_pos[of "n div 2"] gr0_conv_Suc by auto
    have "bitsLen n = Suc (Suc k)" using less.prems k by (subst bitsLen.simps) simp
    then show ?thesis using ih k by auto
  qed
qed

lemma div_less_iff: "0 < z \<Longrightarrow> m div z < k \<longleftrightarrow> m < k * z" for m k z :: int
proof
  assume z: "0 < z" and lt: "m div z < k"
  have "m < (m div z + 1) * z" using z by (metis distrib_right mult_1 div_mult_mod_eq add_strict_left_mono pos_mod_bound)
  also have "\<dots> \<le> k * z" using lt z by (intro mult_right_mono) auto
  finally show "m < k * z" .
next
  assume z: "0 < z" and lt: "m < k * z"
  show "m div z < k"
  proof (rule ccontr)
    assume "\<not> m div z < k"
    then have "k * z \<le> (m div z) * z" using z by (intro mult_right_mono) auto
    also have "\<dots> \<le> m" using z by (metis div_mult_mod_eq le_add_same_cancel1 pos_mod_sign)
    finally show False using lt by simp
  qed
qed

lemma RetransmitBudget_mono:
  assumes "a \<le> b"
  shows "RetransmitBudget k a \<le> RetransmitBudget k b"
proof (cases "k \<le> 0 \<or> a \<le> 0")
  case True
  have "0 \<le> RetransmitBudget k b" by (auto simp: RetransmitBudget_def MaxInt_def Let_def)
  with True show ?thesis by (simp add: RetransmitBudget_def)
next
  case False
  define x y where "x = int (bitsLen (nat a))" and "y = int (bitsLen (nat b))"
  have xy: "0 < x" "x \<le> y"
    using False assms bitsLen_pos[of "nat a"] bitsLen_mono[of "nat a" "nat b"] by (auto simp: x_def y_def)
  have le: "k * x \<le> k * y" using False xy by (intro mult_left_mono) auto
  then have up: "MaxInt < k * x \<longrightarrow> MaxInt < k * y" by linarith
  note cut = div_less_iff[of x MaxInt k] div_less_iff[of y MaxInt k]
  show ?thesis
    using False assms le up cut xy
    by (auto simp: RetransmitBudget_def Let_def x_def[symmetric] y_def[symmetric])
qed

section \<open>The queue invariant\<close>

text \<open>
  \<open>B\<close> bounds the deliveries of one queued update: those made and those in flight.
\<close>

definition item_ok :: "int \<Rightarrow> u16 \<Rightarrow> disseminationItem \<Rightarrow> bool" where
  "item_ok B k item \<longleftrightarrow> mNodeID (uMember (diUpdate item)) = k \<and> validUpdate (diUpdate item) \<and>
     0 \<le> diTransmissions item \<and> 0 \<le> diInFlight item \<and> diTransmissions item + diInFlight item \<le> B"

definition items_ok :: "int \<Rightarrow> (u16 \<times> disseminationItem) list \<Rightarrow> bool" where
  "items_ok B items \<longleftrightarrow> distinct (map fst items) \<and> (\<forall>k item. map_of items k = Some item \<longrightarrow> item_ok B k item)"

definition pending_ok :: "int \<Rightarrow> Disseminator \<Rightarrow> bool" where
  "pending_ok B d \<longleftrightarrow> items_ok B (dsItems d) \<and> int (length (dsItems d)) \<le> max 0 (dsMaxItems d)"

lemma length_update: "length (AList.update k v xs) = (if map_of xs k = None then Suc (length xs) else length xs)"
  by (induction xs) auto

lemma length_delete: "length (AList.delete k xs) \<le> length xs"
  by (simp add: AList.delete_eq)

lemma items_ok_delete: "items_ok B items \<Longrightarrow> items_ok B (AList.delete k items)"
  by (auto simp: items_ok_def distinct_delete delete_conv' split: if_splits)

lemma items_ok_update: "items_ok B items \<Longrightarrow> item_ok B k item \<Longrightarrow> items_ok B (AList.update k item items)"
  by (auto simp: items_ok_def distinct_update update_conv' split: if_splits)

lemma items_ok_filter:
  assumes "items_ok B items"
  shows "items_ok B (filter P items)"
proof -
  have d: "distinct (map fst items)" using assms by (simp add: items_ok_def)
  then have "map_of items k = Some item" if "map_of (filter P items) k = Some item" for k item
    using map_of_SomeD[OF that] by simp
  then show ?thesis using assms d by (auto simp: items_ok_def distinct_map_filter)
qed

lemma mergePending_valid:
  assumes "validUpdate c" "validUpdate i" "mNodeID (uMember c) = mNodeID (uMember i)" "mergePendingUpdate c i = Some m"
  shows "validUpdate m" "mNodeID (uMember m) = mNodeID (uMember i)"
  using assms by (auto simp: mergePendingUpdate_def Let_def validUpdate_def split: if_splits)

lemma admit_ok:
  assumes "pending_ok B d" "validUpdate u" "0 \<le> B"
  shows "pending_ok B (admit u n d)"
proof -
  let ?k = "mNodeID (uMember u)"
  have new: "item_ok B ?k \<lparr>diUpdate = u, diSequence = s, diTransmissions = 0, diInFlight = 0\<rparr>" for s
    using assms(2,3) by (simp add: item_ok_def)
  have "int (length (AList.delete ?k (dsItems d))) \<le> max 0 (dsMaxItems d)"
    using assms(1) length_delete[of ?k "dsItems d"] by (simp add: pending_ok_def)
  then show ?thesis
    using assms(1) items_ok_delete[of B "dsItems d" ?k] items_ok_update[OF _ new, of "dsItems d"]
    by (auto simp: admit_def Let_def pending_ok_def requireDigest_def Disseminator_takeSequence_def length_update)
qed

lemma Enqueue_ok:
  assumes "pending_ok B d" "0 \<le> B"
  shows "pending_ok B (Enqueue u n d)"
proof (cases "validUpdate u")
  case True
  show ?thesis
  proof (cases "map_of (dsItems d) (mNodeID (uMember u))")
    case None
    with True assms show ?thesis by (simp add: Enqueue_def admit_ok)
  next
    case (Some c)
    then have "item_ok B (mNodeID (uMember u)) c" using assms(1) by (simp add: pending_ok_def items_ok_def)
    then have "validUpdate (diUpdate c)" "mNodeID (uMember (diUpdate c)) = mNodeID (uMember u)" by (auto simp: item_ok_def)
    from mergePending_valid(1)[OF this(1) True this(2)] True Some assms show ?thesis
      by (auto simp: Enqueue_def admit_ok split: option.splits)
  qed
qed (use assms in \<open>simp add: Enqueue_def\<close>)

lemma NewDisseminator_ok: "0 \<le> B \<Longrightarrow> pending_ok B (NewDisseminator m r)"
  by (simp add: pending_ok_def items_ok_def NewDisseminator_def)

subsection \<open>Reservations\<close>

definition bump :: "int \<Rightarrow> disseminationItem option \<Rightarrow> disseminationItem option" where
  "bump n r = map_option (\<lambda>item. item\<lparr>diInFlight := diInFlight item + n\<rparr>) r"

lemma bump_simps [simp]: "bump 0 r = r" "bump m (bump n r) = bump (m + n) r"
  by (cases r; simp add: bump_def)+

lemma addInFlight_fields: "map fst (addInFlight n k items) = map fst items"
proof (cases "map_of items k")
  case (Some item)
  then have "k \<in> fst ` set items" by (metis map_of_eq_None_iff option.distinct(1))
  with Some show ?thesis by (simp add: addInFlight_def update_keys)
qed (simp add: addInFlight_def)

lemma addInFlight_map: "map_of (addInFlight n k items) j = (if j = k then bump n (map_of items j) else map_of items j)"
  by (auto simp: addInFlight_def bump_def update_conv' split: option.splits)

lemma fold_addInFlight_map: "map_of (fold (addInFlight n) ks items) j = bump (n * int (count_list ks j)) (map_of items j)"
  by (induction ks arbitrary: items) (auto simp: addInFlight_map algebra_simps)

lemma fold_addInFlight_fields: "map fst (fold (addInFlight n) ks items) = map fst items"
  by (induction ks arbitrary: items) (auto simp: addInFlight_fields)

lemma items_ok_map:
  assumes "items_ok B items" "map fst items' = map fst items"
    "\<And>k item. map_of items' k = Some item \<Longrightarrow> item_ok B k item"
  shows "items_ok B items'"
  using assms by (auto simp: items_ok_def)

text \<open>A failed reservation restores the queue; a successful one adds one delivery in flight per token.\<close>

lemma reserveTokens_effect:
  assumes "reserveTokens b tokens reserved items = (items', fine)"
    and "\<And>j. map_of items j = bump (int (count_list reserved j)) (map_of orig j)"
  shows "map fst items' = map fst items \<and>
    (fine \<longrightarrow> (\<forall>j. map_of items' j = bump (int (count_list (map fst tokens) j)) (map_of items j))) \<and>
    (\<not> fine \<longrightarrow> map_of items' = map_of orig)"
  using assms
proof (induction tokens arbitrary: reserved items)
  case Nil
  then show ?case by simp
next
  case (Cons tk tokens)
  obtain k s where tk: "tk = (k, s)" by (cases tk)
  have roll: "map_of (fold (addInFlight (- 1)) reserved items) = map_of orig"
    by (rule ext) (simp add: fold_addInFlight_map Cons.prems(2))
  show ?case
  proof (cases "map_of items k")
    case None
    then show ?thesis using Cons.prems(1) roll tk by (auto simp: fold_addInFlight_fields)
  next
    case (Some item)
    show ?thesis
    proof (cases "diSequence item \<noteq> s \<or> diTransmissions item + diInFlight item \<ge> b")
      case True
      then show ?thesis using Cons.prems(1) roll tk Some by (auto simp: fold_addInFlight_fields)
    next
      case False
      then have "reserveTokens b tokens (reserved @ [k]) (addInFlight 1 k items) = (items', fine)"
        using Cons.prems(1) tk Some by simp
      from Cons.IH[OF this] have "map fst items' = map fst (addInFlight 1 k items) \<and>
          (fine \<longrightarrow> (\<forall>j. map_of items' j = bump (int (count_list (map fst tokens) j)) (map_of (addInFlight 1 k items) j))) \<and>
          (\<not> fine \<longrightarrow> map_of items' = map_of orig)"
        by (auto simp: addInFlight_map Cons.prems(2) algebra_simps)
      then show ?thesis by (auto simp: addInFlight_fields addInFlight_map tk algebra_simps)
    qed
  qed
qed

lemma reserveTokens_ok:
  assumes "items_ok B items" "b \<le> B" "reserveTokens b tokens reserved items = (items', True)"
  shows "items_ok B items'"
  using assms
proof (induction tokens arbitrary: reserved items)
  case (Cons tk tokens)
  obtain k s where tk: "tk = (k, s)" by (cases tk)
  obtain item where item: "map_of items k = Some item" "\<not> (diSequence item \<noteq> s \<or> diTransmissions item + diInFlight item \<ge> b)"
      "reserveTokens b tokens (reserved @ [k]) (addInFlight 1 k items) = (items', True)"
    using Cons.prems(3) tk by (auto split: option.splits if_splits)
  have "items_ok B (addInFlight 1 k items)"
    using Cons.prems(1,2) item(1,2)
    by (intro items_ok_map[OF Cons.prems(1) addInFlight_fields])
      (auto simp: addInFlight_map bump_def items_ok_def item_ok_def split: if_splits)
  with Cons item(3) show ?case by blast
qed simp

lemma Reserve_ok:
  assumes "pending_ok B d" "dbBudget batch \<le> B" "Reserve batch d = (d', batch', fine)"
  shows "pending_ok B d'"
proof (cases "dbTokens batch = [] \<or> dbBudget batch \<le> 0")
  case True
  then have "d' = d" using assms(3) by (auto simp: Reserve_def split: if_splits)
  then show ?thesis using assms(1) by simp
next
  case False
  obtain items r where r: "reserveTokens (dbBudget batch) (dbTokens batch) [] (dsItems d) = (items, r)"
    by (cases "reserveTokens (dbBudget batch) (dbTokens batch) [] (dsItems d)")
  have d': "d' = d\<lparr>dsItems := items\<rparr>" using assms(3) False r by (cases r) (auto simp: Reserve_def)
  note eff = reserveTokens_effect[OF r, of "dsItems d", simplified]
  have ok: "items_ok B (dsItems d)" using assms(1) by (simp add: pending_ok_def)
  have "items_ok B items"
  proof (cases r)
    case True
    then show ?thesis using reserveTokens_ok[OF ok assms(2)] r by simp
  next
    case False
    then show ?thesis using eff ok by (auto intro: items_ok_map simp: items_ok_def)
  qed
  moreover have "length items = length (dsItems d)" using eff by (metis length_map)
  ultimately show ?thesis using assms(1) by (simp add: pending_ok_def d')
qed

lemma releaseToken_ok:
  assumes "items_ok B items"
  shows "items_ok B (releaseToken token items)" "length (releaseToken token items) = length items"
proof -
  have "length (addInFlight n k items) = length items" for n k
    using addInFlight_fields[of n k items] by (metis length_map)
  then show "length (releaseToken token items) = length items"
    by (simp add: releaseToken_def split: option.splits)
  have "items_ok B (addInFlight (- 1) (fst token) items)"
    if "map_of items (fst token) = Some item" "0 < diInFlight item" for item
  proof -
    have "item_ok B (fst token) item" using assms that(1) by (simp add: items_ok_def)
    then show ?thesis
      using that assms by (auto simp: addInFlight_def item_ok_def intro!: items_ok_update)
  qed
  then show "items_ok B (releaseToken token items)"
    using assms by (auto simp: releaseToken_def split: option.splits)
qed

lemma Release_ok:
  assumes "pending_ok B d"
  shows "pending_ok B (Release batch d)"
proof -
  have "items_ok B (fold releaseToken tokens items) \<and> length (fold releaseToken tokens items) = length items"
    if "items_ok B items" for tokens items
    using that by (induction tokens arbitrary: items) (simp_all add: releaseToken_ok)
  then show ?thesis using assms by (simp add: Release_def pending_ok_def)
qed

lemma commitToken_ok:
  assumes "items_ok B items"
    and "\<And>item. \<not> r \<Longrightarrow> map_of items (fst token) = Some item \<Longrightarrow> diTransmissions item + diInFlight item < B"
  shows "items_ok B (commitToken r b token items)"
proof (cases "map_of items (fst token)")
  case None
  then show ?thesis using assms(1) by (simp add: commitToken_def)
next
  case (Some item)
  then have "item_ok B (fst token) item" using assms(1) by (simp add: items_ok_def)
  then show ?thesis
    using assms Some
    by (cases r) (auto simp: commitToken_def Let_def item_ok_def items_ok_delete intro!: items_ok_update)
qed

lemma commitToken_other: "k \<noteq> fst token \<Longrightarrow> map_of (commitToken r b token items) k = map_of items k"
  by (auto simp: commitToken_def Let_def delete_conv' update_conv' split: option.splits)

lemma commitToken_length: "length (commitToken r b token items) \<le> length items"
  using length_delete[of "fst token" items]
  by (auto simp: commitToken_def Let_def length_update split: option.splits)

lemma Commit_ok:
  assumes "pending_ok B d"
    and "\<And>token item. \<not> dbReserved batch \<Longrightarrow> token \<in> set (dbTokens batch) \<Longrightarrow>
       map_of (dsItems d) (fst token) = Some item \<Longrightarrow> diTransmissions item + diInFlight item < B"
    and "\<not> dbReserved batch \<Longrightarrow> distinct (map fst (dbTokens batch))"
  shows "pending_ok B (Disseminator_Commit batch d)"
proof -
  let ?r = "dbReserved batch" and ?b = "dbBudget batch"
  have "items_ok B (fold (commitToken ?r ?b) tokens items) \<and> length (fold (commitToken ?r ?b) tokens items) \<le> length items"
    if "items_ok B items" "\<not> ?r \<Longrightarrow> distinct (map fst tokens)"
      "\<And>token item. \<not> ?r \<Longrightarrow> token \<in> set tokens \<Longrightarrow> map_of items (fst token) = Some item \<Longrightarrow> diTransmissions item + diInFlight item < B"
    for tokens items
    using that
  proof (induction tokens arbitrary: items)
    case (Cons tk tokens)
    have "items_ok B (commitToken ?r ?b tk items)"
      using Cons.prems(1) Cons.prems(3)[OF _ list.set_intros(1)] by (rule commitToken_ok)
    moreover have "diTransmissions item + diInFlight item < B"
      if "\<not> ?r" "token \<in> set tokens" "map_of (commitToken ?r ?b tk items) (fst token) = Some item" for token item
    proof -
      have "fst token \<noteq> fst tk" using Cons.prems(2)[OF that(1)] that(2) by (metis distinct.simps(2) image_eqI list.set_map list.simps(9))
      from that(3)[unfolded commitToken_other[OF this]] show ?thesis
        using Cons.prems(3)[OF that(1) list.set_intros(2)[OF that(2)]] by blast
    qed
    ultimately show ?case
      using Cons.IH[of "commitToken ?r ?b tk items"] Cons.prems(2) commitToken_length[of ?r ?b tk items]
      by (auto intro: order_trans)
  qed simp
  from this[of "dsItems d" "dbTokens batch"] assms show ?thesis
    by (auto simp: Disseminator_Commit_def pending_ok_def)
qed

subsection \<open>Batches\<close>

lemma selectPrefix_prefix:
  "selectPrefix n encode selected items = Inr result \<Longrightarrow>
     \<exists>j. result = selected @ map diUpdate (take j items)"
proof (induction items arbitrary: selected)
  case (Cons item items)
  show ?case
  proof (cases "encode (selected @ [diUpdate item])")
    case (Inr e)
    show ?thesis
    proof (cases "int (length e) > n")
      case True
      then show ?thesis using Cons.prems Inr by (intro exI[of _ 0]) simp
    next
      case False
      with Cons.prems Inr Cons.IH[of "selected @ [diUpdate item]"] obtain j where
        "result = (selected @ [diUpdate item]) @ map diUpdate (take j items)" by auto
      then show ?thesis by (intro exI[of _ "Suc j"]) simp
    qed
  qed (use Cons.prems in simp)
qed simp

lemma mset_byPriority: "mset (byPriority items) = mset items"
  by (simp add: byPriority_def)

text \<open>What a peeked batch promises: its tokens name distinct queued items with room under the budget.\<close>

definition fresh_batch :: "DisseminationBatch \<Rightarrow> Disseminator \<Rightarrow> bool" where
  "fresh_batch batch d \<longleftrightarrow> \<not> dbReserved batch \<and> distinct (map fst (dbTokens batch)) \<and> length (dbTokens batch) = length (dbUpdates batch) \<and>
     (\<forall>token\<in>set (dbTokens batch). \<exists>item. map_of (dsItems d) (fst token) = Some item \<and> diSequence item = snd token \<and>
        diUpdate item \<in> set (dbUpdates batch) \<and> 0 \<le> diTransmissions item \<and> 0 \<le> diInFlight item \<and>
        diTransmissions item + diInFlight item < dbBudget batch)"

lemma fresh_batch_nil: "dbTokens b = [] \<Longrightarrow> dbUpdates b = [] \<Longrightarrow> \<not> dbReserved b \<Longrightarrow> fresh_batch b d"
  by (simp add: fresh_batch_def)

lemma Peek_ok:
  fixes encoder :: "(Update list \<Rightarrow> 'e + bytes) option"
  assumes "pending_ok B d" "Peek n alive encoder d = (d', result)"
  shows "pending_ok B d'"
    and "result = Inr batch \<Longrightarrow> fresh_batch batch d'"
    and "result = Inr batch \<Longrightarrow> dbBudget batch = RetransmitBudget (dsRetransmitMultiplier d) alive \<or> dbTokens batch = []"
    and "dsRetransmitMultiplier d' = dsRetransmitMultiplier d" "dsMaxItems d' = dsMaxItems d"
proof -
  let ?c = "RetransmitBudget (dsRetransmitMultiplier d) alive"
  define d1 where "d1 = d\<lparr>dsItems := filter (\<lambda>(_, item). \<not> diTransmissions item \<ge> ?c) (dsItems d)\<rparr>"
  define cs where "cs = filter (\<lambda>item. \<not> diTransmissions item + diInFlight item \<ge> ?c) (map snd (dsItems d1))"
  have d1: "pending_ok B d1"
    using assms(1) items_ok_filter[of B "dsItems d"] order_trans[OF of_nat_mono[OF length_filter_le]]
    by (auto simp: pending_ok_def d1_def)
  consider (same) "d' = d" "\<And>batch. result = Inr batch \<Longrightarrow> batch = emptyBatch"
    | (none) "d' = d1" "\<And>batch. result = Inr batch \<Longrightarrow> dbTokens batch = [] \<and> dbUpdates batch = [] \<and> \<not> dbReserved batch"
    | (some) encode :: "Update list \<Rightarrow> 'e + bytes" and sel where "d' = d1" "selectPrefix n encode [] (byPriority cs) = Inr sel"
        "result = Inr \<lparr>dbUpdates = sel, dbTokens = map (\<lambda>update. (mNodeID (uMember update),
                               case map_of (dsItems d1) (mNodeID (uMember update)) of
                                 Some item \<Rightarrow> diSequence item | None \<Rightarrow> 0)) sel, dbBudget = ?c, dbReserved = False\<rparr>"
    using assms(2) unfolding Peek_def Let_def d1_def[symmetric] cs_def[symmetric]
    by (auto simp: emptyBatch_def split: if_splits option.splits sum.splits)
  note cases = this
  show "pending_ok B d'" "dsRetransmitMultiplier d' = dsRetransmitMultiplier d" "dsMaxItems d' = dsMaxItems d"
    by (cases rule: cases; use assms(1) d1 in \<open>simp add: d1_def\<close>)+
  show "dbBudget batch = ?c \<or> dbTokens batch = []" if "result = Inr batch"
    by (cases rule: cases) (use that in \<open>auto simp: emptyBatch_def\<close>)
  show "fresh_batch batch d'" if res: "result = Inr batch"
  proof (cases rule: cases)
    case same
    then show ?thesis using res by (auto simp: emptyBatch_def intro: fresh_batch_nil)
  next
    case none
    then show ?thesis using res by (auto intro: fresh_batch_nil)
  next
    case (some encode sel)
    obtain j where j: "sel = map diUpdate (take j (byPriority cs))" using selectPrefix_prefix[OF some(2)] by auto
    have keys: "map (\<lambda>i. mNodeID (uMember (diUpdate i))) (map snd (dsItems d1)) = map fst (dsItems d1)"
    proof -
      have "mNodeID (uMember (diUpdate (snd p))) = fst p" if "p \<in> set (dsItems d1)" for p
      proof -
        have "map_of (dsItems d1) (fst p) = Some (snd p)"
          using that d1 by (intro map_of_is_SomeI) (auto simp: pending_ok_def items_ok_def)
        then show ?thesis using d1 by (auto simp: pending_ok_def items_ok_def item_ok_def)
      qed
      then show ?thesis by simp
    qed
    have dist: "distinct (map fst (dsItems d1))" using d1 by (simp add: pending_ok_def items_ok_def)
    then have "distinct (map (\<lambda>i. mNodeID (uMember (diUpdate i))) cs)"
      unfolding cs_def by (intro distinct_map_filter) (simp only: keys)
    then have "distinct (map (\<lambda>i. mNodeID (uMember (diUpdate i))) (byPriority cs))"
      by (metis mset_byPriority mset_map mset_eq_imp_distinct_iff)
    then have tokens: "distinct (map (\<lambda>u. mNodeID (uMember u)) sel)"
      unfolding j by (simp add: take_map[symmetric] comp_def)
    have item: "\<exists>item. map_of (dsItems d1) (mNodeID (uMember u)) = Some item \<and> diUpdate item = u \<and>
        0 \<le> diTransmissions item \<and> 0 \<le> diInFlight item \<and> diTransmissions item + diInFlight item < ?c" if u: "u \<in> set sel" for u
    proof -
      obtain i where i: "i \<in> set cs" "u = diUpdate i"
        using u j mset_eq_setD[OF mset_byPriority, of cs] by (auto dest: in_set_takeD)
      then obtain k where k: "(k, i) \<in> set (dsItems d1)" "diTransmissions i + diInFlight i < ?c" by (auto simp: cs_def)
      have m: "map_of (dsItems d1) k = Some i" using k(1) dist by (simp add: map_of_is_SomeI)
      then have "item_ok B k i" using d1 by (simp add: pending_ok_def items_ok_def)
      then show ?thesis using m k(2) i by (auto simp: item_ok_def)
    qed
    have b: "batch = \<lparr>dbUpdates = sel, dbTokens = map (\<lambda>update. (mNodeID (uMember update),
                               case map_of (dsItems d1) (mNodeID (uMember update)) of
                                 Some item \<Rightarrow> diSequence item | None \<Rightarrow> 0)) sel, dbBudget = ?c, dbReserved = False\<rparr>"
      using some(3) res by simp
    show ?thesis
      unfolding fresh_batch_def b some(1) using tokens item by (fastforce simp: comp_def)
  qed
qed

lemma reserveTokens_succeeds:
  assumes "distinct (map fst tokens)"
    and "\<And>token. token \<in> set tokens \<Longrightarrow> \<exists>item. map_of items (fst token) = Some item \<and> diSequence item = snd token \<and>
        diTransmissions item + diInFlight item < b"
  shows "snd (reserveTokens b tokens reserved items)"
  using assms
proof (induction tokens arbitrary: reserved items)
  case (Cons tk tokens)
  obtain k s where tk: "tk = (k, s)" by (cases tk)
  obtain item where item: "map_of items k = Some item" "diSequence item = s" "diTransmissions item + diInFlight item < b"
    using Cons.prems(2)[of tk] tk by auto
  have "snd (reserveTokens b tokens (reserved @ [k]) (addInFlight 1 k items))"
  proof (rule Cons.IH)
    show "distinct (map fst tokens)" using Cons.prems(1) by simp
    show "\<exists>item. map_of (addInFlight 1 k items) (fst token) = Some item \<and> diSequence item = snd token \<and>
        diTransmissions item + diInFlight item < b" if "token \<in> set tokens" for token
      using Cons.prems(1) Cons.prems(2)[of token] that tk by (force simp: addInFlight_map)
  qed
  then show ?case using tk item by simp
qed simp

text \<open>A batch can always be reserved right after it was peeked.\<close>

lemma Reserve_fresh:
  assumes "fresh_batch batch d"
  shows "\<exists>d' batch'. Reserve batch d = (d', batch', True) \<and> dbUpdates batch' = dbUpdates batch \<and> dbTokens batch' = dbTokens batch"
proof (cases "dbTokens batch = []")
  case False
  then obtain token where "token \<in> set (dbTokens batch)" by (cases "dbTokens batch") auto
  then have "0 < dbBudget batch" using assms by (force simp: fresh_batch_def)
  moreover have "snd (reserveTokens (dbBudget batch) (dbTokens batch) [] (dsItems d))"
    using assms by (intro reserveTokens_succeeds) (auto simp: fresh_batch_def)
  ultimately show ?thesis
    using False by (cases "reserveTokens (dbBudget batch) (dbTokens batch) [] (dsItems d)") (auto simp: Reserve_def)
qed (simp add: Reserve_def)

end
