(* ===== verification/Swim_Engine.thy ===== *)
theory Swim_Engine
  imports Swim_Dissemination "HOL-Library.Stream"
begin

text \<open>
  The SWIM state machine: probing (\<open>engine.go\<close>, \<open>probe.go\<close>), suspicion, tombstones and leaving
  (\<open>suspicion.go\<close>).  The engine is the sole owner of its table and queue, so they are part of its
  state.  The random source is the stream of its future samples; a shuffle of \<open>n\<close> elements draws
  one index below \<open>i + 1\<close> for each position \<open>i\<close> from the last, and every index is possible.  Each
  call returns the engine and the effects its caller must perform.
\<close>

section \<open>State\<close>

record EngineConfig =
  ecSelfID :: u16
  ecProbeInterval :: duration
  ecDirectProbeTimeout :: duration
  ecIndirectProbeTimeout :: duration
  ecIndirectChecks :: u16
  ecSuspicionMultiplier :: u16

datatype probePhase = probeDirect | probeIndirect

record activeProbe =
  apTarget :: Member
  apPhase :: probePhase
  apRelays :: "(u16 \<times> Member) list"
  apID :: ProbeID

record relayProbeKey =
  rkOriginID :: u16
  rkProbe :: ProbeID

record relayProbe =
  rpOrigin :: Member
  rpTarget :: Member

record suspicionState =
  sxIncarnation :: u64
  sxDeadline :: time
  sxDuration :: duration
  sxReporters :: "u16 list"

record tombstoneState =
  tsIncarnation :: u64
  tsStatus :: Status
  tsDeadline :: time

record Engine =
  enConfig :: EngineConfig
  enTable :: Table
  enDissemination :: Disseminator
  enSource :: "u64 stream"
  enOrder :: "u16 list"
  enIndex :: nat
  enNextSequence :: u64
  enProbePrefix :: u64
  enProbeCount :: u64
  enActiveProbes :: "(u64 \<times> activeProbe) list"
  enRelayProbes :: "(relayProbeKey \<times> relayProbe) list"
  enSuspicions :: "(u16 \<times> suspicionState) list"
  enTombstones :: "(u16 \<times> tombstoneState) list"

datatype engine_error = ErrInvalidEngineConfig

definition NewEngine :: "EngineConfig \<Rightarrow> Table \<Rightarrow> Disseminator \<Rightarrow> u64 stream \<Rightarrow> engine_error + Engine" where
  "NewEngine config table dissemination source =
     (if ecSelfID config = 0 \<or> ecProbeInterval config \<le> 0 \<or> ecDirectProbeTimeout config \<le> 0
         \<or> ecIndirectProbeTimeout config \<le> 0 \<or> ecIndirectChecks config = 0 \<or> ecSuspicionMultiplier config = 0
      then Inl ErrInvalidEngineConfig
      else if ecDirectProbeTimeout config > ecProbeInterval config - ecIndirectProbeTimeout config
      then Inl ErrInvalidEngineConfig
      else let randomSeed = shd source;
               sequence = (if randomSeed AND (2 ^ 63 - 1) = 0 then 1 else randomSeed AND (2 ^ 63 - 1))
           in Inr \<lparr>enConfig = config, enTable = table, enDissemination = dissemination, enSource = stl source,
                   enOrder = [], enIndex = 0, enNextSequence = sequence,
                   enProbePrefix = randomSeed XOR push_bit 48 (ucast (ecSelfID config)),
                   enProbeCount = sequence, enActiveProbes = [], enRelayProbes = [], enSuspicions = [], enTombstones = []\<rparr>)"

section \<open>Selection\<close>

fun shuffleFrom :: "nat \<Rightarrow> u64 stream \<Rightarrow> 'a list \<Rightarrow> 'a list \<times> u64 stream" where
  "shuffleFrom 0 source xs = (xs, source)"
| "shuffleFrom (Suc i) source xs =
     shuffleFrom i (stl source) (swap (Suc i) (unat (shd source) mod (Suc i + 1)) xs)"

definition Shuffle :: "u64 stream \<Rightarrow> 'a list \<Rightarrow> 'a list \<times> u64 stream" where
  "Shuffle source xs = shuffleFrom (length xs - 1) source xs"

text \<open>The rest of the current cycle: the next eligible peer and the index behind it.\<close>

function scanOrder :: "(u16 \<Rightarrow> Member option) \<Rightarrow> u16 \<Rightarrow> u16 list \<Rightarrow> nat \<Rightarrow> (Member \<times> nat) option" where
  "scanOrder current selfID order index =
     (if index \<ge> length order then None
      else case current (order ! index) of
        Some member \<Rightarrow>
          if mNodeID member \<noteq> selfID \<and> mStatus member = Alive then Some (member, Suc index)
          else scanOrder current selfID order (Suc index)
      | None \<Rightarrow> scanOrder current selfID order (Suc index))"
  by pat_completeness auto

termination
  by (relation "measure (\<lambda>(current, selfID, order, index). length order - index)") auto

declare scanOrder.simps [simp del]

definition eligibleIDs :: "Member list \<Rightarrow> u16 \<Rightarrow> u16 list" where
  "eligibleIDs members selfID = map mNodeID (filter (\<lambda>m. mNodeID m \<noteq> selfID \<and> mStatus m = Alive) members)"

text \<open>
  \<open>probeSelector.next\<close>: finish the cycle, or shuffle a new one and take its first peer.  A new
  cycle holds eligible peers only, so the search in it ends at once.
\<close>

definition selector_next :: "Member list \<Rightarrow> Engine \<Rightarrow> Engine \<times> Member option" where
  "selector_next members e =
     (let selfID = ecSelfID (enConfig e);
          current = map_of (rev (map (\<lambda>m. (mNodeID m, m)) members))
      in case scanOrder current selfID (enOrder e) (enIndex e) of
           Some (member, index) \<Rightarrow> (e\<lparr>enIndex := index\<rparr>, Some member)
         | None \<Rightarrow>
             if eligibleIDs members selfID = [] then (e\<lparr>enOrder := [], enIndex := 0\<rparr>, None)
             else let (order, source) = Shuffle (enSource e) (sort (eligibleIDs members selfID));
                      e = e\<lparr>enOrder := order, enSource := source\<rparr>
                  in case scanOrder current selfID order 0 of
                       Some (member, index) \<Rightarrow> (e\<lparr>enIndex := index\<rparr>, Some member)
                     | None \<Rightarrow> (e\<lparr>enIndex := length order\<rparr>, None))"

definition selectRelays :: "Member \<Rightarrow> Engine \<Rightarrow> Engine \<times> Member list" where
  "selectRelays target e =
     (let candidates = filter (\<lambda>m. mStatus m = Alive \<and> mNodeID m \<noteq> ecSelfID (enConfig e) \<and> mNodeID m \<noteq> mNodeID target)
            (Table_Snapshot (enTable e));
          (relays, source) = Shuffle (enSource e) candidates
      in (e\<lparr>enSource := source\<rparr>, take (unat (ecIndirectChecks (enConfig e))) relays))"

definition Engine_takeSequence :: "Engine \<Rightarrow> Engine \<times> u64" where
  "Engine_takeSequence e =
     (e\<lparr>enNextSequence := (if enNextSequence e + 1 = 0 then 1 else enNextSequence e + 1)\<rparr>, enNextSequence e)"

definition takeProbeRequestID :: "Engine \<Rightarrow> Engine \<times> RequestID" where
  "takeProbeRequestID e =
     (let count = (if enProbeCount e + 1 = 0 then 1 else enProbeCount e + 1);
          requestID = push_bit 64 (ucast (enProbePrefix e)) OR ucast count :: RequestID
      in (e\<lparr>enProbeCount := count\<rparr>, if requestID = 0 then 1 else requestID))"

definition probeRequestIDMatches :: "RequestID \<Rightarrow> RequestID \<Rightarrow> bool" where
  "probeRequestIDMatches expected actual \<longleftrightarrow> expected = 0 \<or> actual = 0 \<or> expected = actual"

definition sameMemberGeneration :: "Member \<Rightarrow> Member \<Rightarrow> bool" where
  "sameMemberGeneration left right \<longleftrightarrow> mNodeID left = mNodeID right \<and> mIncarnation left = mIncarnation right"

definition sameProbeIdentity :: "Member \<Rightarrow> Member \<Rightarrow> bool" where
  "sameProbeIdentity left right \<longleftrightarrow>
     sameMemberGeneration left right \<and> mHost left = mHost right \<and> mBasePort left = mBasePort right"

definition currentAlivePeer :: "Member \<Rightarrow> Engine \<Rightarrow> bool" where
  "currentAlivePeer peer e \<longleftrightarrow> mNodeID peer \<noteq> 0 \<and> mNodeID peer \<noteq> ecSelfID (enConfig e) \<and>
     (case Table_Get (mNodeID peer) (enTable e) of
        None \<Rightarrow> False
      | Some current \<Rightarrow> mStatus current = Alive \<and> sameProbeIdentity current peer)"

section \<open>Durations\<close>

definition minimumSuspicionDuration :: duration where
  "minimumSuspicionDuration = 5 * 10 ^ 9"

definition SuspicionDuration :: "int \<Rightarrow> duration \<Rightarrow> int \<Rightarrow> duration" where
  "SuspicionDuration multiplier probeInterval aliveMembers =
     (if multiplier \<le> 0 \<or> probeInterval \<le> 0 \<or> aliveMembers \<le> 0 then minimumSuspicionDuration
      else let levels = int (bitsLen (nat aliveMembers))
           in if multiplier > MaxInt div levels then MaxInt
              else let factor = multiplier * levels
                   in if probeInterval > MaxInt div factor then MaxInt
                      else if factor * probeInterval < minimumSuspicionDuration then minimumSuspicionDuration
                      else factor * probeInterval)"

definition multiplyDurationSaturated :: "duration \<Rightarrow> int \<Rightarrow> duration" where
  "multiplyDurationSaturated duration factor =
     (if duration \<le> 0 \<or> factor \<le> 0 then 0
      else if duration > MaxInt div factor then MaxInt else duration * factor)"

definition addDurationSaturated :: "time \<Rightarrow> duration \<Rightarrow> time" where
  "addDurationSaturated now duration =
     (let deadline = timeAdd now duration
      in if duration > 0 \<and> deadline < now then (2 ^ 63 - 1) * 10 ^ 9 + 999999999 else deadline)"

definition leaveDuration :: "int \<Rightarrow> duration \<Rightarrow> int \<Rightarrow> duration" where
  "leaveDuration retransmitMultiplier probeInterval aliveMembers =
     (let duration = multiplyDurationSaturated probeInterval (RetransmitBudget retransmitMultiplier aliveMembers)
      in if duration < minimumSuspicionDuration then minimumSuspicionDuration else duration)"

section \<open>Updates\<close>

definition aliveMembers :: "Engine \<Rightarrow> int" where
  "aliveMembers e = int (length (filter (\<lambda>(_, member). mStatus member = Alive) (tMembers (enTable e))))"

definition appliedTransition :: "Effects \<Rightarrow> MembershipEvent \<Rightarrow> u16 \<Rightarrow> Engine \<Rightarrow> Engine \<times> Effects" where
  "appliedTransition effects event reporterID e =
     (let dissemination = Enqueue \<lparr>uMember = evCurrent event, uReporterID = reporterID\<rparr> (aliveMembers e) (enDissemination e)
      in (e\<lparr>enDissemination := dissemination\<rparr>,
          effects\<lparr>fxEvents := fxEvents effects @ [event], fxSnapshotRequired := dsDigestRequired dissemination\<rparr>))"

definition suspicionTimer :: "u16 \<Rightarrow> u64 \<Rightarrow> time \<Rightarrow> TimerRequest" where
  "suspicionTimer nodeID incarnation deadline =
     (zeroTimer TimerSuspicion deadline)\<lparr>trNodeID := nodeID, trIncarnation := incarnation\<rparr>"

definition beginSuspicion :: "Member \<Rightarrow> u16 \<Rightarrow> int \<Rightarrow> time \<Rightarrow> Engine \<Rightarrow> Engine \<times> TimerRequest" where
  "beginSuspicion member reporterID alive now e =
     (let duration = SuspicionDuration (int (unat (ecSuspicionMultiplier (enConfig e)))) (ecProbeInterval (enConfig e)) alive;
          deadline = addDurationSaturated now duration
      in (e\<lparr>enSuspicions := AList.update (mNodeID member)
              \<lparr>sxIncarnation = mIncarnation member, sxDeadline = deadline, sxDuration = duration, sxReporters = [reporterID]\<rparr>
              (enSuspicions e)\<rparr>,
          suspicionTimer (mNodeID member) (mIncarnation member) deadline))"

definition corroborateSuspicion :: "Member \<Rightarrow> u16 \<Rightarrow> time \<Rightarrow> Engine \<Rightarrow> Engine \<times> Effects" where
  "corroborateSuspicion member reporterID now e =
     (case map_of (enSuspicions e) (mNodeID member) of
        None \<Rightarrow> (e, noEffects)
      | Some suspicion \<Rightarrow>
          if sxIncarnation suspicion \<noteq> mIncarnation member then (e, noEffects)
          else if reporterID \<in> set (sxReporters suspicion) then (e, noEffects)
          else let suspicion = suspicion\<lparr>sxReporters := sxReporters suspicion @ [reporterID]\<rparr>;
                   remaining = sxDuration suspicion div int (length (sxReporters suspicion));
                   remaining = (if remaining < ecProbeInterval (enConfig e) then ecProbeInterval (enConfig e) else remaining);
                   candidate = addDurationSaturated now remaining
               in if \<not> candidate < sxDeadline suspicion
                  then (e\<lparr>enSuspicions := AList.update (mNodeID member) suspicion (enSuspicions e)\<rparr>, noEffects)
                  else (e\<lparr>enSuspicions := AList.update (mNodeID member) (suspicion\<lparr>sxDeadline := candidate\<rparr>) (enSuspicions e)\<rparr>,
                        noEffects\<lparr>fxTimers := [suspicionTimer (mNodeID member) (mIncarnation member) candidate]\<rparr>))"

definition beginTombstone :: "Member \<Rightarrow> time \<Rightarrow> Engine \<Rightarrow> Engine \<times> TimerRequest" where
  "beginTombstone member now e =
     (let retention = multiplyDurationSaturated
            (SuspicionDuration (int (unat (ecSuspicionMultiplier (enConfig e)))) (ecProbeInterval (enConfig e)) (aliveMembers e)) 10;
          deadline = addDurationSaturated now retention
      in (e\<lparr>enTombstones := AList.update (mNodeID member)
              \<lparr>tsIncarnation = mIncarnation member, tsStatus = mStatus member, tsDeadline = deadline\<rparr> (enTombstones e)\<rparr>,
          (zeroTimer TimerTombstone deadline)\<lparr>trNodeID := mNodeID member, trIncarnation := mIncarnation member,
             trStatus := mStatus member\<rparr>))"

definition forgetSuspicion :: "u16 \<Rightarrow> Engine \<Rightarrow> Engine" where
  "forgetSuspicion nodeID e = e\<lparr>enSuspicions := AList.delete nodeID (enSuspicions e)\<rparr>"

definition forgetTombstone :: "u16 \<Rightarrow> Engine \<Rightarrow> Engine" where
  "forgetTombstone nodeID e = e\<lparr>enTombstones := AList.delete nodeID (enTombstones e)\<rparr>"

text \<open>The branch of \<open>ApplyUpdate\<close> that answers a suspicion of the local node.\<close>

definition refutes :: "Update \<Rightarrow> Engine \<Rightarrow> bool" where
  "refutes update e \<longleftrightarrow>
     (case Table_Get (mNodeID (uMember update)) (enTable e) of
        None \<Rightarrow> False
      | Some current \<Rightarrow> mNodeID current = ecSelfID (enConfig e) \<and> mStatus (uMember update) = Suspect \<and>
          mIncarnation (uMember update) = mIncarnation current \<and> mStatus current \<le> Suspect)"

definition refuteSuspicion :: "Member \<Rightarrow> Engine \<Rightarrow> Engine \<times> Effects" where
  "refuteSuspicion current e =
     (if mIncarnation current = MaxUint64 then (e, noEffects)
      else let refutation = current\<lparr>mIncarnation := mIncarnation current + 1, mStatus := Alive\<rparr>;
               effects = noEffects\<lparr>fxPersistIncarnation := Some (mIncarnation refutation)\<rparr>
           in case Merge \<lparr>uMember = refutation, uReporterID = ecSelfID (enConfig e)\<rparr> (enTable e) of
                (table, False, _) \<Rightarrow> (e\<lparr>enTable := table\<rparr>, noEffects)
              | (table, True, event) \<Rightarrow>
                  appliedTransition effects event (ecSelfID (enConfig e))
                    (forgetTombstone (mNodeID current) (forgetSuspicion (mNodeID current) (e\<lparr>enTable := table\<rparr>))))"

definition ApplyUpdate :: "Update \<Rightarrow> time \<Rightarrow> Engine \<Rightarrow> Engine \<times> Effects" where
  "ApplyUpdate update now e =
     (if \<not> validUpdate update then (e, noEffects)
      else let current = Table_Get (mNodeID (uMember update)) (enTable e)
           in if refutes update e then refuteSuspicion (the current) e
              else let aliveBefore = aliveMembers e
                   in case Merge update (enTable e) of
                        (table, False, _) \<Rightarrow>
                          (case current of
                             Some c \<Rightarrow>
                               if mStatus (uMember update) = Suspect \<and> mStatus c = Suspect
                                  \<and> mIncarnation (uMember update) = mIncarnation c
                               then corroborateSuspicion c (uReporterID update) now (e\<lparr>enTable := table\<rparr>)
                               else (e\<lparr>enTable := table\<rparr>, noEffects)
                           | None \<Rightarrow> (e\<lparr>enTable := table\<rparr>, noEffects))
                      | (table, True, event) \<Rightarrow>
                          let e = e\<lparr>enTable := table\<rparr>;
                              nodeID = mNodeID (evCurrent event);
                              status = mStatus (evCurrent event);
                              (e, effects) =
                                (if status = Alive then (forgetTombstone nodeID (forgetSuspicion nodeID e), noEffects)
                                 else if status = Suspect
                                 then let (e, timer) = beginSuspicion (evCurrent event) (uReporterID update) aliveBefore now
                                            (forgetTombstone nodeID e)
                                      in (e, noEffects\<lparr>fxTimers := [timer]\<rparr>)
                                 else if status = Dead \<or> status = Left
                                 then let (e, timer) = beginTombstone (evCurrent event) now (forgetSuspicion nodeID e)
                                      in (e, noEffects\<lparr>fxTimers := [timer]\<rparr>)
                                 else (e, noEffects))
                          in appliedTransition effects event (uReporterID update) e)"

definition HandleSuspicionTimeout :: "u16 \<Rightarrow> u64 \<Rightarrow> time \<Rightarrow> Engine \<Rightarrow> Engine \<times> Effects" where
  "HandleSuspicionTimeout nodeID incarnation now e =
     (case map_of (enSuspicions e) nodeID of
        None \<Rightarrow> (e, noEffects)
      | Some suspicion \<Rightarrow>
          if sxIncarnation suspicion \<noteq> incarnation \<or> now < sxDeadline suspicion then (e, noEffects)
          else case Table_Get nodeID (enTable e) of
            None \<Rightarrow> (forgetSuspicion nodeID e, noEffects)
          | Some member \<Rightarrow>
              if mIncarnation member \<noteq> incarnation \<or> mStatus member \<noteq> Suspect then (forgetSuspicion nodeID e, noEffects)
              else ApplyUpdate \<lparr>uMember = member\<lparr>mStatus := Dead\<rparr>, uReporterID = ecSelfID (enConfig e)\<rparr> now
                     (forgetSuspicion nodeID e))"

definition ExpireTombstone :: "u16 \<Rightarrow> u64 \<Rightarrow> Status \<Rightarrow> time \<Rightarrow> Engine \<Rightarrow> Engine \<times> Effects" where
  "ExpireTombstone nodeID incarnation status now e =
     (case map_of (enTombstones e) nodeID of
        None \<Rightarrow> (e, noEffects)
      | Some tombstone \<Rightarrow>
          if tsIncarnation tombstone \<noteq> incarnation \<or> tsStatus tombstone \<noteq> status \<or> now < tsDeadline tombstone
          then (e, noEffects)
          else case Table_Get nodeID (enTable e) of
            None \<Rightarrow> (forgetTombstone nodeID e, noEffects)
          | Some member \<Rightarrow>
              if mIncarnation member \<noteq> incarnation \<or> mStatus member \<noteq> status then (forgetTombstone nodeID e, noEffects)
              else ((forgetTombstone nodeID e)\<lparr>enTable := fst (ExpireTerminal member (enTable e))\<rparr>, noEffects))"

definition Leave :: "time \<Rightarrow> Engine \<Rightarrow> Engine \<times> Effects" where
  "Leave now e =
     (case Table_Get (ecSelfID (enConfig e)) (enTable e) of
        None \<Rightarrow> (e, noEffects)
      | Some self \<Rightarrow>
          if mStatus self = Left \<or> mIncarnation self = MaxUint64 then (e, noEffects)
          else let aliveBefore = aliveMembers e;
                   self = self\<lparr>mIncarnation := mIncarnation self + 1, mStatus := Left\<rparr>
               in case Merge \<lparr>uMember = self, uReporterID = ecSelfID (enConfig e)\<rparr> (enTable e) of
                    (table, False, _) \<Rightarrow> (e\<lparr>enTable := table\<rparr>, noEffects)
                  | (table, True, event) \<Rightarrow>
                      let e = forgetSuspicion (mNodeID self) (e\<lparr>enTable := table\<rparr>);
                          leaveTimer = (zeroTimer TimerLeaveDeadline
                            (addDurationSaturated now (leaveDuration (dsRetransmitMultiplier (enDissemination e))
                               (ecProbeInterval (enConfig e)) aliveBefore)))
                            \<lparr>trNodeID := mNodeID self, trIncarnation := mIncarnation self, trStatus := Left\<rparr>;
                          (e, tombstoneTimer) = beginTombstone self now e
                      in appliedTransition
                           (noEffects\<lparr>fxPersistIncarnation := Some (mIncarnation self), fxTimers := [leaveTimer, tombstoneTimer]\<rparr>)
                           event (ecSelfID (enConfig e)) e)"

definition ApplyIncarnationFloor :: "Member \<Rightarrow> u16 \<Rightarrow> time \<Rightarrow> Engine \<Rightarrow> Engine \<times> Effects" where
  "ApplyIncarnationFloor floor reporterID now e =
     (case MergeIncarnationFloor floor reporterID (enTable e) of
        (table, changed, event) \<Rightarrow>
          if \<not> changed \<or> mNodeID (evCurrent event) = 0 then (e\<lparr>enTable := table\<rparr>, noEffects)
          else let (e, timer) = beginTombstone (evCurrent event) now
                     (forgetSuspicion (mNodeID (evCurrent event)) (e\<lparr>enTable := table\<rparr>))
               in appliedTransition (noEffects\<lparr>fxTimers := [timer]\<rparr>) event reporterID e)"

section \<open>Probes\<close>

definition BeginProbe :: "time \<Rightarrow> Engine \<Rightarrow> Engine \<times> Effects" where
  "BeginProbe now e =
     (case selector_next (Table_Snapshot (enTable e)) e of
        (e, None) \<Rightarrow> (e, noEffects)
      | (e, Some target) \<Rightarrow>
          let (e, sequence) = Engine_takeSequence e;
              (e, requestID) = takeProbeRequestID e;
              probe = \<lparr>apTarget = target, apPhase = probeDirect, apRelays = [],
                       apID = \<lparr>piSequence = sequence, piRequestID = requestID\<rparr>\<rparr>
          in (e\<lparr>enActiveProbes := AList.update sequence probe (enActiveProbes e)\<rparr>,
              noEffects\<lparr>fxOutbound := [\<lparr>obTo = target,
                  obMessage = OPing \<lparr>pgOriginID = ecSelfID (enConfig e), pgSequence = sequence, pgRequestID = requestID\<rparr>\<rparr>],
                fxTimers := [(zeroTimer TimerDirectProbe (timeAdd now (ecDirectProbeTimeout (enConfig e))))
                  \<lparr>trSequence := sequence, trRequestID := requestID\<rparr>]\<rparr>))"

definition dropProbe :: "u64 \<Rightarrow> Engine \<Rightarrow> Engine" where
  "dropProbe sequence e = e\<lparr>enActiveProbes := AList.delete sequence (enActiveProbes e)\<rparr>"

definition HandleDirectTimeout :: "u64 \<Rightarrow> time \<Rightarrow> Engine \<Rightarrow> Engine \<times> Effects" where
  "HandleDirectTimeout sequence now e =
     (case map_of (enActiveProbes e) sequence of
        None \<Rightarrow> (e, noEffects)
      | Some probe \<Rightarrow>
          if apPhase probe \<noteq> probeDirect then (e, noEffects)
          else case Table_Get (mNodeID (apTarget probe)) (enTable e) of
            None \<Rightarrow> (dropProbe sequence e, noEffects)
          | Some currentTarget \<Rightarrow>
              if mStatus currentTarget \<noteq> Alive \<or> \<not> sameMemberGeneration currentTarget (apTarget probe)
              then (dropProbe sequence e, noEffects)
              else let (e, relays) = selectRelays (apTarget probe) e;
                       probe = probe\<lparr>apPhase := probeIndirect, apRelays := map (\<lambda>r. (mNodeID r, r)) relays\<rparr>
                   in (e\<lparr>enActiveProbes := AList.update sequence probe (enActiveProbes e)\<rparr>,
                       noEffects\<lparr>fxOutbound := map (\<lambda>relay. \<lparr>obTo = relay,
                           obMessage = OPingReq \<lparr>prOriginID = ecSelfID (enConfig e), prTarget = apTarget probe,
                             prSequence = sequence, prRequestID = piRequestID (apID probe)\<rparr>\<rparr>) relays,
                         fxTimers := [(zeroTimer TimerIndirectProbe (timeAdd now (ecIndirectProbeTimeout (enConfig e))))
                           \<lparr>trSequence := sequence, trRequestID := piRequestID (apID probe)\<rparr>]\<rparr>))"

definition HandleDirectTimeoutRequest :: "ProbeID \<Rightarrow> time \<Rightarrow> Engine \<Rightarrow> Engine \<times> Effects" where
  "HandleDirectTimeoutRequest probeID now e =
     (case map_of (enActiveProbes e) (piSequence probeID) of
        None \<Rightarrow> (e, noEffects)
      | Some probe \<Rightarrow>
          if apID probe \<noteq> probeID then (e, noEffects) else HandleDirectTimeout (piSequence probeID) now e)"

definition HandlePing :: "Member \<Rightarrow> Ping \<Rightarrow> Engine \<Rightarrow> Engine \<times> Effects" where
  "HandlePing sender message e =
     (let originID = (if pgOriginID message = 0 then mNodeID sender else pgOriginID message)
      in if pgSequence message = 0 \<or> \<not> currentAlivePeer sender e then (e, noEffects)
         else (e, noEffects\<lparr>fxOutbound := [\<lparr>obTo = sender,
                 obMessage = OAck \<lparr>akOriginID = originID, akSequence = pgSequence message, akRequestID = pgRequestID message\<rparr>\<rparr>]\<rparr>))"

definition HandlePingReq :: "Member \<Rightarrow> PingReq \<Rightarrow> time \<Rightarrow> Engine \<Rightarrow> Engine \<times> Effects" where
  "HandlePingReq sender message now e =
     (let originID = (if prOriginID message = 0 then mNodeID sender else prOriginID message)
      in if prSequence message = 0 \<or> originID \<noteq> mNodeID sender \<or> \<not> currentAlivePeer sender e then (e, noEffects)
         else if mNodeID (prTarget message) = ecSelfID (enConfig e) \<or> mNodeID (prTarget message) = mNodeID sender
         then (e, noEffects)
         else case Table_Get (mNodeID (prTarget message)) (enTable e) of
           None \<Rightarrow> (e, noEffects)
         | Some target \<Rightarrow>
             if mStatus target \<noteq> Alive \<or> \<not> sameProbeIdentity target (prTarget message) then (e, noEffects)
             else let key = \<lparr>rkOriginID = originID, rkProbe = PingReq_ID message\<rparr>
                  in if map_of (enRelayProbes e) key \<noteq> None then (e, noEffects)
                     else (e\<lparr>enRelayProbes := AList.update key \<lparr>rpOrigin = sender, rpTarget = target\<rparr> (enRelayProbes e)\<rparr>,
                           noEffects\<lparr>fxOutbound := [\<lparr>obTo = target,
                               obMessage = OPing \<lparr>pgOriginID = originID, pgSequence = prSequence message,
                                 pgRequestID = prRequestID message\<rparr>\<rparr>],
                             fxTimers := [(zeroTimer TimerRelayProbe (timeAdd now (ecIndirectProbeTimeout (enConfig e))))
                               \<lparr>trOriginID := originID, trSequence := prSequence message, trRequestID := prRequestID message\<rparr>]\<rparr>))"

datatype ackDisposition = ackNotAccepted | ackLocalProbe | ackRelayProbe

definition ack_disposition :: "Member \<Rightarrow> Ack \<Rightarrow> Engine \<Rightarrow> ackDisposition" where
  "ack_disposition sender message e =
     (let originID = akOriginID message;
          localProbe = (originID = 0 \<or> originID = ecSelfID (enConfig e)) \<and>
            (case map_of (enActiveProbes e) (akSequence message) of
               None \<Rightarrow> False
             | Some probe \<Rightarrow> probeRequestIDMatches (piRequestID (apID probe)) (akRequestID message) \<and>
                 sameProbeIdentity sender (apTarget probe))
      in if localProbe then ackLocalProbe
         else case map_of (enRelayProbes e) \<lparr>rkOriginID = originID, rkProbe = Ack_ID message\<rparr> of
           None \<Rightarrow> ackNotAccepted
         | Some probe \<Rightarrow> if sameProbeIdentity sender (rpTarget probe) then ackRelayProbe else ackNotAccepted)"

definition acceptsAck :: "Member \<Rightarrow> Ack \<Rightarrow> Engine \<Rightarrow> bool" where
  "acceptsAck sender message e \<longleftrightarrow> ack_disposition sender message e \<noteq> ackNotAccepted"

definition HandleAck :: "Member \<Rightarrow> Ack \<Rightarrow> Engine \<Rightarrow> Engine \<times> Effects" where
  "HandleAck sender message e =
     (case ack_disposition sender message e of
        ackLocalProbe \<Rightarrow> (dropProbe (akSequence message) e, noEffects)
      | ackRelayProbe \<Rightarrow>
          let key = \<lparr>rkOriginID = akOriginID message, rkProbe = Ack_ID message\<rparr>;
              probe = the (map_of (enRelayProbes e) key)
          in (e\<lparr>enRelayProbes := AList.delete key (enRelayProbes e)\<rparr>,
              noEffects\<lparr>fxOutbound := [\<lparr>obTo = rpOrigin probe,
                obMessage = OIndirectAck \<lparr>iaOriginID = akOriginID message, iaTarget = rpTarget probe,
                  iaSequence = akSequence message, iaRequestID = akRequestID message\<rparr>\<rparr>]\<rparr>)
      | ackNotAccepted \<Rightarrow> (e, noEffects))"

definition acceptsIndirectAck :: "Member \<Rightarrow> IndirectAck \<Rightarrow> Engine \<Rightarrow> bool" where
  "acceptsIndirectAck sender message e \<longleftrightarrow>
     (case map_of (enActiveProbes e) (iaSequence message) of
        None \<Rightarrow> False
      | Some probe \<Rightarrow>
          apPhase probe = probeIndirect \<and> probeRequestIDMatches (piRequestID (apID probe)) (iaRequestID message) \<and>
          \<not> (iaOriginID message \<noteq> 0 \<and> iaOriginID message \<noteq> ecSelfID (enConfig e)) \<and>
          sameProbeIdentity (iaTarget message) (apTarget probe) \<and>
          (case map_of (apRelays probe) (mNodeID sender) of
             None \<Rightarrow> False
           | Some relay \<Rightarrow> sameProbeIdentity sender relay))"

definition HandleIndirectAck :: "Member \<Rightarrow> IndirectAck \<Rightarrow> Engine \<Rightarrow> Engine \<times> Effects" where
  "HandleIndirectAck sender message e =
     (if \<not> acceptsIndirectAck sender message e then (e, noEffects)
      else (dropProbe (iaSequence message) e, noEffects))"

definition HandleRelayTimeout :: "u16 \<Rightarrow> u64 \<Rightarrow> Engine \<Rightarrow> Engine \<times> Effects" where
  "HandleRelayTimeout originID sequence e =
     (e\<lparr>enRelayProbes := filter (\<lambda>(key, _). \<not> (rkOriginID key = originID \<and> piSequence (rkProbe key) = sequence))
          (enRelayProbes e)\<rparr>, noEffects)"

definition HandleRelayTimeoutRequest :: "u16 \<Rightarrow> u64 \<Rightarrow> RequestID \<Rightarrow> Engine \<Rightarrow> Engine \<times> Effects" where
  "HandleRelayTimeoutRequest originID sequence requestID e =
     (e\<lparr>enRelayProbes := AList.delete
          \<lparr>rkOriginID = originID, rkProbe = \<lparr>piSequence = sequence, piRequestID = requestID\<rparr>\<rparr> (enRelayProbes e)\<rparr>, noEffects)"

definition HandleIndirectTimeout :: "u64 \<Rightarrow> time \<Rightarrow> Engine \<Rightarrow> Engine \<times> Effects" where
  "HandleIndirectTimeout sequence now e =
     (case map_of (enActiveProbes e) sequence of
        None \<Rightarrow> (e, noEffects)
      | Some probe \<Rightarrow>
          if apPhase probe \<noteq> probeIndirect then (e, noEffects)
          else case Table_Get (mNodeID (apTarget probe)) (enTable e) of
            None \<Rightarrow> (dropProbe sequence e, noEffects)
          | Some current \<Rightarrow>
              if mStatus current \<noteq> Alive \<and> mStatus current \<noteq> Suspect \<or> \<not> sameProbeIdentity current (apTarget probe)
              then (dropProbe sequence e, noEffects)
              else ApplyUpdate \<lparr>uMember = current\<lparr>mStatus := Suspect\<rparr>, uReporterID = ecSelfID (enConfig e)\<rparr> now
                     (dropProbe sequence e))"

definition HandleIndirectTimeoutRequest :: "ProbeID \<Rightarrow> time \<Rightarrow> Engine \<Rightarrow> Engine \<times> Effects" where
  "HandleIndirectTimeoutRequest probeID now e =
     (case map_of (enActiveProbes e) (piSequence probeID) of
        None \<Rightarrow> (e, noEffects)
      | Some probe \<Rightarrow>
          if apID probe \<noteq> probeID then (e, noEffects) else HandleIndirectTimeout (piSequence probeID) now e)"

end
