(* ===== verification/Swim_Engine_Facts.thy ===== *)
theory Swim_Engine_Facts
  imports Swim_Engine
begin

text \<open>
  The invariant of the SWIM engine and that every call keeps it: the suspected members are exactly
  those with a running suspicion of the same incarnation, the visible terminal members exactly those
  with a tombstone of the same incarnation and status, and each of these has a timer request the
  caller was handed.  Every call only adds to what the table knows.
\<close>

section \<open>Tracking\<close>

definition track_suspicion :: "Member option \<Rightarrow> suspicionState option \<Rightarrow> bool" where
  "track_suspicion m s \<longleftrightarrow>
     (case s of
        None \<Rightarrow> (\<forall>member. m = Some member \<longrightarrow> mStatus member \<noteq> Suspect)
      | Some suspicion \<Rightarrow> (\<exists>member. m = Some member \<and> mStatus member = Suspect \<and> mIncarnation member = sxIncarnation suspicion))"

definition track_tombstone :: "Member option \<Rightarrow> tombstoneState option \<Rightarrow> bool" where
  "track_tombstone m s \<longleftrightarrow>
     (case s of
        None \<Rightarrow> (\<forall>member. m = Some member \<longrightarrow> \<not> terminal (mStatus member))
      | Some tombstone \<Rightarrow> (\<exists>member. m = Some member \<and> terminal (mStatus member) \<and> mStatus member = tsStatus tombstone
          \<and> mIncarnation member = tsIncarnation tombstone))"

definition engine_ok :: "Engine \<Rightarrow> bool" where
  "engine_ok e \<longleftrightarrow> table_ok (enTable e) \<and> ecSelfID (enConfig e) \<noteq> 0 \<and>
     (\<forall>k m. map_of (tMembers (enTable e)) k = Some m \<longrightarrow> mIncarnation m \<noteq> 0) \<and>
     (\<forall>k. track_suspicion (map_of (tMembers (enTable e)) k) (map_of (enSuspicions e) k) \<and>
          track_tombstone (map_of (tMembers (enTable e)) k) (map_of (enTombstones e) k))"

lemma engine_tracks:
  assumes "engine_ok e"
  shows "track_suspicion (map_of (tMembers (enTable e)) k) (map_of (enSuspicions e) k)"
    "track_tombstone (map_of (tMembers (enTable e)) k) (map_of (enTombstones e) k)"
  using assms by (simp_all add: engine_ok_def)

definition tombstoneTimer :: "u16 \<Rightarrow> tombstoneState \<Rightarrow> TimerRequest" where
  "tombstoneTimer k s = (zeroTimer TimerTombstone (tsDeadline s))\<lparr>trNodeID := k, trIncarnation := tsIncarnation s,
     trStatus := tsStatus s\<rparr>"

text \<open>The deadlines of an engine are among the timers already requested or those of this call.\<close>

definition timed :: "TimerRequest set \<Rightarrow> Engine \<Rightarrow> bool" where
  "timed T e \<longleftrightarrow>
     (\<forall>k s. map_of (enSuspicions e) k = Some s \<longrightarrow> suspicionTimer k (sxIncarnation s) (sxDeadline s) \<in> T) \<and>
     (\<forall>k s. map_of (enTombstones e) k = Some s \<longrightarrow> tombstoneTimer k s \<in> T)"

definition good_step :: "Engine \<Rightarrow> Engine \<times> Effects \<Rightarrow> bool" where
  "good_step e r \<longleftrightarrow> engine_ok (fst r) \<and> table_le (enTable e) (enTable (fst r)) \<and> enConfig (fst r) = enConfig e \<and>
     (\<forall>T. timed T e \<longrightarrow> timed (T \<union> set (fxTimers (snd r))) (fst r))"

lemma timed_mono: "timed T e \<Longrightarrow> T \<subseteq> T' \<Longrightarrow> timed T' e"
  unfolding timed_def by blast

lemma good_same:
  assumes "engine_ok e" "enTable e' = enTable e" "enConfig e' = enConfig e" "enSuspicions e' = enSuspicions e"
    "enTombstones e' = enTombstones e"
  shows "good_step e (e', fx)"
  using assms by (auto simp: good_step_def engine_ok_def knowledge.R_refl timed_def)

lemma good_refl [simp]: "engine_ok e \<Longrightarrow> good_step e (e, fx)"
  by (rule good_same) simp_all

lemma good_trans:
  assumes "good_step e (e', fx')" "good_step e' r" "set (fxTimers fx') \<subseteq> set (fxTimers (snd r))"
  shows "good_step e r"
proof -
  have "timed (T \<union> set (fxTimers (snd r))) (fst r)" if "timed T e" for T
  proof -
    have "timed (T \<union> set (fxTimers fx')) e'" using assms(1) that by (simp add: good_step_def)
    then have "timed (T \<union> set (fxTimers fx') \<union> set (fxTimers (snd r))) (fst r)"
      using assms(2) by (simp add: good_step_def)
    then show ?thesis using assms(3) by (rule_tac timed_mono) auto
  qed
  moreover have "table_le (enTable e) (enTable (fst r))"
    using assms(1,2) knowledge.R_trans by (auto simp: good_step_def)
  ultimately show ?thesis using assms(1,2) by (simp add: good_step_def)
qed

text \<open>Publishing a transition changes neither table nor deadlines.\<close>

lemma appliedTransition_fields [simp]:
  "enTable (fst (appliedTransition fx ev r e)) = enTable e"
  "enConfig (fst (appliedTransition fx ev r e)) = enConfig e"
  "enSuspicions (fst (appliedTransition fx ev r e)) = enSuspicions e"
  "enTombstones (fst (appliedTransition fx ev r e)) = enTombstones e"
  "fxTimers (snd (appliedTransition fx ev r e)) = fxTimers fx"
  "fxPersistIncarnation (snd (appliedTransition fx ev r e)) = fxPersistIncarnation fx"
  by (simp_all add: appliedTransition_def Let_def)

lemma forget_fields [simp]:
  "enTable (forgetSuspicion k e) = enTable e" "enConfig (forgetSuspicion k e) = enConfig e"
  "enTombstones (forgetSuspicion k e) = enTombstones e"
  "enTable (forgetTombstone k e) = enTable e" "enConfig (forgetTombstone k e) = enConfig e"
  "enSuspicions (forgetTombstone k e) = enSuspicions e"
  "map_of (enSuspicions (forgetSuspicion k e)) = (map_of (enSuspicions e))(k := None)"
  "map_of (enTombstones (forgetTombstone k e)) = (map_of (enTombstones e))(k := None)"
  by (auto simp: forgetSuspicion_def forgetTombstone_def delete_conv' fun_upd_def)

text \<open>Replacing the record of one member together with its suspicion and tombstone.\<close>

lemma put_good:
  assumes "engine_ok e" "mNodeID m = k" "k \<noteq> 0" "status_valid (mStatus m)" "known (enTable e) k < Suc (member_version m)"
    and "mIncarnation m \<noteq> 0"
    and "enTable e' = put_member m (enTable e)" "enConfig e' = enConfig e"
    and "map_of (enSuspicions e') = (map_of (enSuspicions e))(k := so)"
    and "map_of (enTombstones e') = (map_of (enTombstones e))(k := tomb)"
    and "track_suspicion (Some m) so" "track_tombstone (Some m) tomb"
    and "\<And>s. so = Some s \<Longrightarrow> suspicionTimer k (sxIncarnation s) (sxDeadline s) \<in> set (fxTimers fx)"
    and "\<And>s. tomb = Some s \<Longrightarrow> tombstoneTimer k s \<in> set (fxTimers fx)"
  shows "good_step e (e', fx)"
proof -
  note put = put_member_ok[of "enTable e" m]
  have ok: "table_ok (enTable e)" using assms(1) by (simp add: engine_ok_def)
  have "table_ok (enTable e')" "table_le (enTable e) (enTable e')"
    using put ok assms(2-5,7) by (auto simp: table_le_def)
  moreover have "mIncarnation n \<noteq> 0" if "map_of (tMembers (enTable e')) j = Some n" for j n
    using assms(1,6,7) that by (auto simp: engine_ok_def put_member_members split: if_splits)
  moreover have "track_suspicion (map_of (tMembers (enTable e')) j) (map_of (enSuspicions e') j)
      \<and> track_tombstone (map_of (tMembers (enTable e')) j) (map_of (enTombstones e') j)" for j
    using assms(1,2,7,9-12) by (auto simp: engine_ok_def put_member_members)
  moreover have "timed (T \<union> set (fxTimers fx)) e'" if "timed T e" for T
    using that assms(9,10,13,14) by (auto simp: timed_def split: if_splits)
  ultimately show ?thesis
    using assms(1,8) unfolding good_step_def engine_ok_def by auto
qed

section \<open>Updates\<close>

lemma beginTombstone_effect:
  obtains s where "enTable (fst (beginTombstone m now e)) = enTable e" "enConfig (fst (beginTombstone m now e)) = enConfig e"
    "enSuspicions (fst (beginTombstone m now e)) = enSuspicions e" "tsIncarnation s = mIncarnation m" "tsStatus s = mStatus m"
    "map_of (enTombstones (fst (beginTombstone m now e))) = (map_of (enTombstones e))(mNodeID m := Some s)"
    "snd (beginTombstone m now e) = tombstoneTimer (mNodeID m) s"
  by (rule that) (auto simp: beginTombstone_def Let_def tombstoneTimer_def update_conv')

lemma beginSuspicion_effect:
  obtains s where "enTable (fst (beginSuspicion m r n now e)) = enTable e" "enConfig (fst (beginSuspicion m r n now e)) = enConfig e"
    "enTombstones (fst (beginSuspicion m r n now e)) = enTombstones e" "sxIncarnation s = mIncarnation m"
    "map_of (enSuspicions (fst (beginSuspicion m r n now e))) = (map_of (enSuspicions e))(mNodeID m := Some s)"
    "snd (beginSuspicion m r n now e) = suspicionTimer (mNodeID m) (sxIncarnation s) (sxDeadline s)"
  by (rule that) (auto simp: beginSuspicion_def Let_def update_conv')

lemma corroborate_good:
  assumes "engine_ok e"
  shows "good_step e (corroborateSuspicion c r now e)"
proof -
  let ?k = "mNodeID c"
  have upd: "good_step e (e\<lparr>enSuspicions := AList.update ?k s' (enSuspicions e)\<rparr>, fx)"
    if "map_of (enSuspicions e) ?k = Some s" "sxIncarnation s' = sxIncarnation s"
      "sxDeadline s' = sxDeadline s \<or> suspicionTimer ?k (sxIncarnation s) (sxDeadline s') \<in> set (fxTimers fx)" for s s' fx
  proof -
    have "track_suspicion (map_of (tMembers (enTable e)) ?k) (Some s')"
      using engine_tracks[OF assms, of ?k] that(1,2) by (simp add: track_suspicion_def)
    then have "engine_ok (e\<lparr>enSuspicions := AList.update ?k s' (enSuspicions e)\<rparr>)"
      using assms by (auto simp: engine_ok_def update_conv')
    moreover have "timed (T \<union> set (fxTimers fx)) (e\<lparr>enSuspicions := AList.update ?k s' (enSuspicions e)\<rparr>)" if "timed T e" for T
      using that \<open>map_of (enSuspicions e) ?k = Some s\<close> \<open>sxIncarnation s' = sxIncarnation s\<close>
        \<open>sxDeadline s' = sxDeadline s \<or> suspicionTimer ?k (sxIncarnation s) (sxDeadline s') \<in> set (fxTimers fx)\<close>
      by (auto simp: timed_def update_conv')
    ultimately show ?thesis by (simp add: good_step_def knowledge.R_refl)
  qed
  show ?thesis
  proof (cases "map_of (enSuspicions e) ?k")
    case None
    then show ?thesis using assms by (simp add: corroborateSuspicion_def)
  next
    case (Some s)
    show ?thesis
      unfolding corroborateSuspicion_def Let_def Some option.case
      by (simp only: if_split, intro conjI impI upd[OF Some] good_refl assms) simp_all
  qed
qed

lemma status_cases:
  assumes "status_valid s"
  obtains "s = Alive" | "s = Suspect" | "terminal s"
proof -
  have "s \<le> 3" using assms by (simp add: status_valid_def Left_def)
  then have "unat s \<le> 3" by (simp add: word_le_nat_alt)
  then have "unat s \<in> {0, 1, 2, 3}" by auto
  then have "s = 0 \<or> s = 1 \<or> s = 2 \<or> s = 3" by (auto simp: word_unat_eq_iff)
  then show ?thesis using that by (auto simp: status_defs terminal_def)
qed

lemma track_simps:
  "track_suspicion (Some m) None \<longleftrightarrow> mStatus m \<noteq> Suspect"
  "track_tombstone (Some m) None \<longleftrightarrow> \<not> terminal (mStatus m)"
  "track_suspicion (Some m) (Some s) \<longleftrightarrow> mStatus m = Suspect \<and> mIncarnation m = sxIncarnation s"
  "track_tombstone (Some m) (Some t) \<longleftrightarrow> terminal (mStatus m) \<and> mStatus m = tsStatus t \<and> mIncarnation m = tsIncarnation t"
  by (simp_all add: track_suspicion_def track_tombstone_def)

lemma terminal_simps [simp]: "\<not> terminal Alive" "\<not> terminal Suspect" "terminal Dead" "terminal Left"
  by (simp_all add: terminal_def status_defs)

lemma status_distinct [simp]:
  "Alive \<noteq> Suspect" "Suspect \<noteq> Alive" "Alive \<noteq> Dead" "Dead \<noteq> Alive" "Alive \<noteq> Left" "Left \<noteq> Alive"
  "Suspect \<noteq> Dead" "Dead \<noteq> Suspect" "Suspect \<noteq> Left" "Left \<noteq> Suspect" "Dead \<noteq> Left" "Left \<noteq> Dead"
  by (simp_all add: status_defs)

text \<open>The transition of a newly accepted record.\<close>

definition react :: "Update \<Rightarrow> Member \<Rightarrow> int \<Rightarrow> time \<Rightarrow> Engine \<Rightarrow> Engine \<times> Effects" where
  "react update m alive now e =
     (if mStatus m = Alive then (forgetTombstone (mNodeID m) (forgetSuspicion (mNodeID m) e), noEffects)
      else if mStatus m = Suspect
      then let (e, timer) = beginSuspicion m (uReporterID update) alive now (forgetTombstone (mNodeID m) e)
           in (e, noEffects\<lparr>fxTimers := [timer]\<rparr>)
      else if mStatus m = Dead \<or> mStatus m = Left
      then let (e, timer) = beginTombstone m now (forgetSuspicion (mNodeID m) e)
           in (e, noEffects\<lparr>fxTimers := [timer]\<rparr>)
      else (e, noEffects))"

lemma react_good:
  assumes "engine_ok e" "mNodeID m \<noteq> 0" "status_valid (mStatus m)" "known (enTable e) (mNodeID m) < Suc (member_version m)"
    and "mIncarnation m \<noteq> 0"
  shows "good_step e (react u m alive now (e\<lparr>enTable := put_member m (enTable e)\<rparr>))"
    (is "good_step e (react u m alive now ?e)")
proof (cases rule: status_cases[OF assms(3)])
  case 1
  then show ?thesis
    unfolding react_def using assms
    by (simp, intro put_good[of e m "mNodeID m" _ None None]) (simp_all add: track_simps)
next
  case 2
  define e1 where "e1 = forgetTombstone (mNodeID m) ?e"
  obtain s where s: "enTable (fst (beginSuspicion m (uReporterID u) alive now e1)) = enTable e1"
    "enConfig (fst (beginSuspicion m (uReporterID u) alive now e1)) = enConfig e1"
    "enTombstones (fst (beginSuspicion m (uReporterID u) alive now e1)) = enTombstones e1" "sxIncarnation s = mIncarnation m"
    "map_of (enSuspicions (fst (beginSuspicion m (uReporterID u) alive now e1))) = (map_of (enSuspicions e1))(mNodeID m := Some s)"
    "snd (beginSuspicion m (uReporterID u) alive now e1) = suspicionTimer (mNodeID m) (sxIncarnation s) (sxDeadline s)"
    by (rule beginSuspicion_effect[of m "uReporterID u" alive now e1])
  show ?thesis
    unfolding react_def using 2 assms
    by (simp add: case_prod_beta flip: e1_def, intro put_good[of e m "mNodeID m" _ "Some s" None])
      (simp_all add: track_simps s, simp_all add: e1_def)
next
  case 3
  define e1 where "e1 = forgetSuspicion (mNodeID m) ?e"
  obtain s where s: "enTable (fst (beginTombstone m now e1)) = enTable e1"
    "enConfig (fst (beginTombstone m now e1)) = enConfig e1"
    "enSuspicions (fst (beginTombstone m now e1)) = enSuspicions e1" "tsIncarnation s = mIncarnation m" "tsStatus s = mStatus m"
    "map_of (enTombstones (fst (beginTombstone m now e1))) = (map_of (enTombstones e1))(mNodeID m := Some s)"
    "snd (beginTombstone m now e1) = tombstoneTimer (mNodeID m) s"
    by (rule beginTombstone_effect[of m now e1])
  have st: "mStatus m \<noteq> Alive" "mStatus m \<noteq> Suspect" "mStatus m = Dead \<or> mStatus m = Left"
    using 3 by (auto simp: terminal_def)
  show ?thesis
    unfolding react_def using 3 st assms
    by (simp add: case_prod_beta flip: e1_def, intro put_good[of e m "mNodeID m" _ None "Some s"])
      (simp_all add: track_simps s, simp_all add: e1_def)
qed

lemma transition_good:
  assumes "good_step e r"
  shows "good_step e (appliedTransition (snd r) ev reporter (fst r))"
  using assms by (auto simp: good_step_def engine_ok_def timed_def)

lemma succ_nonzero: "i \<noteq> MaxUint64 \<Longrightarrow> i + 1 \<noteq> 0" for i :: u64
  using unat_Suc_word[of i] by auto

lemma refute_good:
  assumes "engine_ok e"
  shows "good_step e (refuteSuspicion c e)"
proof (cases "mIncarnation c = MaxUint64")
  case True
  then show ?thesis using assms by (simp add: refuteSuspicion_def)
next
  case False
  let ?r = "c\<lparr>mIncarnation := mIncarnation c + 1, mStatus := Alive\<rparr>"
  let ?u = "\<lparr>uMember = ?r, uReporterID = ecSelfID (enConfig e)\<rparr>"
  have "table_ok (enTable e)" using assms by (simp add: engine_ok_def)
  then show ?thesis
  proof (cases rule: Merge_cases[where u = ?u])
    case rejected
    then show ?thesis using assms False by (simp add: refuteSuspicion_def good_same)
  next
    case (accepted m)
    let ?e = "forgetTombstone (mNodeID c) (forgetSuspicion (mNodeID c) (e\<lparr>enTable := put_member m (enTable e)\<rparr>))"
    have "good_step e (?e, noEffects\<lparr>fxPersistIncarnation := Some (mIncarnation ?r)\<rparr>)"
      using accepted(1-8) False succ_nonzero[of "mIncarnation c"] by (intro put_good[OF assms, of m "mNodeID c" _ None None]) (simp_all add: track_simps)
    from transition_good[OF this] show ?thesis
      using False accepted(9) by (simp add: refuteSuspicion_def Let_def)
  qed
qed

lemma ApplyUpdate_accept:
  assumes "validUpdate u" "\<not> refutes u e" "Merge u (enTable e) = (t, True, ev)"
  shows "ApplyUpdate u now e =
    (let r = react u (evCurrent ev) (aliveMembers e) now (e\<lparr>enTable := t\<rparr>)
     in appliedTransition (snd r) ev (uReporterID u) (fst r))"
  using assms by (simp add: ApplyUpdate_def react_def Let_def case_prod_beta)

lemma ApplyUpdate_good:
  assumes "engine_ok e"
  shows "good_step e (ApplyUpdate u now e)"
proof (cases "validUpdate u \<and> \<not> refutes u e")
  case False
  then show ?thesis using assms refute_good by (auto simp: ApplyUpdate_def Let_def)
next
  case True
  have "table_ok (enTable e)" using assms by (simp add: engine_ok_def)
  then show ?thesis
  proof (cases rule: Merge_cases[where u = u])
    case rejected
    have "e\<lparr>enTable := enTable e\<rparr> = e" by simp
    then show ?thesis
      using True rejected(1) assms corroborate_good[OF assms]
      by (simp add: ApplyUpdate_def Let_def split: option.split)
  next
    case (accepted m)
    have "good_step e (react u m (aliveMembers e) now (e\<lparr>enTable := put_member m (enTable e)\<rparr>))"
      using accepted(1-8) True by (intro react_good[OF assms]) (simp_all add: validUpdate_def)
    from transition_good[OF this] show ?thesis
      using ApplyUpdate_accept[OF _ _ accepted(9)] True by (simp add: Let_def)
  qed
qed

section \<open>The other calls\<close>

text \<open>
  An expired suspicion is forgotten before the update that makes the member terminal forgets it
  again, so the two steps are one.
\<close>

lemma react_forgotten:
  assumes "terminal (mStatus m)"
  shows "react u m n now ((forgetSuspicion (mNodeID m) e)\<lparr>enTable := t\<rparr>) = react u m n now (e\<lparr>enTable := t\<rparr>)"
proof -
  have "forgetSuspicion (mNodeID m) ((forgetSuspicion (mNodeID m) e)\<lparr>enTable := t\<rparr>) = forgetSuspicion (mNodeID m) (e\<lparr>enTable := t\<rparr>)"
    by (simp add: forgetSuspicion_def delete_idem)
  then show ?thesis using assms by (auto simp: react_def terminal_def)
qed

lemma promote_good:
  assumes "engine_ok e" "Table_Get k (enTable e) = Some m" "mStatus m = Suspect"
    and "r = ApplyUpdate \<lparr>uMember = m\<lparr>mStatus := Dead\<rparr>, uReporterID = ecSelfID (enConfig e)\<rparr> now (forgetSuspicion k e)"
  shows "good_step e r \<and> (\<exists>n. Table_Get k (enTable (fst r)) = Some n \<and> mStatus n = Dead \<and> mIncarnation n = mIncarnation m)"
proof -
  let ?u = "\<lparr>uMember = m\<lparr>mStatus := Dead\<rparr>, uReporterID = ecSelfID (enConfig e)\<rparr>" and ?e = "forgetSuspicion k e"
  have m: "mNodeID m = k" "k \<noteq> 0" "mIncarnation m \<noteq> 0" and t: "table_ok (enTable e)" and self: "ecSelfID (enConfig e) \<noteq> 0"
    using assms(1-3) by (auto simp: engine_ok_def table_ok_def Table_Get_def)
  have known: "known (enTable e) k < Suc (member_version (m\<lparr>mStatus := Dead\<rparr>))"
    using table_ok_known[OF t, of k m] assms(2,3) by (simp add: Table_Get_def version_less_iff status_defs)
  have valid: "validUpdate ?u" "\<not> refutes ?u ?e" "status_valid Dead"
    using m self by (auto simp: validUpdate_def refutes_def status_valid_def status_defs split: option.splits)
  from t show ?thesis
  proof (cases rule: Merge_cases[where u = ?u])
    case rejected
    then show ?thesis using m self known valid by simp
  next
    case (accepted n)
    let ?r = "react ?u n (aliveMembers e) now (e\<lparr>enTable := put_member n (enTable e)\<rparr>)"
    have n: "mNodeID n = k" "mStatus n = Dead" "mIncarnation n = mIncarnation m" using accepted(1,5,6) m by simp_all
    have good: "good_step e ?r" using accepted(1-8) m by (intro react_good[OF assms(1)]) simp_all
    have "aliveMembers ?e = aliveMembers e" by (simp add: aliveMembers_def)
    then have r: "r = appliedTransition (snd ?r) (snd (snd (Merge ?u (enTable e)))) (ecSelfID (enConfig e)) (fst ?r)"
      unfolding assms(4) using ApplyUpdate_accept[OF valid(1,2), of "put_member n (enTable e)"] accepted(9)
        react_forgotten[where m = n and e = e] n by (simp add: Let_def)
    have "enTable (fst ?r) = put_member n (enTable e)"
      using n by (simp add: react_def Let_def case_prod_beta beginTombstone_def)
    then have "Table_Get k (enTable (fst r)) = Some n"
      unfolding r using n by (simp add: Table_Get_def put_member_members)
    then show ?thesis using transition_good[OF good] r n by simp
  qed
qed

lemma HandleSuspicionTimeout_good:
  assumes "engine_ok e"
  shows "good_step e (HandleSuspicionTimeout k i now e)"
    and "map_of (enSuspicions e) k = Some s \<Longrightarrow> sxIncarnation s = i \<Longrightarrow> sxDeadline s \<le> now \<Longrightarrow>
      \<exists>n. Table_Get k (enTable (fst (HandleSuspicionTimeout k i now e))) = Some n \<and> mStatus n = Dead \<and> mIncarnation n = i"
proof -
  show "good_step e (HandleSuspicionTimeout k i now e)"
  proof (cases "map_of (enSuspicions e) k")
    case None
    then show ?thesis using assms by (simp add: HandleSuspicionTimeout_def)
  next
    case (Some s)
    with engine_tracks(1)[OF assms, of k] obtain m where
      "Table_Get k (enTable e) = Some m" "mStatus m = Suspect" "mIncarnation m = sxIncarnation s"
      by (auto simp: track_suspicion_def Table_Get_def)
    with Some show ?thesis using promote_good[OF assms, of k m _ now] assms by (simp add: HandleSuspicionTimeout_def)
  qed
  assume s: "map_of (enSuspicions e) k = Some s" "sxIncarnation s = i" "sxDeadline s \<le> now"
  with engine_tracks(1)[OF assms, of k] obtain m where
    m: "Table_Get k (enTable e) = Some m" "mStatus m = Suspect" "mIncarnation m = i"
    by (auto simp: track_suspicion_def Table_Get_def)
  with s show "\<exists>n. Table_Get k (enTable (fst (HandleSuspicionTimeout k i now e))) = Some n \<and> mStatus n = Dead \<and> mIncarnation n = i"
    using promote_good[OF assms m(1,2) refl, of now] by (simp add: HandleSuspicionTimeout_def)
qed

text \<open>An expired tombstone takes its record with it; the floor keeps the knowledge.\<close>

lemma ExpireTombstone_good:
  assumes "engine_ok e"
  shows "good_step e (ExpireTombstone k i st now e)"
proof (cases "map_of (enTombstones e) k")
  case None
  then show ?thesis using assms by (simp add: ExpireTombstone_def)
next
  case (Some s)
  with engine_tracks(2)[OF assms, of k] obtain m where
    m: "map_of (tMembers (enTable e)) k = Some m" "terminal (mStatus m)" "mStatus m = tsStatus s" "mIncarnation m = tsIncarnation s"
    by (auto simp: track_tombstone_def)
  have t: "table_ok (enTable e)" and id: "mNodeID m = k" using assms m by (auto simp: engine_ok_def table_ok_def)
  let ?t = "fst (ExpireTerminal m (enTable e))"
  have mem: "map_of (tMembers ?t) = (map_of (tMembers (enTable e)))(k := None)"
    using m id by (auto simp: ExpireTerminal_def terminal_def Let_def delete_conv' fun_upd_def)
  have "track_suspicion (map_of (tMembers ?t) j) (map_of (enSuspicions e) j)" for j
    using engine_tracks(1)[OF assms, of j] m by (cases "j = k") (auto simp: mem track_suspicion_def split: option.splits)
  moreover have "track_tombstone (map_of (tMembers ?t) j) (map_of (enTombstones (forgetTombstone k e)) j)" for j
    using engine_tracks(2)[OF assms, of j] by (cases "j = k") (auto simp: mem track_tombstone_def)
  ultimately have "good_step e ((forgetTombstone k e)\<lparr>enTable := ?t\<rparr>, noEffects)"
    using ExpireTerminal_step[OF t, of m] assms
    by (auto simp: good_step_def engine_ok_def timed_def mem split: if_splits)
  with m Some show ?thesis using assms by (simp add: ExpireTombstone_def Table_Get_def)
qed

text \<open>A tombstone for a record the caller has just stored.\<close>

lemma bury_good:
  assumes "engine_ok e" "mNodeID m \<noteq> 0" "terminal (mStatus m)" "mIncarnation m \<noteq> 0"
    and "known (enTable e) (mNodeID m) < Suc (member_version m)"
    and "b = beginTombstone m' now (forgetSuspicion (mNodeID m) (e\<lparr>enTable := put_member m (enTable e)\<rparr>))"
    and "mNodeID m' = mNodeID m" "mIncarnation m' = mIncarnation m" "mStatus m' = mStatus m" "snd b \<in> set (fxTimers fx)"
  shows "good_step e (appliedTransition fx ev r (fst b))"
proof -
  let ?e = "forgetSuspicion (mNodeID m) (e\<lparr>enTable := put_member m (enTable e)\<rparr>)"
  obtain s where s: "enTable (fst b) = enTable ?e" "enConfig (fst b) = enConfig ?e" "enSuspicions (fst b) = enSuspicions ?e"
    "tsIncarnation s = mIncarnation m'" "tsStatus s = mStatus m'"
    "map_of (enTombstones (fst b)) = (map_of (enTombstones ?e))(mNodeID m' := Some s)" "snd b = tombstoneTimer (mNodeID m') s"
    unfolding assms(6) by (rule beginTombstone_effect[of m' now ?e])
  have "status_valid (mStatus m)" using assms(3) by (auto simp: terminal_def status_valid_def status_defs)
  moreover have "mStatus m \<noteq> Suspect" using assms(3) by auto
  ultimately have "good_step e (fst b, fx)"
    using assms(2-5,7-10) s
    by (intro put_good[OF assms(1), of m "mNodeID m" _ None "Some s"]) (simp_all add: track_simps)
  from transition_good[OF this] show ?thesis by simp
qed

lemma Leave_good:
  assumes "engine_ok e"
  shows "good_step e (Leave now e)"
proof (cases "Table_Get (ecSelfID (enConfig e)) (enTable e)")
  case None
  then show ?thesis using assms by (simp add: Leave_def)
next
  case (Some self)
  show ?thesis
  proof (cases "mStatus self = Left \<or> mIncarnation self = MaxUint64")
    case True
    then show ?thesis using Some assms by (auto simp: Leave_def)
  next
    case False
    let ?m = "self\<lparr>mIncarnation := mIncarnation self + 1, mStatus := Left\<rparr>"
    let ?u = "\<lparr>uMember = ?m, uReporterID = ecSelfID (enConfig e)\<rparr>"
    have "table_ok (enTable e)" using assms by (simp add: engine_ok_def)
    then show ?thesis
    proof (cases rule: Merge_cases[where u = ?u])
      case rejected
      then show ?thesis using Some False assms by (simp add: Leave_def good_same)
    next
      case (accepted n)
      have inc: "mIncarnation self + 1 \<noteq> 0" using False succ_nonzero by blast
      define b where "b = beginTombstone ?m now (forgetSuspicion (mNodeID n) (e\<lparr>enTable := put_member n (enTable e)\<rparr>))"
      have "good_step e (appliedTransition fx ev r (fst b))" if "snd b \<in> set (fxTimers fx)" for fx ev r
        using accepted(1-7) inc that by (intro bury_good[OF assms _ _ _ _ b_def]) simp_all
      moreover have "enConfig (fst b) = enConfig e" by (simp add: b_def beginTombstone_def Let_def)
      ultimately show ?thesis
        using Some False accepted(1,9) by (simp add: Leave_def Let_def case_prod_beta b_def)
    qed
  qed
qed

lemma MergeIncarnationFloor_cases:
  obtains (hidden) "tMembers (fst (MergeIncarnationFloor f r t)) = tMembers t"
      "mNodeID (evCurrent (snd (snd (MergeIncarnationFloor f r t)))) = 0"
  | (visible) u where "MergeIncarnationFloor f r t = Merge u t" "terminal (mStatus (uMember u))" "uReporterID u = r"
      "mIncarnation (uMember u) \<noteq> 0"
proof -
  define pick where "pick = (case map_of (tFloors t) (mNodeID f) of
      None \<Rightarrow> Some f
    | Some retained \<Rightarrow>
        if compareMemberVersion f retained \<le> 0 then None
        else if mIncarnation f = mIncarnation retained then Some (retained\<lparr>mStatus := mStatus f\<rparr>) else Some f)"
  define bad where "bad \<longleftrightarrow> mNodeID f = 0 \<or> mIncarnation f = 0 \<or> r = 0 \<or> mStatus f \<noteq> Dead \<and> mStatus f \<noteq> Left"
  have eq: "MergeIncarnationFloor f r t = (if bad then (t, False, zeroEvent) else case pick of
          None \<Rightarrow> (t, False, zeroEvent)
        | Some floor \<Rightarrow>
            (case map_of (tMembers t) (mNodeID floor) of
               Some current \<Rightarrow>
                 if compareMemberVersion floor current > 0
                 then Merge \<lparr>uMember = (if mIncarnation floor = mIncarnation current
                                        then current\<lparr>mStatus := mStatus floor\<rparr> else floor),
                             uReporterID = r\<rparr> t
                 else (t\<lparr>tFloors := AList.update (mNodeID floor) floor (tFloors t)\<rparr>, True, zeroEvent)
             | None \<Rightarrow> (t\<lparr>tFloors := AList.update (mNodeID floor) floor (tFloors t)\<rparr>, True, zeroEvent)))"
    unfolding MergeIncarnationFloor_def pick_def bad_def ..
  have zero: "mNodeID (evCurrent zeroEvent) = 0" by (simp add: zeroEvent_def zeroMember_def)
  show ?thesis
  proof (cases "bad \<or> pick = None")
    case True
    then have "MergeIncarnationFloor f r t = (t, False, zeroEvent)" unfolding eq by auto
    then show ?thesis using hidden zero by simp
  next
    case False
    then obtain g where g: "pick = Some g" by auto
    have t: "terminal (mStatus g)" "mIncarnation g \<noteq> 0"
      using False g by (auto simp: bad_def terminal_def pick_def split: option.splits if_splits)
    show ?thesis
    proof (cases "\<exists>c. map_of (tMembers t) (mNodeID g) = Some c \<and> compareMemberVersion g c > 0")
      case True
      then obtain c where c: "map_of (tMembers t) (mNodeID g) = Some c" "compareMemberVersion g c > 0" by blast
      let ?u = "\<lparr>uMember = (if mIncarnation g = mIncarnation c then c\<lparr>mStatus := mStatus g\<rparr> else g), uReporterID = r\<rparr>"
      have "MergeIncarnationFloor f r t = Merge ?u t" using False g c by (simp add: eq)
      then show ?thesis by (rule visible) (use t in \<open>auto split: if_splits\<close>)
    next
      case no: False
      then have "MergeIncarnationFloor f r t = (t\<lparr>tFloors := AList.update (mNodeID g) g (tFloors t)\<rparr>, True, zeroEvent)"
        using False g by (auto simp: eq split: option.split)
      then show ?thesis using hidden zero by simp
    qed
  qed
qed

lemma ApplyIncarnationFloor_good:
  assumes "engine_ok e"
  shows "good_step e (ApplyIncarnationFloor f r now e)"
proof -
  have t: "table_ok (enTable e)" using assms by (simp add: engine_ok_def)
  note step = MergeIncarnationFloor_step[OF t, of f r]
  show ?thesis
  proof (cases rule: MergeIncarnationFloor_cases[of f r "enTable e"])
    case hidden
    have "good_step e (e\<lparr>enTable := fst (MergeIncarnationFloor f r (enTable e))\<rparr>, noEffects)"
      using step assms hidden by (auto simp: good_step_def engine_ok_def timed_def)
    then show ?thesis using hidden by (simp add: ApplyIncarnationFloor_def case_prod_beta)
  next
    case (visible u)
    from t show ?thesis
    proof (cases rule: Merge_cases[where u = u])
      case rejected
      then show ?thesis using visible assms by (simp add: ApplyIncarnationFloor_def good_same)
    next
      case (accepted m)
      define b where "b = beginTombstone m now (forgetSuspicion (mNodeID m) (e\<lparr>enTable := put_member m (enTable e)\<rparr>))"
      have "good_step e (appliedTransition fx ev r (fst b))" if "snd b \<in> set (fxTimers fx)" for fx ev
        using accepted(2,5-7) visible that by (intro bury_good[OF assms _ _ _ _ b_def]) simp_all
      then show ?thesis
        using visible(1) accepted(2,9) by (simp add: ApplyIncarnationFloor_def Let_def case_prod_beta b_def)
    qed
  qed
qed

section \<open>Probes\<close>

lemma selector_fields [simp]:
  "enTable (fst (selector_next ms e)) = enTable e" "enConfig (fst (selector_next ms e)) = enConfig e"
  "enSuspicions (fst (selector_next ms e)) = enSuspicions e" "enTombstones (fst (selector_next ms e)) = enTombstones e"
  by (auto simp: selector_next_def Let_def case_prod_beta split: option.split)

lemma selectRelays_fields [simp]:
  "enTable (fst (selectRelays m e)) = enTable e" "enConfig (fst (selectRelays m e)) = enConfig e"
  "enSuspicions (fst (selectRelays m e)) = enSuspicions e" "enTombstones (fst (selectRelays m e)) = enTombstones e"
  by (simp_all add: selectRelays_def Let_def case_prod_beta)

lemma dropProbe_fields [simp]:
  "enTable (dropProbe s e) = enTable e" "enConfig (dropProbe s e) = enConfig e"
  "enSuspicions (dropProbe s e) = enSuspicions e" "enTombstones (dropProbe s e) = enTombstones e"
  by (simp_all add: dropProbe_def)

lemma take_fields [simp]:
  "enTable (fst (Engine_takeSequence e)) = enTable e" "enConfig (fst (Engine_takeSequence e)) = enConfig e"
  "enSuspicions (fst (Engine_takeSequence e)) = enSuspicions e" "enTombstones (fst (Engine_takeSequence e)) = enTombstones e"
  "enTable (fst (takeProbeRequestID e)) = enTable e" "enConfig (fst (takeProbeRequestID e)) = enConfig e"
  "enSuspicions (fst (takeProbeRequestID e)) = enSuspicions e" "enTombstones (fst (takeProbeRequestID e)) = enTombstones e"
  by (simp_all add: Engine_takeSequence_def takeProbeRequestID_def Let_def)

lemma BeginProbe_fields:
  "enTable (fst (BeginProbe now e)) = enTable e" "enConfig (fst (BeginProbe now e)) = enConfig e"
  "enSuspicions (fst (BeginProbe now e)) = enSuspicions e" "enTombstones (fst (BeginProbe now e)) = enTombstones e"
proof -
  obtain e' r where sel: "selector_next (Table_Snapshot (enTable e)) e = (e', r)" by fastforce
  have e': "enTable e' = enTable e" "enConfig e' = enConfig e" "enSuspicions e' = enSuspicions e" "enTombstones e' = enTombstones e"
    using selector_fields[of "Table_Snapshot (enTable e)" e] by (simp_all add: sel)
  show "enTable (fst (BeginProbe now e)) = enTable e" "enConfig (fst (BeginProbe now e)) = enConfig e"
    "enSuspicions (fst (BeginProbe now e)) = enSuspicions e" "enTombstones (fst (BeginProbe now e)) = enTombstones e"
    by (cases r; simp add: BeginProbe_def sel e' case_prod_beta Let_def)+
qed

lemma BeginProbe_good: "engine_ok e \<Longrightarrow> good_step e (BeginProbe now e)"
  using good_same[of e "fst (BeginProbe now e)" "snd (BeginProbe now e)"] by (simp add: BeginProbe_fields)

lemma HandleDirectTimeout_good: "engine_ok e \<Longrightarrow> good_step e (HandleDirectTimeout sq now e)"
  unfolding HandleDirectTimeout_def Let_def case_prod_beta
  by (auto intro!: good_same split: option.split)

lemma dropProbe_ok: "engine_ok e \<Longrightarrow> engine_ok (dropProbe s e)"
  by (simp add: engine_ok_def)

lemma HandleIndirectTimeout_good:
  assumes "engine_ok e"
  shows "good_step e (HandleIndirectTimeout sq now e)"
proof -
  have "good_step e (ApplyUpdate u now (dropProbe sq e))" for u
    by (rule good_trans[OF _ ApplyUpdate_good[OF dropProbe_ok[OF assms]], where fx' = noEffects])
      (simp_all add: good_same[OF assms] noEffects_def)
  then show ?thesis
    unfolding HandleIndirectTimeout_def using assms by (auto intro!: good_same split: option.split)
qed

lemma HandlePingReq_good: "engine_ok e \<Longrightarrow> good_step e (HandlePingReq m p now e)"
  unfolding HandlePingReq_def Let_def by (auto intro!: good_same split: option.split)

lemma HandleAck_good: "engine_ok e \<Longrightarrow> good_step e (HandleAck m a e)"
  unfolding HandleAck_def Let_def by (auto intro!: good_same split: ackDisposition.split)

section \<open>Runs\<close>

text \<open>The calls of an engine's owner, and what it has been asked to time so far.\<close>

datatype engine_call =
    CallBeginProbe time
  | CallDirectTimeout u64 time
  | CallDirectTimeoutRequest ProbeID time
  | CallPing Member Ping
  | CallPingReq Member PingReq time
  | CallAck Member Ack
  | CallIndirectAck Member IndirectAck
  | CallRelayTimeout u16 u64
  | CallRelayTimeoutRequest u16 u64 RequestID
  | CallIndirectTimeout u64 time
  | CallIndirectTimeoutRequest ProbeID time
  | CallIncarnationFloor Member u16 time
  | CallUpdate Update time
  | CallSuspicionTimeout u16 u64 time
  | CallExpireTombstone u16 u64 Status time
  | CallLeave time

fun engine_step :: "engine_call \<Rightarrow> Engine \<Rightarrow> Engine \<times> Effects" where
  "engine_step (CallBeginProbe now) e = BeginProbe now e"
| "engine_step (CallDirectTimeout sequence now) e = HandleDirectTimeout sequence now e"
| "engine_step (CallDirectTimeoutRequest probeID now) e = HandleDirectTimeoutRequest probeID now e"
| "engine_step (CallPing sender message) e = HandlePing sender message e"
| "engine_step (CallPingReq sender message now) e = HandlePingReq sender message now e"
| "engine_step (CallAck sender message) e = HandleAck sender message e"
| "engine_step (CallIndirectAck sender message) e = HandleIndirectAck sender message e"
| "engine_step (CallRelayTimeout originID sequence) e = HandleRelayTimeout originID sequence e"
| "engine_step (CallRelayTimeoutRequest originID sequence requestID) e = HandleRelayTimeoutRequest originID sequence requestID e"
| "engine_step (CallIndirectTimeout sequence now) e = HandleIndirectTimeout sequence now e"
| "engine_step (CallIndirectTimeoutRequest probeID now) e = HandleIndirectTimeoutRequest probeID now e"
| "engine_step (CallIncarnationFloor floor reporterID now) e = ApplyIncarnationFloor floor reporterID now e"
| "engine_step (CallUpdate update now) e = ApplyUpdate update now e"
| "engine_step (CallSuspicionTimeout nodeID incarnation now) e = HandleSuspicionTimeout nodeID incarnation now e"
| "engine_step (CallExpireTombstone nodeID incarnation status now) e = ExpireTombstone nodeID incarnation status now e"
| "engine_step (CallLeave now) e = Leave now e"

lemma engine_step_good: "engine_ok e \<Longrightarrow> good_step e (engine_step call e)"
proof (cases call)
  case (CallDirectTimeoutRequest probeID now)
  then show "engine_ok e \<Longrightarrow> good_step e (engine_step call e)"
    using HandleDirectTimeout_good by (auto simp: HandleDirectTimeoutRequest_def split: option.split)
next
  case (CallIndirectTimeoutRequest probeID now)
  then show "engine_ok e \<Longrightarrow> good_step e (engine_step call e)"
    using HandleIndirectTimeout_good by (auto simp: HandleIndirectTimeoutRequest_def split: option.split)
qed (auto simp: BeginProbe_good HandleDirectTimeout_good HandleIndirectTimeout_good HandlePingReq_good HandleAck_good
      ApplyIncarnationFloor_good ApplyUpdate_good HandleSuspicionTimeout_good(1) ExpireTombstone_good Leave_good
      HandlePing_def HandleIndirectAck_def HandleRelayTimeout_def HandleRelayTimeoutRequest_def Let_def intro!: good_same)

fun engine_run :: "engine_call list \<Rightarrow> Engine \<Rightarrow> Engine \<times> TimerRequest list" where
  "engine_run [] e = (e, [])"
| "engine_run (call # calls) e =
     (let (e, effects) = engine_step call e; (e, timers) = engine_run calls e in (e, fxTimers effects @ timers))"

lemma engine_run_good:
  assumes "engine_ok e" "timed T e"
  shows "engine_ok (fst (engine_run calls e)) \<and> table_le (enTable e) (enTable (fst (engine_run calls e))) \<and>
    timed (T \<union> set (snd (engine_run calls e))) (fst (engine_run calls e))"
  using assms
proof (induction calls arbitrary: e T)
  case Nil
  then show ?case by (simp add: knowledge.R_refl)
next
  case (Cons call calls)
  let ?r = "engine_step call e"
  have r: "engine_ok (fst ?r)" "table_le (enTable e) (enTable (fst ?r))" "timed (T \<union> set (fxTimers (snd ?r))) (fst ?r)"
    using engine_step_good[OF Cons.prems(1), of call] Cons.prems(2) by (auto simp: good_step_def)
  from Cons.IH[OF r(1,3)] r(2) show ?case
    by (auto simp: case_prod_beta Let_def Un_assoc intro: knowledge.R_trans)
qed

text \<open>A new engine over a table whose visible members are all alive.\<close>

lemma NewEngine_ok:
  assumes "NewEngine config table d source = Inr e" "table_ok table"
    and "\<forall>k m. map_of (tMembers table) k = Some m \<longrightarrow> mStatus m = Alive \<and> mIncarnation m \<noteq> 0"
  shows "engine_ok e" "timed {} e" "enTable e = table"
  using assms
  by (auto simp: NewEngine_def Let_def engine_ok_def timed_def track_suspicion_def track_tombstone_def split: if_splits)

end
