(* ===== verification/Swim_Probe_Facts.thy ===== *)
theory Swim_Probe_Facts
  imports Swim_Engine_Facts
begin

text \<open>
  The round-robin order of failure detection (\<open>probe.go\<close>): a shuffle is a permutation, a cycle
  holds the eligible peers once each, and the probes of a cycle visit it from start to end.
\<close>

section \<open>Shuffles\<close>

lemma shuffleFrom_mset: "n < length xs \<or> n = 0 \<Longrightarrow> mset (fst (shuffleFrom n source xs)) = mset xs"
proof (induction n arbitrary: source xs)
  case (Suc n)
  have "unat (shd source) mod (Suc n + 1) < Suc n + 1" by (rule mod_less_divisor) simp
  then have "unat (shd source) mod (Suc n + 1) < length xs" using Suc.prems by linarith
  with Suc show ?case by (simp add: mset_swap_list)
qed simp

lemma Shuffle_mset: "mset (fst (Shuffle source xs)) = mset xs"
  unfolding Shuffle_def by (rule shuffleFrom_mset) (cases xs, auto)

section \<open>One selection\<close>

definition eligible :: "u16 \<Rightarrow> Member \<Rightarrow> bool" where
  "eligible selfID m \<longleftrightarrow> mNodeID m \<noteq> selfID \<and> mStatus m = Alive"

definition byID :: "Member list \<Rightarrow> u16 \<Rightarrow> Member option" where
  "byID members = map_of (rev (map (\<lambda>m. (mNodeID m, m)) members))"

lemma byID_member:
  assumes "distinct (map mNodeID members)" "m \<in> set members"
  shows "byID members (mNodeID m) = Some m"
proof -
  have "distinct (map fst (rev (map (\<lambda>m. (mNodeID m, m)) members)))"
    using assms(1) by (simp add: comp_def flip: rev_map)
  then show ?thesis unfolding byID_def using assms(2) by (intro map_of_is_SomeI) auto
qed

definition targets :: "Member list \<Rightarrow> u16 list \<Rightarrow> Member list" where
  "targets members order = map (\<lambda>k. the (byID members k)) order"

definition cycle_ok :: "Member list \<Rightarrow> u16 \<Rightarrow> u16 list \<Rightarrow> bool" where
  "cycle_ok members selfID order \<longleftrightarrow> (\<forall>k\<in>set order. \<exists>m. byID members k = Some m \<and> eligible selfID m)"

lemma scan_hit:
  assumes "cycle_ok members selfID order" "i < length order"
  shows "scanOrder (byID members) selfID order i = Some (the (byID members (order ! i)), Suc i)"
proof -
  obtain m where "byID members (order ! i) = Some m" "eligible selfID m"
    using assms(1) nth_mem[OF assms(2)] unfolding cycle_ok_def by blast
  then show ?thesis using assms(2) by (subst scanOrder.simps) (simp add: eligible_def)
qed

lemma select_next:
  assumes "cycle_ok members (ecSelfID (enConfig e)) (enOrder e)" "enIndex e < length (enOrder e)"
  shows "selector_next members e = (e\<lparr>enIndex := Suc (enIndex e)\<rparr>, Some (the (byID members (enOrder e ! enIndex e))))"
  using scan_hit[OF assms] unfolding selector_next_def byID_def[symmetric] by (simp add: Let_def)

lemma new_cycle:
  assumes "distinct (map mNodeID members)"
  shows "cycle_ok members selfID (fst (Shuffle source (sort (eligibleIDs members selfID))))"
    and "mset (targets members (fst (Shuffle source (sort (eligibleIDs members selfID))))) = mset (filter (eligible selfID) members)"
proof -
  let ?order = "fst (Shuffle source (sort (eligibleIDs members selfID)))"
  have m: "mset ?order = mset (map mNodeID (filter (eligible selfID) members))"
    by (simp add: Shuffle_mset eligibleIDs_def eligible_def[abs_def])
  then have "set ?order = mNodeID ` set (filter (eligible selfID) members)" by (metis set_map set_mset_mset)
  then show "cycle_ok members selfID ?order" using byID_member[OF assms] by (auto simp: cycle_ok_def)
  have "mset (targets members ?order) = image_mset (\<lambda>k. the (byID members k)) (mset ?order)" by (simp add: targets_def)
  also have "\<dots> = mset (map (\<lambda>m. the (byID members (mNodeID m))) (filter (eligible selfID) members))"
    unfolding m by (simp add: image_mset.compositionality comp_def)
  also have "map (\<lambda>m. the (byID members (mNodeID m))) (filter (eligible selfID) members) = filter (eligible selfID) members"
    using byID_member[OF assms] by (intro map_idI) simp
  finally show "mset (targets members ?order) = mset (filter (eligible selfID) members)" .
qed

lemma select_restart:
  assumes "distinct (map mNodeID members)" "length (enOrder e) \<le> enIndex e" "filter (eligible (ecSelfID (enConfig e))) members \<noteq> []"
    and "Shuffle (enSource e) (sort (eligibleIDs members (ecSelfID (enConfig e)))) = (order, source)"
  shows "selector_next members e =
    (e\<lparr>enOrder := order, enSource := source, enIndex := 1\<rparr>, Some (the (byID members (order ! 0))))"
proof -
  have ids: "eligibleIDs members (ecSelfID (enConfig e)) \<noteq> []"
    using assms(3) by (simp add: eligibleIDs_def eligible_def[abs_def])
  have ok: "cycle_ok members (ecSelfID (enConfig e)) order" using new_cycle(1)[OF assms(1)] assms(4) by (metis fst_conv)
  have "order \<noteq> []" using Shuffle_mset[of "enSource e" "sort (eligibleIDs members (ecSelfID (enConfig e)))"] assms(4) ids
    by (auto simp flip: size_mset)
  then have "scanOrder (byID members) (ecSelfID (enConfig e)) order 0 = Some (the (byID members (order ! 0)), 1)"
    using scan_hit[OF ok, of 0] by simp
  moreover have "scanOrder (byID members) (ecSelfID (enConfig e)) (enOrder e) (enIndex e) = None"
    using assms(2) by (subst scanOrder.simps) simp
  ultimately show ?thesis
    using ids assms(4) unfolding selector_next_def byID_def[symmetric] by (simp add: Let_def)
qed

section \<open>A cycle of probes\<close>

text \<open>Probes at the given times, and the members they ping.\<close>

fun probe_rounds :: "time list \<Rightarrow> Engine \<Rightarrow> Engine \<times> Member list" where
  "probe_rounds [] e = (e, [])"
| "probe_rounds (now # nows) e =
     (let (e, effects) = BeginProbe now e; (e, pinged) = probe_rounds nows e
      in (e, map obTo (fxOutbound effects) @ pinged))"

lemma BeginProbe_selects:
  assumes "selector_next (Table_Snapshot (enTable e)) e = (e1, Some m)"
  shows "enOrder (fst (BeginProbe now e)) = enOrder e1" "enIndex (fst (BeginProbe now e)) = enIndex e1"
    "map obTo (fxOutbound (snd (BeginProbe now e))) = [m]"
  using assms by (simp_all add: BeginProbe_def Let_def case_prod_beta Engine_takeSequence_def takeProbeRequestID_def)

lemma cycle_rest:
  assumes "cycle_ok (Table_Snapshot (enTable e)) (ecSelfID (enConfig e)) (enOrder e)"
    and "length nows + enIndex e = length (enOrder e)"
  shows "snd (probe_rounds nows e) = targets (Table_Snapshot (enTable e)) (drop (enIndex e) (enOrder e)) \<and>
    enIndex (fst (probe_rounds nows e)) = length (enOrder (fst (probe_rounds nows e)))"
  using assms
proof (induction nows arbitrary: e)
  case Nil
  then show ?case by (simp add: targets_def)
next
  case (Cons now nows)
  let ?ms = "Table_Snapshot (enTable e)" and ?e = "fst (BeginProbe now e)"
  have lt: "enIndex e < length (enOrder e)" using Cons.prems(2) by simp
  note b = BeginProbe_selects[OF select_next[OF Cons.prems(1) lt], of now] BeginProbe_fields[of now e]
  have "snd (probe_rounds nows ?e) = targets ?ms (drop (Suc (enIndex e)) (enOrder e)) \<and>
      enIndex (fst (probe_rounds nows ?e)) = length (enOrder (fst (probe_rounds nows ?e)))"
    using Cons.IH[of ?e] Cons.prems b by simp
  then show ?case
    using b(3) lt Cons_nth_drop_Suc[OF lt] by (simp add: case_prod_beta Let_def targets_def flip: Cons_nth_drop_Suc)
qed

lemma Table_Snapshot_distinct:
  assumes "table_ok t"
  shows "distinct (map mNodeID (Table_Snapshot t))"
proof -
  have "mNodeID m = k" if "(k, m) \<in> set (tMembers t)" for k m
    using that assms map_of_is_SomeI[of "tMembers t" k m] by (simp add: table_ok_def)
  then have "map mNodeID (map snd (tMembers t)) = map fst (tMembers t)" by (auto simp: comp_def)
  then have "mset (map mNodeID (Table_Snapshot t)) = mset (map fst (tMembers t))"
    unfolding Table_Snapshot_def by (metis mset_map mset_sort)
  then show ?thesis using assms by (metis mset_eq_imp_distinct_iff table_ok_def)
qed

lemma probe_cycle:
  assumes "table_ok (enTable e)" "length (enOrder e) \<le> enIndex e"
    and "length nows = length (filter (eligible (ecSelfID (enConfig e))) (Table_Snapshot (enTable e)))" "nows \<noteq> []"
  shows "mset (snd (probe_rounds nows e)) = mset (filter (eligible (ecSelfID (enConfig e))) (Table_Snapshot (enTable e))) \<and>
    enIndex (fst (probe_rounds nows e)) = length (enOrder (fst (probe_rounds nows e)))"
proof -
  let ?self = "ecSelfID (enConfig e)" and ?ms = "Table_Snapshot (enTable e)"
  note dist = Table_Snapshot_distinct[OF assms(1)]
  obtain order source where sh: "Shuffle (enSource e) (sort (eligibleIDs ?ms ?self)) = (order, source)" by fastforce
  note cyc = new_cycle[OF dist, where selfID = ?self and source = "enSource e", unfolded sh fst_conv]
  obtain now rest where nows: "nows = now # rest" using assms(4) by (cases nows) auto
  let ?e = "fst (BeginProbe now e)"
  have ne: "filter (eligible ?self) ?ms \<noteq> []" using assms(3,4) by auto
  note b = BeginProbe_selects[OF select_restart[OF dist assms(2) ne sh], of now] BeginProbe_fields[of now e]
  have len: "length order = length nows" using cyc(2) assms(3) by (metis length_map size_mset targets_def)
  have "snd (probe_rounds rest ?e) = targets ?ms (drop 1 order) \<and>
      enIndex (fst (probe_rounds rest ?e)) = length (enOrder (fst (probe_rounds rest ?e)))"
    using cycle_rest[of ?e rest] b cyc(1) len nows by simp
  moreover have "order = order ! 0 # drop 1 order" using len nows by (cases order) auto
  then have "targets ?ms order = the (byID ?ms (order ! 0)) # targets ?ms (drop 1 order)"
    by (metis list.simps(9) targets_def)
  ultimately show ?thesis using nows b(3) cyc(2) by (simp add: case_prod_beta Let_def)
qed

end
