(* ===== verification/Swim_Events.thy ===== *)
theory Swim_Events
  imports Swim_Types
begin

text \<open>
  Event subscriptions of \<open>internal/swim/events.go\<close>.  A subscriber's bounded channel is the list of
  events sent and not yet received, with its capacity; receiving is a step of the subscriber.  A
  closed channel is one that is no longer in the map.  Every method runs under the mutex, so a
  call is one step.
\<close>

section \<open>Operations\<close>

record subscription =
  sbEvents :: "MembershipEvent list"
  sbCapacity :: nat
  sbResynchronization :: bool

record Subscriptions =
  ssNextID :: u64
  ssSubscribers :: "(u64 \<times> subscription) list"
  ssClosed :: bool

definition NewSubscriptions :: Subscriptions where
  "NewSubscriptions = \<lparr>ssNextID = 0, ssSubscribers = [], ssClosed = False\<rparr>"

definition Subscribe :: "int \<Rightarrow> Subscriptions \<Rightarrow> Subscriptions \<times> u64" where
  "Subscribe capacity s =
     (let capacity = (if capacity < 1 then 1 else capacity)
      in if ssClosed s then (s, 0)
         else let nextID = (if ssNextID s + 1 = 0 then 1 else ssNextID s + 1)
              in (s\<lparr>ssNextID := nextID,
                    ssSubscribers := AList.update nextID
                      \<lparr>sbEvents = [], sbCapacity = nat capacity, sbResynchronization = False\<rparr> (ssSubscribers s)\<rparr>,
                  nextID))"

text \<open>The body of the publish loop for one subscriber: a non-blocking send, or drain and mark.\<close>

definition offerMembershipEvent :: "MembershipEvent \<Rightarrow> subscription \<Rightarrow> subscription" where
  "offerMembershipEvent event sub =
     (if sbResynchronization sub then sub
      else if length (sbEvents sub) < sbCapacity sub then sub\<lparr>sbEvents := sbEvents sub @ [event]\<rparr>
      else sub\<lparr>sbEvents := [resyncEvent], sbResynchronization := True\<rparr>)"

definition Publish :: "MembershipEvent \<Rightarrow> Subscriptions \<Rightarrow> Subscriptions" where
  "Publish event s =
     (if ssClosed s then s
      else s\<lparr>ssSubscribers := map (\<lambda>(id, sub). (id, offerMembershipEvent event sub)) (ssSubscribers s)\<rparr>)"

definition MarkResynchronized :: "u64 \<Rightarrow> Subscriptions \<Rightarrow> Subscriptions \<times> bool" where
  "MarkResynchronized subscriptionID s =
     (case map_of (ssSubscribers s) subscriptionID of
        None \<Rightarrow> (s, False)
      | Some sub \<Rightarrow>
          (s\<lparr>ssSubscribers := AList.update subscriptionID (sub\<lparr>sbResynchronization := False\<rparr>) (ssSubscribers s)\<rparr>, True))"

definition Unsubscribe :: "u64 \<Rightarrow> Subscriptions \<Rightarrow> Subscriptions" where
  "Unsubscribe subscriptionID s =
     (case map_of (ssSubscribers s) subscriptionID of
        None \<Rightarrow> s
      | Some _ \<Rightarrow> s\<lparr>ssSubscribers := AList.delete subscriptionID (ssSubscribers s)\<rparr>)"

definition Subscriptions_Close :: "Subscriptions \<Rightarrow> Subscriptions" where
  "Subscriptions_Close s = (if ssClosed s then s else s\<lparr>ssClosed := True, ssSubscribers := []\<rparr>)"

text \<open>The subscriber takes the oldest event of its channel.\<close>

definition receiveMembershipEvent :: "subscription \<Rightarrow> subscription \<times> MembershipEvent option" where
  "receiveMembershipEvent sub =
     (case sbEvents sub of
        [] \<Rightarrow> (sub, None)
      | event # events \<Rightarrow> (sub\<lparr>sbEvents := events\<rparr>, Some event))"

section \<open>What a subscriber sees\<close>

text \<open>
  One subscriber between two resynchronizations: the events offered to it and the receptions it
  makes, in any order.  The result is its state and what it has received.
\<close>

datatype channel_step = Offer MembershipEvent | Receive

fun channel_run :: "channel_step list \<Rightarrow> subscription \<times> MembershipEvent list \<Rightarrow> subscription \<times> MembershipEvent list" where
  "channel_run [] r = r"
| "channel_run (Offer e # steps) (sub, got) = channel_run steps (offerMembershipEvent e sub, got)"
| "channel_run (Receive # steps) (sub, got) =
     (case receiveMembershipEvent sub of
        (sub, None) \<Rightarrow> channel_run steps (sub, got)
      | (sub, Some e) \<Rightarrow> channel_run steps (sub, got @ [e]))"

fun offered :: "channel_step list \<Rightarrow> MembershipEvent list" where
  "offered [] = []"
| "offered (Offer e # steps) = e # offered steps"
| "offered (Receive # steps) = offered steps"

text \<open>
  Until the channel overflows the subscriber has received or holds exactly the offered events in
  order; afterwards it has a prefix of them, then the resynchronization marker, and nothing more.
\<close>

definition stream_ok :: "MembershipEvent list \<Rightarrow> subscription \<Rightarrow> MembershipEvent list \<Rightarrow> bool" where
  "stream_ok events sub got \<longleftrightarrow> length (sbEvents sub) \<le> sbCapacity sub \<and> 0 < sbCapacity sub \<and>
     (if sbResynchronization sub
      then \<exists>j. got @ sbEvents sub = take j events @ [resyncEvent] \<and> j < length events
      else got @ sbEvents sub = events)"

lemma offer_stream:
  assumes "stream_ok events sub got"
  shows "stream_ok (events @ [e]) (offerMembershipEvent e sub) got"
proof (cases "sbResynchronization sub")
  case True
  then obtain j where "got @ sbEvents sub = take j events @ [resyncEvent]" "j < length events"
    using assms by (auto simp: stream_ok_def)
  with True assms show ?thesis by (auto simp: stream_ok_def offerMembershipEvent_def intro!: exI[of _ j])
next
  case False
  show ?thesis
  proof (cases "length (sbEvents sub) < sbCapacity sub")
    case True
    with False assms show ?thesis by (auto simp: stream_ok_def offerMembershipEvent_def)
  next
    case full: False
    have "got = take (length got) (events @ [e])" "length got < length (events @ [e])"
      using assms False by (auto simp: stream_ok_def dest: arg_cong[of _ _ "take (length got)"])
    with full False assms show ?thesis
      by (auto simp: stream_ok_def offerMembershipEvent_def intro!: exI[of _ "length got"])
  qed
qed

lemma receive_stream:
  assumes "stream_ok events sub got" "receiveMembershipEvent sub = (sub', r)"
  shows "stream_ok events sub' (got @ (case r of None \<Rightarrow> [] | Some e \<Rightarrow> [e]))"
  using assms by (auto simp: stream_ok_def receiveMembershipEvent_def split: list.splits)

lemma channel_run_ok:
  "stream_ok events sub got \<Longrightarrow> channel_run steps (sub, got) = (sub', got') \<Longrightarrow> stream_ok (events @ offered steps) sub' got'"
proof (induction steps arbitrary: events sub got)
  case (Cons st steps)
  show ?case
  proof (cases st)
    case (Offer e)
    then show ?thesis using Cons.IH[OF offer_stream[OF Cons.prems(1)]] Cons.prems(2) by simp
  next
    case Receive
    obtain s r where sr: "receiveMembershipEvent sub = (s, r)" by (cases "receiveMembershipEvent sub")
    from Cons.IH[OF receive_stream[OF Cons.prems(1) sr]] Cons.prems(2) Receive sr show ?thesis
      by (cases r) auto
  qed
qed simp

end
