(* ===== verification/Swim_Join.thy ===== *)
theory Swim_Join
  imports Swim_Table
begin

text \<open>
  Durable incarnations (\<open>internal/swim/incarnation.go\<close>) and the admission protocol's two ends
  (\<open>internal/swim/join.go\<close>).  The state file is what the file system shows for its path; a call of
  \<open>Store\<close> may fail at any of its steps, and the step that fails is an argument.  A file left behind
  by a failed write is removed by the deferred clean-up and is not part of the state.
\<close>

section \<open>Decimal text\<close>

text \<open>\<open>strconv.FormatUint(v, 10)\<close> and \<open>strconv.ParseUint(s, 10, 64)\<close> for a string of digits.\<close>

fun decimal_digits :: "nat \<Rightarrow> bytes" where
  "decimal_digits n =
     (if n < 10 then [word_of_nat (48 + n)] else decimal_digits (n div 10) @ [word_of_nat (48 + n mod 10)])"

declare decimal_digits.simps [simp del]

definition digits_value :: "bytes \<Rightarrow> nat" where
  "digits_value ds = foldl (\<lambda>v d. v * 10 + (unat d - 48)) 0 ds"

definition is_digit :: "u8 \<Rightarrow> bool" where
  "is_digit d \<longleftrightarrow> 48 \<le> d \<and> d \<le> 57"

definition FormatUint :: "u64 \<Rightarrow> bytes" where
  "FormatUint v = decimal_digits (unat v)"

definition ParseUint :: "bytes \<Rightarrow> u64 option" where
  "ParseUint ds =
     (if ds = [] \<or> \<not> list_all is_digit ds \<or> digits_value ds \<ge> 2 ^ 64 then None
      else Some (word_of_nat (digits_value ds)))"

section \<open>The state file\<close>

datatype swim_error =
    ErrInvalidIncarnationState | ErrIncarnationRegression | ErrFileSystem
  | ErrIncarnationRecoveryRequired | ErrIncarnationOverflow | ErrDuplicateNodeID
  | ErrInvalidJoinAnnouncement | ErrStaleJoinIncarnation

definition maxIncarnationStateBytes :: nat where
  "maxIncarnationStateBytes = 64"

datatype state_file =
    NoFile
  | SymbolicLink
  | Unreadable
  | File (sfRegular: bool) (sfOwnerOnly: bool) (sfContent: bytes)

definition newline :: u8 where "newline = 10"

definition parseIncarnation :: "bytes \<Rightarrow> swim_error + u64" where
  "parseIncarnation content =
     (if length content < 2 \<or> last content \<noteq> newline \<or> count_list content newline \<noteq> 1
      then Inl ErrInvalidIncarnationState
      else let digits = butlast content
           in if \<not> list_all is_digit digits then Inl ErrInvalidIncarnationState
              else case ParseUint digits of
                None \<Rightarrow> Inl ErrInvalidIncarnationState
              | Some value \<Rightarrow> Inr value)"

definition incarnation_load :: "state_file \<Rightarrow> swim_error + u64" where
  "incarnation_load file =
     (case file of
        NoFile \<Rightarrow> Inr 0
      | SymbolicLink \<Rightarrow> Inl ErrInvalidIncarnationState
      | Unreadable \<Rightarrow> Inl ErrFileSystem
      | File regular ownerOnly content \<Rightarrow>
          if \<not> regular then Inl ErrInvalidIncarnationState
          else if \<not> ownerOnly then Inl ErrInvalidIncarnationState
          else if length content > maxIncarnationStateBytes then Inl ErrInvalidIncarnationState
          else parseIncarnation content)"

text \<open>The system calls of \<open>Store\<close>, in order.\<close>

datatype store_call =
  CreateTemporary | WriteTemporary | SyncTemporary | CloseTemporary | Rename | OpenDirectory | SyncDirectory | CloseDirectory

definition incarnation_store :: "store_call option \<Rightarrow> u64 \<Rightarrow> state_file \<Rightarrow> state_file \<times> swim_error option" where
  "incarnation_store fault value file =
     (case incarnation_load file of
        Inl e \<Rightarrow> (file, Some e)
      | Inr current \<Rightarrow>
          if value < current then (file, Some ErrIncarnationRegression)
          else case fault of
            None \<Rightarrow> (File True True (FormatUint value @ [newline]), None)
          | Some call \<Rightarrow>
              (if call \<in> {CreateTemporary, WriteTemporary, SyncTemporary, CloseTemporary, Rename}
               then (file, Some ErrFileSystem)
               else (File True True (FormatUint value @ [newline]), Some ErrFileSystem)))"

section \<open>Preparing a join\<close>

text \<open>\<open>validateAdvertisedEndpoint\<close>: every service of the member has a derivable endpoint.\<close>

definition validateAdvertisedEndpoint :: "NetLibrary \<Rightarrow> Member \<Rightarrow> swim_error option" where
  "validateAdvertisedEndpoint net member =
     (if list_all (\<lambda>service. case AdvertiseEndpoint net (mHost member) (mBasePort member) (svService service) of
                                 Inl _ \<Rightarrow> False | Inr _ \<Rightarrow> True) serviceSpecs
      then None else Some ErrInvalidJoinAnnouncement)"

definition highestIncarnation :: "u16 \<Rightarrow> (Member \<Rightarrow> bool) \<Rightarrow> Member list \<Rightarrow> u64 \<Rightarrow> u64" where
  "highestIncarnation nodeID P members highest =
     foldl (\<lambda>h m. if mNodeID m = nodeID \<and> P m \<and> mIncarnation m > h then mIncarnation m else h) highest members"

definition PrepareJoinWithFloors :: "('s \<Rightarrow> swim_error + u64) \<Rightarrow> (u64 \<Rightarrow> 's \<Rightarrow> 's \<times> swim_error option) \<Rightarrow> NetLibrary
    \<Rightarrow> Member list \<Rightarrow> Member list \<Rightarrow> Member \<Rightarrow> 's \<Rightarrow> 's \<times> (swim_error + Member)" where
  "PrepareJoinWithFloors load store net snapshot floors self s =
     (if mNodeID self = 0 then (s, Inl ErrInvalidJoinAnnouncement)
      else case validateAdvertisedEndpoint net self of
        Some e \<Rightarrow> (s, Inl e)
      | None \<Rightarrow>
          (case load s of
             Inl e \<Rightarrow> (s, Inl e)
           | Inr persisted \<Rightarrow>
               let highest = highestIncarnation (mNodeID self) (\<lambda>_. True) snapshot persisted;
                   highest = highestIncarnation (mNodeID self) (\<lambda>m. mStatus m = Dead \<or> mStatus m = Left) floors highest
               in if highest = 0 then (s, Inl ErrIncarnationRecoveryRequired)
                  else if highest = MaxUint64 then (s, Inl ErrIncarnationOverflow)
                  else (case store (highest + 1) s of
                     (s, Some e) \<Rightarrow> (s, Inl e)
                   | (s, None) \<Rightarrow> (s, Inr (self\<lparr>mIncarnation := highest + 1, mStatus := Alive\<rparr>)))))"

definition PrepareJoin :: "('s \<Rightarrow> swim_error + u64) \<Rightarrow> (u64 \<Rightarrow> 's \<Rightarrow> 's \<times> swim_error option) \<Rightarrow> NetLibrary
    \<Rightarrow> Member list \<Rightarrow> Member \<Rightarrow> 's \<Rightarrow> 's \<times> (swim_error + Member)" where
  "PrepareJoin load store net snapshot self s = PrepareJoinWithFloors load store net snapshot [] self s"

definition ValidateJoinAnnouncement :: "NetLibrary \<Rightarrow> Table \<Rightarrow> Member \<Rightarrow> swim_error option" where
  "ValidateJoinAnnouncement net table joining =
     (if mNodeID joining = 0 then Some ErrInvalidJoinAnnouncement
      else if mIncarnation joining = 0 then Some ErrInvalidJoinAnnouncement
      else if mStatus joining \<noteq> Alive then Some ErrInvalidJoinAnnouncement
      else case validateAdvertisedEndpoint net joining of
        Some e \<Rightarrow> Some e
      | None \<Rightarrow>
          (case Table_Get (mNodeID joining) table of
             None \<Rightarrow>
               (case IncarnationFloor (mNodeID joining) table of
                  None \<Rightarrow> None
                | Some floor \<Rightarrow> if mIncarnation joining \<le> mIncarnation floor then Some ErrStaleJoinIncarnation else None)
           | Some current \<Rightarrow>
               if mStatus current = Alive
               then if current = joining then None else Some ErrDuplicateNodeID
               else if mStatus current = Suspect then Some ErrDuplicateNodeID
               else if mStatus current = Dead \<or> mStatus current = Left
               then if mIncarnation joining \<le> mIncarnation current then Some ErrStaleJoinIncarnation else None
               else Some ErrInvalidJoinAnnouncement))"

section \<open>The store keeps the incarnation\<close>

lemma decimal_digits_ok: "list_all is_digit (decimal_digits n) \<and> decimal_digits n \<noteq> []"
proof (induction n rule: decimal_digits.induct)
  case (1 n)
  have d: "is_digit (word_of_nat (48 + k))" if "k < 10" for k
  proof -
    have "unat (word_of_nat (48 + k) :: u8) = 48 + k" using that by (simp add: unat_of_nat take_bit_nat_eq_self del: of_nat_add)
    then show ?thesis using that by (simp add: is_digit_def word_le_nat_alt)
  qed
  show ?case using 1 d[of n] d[of "n mod 10"] by (subst (1 2) decimal_digits.simps) auto
qed

lemma digits_value_snoc: "digits_value (ds @ [d]) = digits_value ds * 10 + (unat d - 48)"
  by (simp add: digits_value_def)

lemma unat_digit: "k < 10 \<Longrightarrow> unat (word_of_nat (48 + k) :: u8) - 48 = k"
  by (simp add: unat_of_nat take_bit_nat_eq_self del: of_nat_add)

lemma digits_value_decimal: "digits_value (decimal_digits n) = n"
proof (induction n rule: decimal_digits.induct)
  case (1 n)
  show ?case
  proof (cases "n < 10")
    case True
    then show ?thesis using unat_digit[of n] by (subst decimal_digits.simps) (simp add: digits_value_def)
  next
    case False
    then show ?thesis
      using 1 unat_digit[of "n mod 10"] by (subst decimal_digits.simps) (simp add: digits_value_snoc)
  qed
qed

lemma length_decimal_digits: "n < 10 ^ k \<Longrightarrow> 0 < k \<Longrightarrow> length (decimal_digits n) \<le> k"
proof (induction k arbitrary: n)
  case (Suc k)
  show ?case
  proof (cases "n < 10")
    case True
    then show ?thesis by (subst decimal_digits.simps) simp
  next
    case False
    have "0 < k" using Suc.prems False by (cases k) auto
    moreover have "n div 10 < 10 ^ k" using Suc.prems by (simp add: less_mult_imp_div_less)
    ultimately show ?thesis using Suc.IH[of "n div 10"] False by (subst decimal_digits.simps) simp
  qed
qed simp

lemma parse_format: "ParseUint (FormatUint v) = Some v"
  using decimal_digits_ok[of "unat v"] digits_value_decimal[of "unat v"] unat_lt_u64[of v]
  by (simp add: ParseUint_def FormatUint_def)

lemma load_stored: "incarnation_load (File True True (FormatUint v @ [newline])) = Inr v"
proof -
  have "unat v < 10 ^ 20" using unat_lt_u64[of v] by simp
  then have len: "length (FormatUint v) \<le> 20" unfolding FormatUint_def by (rule length_decimal_digits) simp
  have ok: "list_all is_digit (FormatUint v)" "FormatUint v \<noteq> []"
    using decimal_digits_ok[of "unat v"] by (simp_all add: FormatUint_def)
  have "newline \<notin> set (FormatUint v)"
    using ok(1) by (auto simp: list_all_iff newline_def is_digit_def)
  then have "count_list (FormatUint v) newline = 0" by (simp add: count_notin)
  then show ?thesis
    using len ok parse_format[of v]
    by (auto simp: incarnation_load_def parseIncarnation_def maxIncarnationStateBytes_def Let_def Suc_le_eq)
qed

text \<open>
  What a join relies on: a successful store is read back, a store never lowers the value, and a
  failed one leaves the old value or the new one.
\<close>

locale durable_incarnation =
  fixes load :: "'s \<Rightarrow> swim_error + u64" and store :: "u64 \<Rightarrow> 's \<Rightarrow> 's \<times> swim_error option"
  assumes store_loads: "store v s = (s', None) \<Longrightarrow> load s' = Inr v"
    and store_monotone: "store v s = (s', None) \<Longrightarrow> load s = Inr w \<Longrightarrow> w \<le> v"
    and store_atomic: "store v s = (s', Some e) \<Longrightarrow> load s' = load s \<or> load s' = Inr v"
begin

lemma highestIncarnation_ge: "h \<le> highestIncarnation k P ms h"
  by (induction ms arbitrary: h) (auto simp: highestIncarnation_def intro: order_trans[OF less_imp_le])

lemma highestIncarnation_bound:
  "m \<in> set ms \<Longrightarrow> mNodeID m = k \<Longrightarrow> P m \<Longrightarrow> mIncarnation m \<le> highestIncarnation k P ms h"
proof (induction ms arbitrary: h)
  case (Cons x ms)
  let ?h = "if mNodeID x = k \<and> P x \<and> mIncarnation x > h then mIncarnation x else h"
  have fold: "highestIncarnation k P (x # ms) h = highestIncarnation k P ms ?h" by (simp add: highestIncarnation_def)
  show ?case
  proof (cases "m = x")
    case True
    then have "mIncarnation m \<le> ?h" using Cons.prems by auto
    then show ?thesis unfolding fold using highestIncarnation_ge order_trans by blast
  next
    case False
    then show ?thesis unfolding fold using Cons by auto
  qed
qed simp

lemma PrepareJoin_new_generation:
  assumes "PrepareJoinWithFloors load store net snapshot floors self s = (s', Inr m)"
  shows "load s' = Inr (mIncarnation m) \<and> m = self\<lparr>mIncarnation := mIncarnation m, mStatus := Alive\<rparr> \<and>
    mNodeID self \<noteq> 0 \<and> validateAdvertisedEndpoint net self = None \<and> mIncarnation m \<noteq> 0 \<and>
    (\<forall>w. load s = Inr w \<longrightarrow> w < mIncarnation m) \<and>
    (\<forall>p\<in>set snapshot. mNodeID p = mNodeID self \<longrightarrow> mIncarnation p < mIncarnation m) \<and>
    (\<forall>p\<in>set floors. mNodeID p = mNodeID self \<longrightarrow> terminal (mStatus p) \<longrightarrow> mIncarnation p < mIncarnation m)"
proof -
  obtain w where w: "mNodeID self \<noteq> 0" "validateAdvertisedEndpoint net self = None" "load s = Inr w"
    using assms by (auto simp: PrepareJoinWithFloors_def split: if_splits option.splits sum.splits)
  define h1 where "h1 = highestIncarnation (mNodeID self) (\<lambda>_. True) snapshot w"
  define h where "h = highestIncarnation (mNodeID self) (\<lambda>m. mStatus m = Dead \<or> mStatus m = Left) floors h1"
  have h: "h \<noteq> 0" "h \<noteq> MaxUint64" "store (h + 1) s = (s', None)" "m = self\<lparr>mIncarnation := h + 1, mStatus := Alive\<rparr>"
    using assms w unfolding PrepareJoinWithFloors_def Let_def
    by (auto simp: h1_def[symmetric] h_def[symmetric] split: if_splits option.splits prod.splits)
  have lt: "x < h + 1" if "x \<le> h" for x
    using that h(2) unat_Suc_word[of h] by (simp add: word_less_nat_alt word_le_nat_alt)
  have "w \<le> h1" "h1 \<le> h" unfolding h1_def h_def by (rule highestIncarnation_ge)+
  moreover have "mIncarnation p \<le> h1" if "p \<in> set snapshot" "mNodeID p = mNodeID self" for p
    unfolding h1_def using that by (intro highestIncarnation_bound) auto
  moreover have "mIncarnation p \<le> h" if "p \<in> set floors" "mNodeID p = mNodeID self" "terminal (mStatus p)" for p
    unfolding h_def using that by (intro highestIncarnation_bound) (auto simp: terminal_def)
  moreover have "load s' = Inr (h + 1)" using store_loads[OF h(3)] .
  moreover have "h + 1 \<noteq> 0" using lt[of h] by (metis order_refl word_not_simps(1))
  ultimately show ?thesis using w h(4) lt by (auto intro: order_trans)
qed

end

interpretation file_incarnation: durable_incarnation incarnation_load "incarnation_store fault" for fault
proof
  fix v s s' w e
  show "incarnation_load s' = Inr v" if "incarnation_store fault v s = (s', None)"
    using that load_stored[of v] by (auto simp: incarnation_store_def split: sum.splits if_splits option.splits)
  show "w \<le> v" if "incarnation_store fault v s = (s', None)" "incarnation_load s = Inr w"
    using that by (auto simp: incarnation_store_def split: if_splits)
  show "incarnation_load s' = incarnation_load s \<or> incarnation_load s' = Inr v"
    if "incarnation_store fault v s = (s', Some e)"
    using that load_stored[of v] by (auto simp: incarnation_store_def split: sum.splits if_splits option.splits)
qed

section \<open>Admission\<close>

text \<open>An announcement the seed accepts is visible after the seed merges it.\<close>

lemma accepted_announcement_visible:
  assumes "table_ok t" "ValidateJoinAnnouncement net t m = None"
  shows "map_of (tMembers (fst (Merge \<lparr>uMember = m, uReporterID = mNodeID m\<rparr> t))) (mNodeID m) = Some m"
proof -
  let ?u = "\<lparr>uMember = m, uReporterID = mNodeID m\<rparr>"
  have m: "mNodeID m \<noteq> 0" "mStatus m = Alive"
    using assms(2) by (auto simp: ValidateJoinAnnouncement_def split: if_splits)
  show ?thesis
  proof (cases "map_of (tMembers t) (mNodeID m) = Some m")
    case True
    have "Merge ?u t = (t, False, zeroEvent)"
      using table_ok_known[OF assms(1) True] by (intro Merge_rejects) simp
    with True show ?thesis by simp
  next
    case False
    have new: "mIncarnation r < mIncarnation m" if "mergeReference (mNodeID m) t = Some r" for r
    proof (cases "map_of (tMembers t) (mNodeID m)")
      case None
      then show ?thesis using that assms(2) m
        by (auto simp: ValidateJoinAnnouncement_def Table_Get_def IncarnationFloor_def mergeReference_def
            split: if_splits option.splits)
    next
      case (Some c)
      then have "known t (mNodeID m) = Suc (member_version c)" by (rule table_ok_known[OF assms(1)])
      then have "member_version r = member_version c" using mergeReference_rank[of "mNodeID m" t] that by simp
      then show ?thesis using Some False assms(2) m
        by (auto simp: ValidateJoinAnnouncement_def Table_Get_def version_eq_iff split: if_splits option.splits)
    qed
    have val: "status_valid (mStatus m)" using m by (simp add: status_valid_def status_defs)
    from assms(1) show ?thesis
    proof (cases rule: Merge_cases[of _ ?u])
      case rejected
      have "known t (mNodeID m) < Suc (member_version m)"
        using new mergeReference_rank[of "mNodeID m" t]
        by (cases "mergeReference (mNodeID m) t") (auto simp: version_less_iff dest!: sym[of "Suc _"])
      with rejected m val show ?thesis by simp
    next
      case (accepted n)
      have "n = m"
      proof (rule ccontr)
        assume "n \<noteq> m"
        then obtain r where "mergeReference (mNodeID n) t = Some r" "mIncarnation r = mIncarnation n" using accepted(8) by auto
        then show False using new[of r] accepted(1,5) by simp
      qed
      then show ?thesis using accepted(9) by (simp add: put_member_members)
    qed
  qed
qed

end
