(* ===== verification/Swim_Properties.thy ===== *)
theory Swim_Properties
  imports Swim_Probe_Facts Swim_Events Swim_Join
begin

text \<open>
  The guarantees of the SWIM membership protocol: tables converge whatever the order of the updates,
  a member declared terminal never comes back under the same incarnation, every suspicion is resolved,
  every peer is probed, the gossip queue stays within its bounds, a join takes a new durable
  incarnation, and a subscriber misses no event without being told.
\<close>

section \<open>Runs of the queue and of the subscribers\<close>

text \<open>
  The steps of the gossip queue's owner, with at most \<open>N\<close> live members: a round peeks and reserves a
  batch, and each reserved batch is later released or committed.
\<close>

inductive queue_step :: "(Update list \<Rightarrow> 'e + bytes) \<Rightarrow> int \<Rightarrow> Disseminator \<Rightarrow> Disseminator \<Rightarrow> bool" for encode N where
  queue_enqueue: "queue_step encode N d (Enqueue update alive d)"
| queue_round: "Peek maxBytes alive (Some encode) d = (d1, Inr batch) \<Longrightarrow> alive \<le> N \<Longrightarrow> Reserve batch d1 = (d', batch', reserved) \<Longrightarrow>
    queue_step encode N d d'"
| queue_failed_round: "Peek maxBytes alive (Some encode) d = (d', Inl err) \<Longrightarrow> queue_step encode N d d'"
| queue_release: "queue_step encode N d (Release batch d)"
| queue_commit: "dbReserved batch \<Longrightarrow> queue_step encode N d (Disseminator_Commit batch d)"
| queue_repaired: "queue_step encode N d (fst (markDigestRepaired generation d))"

definition queue_bound :: "int \<Rightarrow> int \<Rightarrow> int \<Rightarrow> Disseminator \<Rightarrow> bool" where
  "queue_bound N m r d \<longleftrightarrow> dsMaxItems d = m \<and> dsRetransmitMultiplier d = r \<and> pending_ok (RetransmitBudget r N) d"

lemma admit_policy [simp]:
  "dsMaxItems (admit u n d) = dsMaxItems d" "dsRetransmitMultiplier (admit u n d) = dsRetransmitMultiplier d"
  by (simp_all add: admit_def requireDigest_def Disseminator_takeSequence_def Let_def)

lemma queue_policy [simp]:
  "dsMaxItems (Enqueue u n d) = dsMaxItems d" "dsRetransmitMultiplier (Enqueue u n d) = dsRetransmitMultiplier d"
  "dsMaxItems (Release batch d) = dsMaxItems d" "dsRetransmitMultiplier (Release batch d) = dsRetransmitMultiplier d"
  "dsMaxItems (Disseminator_Commit batch d) = dsMaxItems d"
  "dsRetransmitMultiplier (Disseminator_Commit batch d) = dsRetransmitMultiplier d"
  "dsMaxItems (fst (markDigestRepaired g d)) = dsMaxItems d"
  "dsRetransmitMultiplier (fst (markDigestRepaired g d)) = dsRetransmitMultiplier d"
  "dsMaxItems (fst (Reserve batch d)) = dsMaxItems d" "dsRetransmitMultiplier (fst (Reserve batch d)) = dsRetransmitMultiplier d"
  by (auto simp: Enqueue_def Release_def Disseminator_Commit_def markDigestRepaired_def Reserve_def split: option.split prod.split bool.split)

lemma RetransmitBudget_nonneg: "0 \<le> RetransmitBudget r n"
  by (auto simp: RetransmitBudget_def MaxInt_def Let_def)

lemma repaired_ok: "pending_ok B d \<Longrightarrow> pending_ok B (fst (markDigestRepaired g d))"
  by (simp add: markDigestRepaired_def pending_ok_def)

lemma queue_step_bound:
  assumes "queue_step encode N d d'" "queue_bound N m r d"
  shows "queue_bound N m r d'"
  using assms
proof cases
  case (queue_round maxBytes alive d1 batch batch' reserved)
  let ?B = "RetransmitBudget r N"
  have ok: "pending_ok ?B d" and r: "dsRetransmitMultiplier d = r" "dsMaxItems d = m" using assms(2) by (auto simp: queue_bound_def)
  note peek = Peek_ok[OF ok queue_round(1)]
  have "pending_ok ?B d'"
  proof (cases "dbTokens batch = []")
    case True
    then show ?thesis using queue_round(3) peek(1) by (simp add: Reserve_def)
  next
    case False
    then have "dbBudget batch \<le> ?B" using peek(3)[OF refl] r RetransmitBudget_mono[OF queue_round(2), of r] by auto
    then show ?thesis using Reserve_ok[OF peek(1) _ queue_round(3)] by simp
  qed
  then show ?thesis
    using queue_policy(9,10)[of batch d1] queue_round(3) peek(4,5) r by (simp add: queue_bound_def)
next
  case (queue_failed_round maxBytes alive err)
  then show ?thesis using assms(2) Peek_ok[OF _ queue_failed_round] by (auto simp: queue_bound_def)
qed (auto simp: queue_bound_def RetransmitBudget_nonneg repaired_ok intro!: Enqueue_ok Release_ok Commit_ok)

text \<open>The steps that concern subscribers; each records what it delivers to whom.\<close>

datatype subscriber_step =
    SPublish MembershipEvent | SReceive u64 | SSubscribe int | SUnsubscribe u64 | SResynchronized u64

fun subscriber_run :: "subscriber_step list \<Rightarrow> Subscriptions \<Rightarrow> Subscriptions \<times> (u64 \<times> MembershipEvent) list" where
  "subscriber_run [] s = (s, [])"
| "subscriber_run (SPublish event # steps) s = subscriber_run steps (Publish event s)"
| "subscriber_run (SSubscribe capacity # steps) s = subscriber_run steps (fst (Subscribe capacity s))"
| "subscriber_run (SUnsubscribe i # steps) s = subscriber_run steps (Unsubscribe i s)"
| "subscriber_run (SResynchronized i # steps) s = subscriber_run steps (fst (MarkResynchronized i s))"
| "subscriber_run (SReceive i # steps) s =
     (case map_of (ssSubscribers s) i of
        None \<Rightarrow> subscriber_run steps s
      | Some sub \<Rightarrow>
          (case receiveMembershipEvent sub of
             (sub, None) \<Rightarrow> subscriber_run steps s
           | (sub, Some event) \<Rightarrow>
               let (s, log) = subscriber_run steps (s\<lparr>ssSubscribers := AList.update i sub (ssSubscribers s)\<rparr>)
               in (s, (i, event) # log)))"

fun published :: "subscriber_step list \<Rightarrow> MembershipEvent list" where
  "published [] = []"
| "published (SPublish event # steps) = event # published steps"
| "published (_ # steps) = published steps"

definition received :: "u64 \<Rightarrow> (u64 \<times> MembershipEvent) list \<Rightarrow> MembershipEvent list" where
  "received i log = map snd (filter (\<lambda>(j, _). j = i) log)"

lemma received_simps [simp]:
  "received i [] = []" "received i ((j, e) # log) = (if j = i then e # received i log else received i log)"
  by (simp_all add: received_def)

lemma map_of_offer: "map_of (map (\<lambda>(i, sub). (i, f sub)) xs) k = map_option f (map_of xs k)"
  by (induction xs) auto

lemma subscriber_stream:
  assumes "map_of (ssSubscribers s) i = Some sub" "stream_ok events sub got" "\<not> ssClosed s"
    and "unat i \<le> unat (ssNextID s)" "unat (ssNextID s) + length steps < 2 ^ 64"
    and "\<forall>st\<in>set steps. st \<noteq> SUnsubscribe i \<and> st \<noteq> SResynchronized i"
  shows "\<exists>sub'. map_of (ssSubscribers (fst (subscriber_run steps s))) i = Some sub' \<and>
    stream_ok (events @ published steps) sub' (got @ received i (snd (subscriber_run steps s)))"
  using assms
proof (induction steps arbitrary: s sub events got)
  case (Cons st steps)
  show ?case
  proof (cases st)
    case (SPublish event)
    then show ?thesis
      using Cons.IH[of "Publish event s" "offerMembershipEvent event sub" "events @ [event]" got] Cons.prems
        offer_stream[OF Cons.prems(2), of event]
      by (simp add: Publish_def map_of_offer)
  next
    case (SSubscribe capacity)
    have "unat (ssNextID s) + 1 < 2 ^ 64" using Cons.prems(5) by simp
    then have n: "unat (ssNextID s + 1) = Suc (unat (ssNextID s))" by (intro unat_Suc_word) (auto simp: unat_MaxUint64)
    then have "ssNextID s + 1 \<noteq> i" "ssNextID s + 1 \<noteq> 0" using Cons.prems(4) by auto
    then show ?thesis
      using Cons.IH[of "fst (Subscribe capacity s)" sub events got] Cons.prems SSubscribe n
      by (simp add: Subscribe_def Let_def update_conv')
  next
    case (SUnsubscribe j)
    then show ?thesis
      using Cons.IH[of "Unsubscribe j s" sub events got] Cons.prems
      by (auto simp: Unsubscribe_def delete_conv' split: option.split)
  next
    case (SResynchronized j)
    then show ?thesis
      using Cons.IH[of "fst (MarkResynchronized j s)" sub events got] Cons.prems
      by (auto simp: MarkResynchronized_def update_conv' split: option.split)
  next
    case (SReceive j)
    show ?thesis
    proof (cases "map_of (ssSubscribers s) j")
      case None
      then show ?thesis using Cons SReceive by simp
    next
      case (Some x)
      obtain y r where y: "receiveMembershipEvent x = (y, r)" by fastforce
      show ?thesis
      proof (cases r)
        case None
        then show ?thesis using Cons SReceive Some y by simp
      next
        case event: (Some event)
        let ?s = "s\<lparr>ssSubscribers := AList.update j y (ssSubscribers s)\<rparr>"
        show ?thesis
        proof (cases "j = i")
          case True
          then have "stream_ok events y (got @ [event])"
            using receive_stream[OF Cons.prems(2), of y r] Some y event Cons.prems(1) by simp
          then show ?thesis
            using Cons.IH[of ?s y events "got @ [event]"] Cons.prems Some y event SReceive True
            by (simp add: update_conv' case_prod_beta)
        next
          case False
          then show ?thesis
            using Cons.IH[of ?s sub events got] Cons.prems Some y event SReceive
            by (simp add: update_conv' case_prod_beta)
        qed
      qed
    qed
  qed
qed auto

section \<open>Convergence\<close>

text \<open>
  C18.  Merging a collection of updates into a table gives the same visible members whatever the order
  in which the updates arrive and however often each is repeated, provided that records of the same
  node and incarnation name the same address.
\<close>

theorem membership_convergence:
  assumes "table_ok t" "consistent (uMember ` set us \<union> records t)" "set us = set vs"
  shows "map_of (tMembers (merge_all us t)) = map_of (tMembers (merge_all vs t))"
  by (rule merge_all_order_irrelevant[OF assms])

definition demo_member :: "u16 \<Rightarrow> u64 \<Rightarrow> Status \<Rightarrow> Member" where
  "demo_member k i s = \<lparr>mNodeID = k, mHost = ''h'', mBasePort = 9000, mIncarnation = i, mStatus = s\<rparr>"

definition demo_update :: "u16 \<Rightarrow> u64 \<Rightarrow> Status \<Rightarrow> Update" where
  "demo_update k i s = \<lparr>uMember = demo_member k i s, uReporterID = 1\<rparr>"

theorem membership_convergence_witness:
  "map_of (tMembers (merge_all [demo_update 2 1 Alive, demo_update 2 1 Dead] NewTable)) =
   map_of (tMembers (merge_all [demo_update 2 1 Dead, demo_update 2 1 Alive, demo_update 2 1 Dead] NewTable))"
  by (rule membership_convergence)
    (auto simp: table_ok_def consistent_def records_def NewTable_def demo_update_def demo_member_def)

section \<open>The engine\<close>

definition demo_config :: EngineConfig where
  "demo_config = \<lparr>ecSelfID = 1, ecProbeInterval = 1000, ecDirectProbeTimeout = 300, ecIndirectProbeTimeout = 500,
     ecIndirectChecks = 3, ecSuspicionMultiplier = 4\<rparr>"

definition demo_table :: Table where
  "demo_table = \<lparr>tMembers = [(1, demo_member 1 1 Alive), (2, demo_member 2 1 Alive), (3, demo_member 3 1 Alive)], tFloors = []\<rparr>"

definition demo_engine :: Engine where
  "demo_engine = \<lparr>enConfig = demo_config, enTable = demo_table, enDissemination = NewDisseminator 16 3,
     enSource = sconst 5, enOrder = [], enIndex = 0, enNextSequence = 5, enProbePrefix = 281474976710661, enProbeCount = 5,
     enActiveProbes = [], enRelayProbes = [], enSuspicions = [], enTombstones = []\<rparr>"

lemma demo_new: "NewEngine demo_config demo_table (NewDisseminator 16 3) (sconst 5) = Inr demo_engine"
  by (simp add: NewEngine_def demo_config_def demo_engine_def Let_def)

lemma demo_table_ok:
  "table_ok demo_table" "\<forall>k m. map_of (tMembers demo_table) k = Some m \<longrightarrow> mStatus m = Alive \<and> mIncarnation m \<noteq> 0"
  by (auto simp: table_ok_def demo_table_def demo_member_def status_valid_def status_defs split: if_splits)

text \<open>
  C16.  Once a member of a reachable engine is dead or has left, every record the engine ever shows of it
  again is still terminal or has a greater incarnation, whatever calls come in between, the expiry of
  the tombstone included.
\<close>

theorem no_resurrection:
  assumes "NewEngine config table d source = Inr e0" "table_ok table"
    and "\<forall>k m. map_of (tMembers table) k = Some m \<longrightarrow> mStatus m = Alive \<and> mIncarnation m \<noteq> 0"
    and "engine_run calls e0 = (e1, timers1)" "engine_run later e1 = (e2, timers2)"
    and "Table_Get k (enTable e1) = Some m" "terminal (mStatus m)" "Table_Get k (enTable e2) = Some n"
  shows "mIncarnation m < mIncarnation n \<or> mIncarnation n = mIncarnation m \<and> terminal (mStatus n)"
proof -
  note new = NewEngine_ok[OF assms(1-3)]
  have 1: "engine_ok e1" "timed (set timers1) e1"
    using engine_run_good[OF new(1,2), of calls] assms(4) by auto
  have 2: "engine_ok e2" "table_le (enTable e1) (enTable e2)"
    using engine_run_good[OF 1, of later] assms(5) by auto
  have ok: "table_ok (enTable e1)" "table_ok (enTable e2)" using 1 2 by (auto simp: engine_ok_def)
  have "member_version m \<le> member_version n"
    using 2(2) table_ok_known[OF ok(1), of k m] table_ok_known[OF ok(2), of k n] assms(6,8)
    unfolding table_le_def Table_Get_def by (metis Suc_le_mono)
  then have ver: "mIncarnation m < mIncarnation n \<or> mIncarnation m = mIncarnation n \<and> mStatus m \<le> mStatus n"
    using version_less_iff[of n m] by (simp add: not_less[symmetric]) (metis linorder_neqE)
  have "status_valid (mStatus n)" using ok(2) assms(8) by (auto simp: table_ok_def Table_Get_def)
  then have "mStatus m \<le> mStatus n \<longrightarrow> terminal (mStatus n)"
    by (cases rule: status_cases) (use assms(7) in \<open>auto simp: terminal_def status_defs word_le_nat_alt\<close>)
  with ver show ?thesis by auto
qed

lemma react_table [simp]: "enTable (fst (react u m n now e)) = enTable e"
  by (simp add: react_def Let_def case_prod_beta beginSuspicion_def beginTombstone_def)

lemma ApplyUpdate_table:
  assumes "validUpdate u" "mNodeID (uMember u) \<noteq> ecSelfID (enConfig e)" "table_ok (enTable e)"
  shows "enTable (fst (ApplyUpdate u now e)) = fst (Merge u (enTable e))"
proof -
  have r: "\<not> refutes u e" using assms by (auto simp: refutes_def Table_Get_def table_ok_def split: option.splits)
  obtain t b ev where m: "Merge u (enTable e) = (t, b, ev)" by (cases "Merge u (enTable e)") auto
  show ?thesis
  proof (cases b)
    case True
    then show ?thesis using ApplyUpdate_accept[OF assms(1) r, of t ev now] m by (simp add: Let_def)
  next
    case False
    then show ?thesis
      using assms(1) r m
      by (auto simp: ApplyUpdate_def corroborateSuspicion_def Let_def split: option.split)
  qed
qed

lemma demo_merges:
  "fst (Merge (demo_update 2 1 Dead) demo_table) =
     \<lparr>tMembers = [(1, demo_member 1 1 Alive), (2, demo_member 2 1 Dead), (3, demo_member 3 1 Alive)],
      tFloors = [(2, demo_member 2 1 Dead)]\<rparr>"
  "fst (Merge (demo_update 2 2 Alive)
     \<lparr>tMembers = [(1, demo_member 1 1 Alive), (2, demo_member 2 1 Dead), (3, demo_member 3 1 Alive)],
      tFloors = [(2, demo_member 2 1 Dead)]\<rparr>) =
     \<lparr>tMembers = [(1, demo_member 1 1 Alive), (2, demo_member 2 2 Alive), (3, demo_member 3 1 Alive)],
      tFloors = [(2, demo_member 2 1 Dead)]\<rparr>"
  "fst (Merge (demo_update 2 1 Suspect) demo_table) =
     \<lparr>tMembers = [(1, demo_member 1 1 Alive), (2, demo_member 2 1 Suspect), (3, demo_member 3 1 Alive)], tFloors = []\<rparr>"
  by code_simp+

lemma demo_fields: "engine_ok demo_engine" "enTable demo_engine = demo_table" "ecSelfID (enConfig demo_engine) = 1"
  using NewEngine_ok[OF demo_new demo_table_ok] by (simp_all add: demo_engine_def demo_config_def)

lemma demo_valid: "validUpdate (demo_update 2 1 Dead)" "validUpdate (demo_update 2 1 Suspect)" "validUpdate (demo_update 2 2 Alive)"
    "mNodeID (uMember (demo_update k i s)) = k"
  by (simp_all add: validUpdate_def demo_update_def demo_member_def status_valid_def status_defs)

lemmas demo_step = ApplyUpdate_good[OF demo_fields(1), unfolded good_step_def]

lemma demo_dead:
  "enTable (fst (ApplyUpdate (demo_update 2 1 Dead) 0 demo_engine)) = fst (Merge (demo_update 2 1 Dead) demo_table)"
  using ApplyUpdate_table[of "demo_update 2 1 Dead" demo_engine 0] demo_fields(2,3) demo_valid demo_table_ok(1) by simp

lemma demo_rejoin:
  "enTable (fst (ApplyUpdate (demo_update 2 2 Alive) 5 (fst (ApplyUpdate (demo_update 2 1 Dead) 0 demo_engine)))) =
     fst (Merge (demo_update 2 2 Alive) (fst (Merge (demo_update 2 1 Dead) demo_table)))"
  using ApplyUpdate_table[of "demo_update 2 2 Alive" "fst (ApplyUpdate (demo_update 2 1 Dead) 0 demo_engine)" 5]
    demo_step[of "demo_update 2 1 Dead" 0] demo_fields(3) demo_valid demo_dead by (simp add: engine_ok_def)

lemma demo_suspect:
  "enTable (fst (ApplyUpdate (demo_update 2 1 Suspect) 0 demo_engine)) = fst (Merge (demo_update 2 1 Suspect) demo_table)"
  using ApplyUpdate_table[of "demo_update 2 1 Suspect" demo_engine 0] demo_fields(2,3) demo_valid demo_table_ok(1) by simp

lemma engine_run_update: "fst (engine_run [CallUpdate u now] e) = fst (ApplyUpdate u now e)"
  by (simp add: case_prod_beta)

theorem no_resurrection_witness:
  "mIncarnation (demo_member 2 1 Dead) < mIncarnation (demo_member 2 2 Alive) \<or>
   mIncarnation (demo_member 2 2 Alive) = mIncarnation (demo_member 2 1 Dead) \<and> terminal (mStatus (demo_member 2 2 Alive))"
proof (rule no_resurrection[OF demo_new demo_table_ok surjective_pairing surjective_pairing])
  show "Table_Get 2 (enTable (fst (engine_run [CallUpdate (demo_update 2 1 Dead) 0] demo_engine))) = Some (demo_member 2 1 Dead)"
    unfolding engine_run_update demo_dead demo_merges by (simp add: Table_Get_def)
  show "terminal (mStatus (demo_member 2 1 Dead))" by (simp add: demo_member_def)
  show "Table_Get 2 (enTable (fst (engine_run [CallUpdate (demo_update 2 2 Alive) 5]
      (fst (engine_run [CallUpdate (demo_update 2 1 Dead) 0] demo_engine))))) = Some (demo_member 2 2 Alive)"
    unfolding engine_run_update demo_rejoin demo_merges by (simp add: Table_Get_def)
qed

text \<open>
  C17.  Every suspected member of a reachable engine has a timer request, handed to the caller, whose
  firing at its deadline or later declares exactly that incarnation dead: no suspicion is left
  unresolved, however often its deadline was shortened.
\<close>

theorem suspicion_resolved:
  assumes "NewEngine config table d source = Inr e0" "table_ok table"
    and "\<forall>k m. map_of (tMembers table) k = Some m \<longrightarrow> mStatus m = Alive \<and> mIncarnation m \<noteq> 0"
    and "engine_run calls e0 = (e, timers)" "Table_Get k (enTable e) = Some m" "mStatus m = Suspect"
  shows "\<exists>deadline. suspicionTimer k (mIncarnation m) deadline \<in> set timers \<and>
    (\<forall>now\<ge>deadline. \<exists>n. Table_Get k (enTable (fst (HandleSuspicionTimeout k (mIncarnation m) now e))) = Some n \<and>
       mStatus n = Dead \<and> mIncarnation n = mIncarnation m)"
proof -
  note new = NewEngine_ok[OF assms(1-3)]
  have e: "engine_ok e" "timed (set timers) e"
    using engine_run_good[OF new(1,2), of calls] assms(4) by auto
  obtain s where s: "map_of (enSuspicions e) k = Some s" "sxIncarnation s = mIncarnation m"
    using engine_tracks(1)[OF e(1), of k] assms(5,6) by (auto simp: track_suspicion_def Table_Get_def split: option.splits)
  have "suspicionTimer k (mIncarnation m) (sxDeadline s) \<in> set timers"
    using e(2) s unfolding timed_def by metis
  moreover have "\<forall>now\<ge>sxDeadline s. \<exists>n. Table_Get k (enTable (fst (HandleSuspicionTimeout k (mIncarnation m) now e))) = Some n \<and>
       mStatus n = Dead \<and> mIncarnation n = mIncarnation m"
    using HandleSuspicionTimeout_good(2)[OF e(1) s] by blast
  ultimately show ?thesis by blast
qed

theorem suspicion_resolved_witness:
  "\<exists>deadline n. suspicionTimer 2 1 deadline \<in> set (snd (engine_run [CallUpdate (demo_update 2 1 Suspect) 0] demo_engine)) \<and>
     Table_Get 2 (enTable (fst (HandleSuspicionTimeout 2 1 deadline
       (fst (engine_run [CallUpdate (demo_update 2 1 Suspect) 0] demo_engine))))) = Some n \<and> mStatus n = Dead \<and> mIncarnation n = 1"
proof -
  let ?e = "fst (engine_run [CallUpdate (demo_update 2 1 Suspect) 0] demo_engine)"
  have "Table_Get 2 (enTable ?e) = Some (demo_member 2 1 Suspect)"
    unfolding engine_run_update demo_suspect demo_merges by (simp add: Table_Get_def)
  from suspicion_resolved[OF demo_new demo_table_ok surjective_pairing this]
  show ?thesis by (simp add: demo_member_def) blast
qed

text \<open>
  C28.  While the membership does not change, the probes of one cycle ping every live peer exactly once:
  from the start of a cycle, as many probes as there are live peers reach each of them, and the next
  probe starts a new cycle.
\<close>

theorem probe_cycle_complete:
  assumes "table_ok (enTable e)" "length (enOrder e) \<le> enIndex e" "nows \<noteq> []"
    and "length nows = length (filter (\<lambda>m. mNodeID m \<noteq> ecSelfID (enConfig e) \<and> mStatus m = Alive) (Table_Snapshot (enTable e)))"
  shows "mset (snd (probe_rounds nows e)) =
      mset (filter (\<lambda>m. mNodeID m \<noteq> ecSelfID (enConfig e) \<and> mStatus m = Alive) (Table_Snapshot (enTable e))) \<and>
    enIndex (fst (probe_rounds nows e)) = length (enOrder (fst (probe_rounds nows e)))"
  using probe_cycle[of e nows] assms by (simp add: eligible_def[abs_def])

theorem probe_cycle_complete_witness:
  "mset (snd (probe_rounds [0, 1000] demo_engine)) = {#demo_member 2 1 Alive, demo_member 3 1 Alive#}"
proof -
  have f: "filter (\<lambda>m. mNodeID m \<noteq> ecSelfID (enConfig demo_engine) \<and> mStatus m = Alive) (Table_Snapshot (enTable demo_engine)) =
      [demo_member 2 1 Alive, demo_member 3 1 Alive]"
    by (simp add: Table_Snapshot_def demo_engine_def demo_table_def demo_config_def demo_member_def)
  show ?thesis
    using probe_cycle_complete[of demo_engine "[0, 1000]", unfolded f] demo_table_ok(1) by (simp add: demo_engine_def)
qed

section \<open>Gossip\<close>

text \<open>
  C31.  Whatever its owner does, the gossip queue holds at most its maximum of updates, no update is
  delivered and in flight more often than the retransmission budget of the largest cluster seen allows,
  and a batch that was just peeked can always be reserved.
\<close>

theorem dissemination_bounded:
  assumes "(queue_step encode N)\<^sup>*\<^sup>* (NewDisseminator maxItems multiplier) d"
  shows "int (length (dsItems d)) \<le> max 0 maxItems \<and>
    (\<forall>k item. map_of (dsItems d) k = Some item \<longrightarrow> 0 \<le> diTransmissions item \<and> 0 \<le> diInFlight item \<and>
       diTransmissions item + diInFlight item \<le> RetransmitBudget multiplier N) \<and>
    (\<forall>maxBytes alive d1 batch. Peek maxBytes alive (Some encode) d = (d1, Inr batch) \<longrightarrow> snd (snd (Reserve batch d1)))"
proof -
  have "queue_bound N maxItems multiplier d"
    using assms
  proof (induction rule: rtranclp_induct)
    case base
    show ?case using NewDisseminator_ok[OF RetransmitBudget_nonneg] by (simp add: queue_bound_def NewDisseminator_def)
  next
    case (step y z)
    then show ?case using queue_step_bound by blast
  qed
  then have ok: "pending_ok (RetransmitBudget multiplier N) d" and m: "dsMaxItems d = maxItems" by (auto simp: queue_bound_def)
  have "snd (snd (Reserve batch d1))" if "Peek maxBytes alive (Some encode) d = (d1, Inr batch)" for maxBytes alive d1 batch
    using Reserve_fresh[OF Peek_ok(2)[OF ok that refl]] by auto
  with ok m show ?thesis by (auto simp: pending_ok_def items_ok_def item_ok_def)
qed

theorem dissemination_bounded_witness:
  "\<exists>item. map_of (dsItems (Enqueue (demo_update 2 1 Dead) 3 (NewDisseminator 4 3))) 2 = Some item \<and>
     0 \<le> diTransmissions item \<and> 0 \<le> diInFlight item \<and> diTransmissions item + diInFlight item \<le> RetransmitBudget 3 3 \<and>
     int (length (dsItems (Enqueue (demo_update 2 1 Dead) 3 (NewDisseminator 4 3)))) \<le> max 0 4"
proof -
  let ?d = "Enqueue (demo_update 2 1 Dead) 3 (NewDisseminator 4 3)"
  have run: "(queue_step (\<lambda>us. Inr (replicate (length us) 0) :: unit + bytes) 3)\<^sup>*\<^sup>* (NewDisseminator 4 3) ?d"
    by (rule r_into_rtranclp, rule queue_enqueue)
  have "map_of (dsItems ?d) 2 = Some \<lparr>diUpdate = demo_update 2 1 Dead, diSequence = 1, diTransmissions = 0, diInFlight = 0\<rparr>"
    by code_simp
  then show ?thesis using dissemination_bounded[OF run] by blast
qed

section \<open>Joining\<close>

text \<open>
  C29.  A node that prepares its join from a seed's snapshot and floors stores a new incarnation
  durably, above everything it stored before.  The seed then refuses the announcement as a duplicate if
  it still shows the node as alive or suspected, and accepts it if it shows the node as gone or not at all;
  merging an accepted announcement makes exactly that record visible.
\<close>

theorem join_admitted:
  assumes "table_ok t"
    and "PrepareJoinWithFloors incarnation_load (incarnation_store fault) net (Table_Snapshot t) (IncarnationFloors t) self file = (file', Inr m)"
  shows "incarnation_load file' = Inr (mIncarnation m) \<and> (\<forall>w. incarnation_load file = Inr w \<longrightarrow> w < mIncarnation m) \<and>
    ValidateJoinAnnouncement net t m =
      (case Table_Get (mNodeID self) t of
         Some c \<Rightarrow> if mStatus c = Alive \<or> mStatus c = Suspect then Some ErrDuplicateNodeID else None
       | None \<Rightarrow> None) \<and>
    (ValidateJoinAnnouncement net t m = None \<longrightarrow>
      Table_Get (mNodeID self) (fst (Merge \<lparr>uMember = m, uReporterID = mNodeID m\<rparr> t)) = Some m)"
proof -
  note new = file_incarnation.PrepareJoin_new_generation[OF assms(2)]
  have m: "m = self\<lparr>mIncarnation := mIncarnation m, mStatus := Alive\<rparr>" using new by blast
  have id: "mNodeID m = mNodeID self" "mStatus m = Alive" "mHost m = mHost self" "mBasePort m = mBasePort self"
    by (subst m, simp)+
  have shown: "mIncarnation c < mIncarnation m" if "map_of (tMembers t) (mNodeID self) = Some c" for c
  proof -
    have "c \<in> set (Table_Snapshot t)" using map_of_SomeD[OF that] by (force simp: Table_Snapshot_def)
    moreover have "mNodeID c = mNodeID self" using assms(1) that by (auto simp: table_ok_def)
    ultimately show ?thesis using new by blast
  qed
  have hidden: "mIncarnation f < mIncarnation m"
    if "map_of (tMembers t) (mNodeID self) = None" "map_of (tFloors t) (mNodeID self) = Some f" for f
  proof -
    have "f \<in> set (IncarnationFloors t)" using map_of_SomeD[OF that(2)] that(1) by (force simp: IncarnationFloors_def)
    moreover have "mNodeID f = mNodeID self" "terminal (mStatus f)" using assms(1) that(2) by (auto simp: table_ok_def)
    ultimately show ?thesis using new by blast
  qed
  have "validateAdvertisedEndpoint net m = None"
    using new id by (simp add: validateAdvertisedEndpoint_def)
  note endpoint = this
  have "ValidateJoinAnnouncement net t m =
      (case Table_Get (mNodeID self) t of
         Some c \<Rightarrow> if mStatus c = Alive \<or> mStatus c = Suspect then Some ErrDuplicateNodeID else None | None \<Rightarrow> None)"
  proof (cases "map_of (tMembers t) (mNodeID self)")
    case None
    then show ?thesis
      using endpoint new id hidden[OF None]
      by (cases "map_of (tFloors t) (mNodeID self)")
        (simp_all add: ValidateJoinAnnouncement_def Table_Get_def IncarnationFloor_def not_le)
  next
    case (Some c)
    have differs: "c \<noteq> m" and newer: "\<not> mIncarnation m \<le> mIncarnation c" using shown[OF Some] by auto
    have "status_valid (mStatus c)" using assms(1) Some by (simp add: table_ok_def)
    then show ?thesis
      by (cases rule: status_cases)
        (use Some new differs newer in \<open>auto simp: ValidateJoinAnnouncement_def Table_Get_def endpoint id terminal_def status_defs\<close>)
  qed
  then show ?thesis
    using new accepted_announcement_visible[OF assms(1), of net m] id by (simp add: Table_Get_def)
qed

definition demo_net :: NetLibrary where
  "demo_net = \<lparr>nlParseIP = (\<lambda>_. None), nlParseAddr = (\<lambda>_. None)\<rparr>"

definition demo_gone :: Table where
  "demo_gone = \<lparr>tMembers = [(1, demo_member 1 1 Alive), (2, demo_member 2 4 Dead)], tFloors = [(2, demo_member 2 4 Dead)]\<rparr>"

lemma demo_files:
  "incarnation_load (File True True [50, 10]) = Inr 2"
  "incarnation_store None 5 (File True True [50, 10]) = (File True True [53, 10], None)"
proof -
  have f: "FormatUint 2 = [50]" "FormatUint 5 = [53]" by (simp_all add: FormatUint_def decimal_digits.simps)
  show l: "incarnation_load (File True True [50, 10]) = Inr 2" using load_stored[of 2] f by (simp add: newline_def)
  show "incarnation_store None 5 (File True True [50, 10]) = (File True True [53, 10], None)"
    by (simp add: incarnation_store_def l f newline_def)
qed

lemma demo_highest:
  "validateAdvertisedEndpoint demo_net (demo_member 2 0 Alive) = None"
  "highestIncarnation 2 (\<lambda>_. True) (Table_Snapshot demo_gone) 2 = 4"
  "highestIncarnation 2 (\<lambda>m. mStatus m = Dead \<or> mStatus m = Left) (IncarnationFloors demo_gone) 4 = 4"
  by code_simp+

lemma demo_prepare:
  "PrepareJoinWithFloors incarnation_load (incarnation_store None) demo_net (Table_Snapshot demo_gone) (IncarnationFloors demo_gone)
     (demo_member 2 0 Alive) (File True True [50, 10]) = (File True True [53, 10], Inr (demo_member 2 5 Alive))"
proof -
  have id: "mNodeID (demo_member 2 0 Alive) = 2" by (simp add: demo_member_def)
  show ?thesis
    unfolding PrepareJoinWithFloors_def demo_highest(1) demo_files(1) id
    by (simp add: demo_highest demo_files Let_def) (simp add: demo_member_def)
qed

theorem join_admitted_witness:
  "incarnation_load (File True True [53, 10]) = Inr (mIncarnation (demo_member 2 5 Alive)) \<and>
   2 < mIncarnation (demo_member 2 5 Alive) \<and>
   ValidateJoinAnnouncement demo_net demo_gone (demo_member 2 5 Alive) = None \<and>
   Table_Get (mNodeID (demo_member 2 0 Alive))
     (fst (Merge \<lparr>uMember = demo_member 2 5 Alive, uReporterID = mNodeID (demo_member 2 5 Alive)\<rparr> demo_gone)) =
     Some (demo_member 2 5 Alive)"
proof -
  have "table_ok demo_gone"
    by (auto simp: table_ok_def demo_gone_def demo_member_def status_valid_def status_defs terminal_def split: if_splits)
  note admitted = join_admitted[OF this demo_prepare]
  moreover have "Table_Get (mNodeID (demo_member 2 0 Alive)) demo_gone = Some (demo_member 2 4 Dead)"
    by (simp add: Table_Get_def demo_gone_def demo_member_def)
  moreover have "mStatus (demo_member 2 4 Dead) \<noteq> Alive" "mStatus (demo_member 2 4 Dead) \<noteq> Suspect"
    by (simp_all add: demo_member_def status_defs)
  ultimately show ?thesis using demo_files(1) by simp
qed

section \<open>Subscriptions\<close>

text \<open>
  C30.  From its subscription on, and whatever other subscribers do, a subscriber has received and
  still holds every published event in order; once its channel overflows it has a prefix of them
  followed by the resynchronization marker and nothing else, until it says that it has
  resynchronized.  Its channel never exceeds its capacity.
\<close>

theorem subscription_no_silent_gap:
  assumes "Subscribe capacity s0 = (s, i)" "\<not> ssClosed s0" "unat i + length steps < 2 ^ 64"
    and "\<forall>st\<in>set steps. st \<noteq> SUnsubscribe i \<and> st \<noteq> SResynchronized i" "subscriber_run steps s = (s', log)"
  shows "\<exists>sub. map_of (ssSubscribers s') i = Some sub \<and> length (sbEvents sub) \<le> sbCapacity sub \<and>
    (if sbResynchronization sub
     then \<exists>j. received i log @ sbEvents sub = take j (published steps) @ [resyncEvent] \<and> j < length (published steps)
     else received i log @ sbEvents sub = published steps)"
proof -
  let ?sub = "\<lparr>sbEvents = [], sbCapacity = nat (if capacity < 1 then 1 else capacity), sbResynchronization = False\<rparr>"
  have "map_of (ssSubscribers s) i = Some ?sub" "\<not> ssClosed s" "ssNextID s = i"
    using assms(1,2) by (auto simp: Subscribe_def Let_def update_conv' split: if_splits)
  moreover have "stream_ok [] ?sub []" by (simp add: stream_ok_def)
  ultimately show ?thesis
    using subscriber_stream[of s i ?sub "[]" "[]" steps] assms(3-5) by (fastforce simp: stream_ok_def)
qed

theorem subscription_no_silent_gap_witness:
  "\<exists>sub. map_of (ssSubscribers (fst (subscriber_run [SPublish zeroEvent, SSubscribe 2, SReceive 1] (fst (Subscribe 1 NewSubscriptions))))) 1 = Some sub \<and>
    length (sbEvents sub) \<le> sbCapacity sub \<and>
    (if sbResynchronization sub
     then \<exists>j. received 1 [(1, zeroEvent)] @ sbEvents sub = take j [zeroEvent] @ [resyncEvent] \<and> j < length [zeroEvent]
     else received 1 [(1, zeroEvent)] @ sbEvents sub = [zeroEvent])"
  using subscription_no_silent_gap[of 1 NewSubscriptions "fst (Subscribe 1 NewSubscriptions)" 1 "[SPublish zeroEvent, SSubscribe 2, SReceive 1]"]
  by (simp add: Subscribe_def NewSubscriptions_def Publish_def offerMembershipEvent_def receiveMembershipEvent_def Let_def)

end
