(* ===== verification/Spec2Isabelle.thy ===== *)
theory Spec2Isabelle
  imports Bounded_Random Raft_Voters Raft_Messages Raft_Log_Facts Raft_Codec_Facts Raft_Store_Properties
    Raft_Core_Properties Raft_Node_Run Raft_Transport_Properties Raft_Election_Properties Wire_Properties Swim_Properties
begin

text \<open>
  \<^bold>\<open>Crane: a verification development.\<close>

  Crane is a stream processor that runs on a small cluster.  Its nodes agree on the cluster's state with Raft
  (\<open>internal/raft\<close>), find out which nodes are up with SWIM (\<open>internal/swim\<close>), and talk to each other in
  authenticated frames (\<open>internal/wire\<close>).  This development models these three packages, the bounded sampling
  both protocols draw from (\<open>internal/random\<close>) and the endpoint derivation they advertise with (\<open>internal/config\<close>).

  \<^bold>\<open>How the parts interact.\<close>
  A Raft \<^emph>\<open>core\<close> is a deterministic machine: calls change it and queue an output batch.  Its owner, the
  \<^emph>\<open>node\<close>, takes the batch, checks it, persists it in a \<^emph>\<open>store\<close>, applies committed entries, hands the
  messages to the queue of each peer and tells the core to advance.  A SWIM \<^emph>\<open>engine\<close> is a machine of the same
  kind: calls change its membership table, its gossip queue, its probes and its suspicions, and return
  effects, which are messages to send and timers to arm.  Messages travel as \<^emph>\<open>frames\<close>; a receiver checks
  the authentication code and, for requests, a \<^emph>\<open>replay guard\<close>.

  \<^bold>\<open>Conventions.\<close>
  A Go struct is a record, a fixed-width integer a word, a slice a list, a map a partial function or an association
  list with distinct keys, a pointer that may be nil an option.  A method is a function that returns the receiver
  it leaves behind, also next to an error; errors are the sentinels that \<open>errors.Is\<close> sees.  A method that holds a
  mutex for its whole body is one step.  The random source is the stream of its future samples.  The clock reading
  of a call is an argument.  A call that panics or never returns is the value \<open>None\<close>.

  \<^bold>\<open>Shared theories.\<close>
  \<^item> \<open>Crane_Prelude\<close>: machine integers, big-endian bytes, the type \<open>outcome\<close> of methods, and the locales
    \<open>step_preorder\<close> (a relation every step respects, hence every run) and \<open>guarded_system\<close> (that relation under an
    invariant).  The log, the core, the durable state and the membership table interpret them.
  \<^item> \<open>Go_Library\<close>: instants, durations, and the binary heap of \<open>container/heap\<close>.
  \<^item> \<open>Sha256\<close>: executable SHA-256 and HMAC-SHA256, used by the frames.  The Raft theories take SHA-256 as a
    parameter, and need nothing of it.
  \<^item> \<open>Bounded_Random\<close> (\<open>internal/random/bounded.go\<close>): \<open>Uint64n\<close>; its result is in range, it returns once an
    acceptable sample comes, and every value is produced by the same number of samples.

  \<^bold>\<open>Raft.\<close>
  \<^item> \<open>Raft_Types\<close>, \<open>Raft_Voters\<close>, \<open>Raft_Messages\<close> (\<open>types.go\<close>, \<open>errors.go\<close>, \<open>voters.go\<close>, \<open>messages.go\<close>,
    \<open>progress.go\<close>): data, the fixed voter set, the peer messages.  A voter set does not depend on the configured
    order, and two majorities meet (locale \<open>quorum_system\<close>).
  \<^item> \<open>Raft_Log\<close>, \<open>Raft_Log_Facts\<close> (\<open>log.go\<close>): every method of the log.  Its invariant, stability of
    the committed prefix, and the equivalence of \<open>Append\<close> with a reference merge.
  \<^item> \<open>Raft_Snapshot\<close> (\<open>snapshot.go\<close>) and \<open>Raft_Codec\<close>, \<open>Raft_Codec_Facts\<close> (\<open>codec.go\<close>): the snapshot envelope and
    the peer codec.  Both round trips hold in both directions, so encodings are canonical; each field of
    the codec is an interpretation of the locale \<open>field_codec\<close>.
  \<^item> \<open>Raft_Storage\<close>, \<open>Raft_MemoryStore\<close>, \<open>Raft_Storage_Facts\<close>, \<open>Raft_Store_Properties\<close> (\<open>storage.go\<close>,
    \<open>memory_storage.go\<close>): the durable state, its batches, compaction, snapshot installation and staging, with
    injected faults.  Validity, monotonicity, atomicity of failures, the fate of committed entries,
    agreement with the log, and completion of an in-order snapshot transfer.  One batch may rewrite
    committed entries: one that moves the snapshot base and replaces everything after it.
  \<^item> \<open>Raft_Core\<close>, \<open>Raft_Handlers\<close> (\<open>core.go\<close>, \<open>ready.go\<close>): the state of the core, its helpers, and every
    operation and message handler.  \<open>Raft_Core_Facts\<close>, \<open>Raft_Core_Inv\<close>, \<open>Raft_Core_Steps\<close>, \<open>Raft_Core_Runs\<close>,
    \<open>Raft_Core_Ops\<close> and \<open>Raft_Core_Properties\<close> show that every call keeps the invariant, moves term, vote and commit index
    forward only, and returns as long as the source yields a sample; and the exact voting and commit rules.
  \<^item> \<open>Raft_Node\<close>, \<open>Raft_Node_Loop\<close>, \<open>Raft_Node_Run\<close> (\<open>node.go\<close>, \<open>node_durability.go\<close>, \<open>leadership.go\<close>): the owner.
    The store, application, transport and transfer identities are records of operations over a state of
    their own.  These theories are definitions only, but for the steps that the cluster uses.
  \<^item> \<open>Raft_Cluster\<close>, \<open>Raft_Election\<close>, \<open>Raft_Election_Properties\<close>: replicas that take the owner's steps with the core's
    own handlers and persist through the batch application of the store, crash between any two steps and recover from disk, over a network that loses,
    delays, reorders and duplicates.  A voter grants one vote per term, and a term has one leader.
  \<^item> \<open>Raft_Transport\<close>, \<open>Raft_Transport_Properties\<close> (\<open>transport.go\<close>): the peer queue under any
    interleaving of producers and consumer: order, loss only by supersession, no lost wakeup.

  \<^bold>\<open>Wire.\<close>
  \<^item> \<open>Wire_Frame\<close> (\<open>types.go\<close>, \<open>frame.go\<close>, \<open>auth.go\<close>): encoding and decoding of frames; the locale
    \<open>authenticator\<close> is interpreted by HMAC-SHA256.  A frame has exactly one encoding.
  \<^item> \<open>Wire_Stream\<close> (\<open>stream.go\<close>): frames on a connection with short and failing writes.  A reader obtains a prefix.
  \<^item> \<open>Wire_Replay\<close> (\<open>replay.go\<close>): both caches with their heaps.  A request is accepted once per window, and
    each cache stays within its capacity and is reported full only when it is in use.
  \<^item> \<open>Wire_Properties\<close> states these properties.

  \<^bold>\<open>SWIM.\<close>
  \<^item> \<open>Config_Endpoint\<close> (\<open>service.go\<close>, \<open>endpoint.go\<close>, \<open>config.go\<close> of \<open>internal/config\<close>): service ports and endpoints, over
    parameters for the address parsers of \<open>net\<close> and \<open>netip\<close>.
  \<^item> \<open>Swim_Types\<close>, \<open>Swim_Table\<close> (\<open>member.go\<close>, \<open>messages.go\<close>, \<open>table.go\<close>): merging and floors.  Merging converges
    whatever the order, provided that records of one node and incarnation name one address.
  \<^item> \<open>Swim_Dissemination\<close> (\<open>dissemination.go\<close>) and \<open>Swim_Events\<close> (\<open>events.go\<close>): the gossip queue and its bounds, and
    subscriptions without a silent gap.
  \<^item> \<open>Swim_Join\<close> (\<open>incarnation.go\<close>, \<open>join.go\<close>): the incarnation file, with a fault at any step (locale
    \<open>durable_incarnation\<close>), and admission: refused while the seed shows the node as alive or suspected, granted otherwise.
  \<^item> \<open>Swim_Engine\<close>, \<open>Swim_Engine_Facts\<close>, \<open>Swim_Probe_Facts\<close> (\<open>engine.go\<close>, \<open>probe.go\<close>, \<open>suspicion.go\<close>): the failure
    detector.  No member returns under an incarnation declared dead, every suspicion has a timer that
    resolves it, and a probe cycle pings every live peer once.
  \<^item> \<open>Swim_Properties\<close> states these properties.

  \<^bold>\<open>Loops and bounds.\<close>
  No definition uses fuel.  Loops that end are structural recursion or have a termination proof by a
  measure (heap sifting, purging and eviction, the scans of the core and of the probe order, repeated writes).  Two loops of the code may not end and are
  \<open>partial_function (option)\<close>: the rejection loop of \<open>Uint64n\<close>, shown to return from the first acceptable
  sample, and \<open>drainReady\<close> of the node, for which no termination is claimed.  The shuffle of probe targets draws its indices from the
  sample stream, where every index is possible; how the library's shuffle derives an index from raw samples is not modelled.

  \<^bold>\<open>Not modelled.\<close>
  The write-ahead log and TCP sessions of Raft, the datagram service and scheduler of SWIM, gob payloads, clocks and process
  supervision are goroutines and system calls around the modelled machines.  The stream
  processor itself (\<open>internal/crane\<close>), the loading of configuration files and the command-line
  programs are outside the scope.  Liveness of elections is not claimed: the code relies on timing for it.
\<close>

end
